(* ===== verification/Prelude.thy ===== *)
theory Prelude
  imports Main "HOL-Library.AList" "HOL-Library.Word" "HOL-Library.Char_ord"
    "HOL-Library.List_Lexorder" "HOL-Library.Sublist"
begin

text \<open>
  What every component of the development shares: Go's integers, maps and strings as the
  sources use them, and the reachability argument the stateful components are proved with.

  \<^item> Integers. A Go \<^verbatim>\<open>int\<close> or \<^verbatim>\<open>int64\<close> is an \<^typ>\<open>int\<close>; an operation whose result can leave the
    64-bit range is wrapped by \<open>i64\<close> (\<open>i32\<close> for a conversion to \<^verbatim>\<open>int32\<close>), and \<open>go_div\<close> is Go's
    division, which truncates towards zero.
  \<^item> Maps. A Go map (and a \<^verbatim>\<open>sync.Map\<close>) is an association list with distinct keys, read with
    \<^const>\<open>map_of\<close> and written with \<^const>\<open>AList.update\<close> and \<^const>\<open>AList.delete\<close>. Go leaves the order in which
    a map is iterated open; the model iterates in list order, and a theorem that holds for every
    list with distinct keys holds for every iteration order.
  \<^item> Strings. A Go string is its list of bytes.
\<close>

named_theorems go_map_simps \<open>reading a Go map after it was written\<close>
named_theorems go_str_defs \<open>definitions of the string helpers, for evaluation\<close>

section \<open>Integers\<close>

definition i64 :: "int \<Rightarrow> int" where
  "i64 x = signed_take_bit 63 x"

definition i32 :: "int \<Rightarrow> int" where
  "i32 x = signed_take_bit 31 x"

definition int64_range :: "int \<Rightarrow> bool" where
  "int64_range x \<longleftrightarrow> - (2 ^ 63) \<le> x \<and> x < 2 ^ 63"

lemma i64_id [simp]: "int64_range x \<Longrightarrow> i64 x = x"
  by (simp add: i64_def int64_range_def signed_take_bit_int_eq_self)

lemma i64_range [simp]: "int64_range (i64 x)"
  unfolding i64_def int64_range_def
  using signed_take_bit_int_greater_eq_minus_exp [of 63 x] signed_take_bit_int_less_exp [of 63 x]
  by simp

lemma i32_id: "- (2 ^ 31) \<le> x \<Longrightarrow> x < 2 ^ 31 \<Longrightarrow> i32 x = x"
  by (simp add: i32_def signed_take_bit_int_eq_self)

definition go_div :: "int \<Rightarrow> int \<Rightarrow> int" where
  "go_div a b = sgn a * sgn b * (\<bar>a\<bar> div \<bar>b\<bar>)"

lemma go_div_nonneg: "0 \<le> a \<Longrightarrow> 0 < b \<Longrightarrow> go_div a b = a div b"
  by (cases "a = 0") (auto simp: go_div_def)

lemma go_div_pos_iff: "0 < b \<Longrightarrow> 0 < go_div a b \<longleftrightarrow> b \<le> a"
  by (cases "a < 0")
     (auto simp: go_div_nonneg go_div_def sgn_if pos_imp_zdiv_pos_iff not_less
        mult_le_0_iff pos_imp_zdiv_nonneg_iff)

section \<open>Maps\<close>

type_synonym ('k, 'v) gomap = "('k \<times> 'v) list"

abbreviation keys_distinct :: "('k, 'v) gomap \<Rightarrow> bool" where
  "keys_distinct m \<equiv> distinct (map fst m)"

text \<open>A read of a missing key gives the zero value of the element type.\<close>

definition mget :: "'v \<Rightarrow> ('k, 'v) gomap \<Rightarrow> 'k \<Rightarrow> 'v" where
  "mget z m k = (case map_of m k of None \<Rightarrow> z | Some v \<Rightarrow> v)"

lemma map_of_update_eq [go_map_simps, simp]:
  "map_of (AList.update k v m) k' = (if k' = k then Some v else map_of m k')"
  by (simp add: update_conv')

lemma map_of_delete_eq [go_map_simps, simp]:
  "map_of (AList.delete k m) k' = (if k' = k then None else map_of m k')"
  by (simp add: delete_conv')

lemma keys_distinct_update [simp]: "keys_distinct m \<Longrightarrow> keys_distinct (AList.update k v m)"
  by (rule distinct_update)

lemma keys_distinct_delete [simp]: "keys_distinct m \<Longrightarrow> keys_distinct (AList.delete k m)"
  by (rule distinct_delete)

lemma mget_update [simp]: "mget z (AList.update k v m) k' = (if k' = k then v else mget z m k')"
  by (simp add: mget_def)

lemma mget_delete [simp]: "mget z (AList.delete k m) k' = (if k' = k then z else mget z m k')"
  by (simp add: mget_def)

lemma map_of_in_set_iff: "keys_distinct m \<Longrightarrow> map_of m k = Some v \<longleftrightarrow> (k, v) \<in> set m"
  by (rule map_of_eq_Some_iff)

lemma map_of_filter_key:
  "keys_distinct m \<Longrightarrow>
     map_of (filter P m) k = (case map_of m k of None \<Rightarrow> None | Some v \<Rightarrow> if P (k, v) then Some v else None)"
  by (induction m) (force split: option.splits simp: map_of_eq_None_iff rev_image_eqI)+

lemma map_of_map_value: "map_of (map (\<lambda>(k, v). (k, f k v)) m) k = map_option (f k) (map_of m k)"
  by (induction m) auto

lemma delete_update_absent: "map_of m k = None \<Longrightarrow> AList.delete k (AList.update k v m) = m"
  by (induction m) (auto simp: map_of_eq_None_iff split: if_splits)

lemma update_same: "map_of m k = Some v \<Longrightarrow> AList.update k v m = m"
  by (induction m) (auto split: if_splits)

lemma update_update_same [simp]: "AList.update k v (AList.update k w m) = AList.update k v m"
  by (induction m) auto

lemma in_set_update: "(x, y) \<in> set (AList.update k v m) \<Longrightarrow> (x = k \<and> y = v) \<or> (x, y) \<in> set m"
  by (induction m) (auto split: if_splits)

section \<open>Reachable states and invariants\<close>

text \<open>
  A stateful component is a set of start states and a step relation labelled by its operations.
  The client of the contract below names an invariant that holds at the start and is kept by every
  operation; it gets the invariant in every state the component can be brought to.
\<close>

inductive reachable :: "('s \<Rightarrow> bool) \<Rightarrow> ('s \<Rightarrow> 'e \<Rightarrow> 's \<Rightarrow> bool) \<Rightarrow> 's \<Rightarrow> bool"
  for start :: "'s \<Rightarrow> bool" and step :: "'s \<Rightarrow> 'e \<Rightarrow> 's \<Rightarrow> bool" where
  reach_start: "start s \<Longrightarrow> reachable start step s"
| reach_step: "reachable start step s \<Longrightarrow> step s e s' \<Longrightarrow> reachable start step s'"

locale component =
  fixes start :: "'s \<Rightarrow> bool"
    and step :: "'s \<Rightarrow> 'e \<Rightarrow> 's \<Rightarrow> bool"
    and inv :: "'s \<Rightarrow> bool"
  assumes start_inv: "start s \<Longrightarrow> inv s"
    and step_inv: "inv s \<Longrightarrow> step s e s' \<Longrightarrow> inv s'"
begin

lemma reachable_inv: "reachable start step s \<Longrightarrow> inv s"
proof (induction rule: reachable.induct)
  case (reach_start s)
  then show ?case by (rule start_inv)
next
  case (reach_step s e s')
  show ?case using reach_step.IH reach_step.hyps(2) by (rule step_inv)
qed

end

section \<open>Strings\<close>

text \<open>
  \<^verbatim>\<open>strings.TrimSpace\<close> removes the characters \<^verbatim>\<open>unicode.IsSpace\<close> accepts; each is listed by its UTF-8
  bytes.
\<close>

definition go_spaces :: "string list" where
  [go_str_defs]: "go_spaces =
    [[CHR 0x09], [CHR 0x0A], [CHR 0x0B], [CHR 0x0C], [CHR 0x0D], [CHR 0x20],
     [CHR 0xC2, CHR 0x85], [CHR 0xC2, CHR 0xA0], [CHR 0xE1, CHR 0x9A, CHR 0x80],
     [CHR 0xE2, CHR 0x80, CHR 0x80], [CHR 0xE2, CHR 0x80, CHR 0x81], [CHR 0xE2, CHR 0x80, CHR 0x82],
     [CHR 0xE2, CHR 0x80, CHR 0x83], [CHR 0xE2, CHR 0x80, CHR 0x84], [CHR 0xE2, CHR 0x80, CHR 0x85],
     [CHR 0xE2, CHR 0x80, CHR 0x86], [CHR 0xE2, CHR 0x80, CHR 0x87], [CHR 0xE2, CHR 0x80, CHR 0x88],
     [CHR 0xE2, CHR 0x80, CHR 0x89], [CHR 0xE2, CHR 0x80, CHR 0x8A], [CHR 0xE2, CHR 0x80, CHR 0xA8],
     [CHR 0xE2, CHR 0x80, CHR 0xA9], [CHR 0xE2, CHR 0x80, CHR 0xAF], [CHR 0xE2, CHR 0x81, CHR 0x9F],
     [CHR 0xE3, CHR 0x80, CHR 0x80]]"

fun strip_prefix :: "string \<Rightarrow> string \<Rightarrow> string option" where
  "strip_prefix [] s = Some s"
| "strip_prefix (c # cs) [] = None"
| "strip_prefix (c # cs) (d # ds) = (if c = d then strip_prefix cs ds else None)"

lemma strip_prefix_Some: "strip_prefix w s = Some r \<longleftrightarrow> s = w @ r"
  by (induction w s rule: strip_prefix.induct) auto

fun strip_one :: "string list \<Rightarrow> string \<Rightarrow> string option" where
  "strip_one [] s = None"
| "strip_one (w # ws) s =
     (case strip_prefix w s of Some r \<Rightarrow> if w = [] then strip_one ws s else Some r
      | None \<Rightarrow> strip_one ws s)"

lemma strip_one_shorter: "strip_one ws s = Some r \<Longrightarrow> length r < length s"
  by (induction ws) (auto split: option.splits if_splits simp: strip_prefix_Some)

function trim_with :: "string list \<Rightarrow> string \<Rightarrow> string" where
  "trim_with ws s = (case strip_one ws s of None \<Rightarrow> s | Some r \<Rightarrow> trim_with ws r)"
  by pat_completeness auto
termination
  by (relation "measure (\<lambda>(ws, s). length s)") (auto dest: strip_one_shorter)

declare trim_with.simps [simp del]

definition trim_space :: "string \<Rightarrow> string" where
  [go_str_defs]: "trim_space s =
     rev (trim_with (map rev go_spaces) (rev (trim_with go_spaces s)))"

lemma trim_with_Nil [simp]: "trim_with ws [] = []"
proof -
  have "strip_one ws [] = None"
    using strip_one_shorter [of ws "[]"] by (cases "strip_one ws []") auto
  then show ?thesis by (simp add: trim_with.simps)
qed

lemma trim_space_Nil [simp]: "trim_space [] = []"
  by (simp add: trim_space_def)

lemma trim_with_done: "strip_one ws (trim_with ws s) = None"
proof (induction ws s rule: trim_with.induct)
  case (1 ws s)
  then show ?case
    by (cases "strip_one ws s") (simp_all add: trim_with.simps [of ws s])
qed

text \<open>\<^verbatim>\<open>strings.ToLower\<close> on the ASCII letters; every other byte is kept.\<close>

definition lower_char :: "char \<Rightarrow> char" where
  [go_str_defs]: "lower_char c =
     (if 65 \<le> (of_char c :: nat) \<and> of_char c \<le> (90 :: nat) then char_of ((of_char c :: nat) + 32) else c)"

definition to_lower :: "string \<Rightarrow> string" where
  [go_str_defs]: "to_lower s = map lower_char s"

lemma lower_char_idem [simp]: "lower_char (lower_char c) = lower_char c"
  by (simp add: lower_char_def)

lemma to_lower_idem [simp]: "to_lower (to_lower s) = to_lower s"
  by (simp add: to_lower_def)

lemma to_lower_append [simp]: "to_lower (s @ t) = to_lower s @ to_lower t"
  by (simp add: to_lower_def)

definition has_prefix :: "string \<Rightarrow> string \<Rightarrow> bool" where
  [go_str_defs]: "has_prefix s w = (strip_prefix w s \<noteq> None)"

definition has_suffix :: "string \<Rightarrow> string \<Rightarrow> bool" where
  [go_str_defs]: "has_suffix s w = (strip_prefix (rev w) (rev s) \<noteq> None)"

lemma has_prefix_iff: "has_prefix s w \<longleftrightarrow> (\<exists>r. s = w @ r)"
  by (auto simp: has_prefix_def strip_prefix_Some)

lemma has_suffix_iff: "has_suffix s w \<longleftrightarrow> (\<exists>r. s = r @ w)"
proof -
  have "(\<exists>r. rev s = rev w @ r) \<longleftrightarrow> (\<exists>r. s = r @ w)"
    by (metis rev_append rev_rev_ident)
  then show ?thesis by (auto simp: has_suffix_def strip_prefix_Some)
qed

text \<open>\<^verbatim>\<open>strings.TrimSuffix\<close>, \<^verbatim>\<open>strings.TrimPrefix\<close>, \<^verbatim>\<open>strings.TrimRight\<close> with a one-character cutset, \<^verbatim>\<open>strings.Contains\<close>.\<close>

definition trim_suffix :: "string \<Rightarrow> string \<Rightarrow> string" where
  [go_str_defs]: "trim_suffix s w =
     (case strip_prefix (rev w) (rev s) of None \<Rightarrow> s | Some r \<Rightarrow> rev r)"

definition trim_prefix :: "string \<Rightarrow> string \<Rightarrow> string" where
  [go_str_defs]: "trim_prefix s w = (case strip_prefix w s of None \<Rightarrow> s | Some r \<Rightarrow> r)"

definition trim_right_char :: "string \<Rightarrow> char \<Rightarrow> string" where
  [go_str_defs]: "trim_right_char s c = rev (dropWhile (\<lambda>d. d = c) (rev s))"

fun contains :: "string \<Rightarrow> string \<Rightarrow> bool" where
  "contains [] w = (w = [])"
| "contains (c # cs) w = (has_prefix (c # cs) w \<or> contains cs w)"

text \<open>\<^verbatim>\<open>strings.Split\<close> with a one-character separator: never empty, one piece more than separators.\<close>

fun split_on :: "char \<Rightarrow> string \<Rightarrow> string list" where
  "split_on c [] = [[]]"
| "split_on c (x # xs) =
     (if x = c then [] # split_on c xs
      else (case split_on c xs of [] \<Rightarrow> [[x]] | p # ps \<Rightarrow> (x # p) # ps))"

lemma split_on_not_Nil [simp]: "split_on c s \<noteq> []"
  by (induction s) (auto split: list.splits)

fun join_with :: "string \<Rightarrow> string list \<Rightarrow> string" where
  "join_with sep [] = []"
| "join_with sep [s] = s"
| "join_with sep (s # t # ss) = s @ sep @ join_with sep (t # ss)"

lemma join_split_on: "join_with [c] (split_on c s) = s"
proof (induction s)
  case Nil
  then show ?case by simp
next
  case (Cons x xs)
  obtain p ps where p: "split_on c xs = p # ps"
    by (cases "split_on c xs") auto
  then show ?case using Cons.IH by (cases ps) auto
qed

lemma split_on_no_sep: "c \<notin> set s \<Longrightarrow> split_on c s = [s]"
  by (induction s) auto

lemma split_on_append: "c \<notin> set s \<Longrightarrow> split_on c (s @ c # t) = s # split_on c t"
  by (induction s) auto

lemma split_join: "ps \<noteq> [] \<Longrightarrow> \<forall>p \<in> set ps. c \<notin> set p \<Longrightarrow> split_on c (join_with [c] ps) = ps"
proof (induction "[c]" ps rule: join_with.induct)
  case (3 s t ss)
  then show ?case by (simp add: split_on_append)
qed (simp_all add: split_on_no_sep)

subsection \<open>Decimal numbers\<close>

definition digit_char :: "nat \<Rightarrow> char" where
  [go_str_defs]: "digit_char d = char_of (48 + d)"

definition is_digit :: "char \<Rightarrow> bool" where
  [go_str_defs]: "is_digit c \<longleftrightarrow> 48 \<le> (of_char c :: nat) \<and> of_char c \<le> (57 :: nat)"

definition digit_value :: "char \<Rightarrow> nat" where
  [go_str_defs]: "digit_value c = of_char c - 48"

fun show_nat :: "nat \<Rightarrow> string" where
  "show_nat n = (if n < 10 then [digit_char n] else show_nat (n div 10) @ [digit_char (n mod 10)])"

declare show_nat.simps [simp del]

definition itoa :: "int \<Rightarrow> string" where
  [go_str_defs]: "itoa i = (if i < 0 then CHR ''-'' # show_nat (nat (- i)) else show_nat (nat i))"

definition decimal_value :: "string \<Rightarrow> nat" where
  [go_str_defs]: "decimal_value s = foldl (\<lambda>a c. 10 * a + digit_value c) 0 s"

definition all_digits :: "string \<Rightarrow> bool" where
  [go_str_defs]: "all_digits s \<longleftrightarrow> s \<noteq> [] \<and> list_all is_digit s"

text \<open>\<^verbatim>\<open>strconv.Atoi\<close>: an optional sign, decimal digits, and the value within 64 bits.\<close>

definition atoi :: "string \<Rightarrow> int option" where
  [go_str_defs]: "atoi s =
     (let (neg, ds) = (case s of [] \<Rightarrow> (False, [])
                       | c # cs \<Rightarrow> if c = CHR ''-'' then (True, cs)
                                  else if c = CHR ''+'' then (False, cs) else (False, s));
          v = (if neg then - int (decimal_value ds) else int (decimal_value ds))
      in if all_digits ds \<and> int64_range v then Some v else None)"

lemma is_digit_digit_char [simp]: "d < 10 \<Longrightarrow> is_digit (digit_char d)"
  by (simp add: is_digit_def digit_char_def)

lemma digit_value_digit_char [simp]: "d < 10 \<Longrightarrow> digit_value (digit_char d) = d"
  by (simp add: digit_value_def digit_char_def)

lemma all_digits_show_nat [simp]: "all_digits (show_nat n)"
proof (induction n rule: show_nat.induct)
  case (1 n)
  show ?case
  proof (cases "n < 10")
    case True
    then show ?thesis by (simp add: show_nat.simps all_digits_def)
  next
    case False
    with "1.IH" show ?thesis by (simp add: show_nat.simps [of n] all_digits_def)
  qed
qed

lemma decimal_value_show_nat [simp]: "decimal_value (show_nat n) = n"
proof (induction n rule: show_nat.induct)
  case (1 n)
  show ?case
  proof (cases "n < 10")
    case True
    then show ?thesis by (simp add: show_nat.simps decimal_value_def)
  next
    case False
    with "1.IH" show ?thesis by (simp add: show_nat.simps [of n] decimal_value_def)
  qed
qed

lemma show_nat_digits: "c \<in> set (show_nat n) \<Longrightarrow> is_digit c"
  using all_digits_show_nat [of n] by (auto simp: all_digits_def list_all_iff)

lemma atoi_itoa: "int64_range i \<Longrightarrow> atoi (itoa i) = Some i"
proof (cases "i < 0")
  case True
  then show "int64_range i \<Longrightarrow> ?thesis" by (simp add: itoa_def atoi_def)
next
  case False
  assume r: "int64_range i"
  obtain c cs where s: "show_nat (nat i) = c # cs"
    using all_digits_show_nat [of "nat i"] by (cases "show_nat (nat i)") (auto simp: all_digits_def)
  with show_nat_digits [of c "nat i"] have "is_digit c" by simp
  then have "c \<noteq> CHR ''-''" "c \<noteq> CHR ''+''" by (auto simp: is_digit_def)
  with False r s show ?thesis
    using all_digits_show_nat [of "nat i"] decimal_value_show_nat [of "nat i"]
    by (simp add: itoa_def atoi_def)
qed

lemma atoi_range: "atoi s = Some v \<Longrightarrow> int64_range v"
  by (auto simp: atoi_def Let_def split: if_splits prod.splits)

end
