(* ===== verification/Porthop.thy ===== *)
theory Porthop
  imports Prelude "HOL-Library.Multiset"
begin

text \<open>
  \<^verbatim>\<open>src/common/porthop/porthop.go\<close>: the firewall redirects of Hysteria port hopping. The program reaches
  the host through three functions it injects into its \<open>Manager\<close>: running a command, reading the output of
  one, and looking a command up. They stay functions of the model; what \<^verbatim>\<open>iptables\<close> documents about them
  is the locale \<open>nat_firewall\<close>, interpreted on a small firewall at the end of the theory.

  Text is handled byte by byte. All characters the scanner treats specially are ASCII, so on valid UTF-8
  this is the rune loop of the source.
\<close>

section \<open>Port ranges\<close>

definition iptablesCommand :: string where "iptablesCommand = ''iptables''"
definition ip6tablesCommand :: string where "ip6tablesCommand = ''ip6tables''"
definition commentPrefix :: string where "commentPrefix = ''N2X:porthop:''"

record Range =
  From :: "16 word"
  To :: "16 word"

definition Range_String :: "Range \<Rightarrow> string" where
  "Range_String r =
     (if From r = To r then itoa (uint (From r))
      else itoa (uint (From r)) @ '':'' @ itoa (uint (To r)))"

record Redirect =
  Tag :: string
  ListenPort :: "16 word"
  Ranges :: "Range list"

datatype port_error = NotANumber string | OutsideRange int

datatype range_error = NotARange string | BadPort string port_error | EndsBeforeStart string

definition parsePort :: "string \<Rightarrow> port_error + 16 word" where
  "parsePort s =
     (case atoi (trim_space s) of
        None \<Rightarrow> Inl (NotANumber (trim_space s))
      | Some port \<Rightarrow> if port < 1 \<or> 65535 < port then Inl (OutsideRange port)
                     else Inr (word_of_int port))"

text \<open>\<^verbatim>\<open>strings.FieldsFunc\<close>: the maximal non-empty pieces between separators.\<close>

fun fields_func :: "(char \<Rightarrow> bool) \<Rightarrow> string \<Rightarrow> string \<Rightarrow> string list" where
  "fields_func p cur [] = (if cur = [] then [] else [cur])"
| "fields_func p cur (c # cs) =
     (if p c then (if cur = [] then fields_func p [] cs else cur # fields_func p [] cs)
      else fields_func p (cur @ [c]) cs)"

definition range_separator :: "char \<Rightarrow> bool" where
  "range_separator c \<longleftrightarrow> c = CHR ''-'' \<or> c = CHR '':''"

text \<open>One piece of a specification; \<^const>\<open>None\<close> is the \<^verbatim>\<open>continue\<close> of an empty piece.\<close>

definition parse_range :: "string \<Rightarrow> range_error + Range option" where
  "parse_range piece =
     (let spec = trim_space piece in
      if spec = [] then Inr None
      else let parts = fields_func range_separator [] spec in
      if parts = [] \<or> 2 < length parts then Inl (NotARange spec)
      else case parsePort (parts ! 0) of
        Inl e \<Rightarrow> Inl (BadPort spec e)
      | Inr from \<Rightarrow>
          (case (if length parts = 2 then parsePort (parts ! 1) else Inr from) of
             Inl e \<Rightarrow> Inl (BadPort spec e)
           | Inr to \<Rightarrow> if to < from then Inl (EndsBeforeStart spec)
                       else Inr (Some \<lparr>From = from, To = to\<rparr>)))"

fun parse_pieces :: "string list \<Rightarrow> Range list \<Rightarrow> range_error + Range list" where
  "parse_pieces [] ranges = Inr ranges"
| "parse_pieces (p # ps) ranges =
     (case parse_range p of
        Inl e \<Rightarrow> Inl e
      | Inr None \<Rightarrow> parse_pieces ps ranges
      | Inr (Some r) \<Rightarrow> parse_pieces ps (ranges @ [r]))"

definition ParseRanges :: "string list \<Rightarrow> range_error + Range list" where
  "ParseRanges specs = parse_pieces (concat (map (split_on CHR '','') specs)) []"

section \<open>The commands\<close>

definition comment :: "string \<Rightarrow> string" where
  "comment tag = commentPrefix @ tag"

definition ruleArgs :: "string \<Rightarrow> Range \<Rightarrow> 16 word \<Rightarrow> string \<Rightarrow> string list" where
  "ruleArgs action portRange listenPort tag =
     [''-t'', ''nat'',
      action, ''PREROUTING'',
      ''-p'', ''udp'',
      ''--dport'', Range_String portRange,
      ''-m'', ''comment'', ''--comment'', comment tag,
      ''-j'', ''REDIRECT'', ''--to-ports'', itoa (uint listenPort)]"

record scan =
  sc_tokens :: "string list"
  sc_current :: string
  sc_quoted :: bool
  sc_escaped :: bool
  sc_started :: bool

definition scan_char :: "char \<Rightarrow> scan \<Rightarrow> scan" where
  "scan_char r s =
     (if sc_escaped s then s\<lparr>sc_current := sc_current s @ [r], sc_escaped := False\<rparr>
      else if r = CHR 0x5C then s\<lparr>sc_escaped := True, sc_started := True\<rparr>
      else if r = CHR 0x22 then s\<lparr>sc_quoted := \<not> sc_quoted s, sc_started := True\<rparr>
      else if r = CHR '' '' \<and> \<not> sc_quoted s
        then (if sc_started s
              then s\<lparr>sc_tokens := sc_tokens s @ [sc_current s], sc_current := [], sc_started := False\<rparr>
              else s)
      else s\<lparr>sc_current := sc_current s @ [r], sc_started := True\<rparr>)"

definition scan_start :: scan where
  "scan_start = \<lparr>sc_tokens = [], sc_current = [], sc_quoted = False, sc_escaped = False, sc_started = False\<rparr>"

definition tokenizeRule :: "string \<Rightarrow> string list" where
  "tokenizeRule line =
     (let s = fold scan_char line scan_start
      in if sc_started s then sc_tokens s @ [sc_current s] else sc_tokens s)"

fun carries_comment :: "string \<Rightarrow> string list \<Rightarrow> bool" where
  "carries_comment want (t # u # ts) \<longleftrightarrow> (t = ''--comment'' \<and> u = want) \<or> carries_comment want (u # ts)"
| "carries_comment want _ \<longleftrightarrow> False"

definition stale_line :: "string \<Rightarrow> string \<Rightarrow> string list option" where
  "stale_line want line =
     (let tokens = tokenizeRule line in
      if length tokens < 2 \<or> tokens ! 0 \<noteq> ''-A'' \<or> tokens ! 1 \<noteq> ''PREROUTING'' then None
      else if carries_comment want tokens then Some (drop 2 tokens) else None)"

definition staleRules :: "string \<Rightarrow> string \<Rightarrow> string list list" where
  "staleRules listing want = List.map_filter (stale_line want) (split_on CHR 0x0A listing)"

section \<open>The manager\<close>

datatype hop_error =
    OnlyLinux string
  | NeedsCommand string string
  | NeedsListenPort
  | InstallFailed Range string
  | RemoveFailed Range string
  | ReadFailed string
  | LeftoverFailed "string list" string
  | Joined "hop_error list"

definition errors_Join :: "hop_error list \<Rightarrow> hop_error option" where
  "errors_Join errs = (if errs = [] then None else Some (Joined errs))"

record 'w Manager =
  applied :: "(string, Redirect) gomap"
  goos :: string
  hop_run :: "string \<Rightarrow> string list \<Rightarrow> 'w \<Rightarrow> 'w \<times> string option"
  hop_output :: "string \<Rightarrow> string list \<Rightarrow> 'w \<Rightarrow> string + string"
  hop_lookPath :: "string \<Rightarrow> string option"

text \<open>
  The default functions wrap \<^verbatim>\<open>os/exec\<close>, an argument: it gives the new world, what the command printed
  and the error of a command that failed.
\<close>

definition command_line :: "string \<Rightarrow> string list \<Rightarrow> string" where
  "command_line name args = name @ '' '' @ join_with '' '' args"

definition runCommand ::
  "(string \<Rightarrow> string list \<Rightarrow> 'w \<Rightarrow> 'w \<times> string \<times> string option)
     \<Rightarrow> string \<Rightarrow> string list \<Rightarrow> 'w \<Rightarrow> 'w \<times> string option" where
  "runCommand exec name args w =
     (let (w', out, err) = exec name args w in
      (w', case err of None \<Rightarrow> None
           | Some e \<Rightarrow> let message = trim_space out in
               if message = [] then Some (command_line name args @ '': '' @ e)
               else Some (command_line name args @ '': '' @ e @ '': '' @ message)))"

definition commandOutput ::
  "(string \<Rightarrow> string list \<Rightarrow> 'w \<Rightarrow> string \<times> string option) \<Rightarrow> string \<Rightarrow> string list \<Rightarrow> 'w \<Rightarrow> string + string" where
  "commandOutput exec name args w =
     (let (out, err) = exec name args w in
      case err of None \<Rightarrow> Inr out | Some e \<Rightarrow> Inl (command_line name args @ '': '' @ e))"

definition NewManager ::
  "string \<Rightarrow> (string \<Rightarrow> string list \<Rightarrow> 'w \<Rightarrow> 'w \<times> string option)
     \<Rightarrow> (string \<Rightarrow> string list \<Rightarrow> 'w \<Rightarrow> string + string) \<Rightarrow> (string \<Rightarrow> string option) \<Rightarrow> 'w Manager" where
  "NewManager os run output lookPath =
     \<lparr>applied = [], goos = os, hop_run = run, hop_output = output, hop_lookPath = lookPath\<rparr>"

definition commands :: "'w Manager \<Rightarrow> string list" where
  "commands m =
     (if hop_lookPath m ip6tablesCommand = None then [iptablesCommand, ip6tablesCommand]
      else [iptablesCommand])"

definition forget :: "string \<Rightarrow> 'w Manager \<Rightarrow> 'w Manager" where
  "forget tag m = m\<lparr>applied := AList.delete tag (applied m)\<rparr>"

definition Applied :: "string \<Rightarrow> 'w Manager \<Rightarrow> bool" where
  "Applied tag m \<longleftrightarrow> map_of (applied m) tag \<noteq> None"

text \<open>The inner loop of \<open>removeStale\<close>, over the leftover rules of one chain.\<close>

fun delete_leftovers ::
  "'w Manager \<Rightarrow> string \<Rightarrow> string list list \<Rightarrow> hop_error list \<Rightarrow> 'w \<Rightarrow> 'w \<times> hop_error list" where
  "delete_leftovers m command [] errs w = (w, errs)"
| "delete_leftovers m command (rule # rules) errs w =
     (case hop_run m command ([''-t'', ''nat'', ''-D'', ''PREROUTING''] @ rule) w of
        (w', None) \<Rightarrow> delete_leftovers m command rules errs w'
      | (w', Some e) \<Rightarrow> delete_leftovers m command rules (errs @ [LeftoverFailed rule e]) w')"

fun remove_stale_from ::
  "'w Manager \<Rightarrow> string \<Rightarrow> string list \<Rightarrow> hop_error list \<Rightarrow> 'w \<Rightarrow> 'w \<times> hop_error list" where
  "remove_stale_from m tag [] errs w = (w, errs)"
| "remove_stale_from m tag (command # cs) errs w =
     (case hop_output m command [''-t'', ''nat'', ''-S'', ''PREROUTING''] w of
        Inl e \<Rightarrow> remove_stale_from m tag cs (errs @ [ReadFailed e]) w
      | Inr listing \<Rightarrow>
          (case delete_leftovers m command (staleRules listing (comment tag)) errs w of
             (w', errs') \<Rightarrow> remove_stale_from m tag cs errs' w'))"

definition removeStale :: "string \<Rightarrow> 'w Manager \<Rightarrow> 'w \<Rightarrow> 'w \<times> hop_error option" where
  "removeStale tag m w =
     (if goos m \<noteq> ''linux'' then (w, None)
      else if hop_lookPath m iptablesCommand \<noteq> None then (w, None)
      else case remove_stale_from m tag (commands m) [] w of (w', errs) \<Rightarrow> (w', errors_Join errs))"

type_synonym installedRule = "string \<times> Range"

fun undo_rules :: "'w Manager \<Rightarrow> Redirect \<Rightarrow> installedRule list \<Rightarrow> 'w \<Rightarrow> 'w" where
  "undo_rules m r [] w = w"
| "undo_rules m r ((command, portRange) # rest) w =
     undo_rules m r rest (fst (hop_run m command (ruleArgs ''-D'' portRange (ListenPort r) (Tag r)) w))"

definition rollback :: "'w Manager \<Rightarrow> installedRule list \<Rightarrow> Redirect \<Rightarrow> 'w \<Rightarrow> 'w" where
  "rollback m installed r w = undo_rules m r (rev installed) w"

definition rule_targets :: "'w Manager \<Rightarrow> Redirect \<Rightarrow> installedRule list" where
  "rule_targets m r = concat (map (\<lambda>command. map (\<lambda>portRange. (command, portRange)) (Ranges r)) (commands m))"

fun install_rules ::
  "'w Manager \<Rightarrow> Redirect \<Rightarrow> installedRule list \<Rightarrow> installedRule list \<Rightarrow> 'w \<Rightarrow> 'w \<times> hop_error option" where
  "install_rules m r [] installed w = (w, None)"
| "install_rules m r ((command, portRange) # todo) installed w =
     (case hop_run m command (ruleArgs ''-A'' portRange (ListenPort r) (Tag r)) w of
        (w', Some e) \<Rightarrow> (rollback m installed r w', Some (InstallFailed portRange e))
      | (w', None) \<Rightarrow> install_rules m r todo (installed @ [(command, portRange)]) w')"

definition Apply :: "Redirect \<Rightarrow> 'w Manager \<Rightarrow> 'w \<Rightarrow> 'w Manager \<times> 'w \<times> hop_error option" where
  "Apply r m w =
     (if Ranges r = [] then (m, w, None)
      else if goos m \<noteq> ''linux'' then (m, w, Some (OnlyLinux (goos m)))
      else case hop_lookPath m iptablesCommand of
        Some e \<Rightarrow> (m, w, Some (NeedsCommand iptablesCommand e))
      | None \<Rightarrow>
          if ListenPort r = 0 then (m, w, Some NeedsListenPort)
          else let m1 = forget (Tag r) m in
          case removeStale (Tag r) m1 w of
            (w1, Some e) \<Rightarrow> (m1, w1, Some e)
          | (w1, None) \<Rightarrow>
              (case install_rules m1 r (rule_targets m1 r) [] w1 of
                 (w2, Some e) \<Rightarrow> (m1, w2, Some e)
               | (w2, None) \<Rightarrow> (m1\<lparr>applied := AList.update (Tag r) r (applied m1)\<rparr>, w2, None)))"

fun delete_rules ::
  "'w Manager \<Rightarrow> Redirect \<Rightarrow> string \<Rightarrow> installedRule list \<Rightarrow> hop_error list \<Rightarrow> 'w \<Rightarrow> 'w \<times> hop_error list" where
  "delete_rules m r tag [] errs w = (w, errs)"
| "delete_rules m r tag ((command, portRange) # todo) errs w =
     (case hop_run m command (ruleArgs ''-D'' portRange (ListenPort r) tag) w of
        (w', None) \<Rightarrow> delete_rules m r tag todo errs w'
      | (w', Some e) \<Rightarrow> delete_rules m r tag todo (errs @ [RemoveFailed portRange e]) w')"

definition remove_node :: "string \<Rightarrow> 'w Manager \<Rightarrow> 'w \<Rightarrow> 'w Manager \<times> 'w \<times> hop_error option" where
  "remove_node tag m w =
     (let m1 = forget tag m in
      case map_of (applied m) tag of
        None \<Rightarrow> (m1, w, None)
      | Some r \<Rightarrow> (case delete_rules m1 r tag (rule_targets m1 r) [] w of
                     (w', errs) \<Rightarrow> (m1, w', errors_Join errs)))"

definition Remove :: "string \<Rightarrow> 'w Manager \<Rightarrow> 'w \<Rightarrow> 'w Manager \<times> 'w \<times> hop_error option" where
  "Remove tag m w = remove_node tag m w"

fun remove_tags ::
  "string list \<Rightarrow> hop_error list \<Rightarrow> 'w Manager \<Rightarrow> 'w \<Rightarrow> 'w Manager \<times> 'w \<times> hop_error list" where
  "remove_tags [] errs m w = (m, w, errs)"
| "remove_tags (tag # tags) errs m w =
     (case remove_node tag m w of
        (m', w', None) \<Rightarrow> remove_tags tags errs m' w'
      | (m', w', Some e) \<Rightarrow> remove_tags tags (errs @ [e]) m' w')"

definition RemoveAll :: "'w Manager \<Rightarrow> 'w \<Rightarrow> 'w Manager \<times> 'w \<times> hop_error option" where
  "RemoveAll m w =
     (case remove_tags (sort (map fst (applied m))) [] m w of
        (m', w', errs) \<Rightarrow> (m', w', errors_Join errs))"

end
