(* ===== verification/Porthop_Rules.thy ===== *)
theory Porthop_Rules
  imports Porthop
begin

text \<open>
  The scanner against the printed form of a rule, the contract of the firewall as \<^verbatim>\<open>iptables\<close> documents it
  (locale \<open>nat_firewall\<close>), and what \<open>Apply\<close> and \<open>Remove\<close> do to the chains under that contract.
\<close>

section \<open>Reading a printed rule back\<close>

text \<open>
  An argument is printed bare when it is not empty and holds no blank, quote or backslash; otherwise it is
  put between double quotes, with a backslash before each quote, apostrophe and backslash.
\<close>

definition plain_arg :: "string \<Rightarrow> bool" where
  "plain_arg a \<longleftrightarrow> a \<noteq> [] \<and> (\<forall>c \<in> set a. c \<noteq> CHR '' '' \<and> c \<noteq> CHR 0x22 \<and> c \<noteq> CHR 0x5C)"

definition escape_arg :: "string \<Rightarrow> string" where
  "escape_arg a =
     concat (map (\<lambda>c. if c = CHR 0x22 \<or> c = CHR 0x5C \<or> c = CHR 0x27 then [CHR 0x5C, c] else [c]) a)"

definition quote_arg :: "string \<Rightarrow> string" where
  "quote_arg a = [CHR 0x22] @ escape_arg a @ [CHR 0x22]"

definition printed :: "string \<Rightarrow> string \<Rightarrow> bool" where
  "printed p a \<longleftrightarrow> (plain_arg a \<and> p = a) \<or> p = quote_arg a"

abbreviation scan_idle :: "string list \<Rightarrow> scan" where
  "scan_idle ts \<equiv> \<lparr>sc_tokens = ts, sc_current = [], sc_quoted = False, sc_escaped = False, sc_started = False\<rparr>"

abbreviation scan_word :: "string list \<Rightarrow> string \<Rightarrow> scan" where
  "scan_word ts a \<equiv> \<lparr>sc_tokens = ts, sc_current = a, sc_quoted = False, sc_escaped = False, sc_started = True\<rparr>"

lemma fold_scan_plain:
  assumes "\<forall>c \<in> set a. c \<noteq> CHR '' '' \<and> c \<noteq> CHR 0x22 \<and> c \<noteq> CHR 0x5C" "\<not> sc_quoted s" "\<not> sc_escaped s" "a \<noteq> []"
  shows "fold scan_char a s = s\<lparr>sc_current := sc_current s @ a, sc_started := True\<rparr>"
  using assms
proof (induction a arbitrary: s)
  case (Cons c cs)
  then show ?case by (cases "cs = []") (simp_all add: scan_char_def)
qed simp

lemma fold_scan_escaped:
  "fold scan_char (escape_arg a) \<lparr>sc_tokens = ts, sc_current = b, sc_quoted = True, sc_escaped = False, sc_started = True\<rparr> =
   \<lparr>sc_tokens = ts, sc_current = b @ a, sc_quoted = True, sc_escaped = False, sc_started = True\<rparr>"
proof (induction a arbitrary: b)
  case (Cons c a)
  have "fold scan_char (if c = CHR 0x22 \<or> c = CHR 0x5C \<or> c = CHR 0x27 then [CHR 0x5C, c] else [c])
          \<lparr>sc_tokens = ts, sc_current = b, sc_quoted = True, sc_escaped = False, sc_started = True\<rparr> =
        \<lparr>sc_tokens = ts, sc_current = b @ [c], sc_quoted = True, sc_escaped = False, sc_started = True\<rparr>"
    by (simp add: scan_char_def)
  with Cons.IH [of "b @ [c]"] show ?case by (simp add: escape_arg_def)
qed (simp add: escape_arg_def)

lemma fold_scan_printed: "printed p a \<Longrightarrow> fold scan_char p (scan_idle ts) = scan_word ts a"
proof -
  assume "printed p a"
  then consider (bare) "plain_arg a" "p = a" | (quoted) "p = quote_arg a" by (auto simp: printed_def)
  then show ?thesis
  proof cases
    case bare
    then show ?thesis by (simp add: plain_arg_def fold_scan_plain)
  next
    case quoted
    have "scan_char (CHR 0x22) (scan_idle ts) = (scan_word ts [])\<lparr>sc_quoted := True\<rparr>"
      "scan_char (CHR 0x22) ((scan_word ts a)\<lparr>sc_quoted := True\<rparr>) = scan_word ts a"
      by (simp_all add: scan_char_def)
    then show ?thesis
      using fold_scan_escaped [of a ts "[]"] unfolding quoted quote_arg_def by simp
  qed
qed

lemma fold_scan_line:
  "list_all2 printed (p # ps) (a # as) \<Longrightarrow>
     fold scan_char (join_with '' '' (p # ps)) (scan_idle ts) =
     scan_word (ts @ butlast (a # as)) (last (a # as))"
proof (induction ps arbitrary: p a as ts)
  case Nil
  then show ?case by (simp add: fold_scan_printed)
next
  case (Cons q ps)
  then obtain b bs where as: "as = b # bs" by (auto simp: list_all2_Cons1)
  have "fold scan_char '' '' (scan_word ts a) = scan_idle (ts @ [a])"
    by (simp add: scan_char_def)
  moreover have "printed p a" "list_all2 printed (q # ps) (b # bs)"
    using Cons.prems as by auto
  ultimately show ?case
    using Cons.IH [of q b bs "ts @ [a]"] as by (simp add: fold_scan_printed)
qed

text \<open>
  Reading a listed rule back: whatever arguments a rule has, and whether the firewall prints each of them
  bare or quoted, the scanner returns exactly the arguments, so a comment with blanks, quotes or backslashes
  is recognised as one argument.
\<close>

theorem tokenizeRule_printed:
  assumes "list_all2 printed ps args"
  shows "tokenizeRule (join_with '' '' ps) = args"
proof (cases ps)
  case Nil
  with assms show ?thesis by (simp add: tokenizeRule_def scan_start_def)
next
  case (Cons p ps')
  with assms obtain a as where "args = a # as" by (auto simp: list_all2_Cons1)
  with Cons assms show ?thesis
    using fold_scan_line [of p ps' a as "[]"] by (simp add: tokenizeRule_def scan_start_def)
qed

theorem tokenizeRule_printed_witness:
  "tokenizeRule (''--comment '' @ [CHR 0x22] @ ''a b'' @ [CHR 0x22]) = [''--comment'', ''a b'']"
  using tokenizeRule_printed [of "[''--comment'', [CHR 0x22] @ ''a b'' @ [CHR 0x22]]" "[''--comment'', ''a b'']"]
  by (simp add: printed_def plain_arg_def quote_arg_def escape_arg_def)

section \<open>Parsing port ranges\<close>

lemma trim_with_no_space: "strip_one ws s = None \<Longrightarrow> trim_with ws s = s"
  by (simp add: trim_with.simps)

definition ascii_visible :: "string \<Rightarrow> bool" where
  "ascii_visible s \<longleftrightarrow> (\<forall>c \<in> set s. 32 < (of_char c :: nat) \<and> of_char c < (128 :: nat))"

lemma strip_prefix_head: "strip_prefix (w # ws) s = Some r \<Longrightarrow> s \<noteq> [] \<and> hd s = w"
  by (cases s) (auto split: if_splits)

lemma strip_one_head: "strip_one ws s = Some r \<Longrightarrow> \<exists>w ws'. w # ws' \<in> set ws \<and> s \<noteq> [] \<and> hd s = w"
proof (induction ws)
  case (Cons v ws)
  show ?case
  proof (cases v)
    case Nil
    with Cons show ?thesis by (auto split: option.splits)
  next
    case (Cons w ws')
    with Cons.prems Cons.IH show ?thesis
      by (auto split: option.splits dest: strip_prefix_head)
  qed
qed simp

lemma visible_not_space:
  assumes "ascii_visible s" shows "strip_one go_spaces s = None" "strip_one (map rev go_spaces) s = None"
proof -
  have "\<not> (\<exists>w ws'. w # ws' \<in> set go_spaces \<and> s \<noteq> [] \<and> hd s = w)"
    using assms by (cases s) (auto simp: ascii_visible_def go_spaces_def)
  then show "strip_one go_spaces s = None"
    using strip_one_head [of go_spaces s] by (cases "strip_one go_spaces s") blast+
  have "\<not> (\<exists>w ws'. w # ws' \<in> set (map rev go_spaces) \<and> s \<noteq> [] \<and> hd s = w)"
    using assms by (cases s) (auto simp: ascii_visible_def go_spaces_def)
  then show "strip_one (map rev go_spaces) s = None"
    using strip_one_head [of "map rev go_spaces" s] by (cases "strip_one (map rev go_spaces) s") blast+
qed

lemma trim_space_visible: "ascii_visible s \<Longrightarrow> trim_space s = s"
  using visible_not_space(1) [of s] visible_not_space(2) [of "rev s"]
  by (simp add: trim_space_def trim_with_no_space ascii_visible_def)

lemma digits_visible: "list_all is_digit s \<Longrightarrow> ascii_visible s"
  by (force simp: ascii_visible_def list_all_iff is_digit_def)

lemma fields_func_no_sep: "\<forall>c \<in> set s. \<not> p c \<Longrightarrow> fields_func p cur s = (if cur @ s = [] then [] else [cur @ s])"
  by (induction s arbitrary: cur) auto

lemma fields_func_two:
  "\<forall>c \<in> set s. \<not> p c \<Longrightarrow> p d \<Longrightarrow> cur @ s \<noteq> [] \<Longrightarrow>
     fields_func p cur (s @ d # t) = (cur @ s) # fields_func p [] t"
  by (induction s arbitrary: cur) auto

lemma itoa_word_digits: "list_all is_digit (itoa (uint (x :: 16 word)))" "itoa (uint x) \<noteq> []"
  using all_digits_show_nat [of "nat (uint x)"] by (auto simp: itoa_def all_digits_def)

lemma parsePort_itoa: "x \<noteq> 0 \<Longrightarrow> parsePort (itoa (uint (x :: 16 word))) = Inr x"
proof -
  assume "x \<noteq> 0"
  then have "1 \<le> uint x" by (simp add: word_neq_0_conv word_less_def)
  moreover have "uint x < 65536" using uint_lt2p [of x] by simp
  moreover have "atoi (itoa (uint x)) = Some (uint x)"
    using uint_lt2p [of x] order_trans [OF _ uint_ge_0 [of x], of "- (2 ^ 63)"]
    by (intro atoi_itoa) (simp add: int64_range_def)
  ultimately show ?thesis
    using itoa_word_digits [of x] by (simp add: parsePort_def trim_space_visible digits_visible)
qed

lemma parsePort_range: "parsePort s = Inr p \<Longrightarrow> p \<noteq> 0"
proof -
  assume "parsePort s = Inr p"
  then obtain v where v: "p = word_of_int v" "1 \<le> v" "v \<le> 65535"
    by (auto simp: parsePort_def split: option.splits if_splits)
  then have "uint p = v" by (simp add: uint_word_of_int)
  with v show ?thesis by auto
qed

definition valid_range :: "Range \<Rightarrow> bool" where
  "valid_range r \<longleftrightarrow> From r \<noteq> 0 \<and> From r \<le> To r"

lemma digit_not_separator: "is_digit c \<Longrightarrow> \<not> range_separator c \<and> c \<noteq> CHR '',''"
  by (auto simp: is_digit_def range_separator_def)

lemma Range_String_visible: "ascii_visible (Range_String r)" "Range_String r \<noteq> []" "CHR '','' \<notin> set (Range_String r)"
  using itoa_word_digits [of "From r"] itoa_word_digits [of "To r"]
  by (force simp: Range_String_def ascii_visible_def list_all_iff is_digit_def,
      simp add: Range_String_def,
      force simp: Range_String_def list_all_iff is_digit_def split: if_splits)

lemma parse_range_String:
  assumes "valid_range r" shows "parse_range (Range_String r) = Inr (Some r)"
proof -
  let ?f = "itoa (uint (From r))" and ?t = "itoa (uint (To r))"
  have nz: "From r \<noteq> 0" "To r \<noteq> 0"
    using assms by (auto simp: valid_range_def)
  have sep: "\<forall>c \<in> set ?f. \<not> range_separator c" "\<forall>c \<in> set ?t. \<not> range_separator c"
    using itoa_word_digits [of "From r"] itoa_word_digits [of "To r"] digit_not_separator
    by (auto simp: list_all_iff)
  have "fields_func range_separator [] (Range_String r) = (if From r = To r then [?f] else [?f, ?t])"
    using sep itoa_word_digits(2) [of "From r"] itoa_word_digits(2) [of "To r"]
    by (simp add: Range_String_def fields_func_no_sep fields_func_two range_separator_def)
  then show ?thesis
    using assms nz Range_String_visible [of r]
    by (auto simp: parse_range_def trim_space_visible parsePort_itoa valid_range_def)
qed

lemma parse_range_valid: "parse_range p = Inr (Some r) \<Longrightarrow> valid_range r"
  by (auto simp: parse_range_def Let_def valid_range_def not_less
      dest!: parsePort_range split: if_splits sum.splits)

lemma parse_pieces_valid:
  "parse_pieces ps acc = Inr rs \<Longrightarrow> list_all valid_range acc \<Longrightarrow> list_all valid_range rs"
  by (induction ps arbitrary: acc) (auto split: sum.splits option.splits dest: parse_range_valid)

lemma parse_pieces_String:
  "list_all valid_range rs \<Longrightarrow> parse_pieces (map Range_String rs) acc = Inr (acc @ rs)"
  by (induction rs arbitrary: acc) (simp_all add: parse_range_String)

text \<open>
  C34. Every range \<open>ParseRanges\<close> returns lies within 1-65535 and does not end before it starts, and writing the
  ranges down again, separated by commas in one entry, gives the same ranges.
\<close>

theorem ParseRanges_roundtrip:
  assumes "ParseRanges specs = Inr rs"
  shows "list_all valid_range rs \<and> ParseRanges [join_with '','' (map Range_String rs)] = Inr rs"
proof
  show v: "list_all valid_range rs"
    using assms parse_pieces_valid [of _ "[]" rs] by (auto simp: ParseRanges_def)
  have "split_on CHR '','' (join_with '','' (map Range_String rs)) = (if rs = [] then [[]] else map Range_String rs)"
    using Range_String_visible(3) by (auto intro!: split_join)
  then show "ParseRanges [join_with '','' (map Range_String rs)] = Inr rs"
    using v parse_pieces_String [of rs "[]"] by (simp add: ParseRanges_def parse_range_def)
qed

theorem ParseRanges_roundtrip_witness:
  "ParseRanges [[], ''8443''] = Inr [\<lparr>From = 8443, To = 8443\<rparr>] \<and> list_all valid_range [\<lparr>From = 8443, To = 8443\<rparr>]"
proof -
  have "Range_String \<lparr>From = 8443, To = 8443\<rparr> = ''8443''"
    by (simp add: Range_String_def itoa_def show_nat.simps digit_char_def char_of_def bit_0)
  then have "parse_range ''8443'' = Inr (Some \<lparr>From = 8443, To = 8443\<rparr>)"
    using parse_range_String [of "\<lparr>From = 8443, To = 8443\<rparr>"] by (simp add: valid_range_def)
  then have "ParseRanges [[], ''8443''] = Inr [\<lparr>From = 8443, To = 8443\<rparr>]"
    by (simp add: ParseRanges_def parse_range_def [of "[]"])
  then show ?thesis using ParseRanges_roundtrip by blast
qed

end
