(* ===== verification/Porthop_Firewall.thy ===== *)
theory Porthop_Firewall
  imports Porthop_Rules
begin

text \<open>
  What \<^verbatim>\<open>Manager.Apply\<close>, \<^verbatim>\<open>Remove\<close> and \<^verbatim>\<open>RemoveAll\<close> of \<^verbatim>\<open>src/common/porthop/porthop.go\<close> do to the firewall.
  The locale \<open>nat_firewall\<close> states what \<^verbatim>\<open>iptables\<close> documents of \<^verbatim>\<open>-A\<close>, \<^verbatim>\<open>-D\<close> and \<^verbatim>\<open>-S\<close> on the nat PREROUTING
  chain; the lemmas about the manager's loops are proved once inside it.
\<close>

definition nat_args :: "string \<Rightarrow> string list \<Rightarrow> string list" where
  "nat_args action rule = [''-t'', ''nat'', action, ''PREROUTING''] @ rule"

definition hop_rule :: "Range \<Rightarrow> 16 word \<Rightarrow> string \<Rightarrow> string list" where
  "hop_rule portRange listenPort tag = drop 4 (ruleArgs [] portRange listenPort tag)"

lemma ruleArgs_nat_args: "ruleArgs action p port tag = nat_args action (hop_rule p port tag)"
  by (simp add: ruleArgs_def nat_args_def hop_rule_def)

text \<open>
  The contract. \<open>chain w c\<close> is the PREROUTING chain that command \<open>c\<close> sees in world \<open>w\<close>, \<open>rule_of\<close> is the rule a
  list of arguments describes, \<open>args_of\<close> the arguments a rule is listed with, \<open>line_of\<close> its line in the listing.
  Appending may fail, and then changes nothing; deleting takes out the first equal rule and fails when there
  is none; reading may fail; a listing is the policy and one line per rule; the listed arguments of a rule
  describe it again, and a comment is listed as it was given.
\<close>

locale nat_firewall =
  fixes run :: "string \<Rightarrow> string list \<Rightarrow> 'w \<Rightarrow> 'w \<times> string option"
    and out :: "string \<Rightarrow> string list \<Rightarrow> 'w \<Rightarrow> string + string"
    and chain :: "'w \<Rightarrow> string \<Rightarrow> 'r list"
    and rule_of :: "string list \<Rightarrow> 'r"
    and args_of :: "'r \<Rightarrow> string list"
    and line_of :: "'r \<Rightarrow> string"
  assumes append_rule: "run c (nat_args ''-A'' a) w = (w', None) \<Longrightarrow>
      chain w' = (chain w)(c := chain w c @ [rule_of a])"
    and append_fails: "run c (nat_args ''-A'' a) w = (w', Some e) \<Longrightarrow> chain w' = chain w"
    and delete_rule: "rule_of a \<in> set (chain w c) \<Longrightarrow>
      \<exists>w'. run c (nat_args ''-D'' a) w = (w', None) \<and>
        chain w' = (chain w)(c := remove1 (rule_of a) (chain w c))"
    and delete_missing: "rule_of a \<notin> set (chain w c) \<Longrightarrow>
      \<exists>w' e. run c (nat_args ''-D'' a) w = (w', Some e) \<and> chain w' = chain w"
    and listing: "out c [''-t'', ''nat'', ''-S'', ''PREROUTING''] w = Inr listing_text \<Longrightarrow>
      \<exists>policy \<in> {''ACCEPT'', ''DROP''}.
        listing_text = join_with [CHR 0x0A] ((''-P PREROUTING '' @ policy) # map line_of (chain w c) @ [[]])"
    and line_form: "\<exists>ps. list_all2 printed ps (args_of x) \<and> line_of x = join_with '' '' (''-A'' # ''PREROUTING'' # ps)"
    and line_single: "x \<in> set (chain w c) \<Longrightarrow> CHR 0x0A \<notin> set (line_of x)"
    and args_describe: "rule_of (args_of x) = x"
    and comment_listed: "carries_comment k (args_of (rule_of (hop_rule p port tag))) \<longleftrightarrow>
      carries_comment k (hop_rule p port tag)"

text \<open>Lists with rules taken out one at a time.\<close>

lemma fold_remove1_Cons: "x \<notin> set ys \<Longrightarrow> fold remove1 ys (x # xs) = x # fold remove1 ys xs"
  by (induction ys arbitrary: xs) auto

lemma fold_remove1_filter: "fold remove1 (filter P xs) xs = filter (\<lambda>x. \<not> P x) xs"
  by (induction xs) (simp_all add: fold_remove1_Cons)

lemma carries_comment_Cons:
  "t \<noteq> ''--comment'' \<Longrightarrow> carries_comment want (t # us) \<longleftrightarrow> carries_comment want us"
  by (cases us) simp_all

lemma carries_comment_hop_rule: "carries_comment k (hop_rule p port tag) \<longleftrightarrow> k = comment tag"
proof -
  have "Range_String p \<noteq> ''--comment''"
    using itoa_word_digits [of "From p"] by (cases "itoa (uint (From p))") (auto simp: Range_String_def is_digit_def)
  moreover have "comment tag \<noteq> ''--comment''" by (simp add: comment_def commentPrefix_def)
  ultimately show ?thesis by (auto simp: hop_rule_def ruleArgs_def)
qed

lemma stale_line_rule:
  assumes "list_all2 printed ps args"
  shows "stale_line want (join_with '' '' (''-A'' # ''PREROUTING'' # ps)) =
    (if carries_comment want args then Some args else None)"
proof -
  have "list_all2 printed (''-A'' # ''PREROUTING'' # ps) (''-A'' # ''PREROUTING'' # args)"
    using assms by (simp add: printed_def plain_arg_def)
  then have "tokenizeRule (join_with '' '' (''-A'' # ''PREROUTING'' # ps)) = ''-A'' # ''PREROUTING'' # args"
    using fold_scan_line [of "''-A''" "''PREROUTING'' # ps" "''-A''" "''PREROUTING'' # args" "[]"]
    by (simp add: tokenizeRule_def scan_start_def)
  then show ?thesis by (simp add: stale_line_def carries_comment_Cons)
qed

lemma stale_line_policy:
  "policy \<in> {''ACCEPT'', ''DROP''} \<Longrightarrow> stale_line want (''-P PREROUTING '' @ policy) = None"
  by (auto simp: stale_line_def tokenizeRule_def scan_start_def scan_char_def)

lemma stale_line_Nil: "stale_line want [] = None"
  by (simp add: stale_line_def tokenizeRule_def scan_start_def)

lemma map_filter_snoc_None: "f y = None \<Longrightarrow> List.map_filter f (xs @ [y]) = List.map_filter f xs"
  by (simp add: List.map_filter_def)

text \<open>A rule belongs to a node when it carries the node's comment; the rest of a chain is foreign to it.\<close>

definition owned :: "('r \<Rightarrow> string list) \<Rightarrow> string \<Rightarrow> 'r \<Rightarrow> bool" where
  "owned args_of tag x \<longleftrightarrow> carries_comment (comment tag) (args_of x)"

definition foreign :: "('r \<Rightarrow> string list) \<Rightarrow> string \<Rightarrow> 'r list \<Rightarrow> 'r list" where
  "foreign args_of tag xs = filter (\<lambda>x. \<not> owned args_of tag x) xs"

lemma fold_remove1_all:
  "mset zs = mset ys \<Longrightarrow> set zs \<inter> set base = {} \<Longrightarrow> fold remove1 zs (base @ ys) = base"
proof (induction zs arbitrary: ys)
  case (Cons z zs)
  then have "z \<in> set ys" by (metis list.set_intros(1) mset_eq_setD)
  with Cons.prems have "mset zs = mset (remove1 z ys)" by (metis mset_remove1 remove1.simps(2) add_mset_remove_trivial mset.simps(2))
  with Cons show ?case by (simp add: remove1_append)
qed simp

context nat_firewall begin

lemma owned_hop_rule: "owned args_of tag (rule_of (hop_rule p port tag))"
  by (simp add: owned_def comment_listed carries_comment_hop_rule)

lemma stale_line_of: "stale_line want (line_of x) = (if carries_comment want (args_of x) then Some (args_of x) else None)"
  using line_form [of x] stale_line_rule by auto

lemma staleRules_listing:
  assumes "out c [''-t'', ''nat'', ''-S'', ''PREROUTING''] w = Inr listing_text"
  shows "staleRules listing_text (comment tag) = map args_of (filter (owned args_of tag) (chain w c))"
proof -
  obtain policy where p: "policy \<in> {''ACCEPT'', ''DROP''}"
    and l: "listing_text = join_with [CHR 0x0A] ((''-P PREROUTING '' @ policy) # map line_of (chain w c) @ [[]])"
    using listing [OF assms] by blast
  have "\<forall>q \<in> set ((''-P PREROUTING '' @ policy) # map line_of (chain w c) @ [[]]). CHR 0x0A \<notin> set q"
    using p line_single by auto
  then have "split_on CHR 0x0A listing_text = (''-P PREROUTING '' @ policy) # map line_of (chain w c) @ [[]]"
    unfolding l by (intro split_join) simp_all
  moreover have "List.map_filter (stale_line want) (map line_of xs) = map args_of (filter (\<lambda>x. carries_comment want (args_of x)) xs)"
    for want xs
    by (induction xs) (simp_all add: map_filter_simps stale_line_of)
  ultimately show ?thesis
    using stale_line_policy [OF p, of "comment tag"]
    by (simp add: staleRules_def owned_def [abs_def] map_filter_simps map_filter_snoc_None stale_line_Nil)
qed

lemma delete_leftovers_chain:
  assumes "hop_run m = run" "mset xs \<subseteq># mset (chain w c)"
  shows "\<exists>w'. delete_leftovers m c (map args_of xs) errs w = (w', errs) \<and>
     chain w' = (chain w)(c := fold remove1 xs (chain w c))"
  using assms(2)
proof (induction xs arbitrary: w)
  case (Cons x xs)
  then have "x \<in> set (chain w c)"
    by (metis list.set_intros(1) mset_subset_eqD set_mset_mset)
  then obtain w1 where w1: "run c (nat_args ''-D'' (args_of x)) w = (w1, None)"
    "chain w1 = (chain w)(c := remove1 x (chain w c))"
    using delete_rule [of "args_of x" w c] by (auto simp: args_describe)
  moreover have "mset xs \<subseteq># mset (chain w1 c)"
    using Cons.prems by (simp add: w1(2) insert_subset_eq_iff)
  ultimately show ?case
    using Cons.IH [of w1] assms(1) by (auto simp: nat_args_def fun_upd_def cong: if_cong)
qed simp

lemma remove_stale_from_chain:
  assumes "hop_run m = run" "hop_output m = out"
  shows "remove_stale_from m tag cs errs w = (w', errs') \<Longrightarrow> \<exists>more. errs' = errs @ more \<and>
     (\<forall>c. foreign args_of tag (chain w' c) = foreign args_of tag (chain w c) \<and> set (chain w' c) \<subseteq> set (chain w c)) \<and>
     (more = [] \<longrightarrow> chain w' = (\<lambda>c. if c \<in> set cs then foreign args_of tag (chain w c) else chain w c))"
proof (induction cs arbitrary: errs w)
  case (Cons c cs)
  show ?case
  proof (cases "out c [''-t'', ''nat'', ''-S'', ''PREROUTING''] w")
    case (Inl e)
    then show ?thesis using Cons assms by fastforce
  next
    case (Inr shown)
    have "mset (filter (owned args_of tag) (chain w c)) \<subseteq># mset (chain w c)" by (simp add: multiset_filter_subset)
    from delete_leftovers_chain [OF assms(1) this, of errs] obtain w1 where
      "delete_leftovers m c (staleRules shown (comment tag)) errs w = (w1, errs)"
      and w1: "chain w1 = (chain w)(c := foreign args_of tag (chain w c))"
      by (auto simp: staleRules_listing [OF Inr] fold_remove1_filter foreign_def)
    with Cons.prems Inr assms have "remove_stale_from m tag cs errs w1 = (w', errs')" by simp
    from Cons.IH [OF this] obtain more where ih: "errs' = errs @ more"
      "\<And>d. foreign args_of tag (chain w' d) = foreign args_of tag (chain w1 d)"
      "\<And>d. set (chain w' d) \<subseteq> set (chain w1 d)"
      "more = [] \<Longrightarrow> chain w' = (\<lambda>c. if c \<in> set cs then foreign args_of tag (chain w1 c) else chain w1 c)"
      by auto
    have "foreign args_of tag (chain w1 d) = foreign args_of tag (chain w d)"
      "set (chain w1 d) \<subseteq> set (chain w d)" for d
      by (auto simp: w1 foreign_def)
    with ih show ?thesis by (auto simp: w1 foreign_def fun_eq_iff) blast
  qed
qed simp

lemma removeStale_chain:
  assumes "hop_run m = run" "hop_output m = out" "removeStale tag m w = (w', e)"
  shows "(\<forall>c. foreign args_of tag (chain w' c) = foreign args_of tag (chain w c) \<and> set (chain w' c) \<subseteq> set (chain w c)) \<and>
    (e = None \<and> goos m = ''linux'' \<and> hop_lookPath m iptablesCommand = None \<longrightarrow>
      chain w' = (\<lambda>c. if c \<in> set (commands m) then foreign args_of tag (chain w c) else chain w c))"
  using assms(3) remove_stale_from_chain [OF assms(1,2), of tag "commands m" "[]" w]
  by (auto simp: removeStale_def errors_Join_def split: if_splits prod.splits)

text \<open>The rules of a set of installed pairs, chain by chain.\<close>

definition rules_at :: "Redirect \<Rightarrow> installedRule list \<Rightarrow> string \<Rightarrow> 'r list" where
  "rules_at r js c =
     map (\<lambda>j. rule_of (hop_rule (snd j) (ListenPort r) (Tag r))) (filter (\<lambda>j. fst j = c) js)"

lemma rules_at_simps [simp]:
  "rules_at r [] c = []"
  "rules_at r (js @ js') c = rules_at r js c @ rules_at r js' c"
  "rules_at r ((d, p) # js) c =
     (if d = c then rule_of (hop_rule p (ListenPort r) (Tag r)) # rules_at r js c else rules_at r js c)"
  by (simp_all add: rules_at_def)

lemma rules_at_owned: "x \<in> set (rules_at r js c) \<Longrightarrow> owned args_of (Tag r) x"
  by (auto simp: rules_at_def owned_hop_rule)

lemma delete_rules_chain:
  assumes "hop_run m = run" "\<forall>c. mset (rules_at r js c) \<subseteq># mset (chain w c)"
  shows "\<exists>w'. delete_rules m r (Tag r) js errs w = (w', errs) \<and>
    chain w' = (\<lambda>c. fold remove1 (rules_at r js c) (chain w c))"
  using assms(2)
proof (induction js arbitrary: w)
  case Nil
  then show ?case by auto
next
  case (Cons j js)
  obtain c p where j: "j = (c, p)" by (cases j)
  let ?x = "rule_of (hop_rule p (ListenPort r) (Tag r))"
  have "mset (?x # rules_at r js c) \<subseteq># mset (chain w c)"
    using Cons.prems [rule_format, of c] by (simp add: j)
  then have "?x \<in> set (chain w c)" and sub: "mset (rules_at r js c) \<subseteq># mset (remove1 ?x (chain w c))"
    by (auto simp: insert_subset_eq_iff)
  then obtain w1 where w1: "run c (nat_args ''-D'' (hop_rule p (ListenPort r) (Tag r))) w = (w1, None)"
    "chain w1 = (chain w)(c := remove1 ?x (chain w c))"
    using delete_rule by blast
  moreover have "\<forall>d. mset (rules_at r js d) \<subseteq># mset (chain w1 d)"
    using Cons.prems sub by (auto simp: w1(2) j split: if_splits)
  ultimately show ?case
    using Cons.IH [of w1] assms(1) j by (auto simp: ruleArgs_nat_args fun_eq_iff)
qed

lemma undo_rules_delete: "undo_rules m r js w = fst (delete_rules m r (Tag r) js errs w)"
  by (induction js arbitrary: w errs) (auto split: prod.splits option.splits)

lemma rollback_chain:
  assumes "hop_run m = run" "\<forall>c \<in> fst ` set js. \<forall>x \<in> set (base c). \<not> owned args_of (Tag r) x"
    "\<forall>c. chain w c = base c @ rules_at r js c"
  shows "chain (rollback m js r w) = base"
proof -
  have m: "mset (rules_at r (rev js) c) = mset (rules_at r js c)" for c
    by (simp add: rules_at_def flip: rev_filter rev_map)
  moreover have "set (rules_at r (rev js) c) \<inter> set (base c) = {}" for c
    using assms(2) by (fastforce simp: rules_at_def owned_hop_rule)
  ultimately have "fold remove1 (rules_at r (rev js) c) (chain w c) = base c" for c
    using assms(3) fold_remove1_all by metis
  then show ?thesis
    using delete_rules_chain [OF assms(1), of r "rev js" w "[]"] assms(3) m
      undo_rules_delete [of m r "rev js" w "[]"] by (auto simp: rollback_def)
qed

lemma install_rules_chain:
  assumes "hop_run m = run" "\<forall>c \<in> fst ` set (js @ todo). \<forall>x \<in> set (base c). \<not> owned args_of (Tag r) x"
    "\<forall>c. chain w c = base c @ rules_at r js c" "install_rules m r todo js w = (w', e)"
  shows "chain w' = (\<lambda>c. base c @ (if e = None then rules_at r (js @ todo) c else []))"
  using assms(2,3,4)
proof (induction todo arbitrary: js w)
  case Nil
  then show ?case by auto
next
  case (Cons t todo)
  obtain c p where t: "t = (c, p)" by (cases t)
  obtain w1 f where f: "run c (nat_args ''-A'' (hop_rule p (ListenPort r) (Tag r))) w = (w1, f)" by fastforce
  show ?case
  proof (cases f)
    case None
    then have "\<forall>d. chain w1 d = base d @ rules_at r (js @ [t]) d"
      using append_rule f Cons.prems(2) t by auto
    with Cons.IH [OF _ this] Cons.prems(1) show ?thesis using Cons.prems(3) f None t assms(1)
      by (simp add: ruleArgs_nat_args cong: if_cong)
  next
    case (Some err)
    then have "\<forall>d. chain w1 d = base d @ rules_at r js d" using append_fails f Cons.prems(2) by metis
    moreover have "\<forall>c \<in> fst ` set js. \<forall>x \<in> set (base c). \<not> owned args_of (Tag r) x"
      using Cons.prems(1) by auto
    ultimately have "chain (rollback m js r w1) = base" by (intro rollback_chain assms(1))
    then show ?thesis
      using Cons.prems(3) f Some t assms(1) by (auto simp: ruleArgs_nat_args)
  qed
qed

end

text \<open>The rules a redirect puts into every chain.\<close>

definition redirect_rules :: "(string list \<Rightarrow> 'r) \<Rightarrow> Redirect \<Rightarrow> 'r list" where
  "redirect_rules rule_of r = map (\<lambda>p. rule_of (hop_rule p (ListenPort r) (Tag r))) (Ranges r)"

lemma install_rules_error:
  "install_rules m r todo js w = (w', Some e) \<Longrightarrow> \<exists>p err. e = InstallFailed p err"
proof (induction todo arbitrary: js w)
  case (Cons t todo)
  then show ?case by (cases t) (simp split: prod.splits option.splits, blast+)
qed simp

lemma commands_cases: "commands m = [iptablesCommand, ip6tablesCommand] \<or> commands m = [iptablesCommand]"
  by (simp add: commands_def)

lemma commands_forget [simp]: "commands (forget tag m) = commands m" "hop_run (forget tag m) = hop_run m"
  "hop_output (forget tag m) = hop_output m" "goos (forget tag m) = goos m"
  "hop_lookPath (forget tag m) = hop_lookPath m" "applied (forget tag m) = AList.delete tag (applied m)"
  by (simp_all add: commands_def forget_def)

lemma comment_inject: "comment s = comment t \<longleftrightarrow> s = t"
  by (simp add: comment_def)

context nat_firewall begin

lemma owned_redirect_rules:
  "x \<in> set (redirect_rules rule_of r) \<Longrightarrow> owned args_of tag x \<longleftrightarrow> tag = Tag r"
  by (auto simp: redirect_rules_def owned_def comment_listed carries_comment_hop_rule comment_inject)

lemma rules_at_targets:
  "rules_at r (rule_targets m r) c = (if c \<in> set (commands m) then redirect_rules rule_of r else [])"
proof -
  have "filter (\<lambda>j. fst j = c) (map (Pair d) ps) = (if d = c then map (Pair d) ps else [])" for d and ps :: "Range list"
    by (induction ps) simp_all
  then show ?thesis
    using commands_cases [of m]
    by (auto simp: rules_at_def rule_targets_def redirect_rules_def iptablesCommand_def ip6tablesCommand_def)
qed

lemma Apply_cases:
  assumes m: "hop_run m = run" "hop_output m = out" and a: "Apply r m w = (m', w', e)" "Ranges r \<noteq> []"
  obtains (guard) "m' = m" "w' = w" "e \<noteq> None" "\<forall>p err. e \<noteq> Some (InstallFailed p err)"
  | (unread) "m' = forget (Tag r) m" "e \<noteq> None" "\<forall>p err. e \<noteq> Some (InstallFailed p err)"
      "\<forall>c. foreign args_of (Tag r) (chain w' c) = foreign args_of (Tag r) (chain w c) \<and> set (chain w' c) \<subseteq> set (chain w c)"
  | (undone) p err where "m' = forget (Tag r) m" "e = Some (InstallFailed p err)"
      "chain w' = (\<lambda>c. if c \<in> set (commands m) then foreign args_of (Tag r) (chain w c) else chain w c)"
  | (installed) "m' = m\<lparr>applied := AList.update (Tag r) r (AList.delete (Tag r) (applied m))\<rparr>" "e = None"
      "chain w' = (\<lambda>c. if c \<in> set (commands m)
         then foreign args_of (Tag r) (chain w c) @ redirect_rules rule_of r else chain w c)"
proof (cases "goos m = ''linux'' \<and> hop_lookPath m iptablesCommand = None \<and> ListenPort r \<noteq> 0")
  case False
  then show ?thesis
    using a by (intro guard) (auto simp: Apply_def split: option.splits if_splits)
next
  case True
  let ?m = "forget (Tag r) m"
  obtain w1 e1 where s: "removeStale (Tag r) ?m w = (w1, e1)" by fastforce
  have f: "\<forall>c. foreign args_of (Tag r) (chain w1 c) = foreign args_of (Tag r) (chain w c) \<and> set (chain w1 c) \<subseteq> set (chain w c)"
    and g: "e1 = None \<Longrightarrow> chain w1 = (\<lambda>c. if c \<in> set (commands m) then foreign args_of (Tag r) (chain w c) else chain w c)"
    using removeStale_chain [OF _ _ s] m True by simp_all
  show ?thesis
  proof (cases e1)
    case (Some err)
    have "\<forall>p er. err \<noteq> InstallFailed p er"
      using s Some by (auto simp: removeStale_def errors_Join_def split: if_splits prod.splits)
    with Some f show ?thesis using a s True by (intro unread) (auto simp: Apply_def Let_def)
  next
    case None
    obtain w2 e2 where i: "install_rules ?m r (rule_targets ?m r) [] w1 = (w2, e2)" by fastforce
    have "\<forall>c \<in> fst ` set ([] @ rule_targets ?m r). \<forall>x \<in> set (chain w1 c). \<not> owned args_of (Tag r) x"
      by (auto simp: g [OF None] foreign_def rule_targets_def)
    from install_rules_chain [OF _ this _ i] have
      "chain w2 = (\<lambda>c. chain w1 c @ (if e2 = None then rules_at r (rule_targets ?m r) c else []))"
      using m by (simp cong: if_cong)
    then have c: "chain w2 = (\<lambda>c. if c \<in> set (commands m)
        then foreign args_of (Tag r) (chain w c) @ (if e2 = None then redirect_rules rule_of r else [])
        else chain w c)"
      by (cases e2) (simp_all add: g [OF None] rules_at_targets fun_eq_iff)
    show ?thesis
    proof (cases e2)
      case None
      with \<open>e1 = None\<close> c a s i True show ?thesis
        by (intro installed) (auto simp: Apply_def Let_def forget_def)
    next
      case (Some err)
      then obtain p er where "err = InstallFailed p er"
        using install_rules_error [of ?m r "rule_targets ?m r" "[]" w1 w2 err] i by auto
      with \<open>e1 = None\<close> Some c a s i True show ?thesis
        by (intro undone [of p er]) (auto simp: Apply_def Let_def)
    qed
  qed
qed

end

section \<open>Reachable managers\<close>

text \<open>
  The manager's operations and, between them, anything other programs do to the chains that leaves the rules
  carrying a comment of the manager's nodes where they are.
\<close>

datatype hop_event = HApply Redirect | HRemove string | HRemoveAll | HOther

inductive hop_step ::
  "('w \<Rightarrow> string \<Rightarrow> 'r list) \<Rightarrow> ('r \<Rightarrow> string list) \<Rightarrow> 'w Manager \<times> 'w \<Rightarrow> hop_event \<Rightarrow> 'w Manager \<times> 'w \<Rightarrow> bool"
  for chain :: "'w \<Rightarrow> string \<Rightarrow> 'r list" and args_of :: "'r \<Rightarrow> string list" where
  step_apply: "Apply r m w = (m', w', e) \<Longrightarrow> hop_step chain args_of (m, w) (HApply r) (m', w')"
| step_remove: "Remove tag m w = (m', w', e) \<Longrightarrow> hop_step chain args_of (m, w) (HRemove tag) (m', w')"
| step_remove_all: "RemoveAll m w = (m', w', e) \<Longrightarrow> hop_step chain args_of (m, w) HRemoveAll (m', w')"
| step_other: "\<forall>c tag. filter (owned args_of tag) (chain w' c) = filter (owned args_of tag) (chain w c) \<Longrightarrow>
    hop_step chain args_of (m, w) HOther (m, w')"

inductive_cases hop_stepE: "hop_step chain args_of s e s'"

definition hop_start ::
  "(string \<Rightarrow> string list \<Rightarrow> 'w \<Rightarrow> 'w \<times> string option) \<Rightarrow> (string \<Rightarrow> string list \<Rightarrow> 'w \<Rightarrow> string + string)
     \<Rightarrow> 'w Manager \<times> 'w \<Rightarrow> bool" where
  "hop_start run out s \<longleftrightarrow> (\<exists>os look. fst s = NewManager os run out look)"

definition hop_inv ::
  "(string \<Rightarrow> string list \<Rightarrow> 'w \<Rightarrow> 'w \<times> string option) \<Rightarrow> (string \<Rightarrow> string list \<Rightarrow> 'w \<Rightarrow> string + string)
     \<Rightarrow> ('w \<Rightarrow> string \<Rightarrow> 'r list) \<Rightarrow> (string list \<Rightarrow> 'r) \<Rightarrow> ('r \<Rightarrow> string list) \<Rightarrow> 'w Manager \<times> 'w \<Rightarrow> bool" where
  "hop_inv run out chain rule_of args_of s \<longleftrightarrow>
     hop_run (fst s) = run \<and> hop_output (fst s) = out \<and> keys_distinct (applied (fst s)) \<and>
     (\<forall>tag r. map_of (applied (fst s)) tag = Some r \<longrightarrow> Tag r = tag \<and>
        (\<forall>c \<in> set (commands (fst s)).
           filter (owned args_of tag) (chain (snd s) c) = redirect_rules rule_of r))"

lemma filter_owned_foreign:
  "(\<And>x. x \<in> set xs \<Longrightarrow> owned args_of tag x \<Longrightarrow> \<not> owned args_of tag' x) \<Longrightarrow>
     filter (owned args_of tag) (foreign args_of tag' xs) = filter (owned args_of tag) xs"
  by (auto simp: foreign_def intro!: filter_cong)

lemma filter_foreign_only:
  "foreign args_of tag' xs = foreign args_of tag' ys \<Longrightarrow>
   (\<And>x. x \<in> set xs \<union> set ys \<Longrightarrow> owned args_of tag x \<Longrightarrow> \<not> owned args_of tag' x) \<Longrightarrow>
     filter (owned args_of tag) xs = filter (owned args_of tag) ys"
  using filter_owned_foreign [of xs args_of tag tag'] filter_owned_foreign [of ys args_of tag tag'] by auto

context nat_firewall begin

abbreviation "hinv \<equiv> hop_inv run out chain rule_of args_of"

lemma remove_node_chain:
  assumes "hinv (m, w)"
  shows "\<exists>w'. remove_node tag m w = (forget tag m, w', None) \<and>
    chain w' = (\<lambda>c. if Applied tag m \<and> c \<in> set (commands m) then foreign args_of tag (chain w c) else chain w c)"
proof (cases "map_of (applied m) tag")
  case None
  then show ?thesis by (simp add: remove_node_def Applied_def)
next
  case (Some r)
  let ?m = "forget tag m"
  have r: "Tag r = tag" "\<And>c. c \<in> set (commands m) \<Longrightarrow> filter (owned args_of tag) (chain w c) = redirect_rules rule_of r"
    using assms Some by (auto simp: hop_inv_def)
  have at: "rules_at r (rule_targets ?m r) c =
      (if c \<in> set (commands m) then filter (owned args_of tag) (chain w c) else [])" for c
    by (simp add: rules_at_targets r(2))
  then have "\<forall>c. mset (rules_at r (rule_targets ?m r) c) \<subseteq># mset (chain w c)"
    by (simp add: multiset_filter_subset)
  moreover have "hop_run ?m = run" using assms by (simp add: hop_inv_def)
  ultimately obtain w' where "delete_rules ?m r tag (rule_targets ?m r) [] w = (w', [])"
    "chain w' = (\<lambda>c. fold remove1 (rules_at r (rule_targets ?m r) c) (chain w c))"
    using delete_rules_chain [of ?m r "rule_targets ?m r" w "[]"] r(1) by auto
  then show ?thesis
    using Some by (auto simp: remove_node_def errors_Join_def at fold_remove1_filter foreign_def Applied_def)
qed

text \<open>Two different nodes never own the same installed rule.\<close>

lemma hinv_exclusive:
  assumes "hinv (m, w)" "map_of (applied m) tag = Some r" "c \<in> set (commands m)" "x \<in> set (chain w c)"
    "owned args_of tag x" "tag \<noteq> tag'"
  shows "\<not> owned args_of tag' x"
proof -
  have eq: "filter (owned args_of tag) (chain w c) = redirect_rules rule_of r" and "Tag r = tag"
    using assms(1-3) unfolding hop_inv_def by auto
  have "x \<in> set (filter (owned args_of tag) (chain w c))" using assms(4,5) by simp
  then have "x \<in> set (redirect_rules rule_of r)" by (simp only: eq)
  with \<open>Tag r = tag\<close> show ?thesis using owned_redirect_rules [of x r tag'] assms(6) by simp
qed

lemma hinv_remove_node:
  assumes "hinv (m, w)" "remove_node tag m w = (m', w', e)"
  shows "hinv (m', w')"
proof -
  have c: "m' = forget tag m" "\<And>c. chain w' c = (if Applied tag m \<and> c \<in> set (commands m)
      then foreign args_of tag (chain w c) else chain w c)"
    using remove_node_chain [OF assms(1), of tag] assms(2) by auto
  have "filter (owned args_of t) (chain w' c) = redirect_rules rule_of r"
    if "map_of (applied m) t = Some r" "t \<noteq> tag" "c \<in> set (commands m)" for t r c
    using that assms(1) hinv_exclusive [OF assms(1) that(1,3)]
    by (auto simp: c(2) hop_inv_def filter_owned_foreign)
  then show ?thesis using assms(1) by (auto simp: hop_inv_def c(1))
qed

lemma hinv_remove_tags:
  "hinv (m, w) \<Longrightarrow> \<exists>m' w'. remove_tags tags errs m w = (m', w', errs) \<and> hinv (m', w') \<and>
     applied m' = fold AList.delete tags (applied m) \<and> commands m' = commands m \<and>
     (\<forall>c. chain w' c = (if c \<in> set (commands m)
        then filter (\<lambda>x. \<forall>t \<in> set tags. Applied t m \<longrightarrow> \<not> owned args_of t x) (chain w c) else chain w c))"
proof (induction tags arbitrary: m w)
  case Nil
  then show ?case by simp
next
  case (Cons t tags)
  let ?m = "forget t m"
  obtain w1 where w1: "remove_node t m w = (?m, w1, None)"
    "\<And>c. chain w1 c = (if Applied t m \<and> c \<in> set (commands m) then foreign args_of t (chain w c) else chain w c)"
    using remove_node_chain [OF Cons.prems, of t] by auto
  have "Applied t' ?m \<longleftrightarrow> t' \<noteq> t \<and> Applied t' m" for t'
    by (auto simp: Applied_def forget_def)
  then have "filter (\<lambda>x. \<forall>t' \<in> set tags. Applied t' ?m \<longrightarrow> \<not> owned args_of t' x) (chain w1 c) =
      filter (\<lambda>x. \<forall>t' \<in> set (t # tags). Applied t' m \<longrightarrow> \<not> owned args_of t' x) (chain w c)"
    if "c \<in> set (commands m)" for c
    using that by (auto simp: w1(2) foreign_def intro!: filter_cong)
  with Cons.IH [OF hinv_remove_node [OF Cons.prems w1(1)]] show ?case
    by (auto simp: w1)
qed

lemma fold_delete_keys: "set (map fst m) \<subseteq> set ks \<Longrightarrow> fold AList.delete ks m = []"
proof (induction ks arbitrary: m)
  case (Cons k ks)
  have "set (map fst (AList.delete k m)) \<subseteq> set ks" using Cons.prems by (auto simp: AList.delete_eq)
  with Cons.IH show ?case by simp
qed simp

lemma RemoveAll_chain:
  assumes "hinv (m, w)"
  shows "\<exists>m' w'. RemoveAll m w = (m', w', None) \<and> hinv (m', w') \<and> applied m' = [] \<and>
    (\<forall>c. chain w' c = (if c \<in> set (commands m)
       then filter (\<lambda>x. \<forall>t. Applied t m \<longrightarrow> \<not> owned args_of t x) (chain w c) else chain w c))"
proof -
  let ?tags = "sort (map fst (applied m))"
  have "Applied t m \<Longrightarrow> t \<in> set ?tags" for t
    by (auto simp: Applied_def map_of_eq_None_iff)
  then have "filter (\<lambda>x. \<forall>t \<in> set ?tags. Applied t m \<longrightarrow> \<not> owned args_of t x) xs =
      filter (\<lambda>x. \<forall>t. Applied t m \<longrightarrow> \<not> owned args_of t x) xs" for xs
    by (intro filter_cong) auto
  with hinv_remove_tags [OF assms, of ?tags "[]"] fold_delete_keys [of "applied m" ?tags]
  show ?thesis by (auto simp: RemoveAll_def errors_Join_def)
qed

end

context nat_firewall begin

lemma hinv_others:
  assumes "hinv (m, w)" "map_of (applied m) t = Some q" "t \<noteq> tag" "c \<in> set (commands m)"
    "foreign args_of tag xs = foreign args_of tag (chain w c)" "set xs \<subseteq> set (chain w c)"
  shows "filter (owned args_of t) xs = redirect_rules rule_of q"
proof -
  have "filter (owned args_of t) (chain w c) = redirect_rules rule_of q"
    using assms(1,2,4) by (auto simp: hop_inv_def)
  moreover have "filter (owned args_of t) xs = filter (owned args_of t) (chain w c)"
    using assms(5)
  proof (rule filter_foreign_only)
    fix x assume "x \<in> set xs \<union> set (chain w c)" "owned args_of t x"
    then show "\<not> owned args_of tag x"
      using hinv_exclusive [OF assms(1,2,4), of x tag] assms(3,6) by auto
  qed
  ultimately show ?thesis by (rule trans [rotated])
qed

lemma foreign_idem [simp]: "foreign args_of tag (foreign args_of tag xs) = foreign args_of tag xs"
  "set (foreign args_of tag xs) \<subseteq> set xs"
  by (auto simp: foreign_def)

lemma filter_owned_rules: "filter (owned args_of t) (redirect_rules rule_of r) =
    (if t = Tag r then redirect_rules rule_of r else [])"
  using owned_redirect_rules [of _ r t] by (auto simp: filter_empty_conv filter_id_conv)

lemma filter_owned_own: "filter (owned args_of tag) (foreign args_of tag xs) = []"
  by (auto simp: foreign_def filter_empty_conv)

lemma hinv_Apply:
  assumes i: "hinv (m, w)" and a: "Apply r m w = (m', w', e)"
  shows "hinv (m', w')"
proof (cases "Ranges r = []")
  case True
  with a i show ?thesis by (simp add: Apply_def)
next
  case False
  have m: "hop_run m = run" "hop_output m = out" "keys_distinct (applied m)"
    "\<And>t q. map_of (applied m) t = Some q \<Longrightarrow> Tag q = t"
    using i by (auto simp: hop_inv_def)
  note others = hinv_others [OF i, where tag = "Tag r"]
  from m(1,2) a False show ?thesis
  proof (cases rule: Apply_cases)
    case guard
    with i show ?thesis by simp
  next
    case unread
    then have "filter (owned args_of t) (chain w' c) = redirect_rules rule_of q"
      if "map_of (applied m) t = Some q" "t \<noteq> Tag r" "c \<in> set (commands m)" for t q c
      using others that by blast
    with unread(1) m show ?thesis by (simp add: hop_inv_def)
  next
    case (undone p err)
    have "filter (owned args_of t) (foreign args_of (Tag r) (chain w c)) = redirect_rules rule_of q"
      if "map_of (applied m) t = Some q" "t \<noteq> Tag r" "c \<in> set (commands m)" for t q c
      using others that by simp
    with undone m show ?thesis by (simp add: hop_inv_def)
  next
    case installed
    have "filter (owned args_of t) (foreign args_of (Tag r) (chain w c)) = redirect_rules rule_of q"
      if "map_of (applied m) t = Some q" "t \<noteq> Tag r" "c \<in> set (commands m)" for t q c
      using others that by simp
    moreover have "commands m' = commands m" using installed(1) by (simp add: commands_def)
    ultimately show ?thesis
      using installed m by (simp add: hop_inv_def filter_owned_rules filter_owned_own)
  qed
qed

lemma hop_component: "component (hop_start run out) (hop_step chain args_of) hinv"
proof
  show "hinv s" if "hop_start run out s" for s
    using that by (auto simp: hop_start_def hop_inv_def NewManager_def)
  show "hinv s'" if "hinv s" "hop_step chain args_of s ev s'" for s ev s'
    using that(2,1)
  proof cases
    case (step_apply r m w m' w' e)
    with that(1) hinv_Apply show ?thesis by blast
  next
    case (step_remove tag m w m' w' e)
    with that(1) hinv_remove_node show ?thesis by (auto simp: Remove_def)
  next
    case (step_remove_all m w m' w' e)
    with that(1) RemoveAll_chain [of m w] show ?thesis by auto
  next
    case (step_other w' w m)
    with that(1) show ?thesis by (simp add: hop_inv_def)
  qed
qed

end

sublocale nat_firewall \<subseteq> hop: component "hop_start run out" "hop_step chain args_of" hinv
  by (rule hop_component)

end
