(* ===== verification/Porthop_Correct.thy ===== *)
theory Porthop_Correct
  imports Porthop_Firewall
begin

text \<open>
  A firewall that satisfies the contract \<open>nat_firewall\<close>, and the properties of the port hopping manager for
  every firewall that does.
\<close>

section \<open>A firewall\<close>

text \<open>
  The chains are lists of argument lists. A rule whose arguments hold a line break is refused, and so
  is the fourth rule of a chain; an argument is
  printed bare when it can be, and quoted otherwise.
\<close>

type_synonym fw = "string \<Rightarrow> string list list"

definition one_line :: "string list \<Rightarrow> bool" where
  "one_line rule \<longleftrightarrow> list_all (\<lambda>a. CHR 0x0A \<notin> set a) rule"

definition fw_chain :: "fw \<Rightarrow> string \<Rightarrow> string list list" where
  "fw_chain w c = filter one_line (w c)"

definition fw_run :: "string \<Rightarrow> string list \<Rightarrow> fw \<Rightarrow> fw \<times> string option" where
  "fw_run c args w =
     (let action = args ! 2; rule = drop 4 args in
      if length args < 4 \<or> \<not> one_line rule then (w, Some ''bad rule'')
      else if action = ''-A''
        then (if 3 \<le> length (w c) then (w, Some ''chain is full'') else (w(c := w c @ [rule]), None))
      else if action = ''-D'' \<and> rule \<in> set (w c) then (w(c := remove1 rule (w c)), None)
      else (w, Some ''no such rule''))"

definition fw_arg :: "string \<Rightarrow> string" where
  "fw_arg a = (if plain_arg a then a else quote_arg a)"

definition fw_line :: "string list \<Rightarrow> string" where
  "fw_line rule = join_with '' '' (''-A'' # ''PREROUTING'' # map fw_arg rule)"

definition fw_output :: "string \<Rightarrow> string list \<Rightarrow> fw \<Rightarrow> string + string" where
  "fw_output c args w =
     Inr (join_with [CHR 0x0A] (''-P PREROUTING ACCEPT'' # map fw_line (fw_chain w c) @ [[]]))"

lemma fw_arg_printed: "list_all2 printed (map fw_arg rule) rule"
  by (induction rule) (simp_all add: fw_arg_def printed_def)

lemma join_with_chars: "set (join_with sep ss) \<subseteq> set sep \<union> \<Union> (set ` set ss)"
  by (induction sep ss rule: join_with.induct) auto

lemma fw_line_one_line: "one_line rule \<Longrightarrow> CHR 0x0A \<notin> set (fw_line rule)"
proof -
  assume "one_line rule"
  then have "\<forall>a \<in> set rule. CHR 0x0A \<notin> set (fw_arg a)"
    by (auto simp: one_line_def list_all_iff fw_arg_def quote_arg_def escape_arg_def)
  then have "\<forall>s \<in> set (''-A'' # ''PREROUTING'' # map fw_arg rule). CHR 0x0A \<notin> set s" by simp
  then show ?thesis
    using join_with_chars [of "'' ''" "''-A'' # ''PREROUTING'' # map fw_arg rule"] unfolding fw_line_def by fastforce
qed

interpretation fw: nat_firewall fw_run fw_output fw_chain id id fw_line
proof
  fix c a and w w' :: fw and e
  show "fw_run c (nat_args ''-A'' a) w = (w', None) \<Longrightarrow>
      fw_chain w' = (fw_chain w)(c := fw_chain w c @ [id a])"
    by (intro ext) (auto simp: fw_run_def nat_args_def Let_def fw_chain_def split: if_splits)
  show "fw_run c (nat_args ''-A'' a) w = (w', Some e) \<Longrightarrow> fw_chain w' = fw_chain w"
    by (auto simp: fw_run_def nat_args_def Let_def split: if_splits)
  show "id a \<in> set (fw_chain w c) \<Longrightarrow> \<exists>w'. fw_run c (nat_args ''-D'' a) w = (w', None) \<and>
      fw_chain w' = (fw_chain w)(c := remove1 (id a) (fw_chain w c))"
    by (intro exI [of _ "w(c := remove1 a (w c))"])
       (auto simp: fw_run_def nat_args_def Let_def fw_chain_def fun_eq_iff filter_remove1)
  show "id a \<notin> set (fw_chain w c) \<Longrightarrow> \<exists>w' e. fw_run c (nat_args ''-D'' a) w = (w', Some e) \<and>
      fw_chain w' = fw_chain w"
    by (auto simp: fw_run_def nat_args_def Let_def fw_chain_def)
  fix l :: string
  show "fw_output c [''-t'', ''nat'', ''-S'', ''PREROUTING''] w = Inr l \<Longrightarrow>
      \<exists>policy \<in> {''ACCEPT'', ''DROP''}.
        l = join_with [CHR 0x0A] ((''-P PREROUTING '' @ policy) # map fw_line (fw_chain w c) @ [[]])"
    by (auto simp: fw_output_def)
  fix x :: "string list"
  show "\<exists>ps. list_all2 printed ps (id x) \<and> fw_line x = join_with '' '' (''-A'' # ''PREROUTING'' # ps)"
    using fw_arg_printed [of x] by (auto simp: fw_line_def)
  show "x \<in> set (fw_chain w c) \<Longrightarrow> CHR 0x0A \<notin> set (fw_line x)"
    by (simp add: fw_chain_def fw_line_one_line)
qed simp_all

definition fw_manager :: "fw Manager" where
  "fw_manager = NewManager ''linux'' fw_run fw_output (\<lambda>name. if name = ''iptables'' then None else Some ''not found'')"

definition fw_redirect :: Redirect where
  "fw_redirect = \<lparr>Tag = ''n'', ListenPort = 443, Ranges = [\<lparr>From = 5, To = 5\<rparr>]\<rparr>"

section \<open>Properties\<close>

text \<open>
  C27. Installing a redirect is exact and idempotent: when \<open>Apply\<close> succeeds, every chain it drives holds its
  former rules less those carrying the node's comment, followed by one rule per range, and the other chains
  are unchanged. Hand-written rules and the rules of other nodes stay, leftovers of an earlier run do not
  stack up, and the manager remembers the redirect.
\<close>

theorem Apply_installs:
  assumes "nat_firewall (hop_run m) (hop_output m) chain rule_of args_of line_of"
    and "Apply r m w = (m', w', None)" "Ranges r \<noteq> []"
  shows "map_of (applied m') (Tag r) = Some r \<and>
    (\<forall>c. chain w' c =
      (if c \<in> set (commands m)
       then filter (\<lambda>x. \<not> owned args_of (Tag r) x) (chain w c) @
            map (\<lambda>p. rule_of (hop_rule p (ListenPort r) (Tag r))) (Ranges r)
       else chain w c))"
  by (rule nat_firewall.Apply_cases [OF assms(1) refl refl assms(2,3)])
     (simp_all add: foreign_def redirect_rules_def)

lemma fw_contract: "nat_firewall (hop_run fw_manager) (hop_output fw_manager) fw_chain id id fw_line"
  by (simp add: fw_manager_def NewManager_def fw.nat_firewall_axioms)

lemmas fw_eval =
  fw_manager_def NewManager_def fw_run_def fw_output_def fw_chain_def one_line_def fw_line_def fw_arg_def
  plain_arg_def removeStale_def commands_def iptablesCommand_def ip6tablesCommand_def forget_def
  staleRules_def map_filter_simps stale_line_def tokenizeRule_def scan_start_def scan_char_def
  rule_targets_def ruleArgs_def Range_String_def itoa_def show_nat.simps digit_char_def char_of_def bit_0
  comment_def commentPrefix_def errors_Join_def rollback_def nat_args_def hop_rule_def

lemma fw_stale: "remove_stale_from (forget tag fw_manager) ''n'' [''iptables''] [] (\<lambda>c. [[''x'']]) = ((\<lambda>c. [[''x'']]), [])"
  by (simp add: fw_eval)

theorem Apply_installs_witness:
  "\<exists>m' w'. Apply fw_redirect fw_manager (\<lambda>c. [[''x'']]) = (m', w', None) \<and>
     fw_chain w' ''iptables'' = [[''x''], hop_rule \<lparr>From = 5, To = 5\<rparr> 443 ''n'']"
proof -
  obtain m' w' where a: "Apply fw_redirect fw_manager (\<lambda>c. [[''x'']]) = (m', w', None)"
    using fw_stale [of "''n''"] by (simp add: Apply_def fw_redirect_def fw_eval)
  show ?thesis
    using a Apply_installs [OF fw_contract a] 
    by (simp add: fw_redirect_def fw_manager_def NewManager_def commands_def iptablesCommand_def ip6tablesCommand_def
         fw_chain_def one_line_def owned_def comment_def commentPrefix_def)
qed

text \<open>
  A failed installation leaves nothing behind: when the firewall refuses a rule, the rules already
  installed are taken back, every chain the manager drives holds exactly the rules that do not carry the
  node's comment, in their order, the other chains are unchanged, and the node is not recorded as applied.
\<close>

theorem Apply_rolls_back:
  assumes "nat_firewall (hop_run m) (hop_output m) chain rule_of args_of line_of"
    and "Apply r m w = (m', w', Some (InstallFailed p err))"
  shows "\<not> Applied (Tag r) m' \<and>
    (\<forall>c. chain w' c =
      (if c \<in> set (commands m) then filter (\<lambda>x. \<not> owned args_of (Tag r) x) (chain w c) else chain w c))"
proof (cases "Ranges r = []")
  case True
  with assms(2) show ?thesis by (simp add: Apply_def)
next
  case False
  show ?thesis
    by (rule nat_firewall.Apply_cases [OF assms(1) refl refl assms(2) False])
       (simp_all add: foreign_def Applied_def)
qed

theorem Apply_rolls_back_witness:
  "\<exists>m' w' p err. Apply (fw_redirect\<lparr>Ranges := [\<lparr>From = 5, To = 5\<rparr>, \<lparr>From = 6, To = 6\<rparr>, \<lparr>From = 7, To = 7\<rparr>]\<rparr>) fw_manager
      (\<lambda>c. [[''x'']]) = (m', w', Some (InstallFailed p err)) \<and>
     fw_chain w' ''iptables'' = [[''x'']]"
proof -
  let ?r = "fw_redirect\<lparr>Ranges := [\<lparr>From = 5, To = 5\<rparr>, \<lparr>From = 6, To = 6\<rparr>, \<lparr>From = 7, To = 7\<rparr>]\<rparr>"
  obtain m' w' p err where a: "Apply ?r fw_manager (\<lambda>c. [[''x'']]) = (m', w', Some (InstallFailed p err))"
    using fw_stale [of "''n''"] by (simp add: Apply_def fw_redirect_def fw_eval)
  show ?thesis
    using a Apply_rolls_back [OF fw_contract a]
    by (simp add: fw_redirect_def fw_manager_def NewManager_def commands_def iptablesCommand_def ip6tablesCommand_def
         fw_chain_def one_line_def owned_def comment_def commentPrefix_def)
qed



end
