(* ===== verification/Panel_Types.thy ===== *)
theory Panel_Types
  imports Prelude
begin

text \<open>
  The values the panel client (\<^verbatim>\<open>api/panel\<close>) hands to the limiter, the cores and the node controller:
  users, their traffic, online devices and blocking rules; and the tag under which a node keeps a user
  (\<^verbatim>\<open>common/format/user.go\<close>).
\<close>

record UserInfo =
  u_Id :: int
  u_Uuid :: string
  u_SpeedLimit :: int
  u_DeviceLimit :: int

record OnlineUser =
  on_UID :: int
  on_IP :: string

record UserTraffic =
  t_UID :: int
  t_Upload :: int
  t_Download :: int

record Rules =
  r_Regexp :: "string list"
  r_Protocol :: "string list"

definition UserTag :: "string \<Rightarrow> string \<Rightarrow> string" where
  "UserTag tag uuid = tag @ ''|'' @ uuid"

lemma UserTag_inject [simp]: "UserTag tag u = UserTag tag v \<longleftrightarrow> u = v"
  by (simp add: UserTag_def)

end
