(* ===== verification/Json.thy ===== *)
theory Json
  imports Prelude Complex_Main "HOL-Library.Log_Nat" "HOL-Library.Monad_Syntax"
begin

text \<open>
  What the program uses of \<^verbatim>\<open>encoding/json\<close>. A message is a JSON value; reading its text into that value is the
  library's scanner. Decoding a value into a Go variable is modelled as the library documents it: a decoder
  takes the variable's present value and the JSON value and gives the new value, or \<^const>\<open>None\<close> for an error.
  \<^verbatim>\<open>null\<close> leaves a scalar, a struct and an array alone and empties a pointer, a slice or a map; an object is
  decoded into a struct key by key, a key naming the field with that tag, or else the first field whose tag
  differs in case only; other keys are ignored.

  A number keeps its text, as the decoder of an integer looks at it; \<open>f64\<close> is the nearest 64-bit floating
  point number, with ties to even.
\<close>

section \<open>Floating point\<close>

definition round_even :: "rat \<Rightarrow> int" where
  "round_even q =
     (let d = \<lfloor>q\<rfloor>; r = q - of_int d in
      if r < 1 / 2 then d else if 1 / 2 < r then d + 1 else if even d then d else d + 1)"

text \<open>\<open>rat_log q\<close> is the exponent of the leading bit of a positive rational.\<close>

definition pow2 :: "int \<Rightarrow> rat" where
  "pow2 e = (if 0 \<le> e then 2 ^ nat e else 1 / 2 ^ nat (- e))"

definition rat_log :: "rat \<Rightarrow> int" where
  "rat_log q =
     (let (a, b) = quotient_of q;
          e = int (floorlog 2 (nat a)) - int (floorlog 2 (nat b))
      in if pow2 e \<le> q then e else e - 1)"

definition f64 :: "rat \<Rightarrow> rat" where
  "f64 q =
     (if q = 0 then 0
      else let ulp = pow2 (max (rat_log \<bar>q\<bar> - 52) (- 1074))
           in of_int (round_even (q / ulp)) * ulp)"

text \<open>Conversion to an integer drops the fraction.\<close>

definition trunc_rat :: "rat \<Rightarrow> int" where
  "trunc_rat q = (if 0 \<le> q then \<lfloor>q\<rfloor> else - \<lfloor>- q\<rfloor>)"

section \<open>Values\<close>

datatype json = JNull | JBool bool | JNum string | JStr string | JArr "json list" | JObj "(string \<times> json) list"

text \<open>The value of a number's text: sign, integer part, fraction, exponent.\<close>

definition num_value :: "string \<Rightarrow> rat" where
  "num_value s =
     (let (sg, t) = (case s of c # cs \<Rightarrow> if c = CHR ''-'' then (- 1, cs) else (1, s) | [] \<Rightarrow> (1, []));
          mant = takeWhile (\<lambda>c. c \<noteq> CHR ''e'' \<and> c \<noteq> CHR ''E'') t;
          ex = drop (length mant + 1) t;
          ip = takeWhile (\<lambda>c. c \<noteq> CHR ''.'') mant;
          fp = drop (length ip + 1) mant;
          e = (case atoi ex of None \<Rightarrow> 0 | Some v \<Rightarrow> v) - int (length fp);
          m = of_nat (decimal_value (ip @ fp))
      in sg * m * (if 0 \<le> e then 10 ^ nat e else 1 / 10 ^ nat (- e)))"

definition json_float :: "string \<Rightarrow> rat" where
  "json_float s = f64 (num_value s)"

section \<open>Decoding\<close>

definition into_string :: "string \<Rightarrow> json \<Rightarrow> string option" where
  "into_string old j = (case j of JNull \<Rightarrow> Some old | JStr s \<Rightarrow> Some s | _ \<Rightarrow> None)"

definition into_bool :: "bool \<Rightarrow> json \<Rightarrow> bool option" where
  "into_bool old j = (case j of JNull \<Rightarrow> Some old | JBool b \<Rightarrow> Some b | _ \<Rightarrow> None)"

text \<open>An integer must be written with digits only, and fit.\<close>

definition into_int :: "int \<Rightarrow> json \<Rightarrow> int option" where
  "into_int old j = (case j of JNull \<Rightarrow> Some old | JNum s \<Rightarrow> atoi s | _ \<Rightarrow> None)"

definition parse_uint :: "string \<Rightarrow> int option" where
  "parse_uint s =
     (if all_digits s \<and> int (decimal_value s) < 2 ^ 64 then Some (int (decimal_value s)) else None)"

definition into_uint64 :: "int \<Rightarrow> json \<Rightarrow> int option" where
  "into_uint64 old j = (case j of JNull \<Rightarrow> Some old | JNum s \<Rightarrow> parse_uint s | _ \<Rightarrow> None)"

text \<open>The tag option \<^verbatim>\<open>string\<close>: the number is quoted.\<close>

definition into_uint64_quoted :: "int \<Rightarrow> json \<Rightarrow> int option" where
  "into_uint64_quoted old j = (case j of JNull \<Rightarrow> Some old | JStr s \<Rightarrow> parse_uint s | _ \<Rightarrow> None)"

definition into_raw :: "json option \<Rightarrow> json \<Rightarrow> json option option" where
  "into_raw old j = Some (Some j)"

definition into_any :: "json \<Rightarrow> json \<Rightarrow> json option" where
  "into_any old j = Some j"

definition into_ptr :: "'a \<Rightarrow> ('a \<Rightarrow> json \<Rightarrow> 'a option) \<Rightarrow> 'a option \<Rightarrow> json \<Rightarrow> 'a option option" where
  "into_ptr zero into old j =
     (if j = JNull then Some None
      else map_option Some (into (case old of None \<Rightarrow> zero | Some v \<Rightarrow> v) j))"

fun into_elems :: "'a \<Rightarrow> ('a \<Rightarrow> json \<Rightarrow> 'a option) \<Rightarrow> json list \<Rightarrow> 'a list option" where
  "into_elems zero into [] = Some []"
| "into_elems zero into (j # js) = do { x \<leftarrow> into zero j; xs \<leftarrow> into_elems zero into js; Some (x # xs) }"

definition into_list :: "'a \<Rightarrow> ('a \<Rightarrow> json \<Rightarrow> 'a option) \<Rightarrow> 'a list \<Rightarrow> json \<Rightarrow> 'a list option" where
  "into_list zero into old j = (case j of JNull \<Rightarrow> Some [] | JArr js \<Rightarrow> into_elems zero into js | _ \<Rightarrow> None)"

fun into_entries ::
  "(string \<Rightarrow> 'k option) \<Rightarrow> 'a \<Rightarrow> ('a \<Rightarrow> json \<Rightarrow> 'a option) \<Rightarrow> ('k, 'a) gomap \<Rightarrow> (string \<times> json) list
     \<Rightarrow> ('k, 'a) gomap option" where
  "into_entries key zero into m [] = Some m"
| "into_entries key zero into m ((k, j) # kvs) =
     do { k' \<leftarrow> key k; x \<leftarrow> into zero j; into_entries key zero into (AList.update k' x m) kvs }"

definition into_map ::
  "(string \<Rightarrow> 'k option) \<Rightarrow> 'a \<Rightarrow> ('a \<Rightarrow> json \<Rightarrow> 'a option) \<Rightarrow> ('k, 'a) gomap \<Rightarrow> json \<Rightarrow> ('k, 'a) gomap option" where
  "into_map key zero into old j =
     (case j of JNull \<Rightarrow> Some [] | JObj kvs \<Rightarrow> into_entries key zero into old kvs | _ \<Rightarrow> None)"

subsection \<open>Structs\<close>

type_synonym 's fields = "(string \<times> ('s \<Rightarrow> json \<Rightarrow> 's option)) list"

definition fld :: "('s \<Rightarrow> 'a) \<Rightarrow> (('a \<Rightarrow> 'a) \<Rightarrow> 's \<Rightarrow> 's) \<Rightarrow> ('a \<Rightarrow> json \<Rightarrow> 'a option) \<Rightarrow> 's \<Rightarrow> json \<Rightarrow> 's option" where
  "fld get upd into s j = map_option (\<lambda>v. upd (\<lambda>_. v) s) (into (get s) j)"

text \<open>The fields of an embedded struct are fields of the outer one, unless the outer one has that tag itself.\<close>

definition embed ::
  "('s \<Rightarrow> 'e) \<Rightarrow> (('e \<Rightarrow> 'e) \<Rightarrow> 's \<Rightarrow> 's) \<Rightarrow> string list \<Rightarrow> 'e fields \<Rightarrow> 's fields" where
  "embed get upd shadowed fs =
     map (\<lambda>(n, f). (n, \<lambda>s j. map_option (\<lambda>v. upd (\<lambda>_. v) s) (f (get s) j)))
       (filter (\<lambda>(n, f). n \<notin> set shadowed) fs)"

definition field_named :: "string list \<Rightarrow> string \<Rightarrow> string option" where
  "field_named names k =
     (if k \<in> set names then Some k else find (\<lambda>n. to_lower n = to_lower k) names)"

fun decode_keys :: "'s fields \<Rightarrow> 's \<Rightarrow> (string \<times> json) list \<Rightarrow> 's option" where
  "decode_keys fs s [] = Some s"
| "decode_keys fs s ((k, j) # kvs) =
     (case Option.bind (field_named (map fst fs) k) (map_of fs) of
        None \<Rightarrow> decode_keys fs s kvs
      | Some f \<Rightarrow> (case f s j of None \<Rightarrow> None | Some s' \<Rightarrow> decode_keys fs s' kvs))"

definition into_struct :: "'s fields \<Rightarrow> 's \<Rightarrow> json \<Rightarrow> 's option" where
  "into_struct fs s j = (case j of JNull \<Rightarrow> Some s | JObj kvs \<Rightarrow> decode_keys fs s kvs | _ \<Rightarrow> None)"

text \<open>
  A key that names no field is ignored, and a property of the result that every field keeps is a property of
  the whole.
\<close>

lemma decode_keys_unknown:
  "field_named (map fst fs) k = None \<Longrightarrow> decode_keys fs s ((k, j) # kvs) = decode_keys fs s kvs"
  by simp

lemma decode_keys_inv:
  assumes "\<And>n f s j s'. (n, f) \<in> set fs \<Longrightarrow> P s \<Longrightarrow> f s j = Some s' \<Longrightarrow> P s'"
  shows "P s \<Longrightarrow> decode_keys fs s kvs = Some s' \<Longrightarrow> P s'"
proof (induction kvs arbitrary: s)
  case (Cons kv kvs)
  obtain k j where kv: "kv = (k, j)" by (cases kv)
  show ?case
  proof (cases "Option.bind (field_named (map fst fs) k) (map_of fs)")
    case None
    with Cons kv show ?thesis by simp
  next
    case (Some f)
    then obtain n where "(n, f) \<in> set fs" by (auto simp: bind_eq_Some_conv dest: map_of_SomeD)
    moreover obtain s1 where "f s j = Some s1" "decode_keys fs s1 kvs = Some s'"
      using Cons.prems(2) Some kv by (auto split: option.splits)
    ultimately show ?thesis using Cons.IH [of s1] Cons.prems(1) assms by blast
  qed
qed simp

lemma into_elems_length: "into_elems zero into js = Some xs \<Longrightarrow> length xs = length js"
  by (induction js arbitrary: xs) (auto simp: bind_eq_Some_conv)

lemma into_entries_distinct:
  "keys_distinct m \<Longrightarrow> into_entries key zero into m kvs = Some m' \<Longrightarrow> keys_distinct m'"
proof (induction kvs arbitrary: m)
  case (Cons kv kvs)
  obtain k j where kv: "kv = (k, j)" by (cases kv)
  with Cons.prems(2) obtain k' x where "into_entries key zero into (AList.update k' x m) kvs = Some m'"
    by (auto simp: bind_eq_Some_conv)
  with Cons.IH [of "AList.update k' x m"] Cons.prems(1) show ?case by simp
qed simp

end
