(* ===== verification/Netip.thy ===== *)
theory Netip
  imports Prelude
begin

text \<open>
  The part of Go's \<^verbatim>\<open>net/netip\<close> the sources use: \<^verbatim>\<open>ParseAddr\<close>, \<^verbatim>\<open>Addr.Unmap\<close>, \<^verbatim>\<open>Addr.String\<close>,
  \<^verbatim>\<open>ParsePrefix\<close>, \<^verbatim>\<open>Prefix.Masked\<close> and \<^verbatim>\<open>Prefix.Contains\<close>. The callers only look at whether a parse
  failed, so a parse error is \<^const>\<open>None\<close>. An IPv6 address carries its zone, empty when it has none.
\<close>

unbundle bit_operations_syntax

datatype ip_addr = IPv4 "32 word" | IPv6 "128 word" string

section \<open>Parsing\<close>

definition octet :: "string \<Rightarrow> nat option" where
  "octet s = (if all_digits s \<and> (length s = 1 \<or> hd s \<noteq> CHR ''0'') \<and> decimal_value s \<le> 255
              then Some (decimal_value s) else None)"

definition parse_v4_fields :: "string \<Rightarrow> nat list option" where
  "parse_v4_fields s =
     (let fs = map octet (split_on CHR ''.'' s)
      in if length fs = 4 \<and> None \<notin> set fs then Some (map the fs) else None)"

definition v4_of_octets :: "nat list \<Rightarrow> 32 word" where
  "v4_of_octets os = foldl (\<lambda>w o'. push_bit 8 w OR of_nat o') 0 os"

definition hex_value :: "char \<Rightarrow> nat option" where
  "hex_value c =
     (let n = (of_char c :: nat)
      in if 48 \<le> n \<and> n \<le> 57 then Some (n - 48)
         else if 97 \<le> n \<and> n \<le> 102 then Some (n - 87)
         else if 65 \<le> n \<and> n \<le> 70 then Some (n - 55) else None)"

text \<open>The leading hex digits of a group: their value, how many there are, and the rest.\<close>

fun scan_hex :: "nat \<Rightarrow> nat \<Rightarrow> string \<Rightarrow> nat \<times> nat \<times> string" where
  "scan_hex acc k [] = (acc, k, [])"
| "scan_hex acc k (c # cs) =
     (case hex_value c of None \<Rightarrow> (acc, k, c # cs) | Some d \<Rightarrow> scan_hex (16 * acc + d) (Suc k) cs)"

lemma scan_hex_length: "scan_hex acc k s = (v, k', r) \<Longrightarrow> length r + k' = length s + k"
  by (induction acc k s rule: scan_hex.induct) (auto split: option.splits)

text \<open>
  The group loop of \<^verbatim>\<open>parseIPv6\<close>: \<open>gs\<close> holds the groups read so far, \<open>ell\<close> the number of groups
  before a \<^verbatim>\<open>::\<close>. It ends with the string used up or with eight groups.
\<close>

function parse_groups :: "nat list \<Rightarrow> nat option \<Rightarrow> string \<Rightarrow> (nat list \<times> nat option) option" where
  "parse_groups gs ell s =
     (if 8 \<le> length gs then (if s = [] then Some (gs, ell) else None)
      else (case scan_hex 0 0 s of (acc, k, r) \<Rightarrow>
        if k = 0 \<or> 4 < k then None
        else if r \<noteq> [] \<and> hd r = CHR ''.'' then
          (if (ell = None \<and> length gs \<noteq> 6) \<or> 6 < length gs then None
           else (case parse_v4_fields s of
                   Some [a, b, c, d] \<Rightarrow> Some (gs @ [256 * a + b, 256 * c + d], ell)
                 | _ \<Rightarrow> None))
        else if r = [] then Some (gs @ [acc], ell)
        else if hd r \<noteq> CHR '':'' \<or> length r = 1 then None
        else if hd (tl r) = CHR '':'' then
          (if ell \<noteq> None then None
           else if tl (tl r) = [] then Some (gs @ [acc], Some (Suc (length gs)))
           else parse_groups (gs @ [acc]) (Some (Suc (length gs))) (tl (tl r)))
        else parse_groups (gs @ [acc]) ell (tl r)))"
  by pat_completeness auto
termination
  by (relation "measure (\<lambda>(gs, ell, s). 8 - length gs)") auto

declare parse_groups.simps [simp del]

definition expand_groups :: "nat list \<times> nat option \<Rightarrow> nat list option" where
  "expand_groups p = (case p of (gs, ell) \<Rightarrow>
     if length gs < 8 then
       (case ell of None \<Rightarrow> None
        | Some e \<Rightarrow> Some (take e gs @ replicate (8 - length gs) 0 @ drop e gs))
     else if ell \<noteq> None then None else Some gs)"

definition v6_of_groups :: "nat list \<Rightarrow> 128 word" where
  "v6_of_groups gs = foldl (\<lambda>w g. push_bit 16 w OR of_nat g) 0 gs"

definition parse_v6 :: "string \<Rightarrow> ip_addr option" where
  "parse_v6 s =
     (let addr = takeWhile (\<lambda>c. c \<noteq> CHR ''%'') s;
          zone = tl (dropWhile (\<lambda>c. c \<noteq> CHR ''%'') s)
      in if CHR ''%'' \<in> set s \<and> zone = [] then None
         else if addr = ''::'' then Some (IPv6 0 zone)
         else
           (case Option.bind
                   (if has_prefix addr ''::'' then parse_groups [] (Some 0) (drop 2 addr)
                    else parse_groups [] None addr) expand_groups of
              None \<Rightarrow> None
            | Some gs \<Rightarrow> Some (IPv6 (v6_of_groups gs) zone)))"

text \<open>The first dot, colon or percent sign decides the address family.\<close>

definition parse_addr :: "string \<Rightarrow> ip_addr option" where
  "parse_addr s =
     (case find (\<lambda>c. c = CHR ''.'' \<or> c = CHR '':'' \<or> c = CHR ''%'') s of
        None \<Rightarrow> None
      | Some c \<Rightarrow>
          if c = CHR ''.'' then map_option (\<lambda>os. IPv4 (v4_of_octets os)) (parse_v4_fields s)
          else if c = CHR '':'' then parse_v6 s else None)"

section \<open>Printing\<close>

definition octets_of_v4 :: "32 word \<Rightarrow> nat list" where
  "octets_of_v4 w = map (\<lambda>i. unat (drop_bit (8 * i) w AND 255)) [3, 2, 1, 0]"

definition groups_of_v6 :: "128 word \<Rightarrow> nat list" where
  "groups_of_v6 w = map (\<lambda>i. unat (drop_bit (16 * i) w AND 65535)) [7, 6, 5, 4, 3, 2, 1, 0]"

definition show_v4 :: "32 word \<Rightarrow> string" where
  "show_v4 w = join_with ''.'' (map show_nat (octets_of_v4 w))"

definition hex_char :: "nat \<Rightarrow> char" where
  "hex_char d = (if d < 10 then char_of (48 + d) else char_of (87 + d))"

fun show_hex :: "nat \<Rightarrow> string" where
  "show_hex n = (if n < 16 then [hex_char n] else show_hex (n div 16) @ [hex_char (n mod 16)])"

declare show_hex.simps [simp del]

text \<open>The first longest run of at least two zero groups is printed as \<^verbatim>\<open>::\<close>.\<close>

definition zero_run :: "nat list \<Rightarrow> nat \<times> nat" where
  "zero_run gs = foldl (\<lambda>(a, b) i.
       let j = i + length (takeWhile (\<lambda>g. g = 0) (drop i gs))
       in if 2 \<le> j - i \<and> b - a < j - i then (i, j) else (a, b)) (8, 8) [0..<8]"

definition show_v6_groups :: "nat list \<Rightarrow> string" where
  "show_v6_groups gs = (case zero_run gs of (a, b) \<Rightarrow>
     if a < b then join_with '':'' (map show_hex (take a gs)) @ ''::''
                    @ join_with '':'' (map show_hex (drop b gs))
     else join_with '':'' (map show_hex gs))"

definition is_4in6 :: "ip_addr \<Rightarrow> bool" where
  "is_4in6 a = (case a of IPv4 _ \<Rightarrow> False | IPv6 w _ \<Rightarrow> drop_bit 32 w = 65535)"

definition unmap :: "ip_addr \<Rightarrow> ip_addr" where
  "unmap a = (case a of IPv4 w \<Rightarrow> IPv4 w
              | IPv6 w z \<Rightarrow> if is_4in6 (IPv6 w z) then IPv4 (ucast w) else IPv6 w z)"

definition show_addr :: "ip_addr \<Rightarrow> string" where
  "show_addr a = (case a of IPv4 w \<Rightarrow> show_v4 w
     | IPv6 w z \<Rightarrow>
         (if is_4in6 (IPv6 w z) then ''::ffff:'' @ show_v4 (ucast w)
          else show_v6_groups (groups_of_v6 w))
         @ (if z = [] then [] else CHR ''%'' # z))"

definition bit_len :: "ip_addr \<Rightarrow> nat" where
  "bit_len a = (case a of IPv4 _ \<Rightarrow> 32 | IPv6 _ _ \<Rightarrow> 128)"

section \<open>Prefixes\<close>

type_synonym ip_prefix = "ip_addr \<times> nat"

definition mask_addr :: "ip_addr \<Rightarrow> nat \<Rightarrow> ip_addr" where
  "mask_addr a b = (case a of
       IPv4 w \<Rightarrow> IPv4 (push_bit (32 - b) (drop_bit (32 - b) w))
     | IPv6 w _ \<Rightarrow> IPv6 (push_bit (128 - b) (drop_bit (128 - b) w)) [])"

definition masked :: "ip_prefix \<Rightarrow> ip_prefix" where
  "masked p = (mask_addr (fst p) (snd p), snd p)"

text \<open>
  \<^verbatim>\<open>ParsePrefix\<close> splits at the last slash, refuses a zone, and takes a length of decimal digits with no
  leading zero that fits the address family.
\<close>

definition parse_prefix :: "string \<Rightarrow> ip_prefix option" where
  "parse_prefix s =
     (if CHR ''/'' \<notin> set s then None
      else
        (let bits = rev (takeWhile (\<lambda>c. c \<noteq> CHR ''/'') (rev s));
             addr = rev (tl (dropWhile (\<lambda>c. c \<noteq> CHR ''/'') (rev s)))
         in (case parse_addr addr of None \<Rightarrow> None
             | Some a \<Rightarrow>
                 if (case a of IPv6 _ z \<Rightarrow> z \<noteq> [] | _ \<Rightarrow> False) then None
                 else if \<not> all_digits bits \<or> (1 < length bits \<and> hd bits = CHR ''0'') then None
                 else if bit_len a < decimal_value bits then None
                 else Some (a, decimal_value bits))))"

definition prefix_contains :: "ip_prefix \<Rightarrow> ip_addr \<Rightarrow> bool" where
  "prefix_contains p a = (case (fst p, a) of
       (IPv4 w, IPv4 v) \<Rightarrow> drop_bit (32 - snd p) (w XOR v) = 0
     | (IPv6 w _, IPv6 v z) \<Rightarrow> z = [] \<and> drop_bit (128 - snd p) (w XOR v) = 0
     | _ \<Rightarrow> False)"

section \<open>Lemmas\<close>

lemma bit_len_unmap_IPv4 [simp]: "unmap (IPv4 w) = IPv4 w"
  by (simp add: unmap_def)

lemma unmap_idem [simp]: "unmap (unmap a) = unmap a"
  by (cases a) (simp_all add: unmap_def)

lemma unmap_not_4in6 [simp]: "\<not> is_4in6 (unmap a)"
  by (cases a) (simp_all add: unmap_def is_4in6_def)

text \<open>A prefix contains exactly the addresses that agree with it on its leading bits.\<close>

lemma prefix_contains_v4:
  "prefix_contains (IPv4 w, b) (IPv4 v) \<longleftrightarrow> drop_bit (32 - b) w = drop_bit (32 - b) v"
  by (auto simp: prefix_contains_def bit_eq_iff bit_simps)

text \<open>A concrete address, for the examples of the clients.\<close>

lemma parse_addr_example: "parse_addr ''1.2.3.4'' = Some (IPv4 16909060)"
  by (simp add: parse_addr_def parse_v4_fields_def octet_def go_str_defs v4_of_octets_def)

lemma show_addr_example: "show_addr (IPv4 16909060) = ''1.2.3.4''"
  by (simp add: show_addr_def show_v4_def octets_of_v4_def show_nat.simps digit_char_def char_of_def bit_0)

end
