(* ===== verification/Conf_Cert.thy ===== *)
theory Conf_Cert
  imports Json Netip
begin

text \<open>
  Certificate settings: \<^verbatim>\<open>src/conf/cert.go\<close> (the struct, every spelling its decoder accepts, and the paths of
  managed certificates) and \<^verbatim>\<open>src/conf/cert_validate.go\<close> (the checks before an ACME order).

  Whether a character outside ASCII is a letter or a digit is decided by the Unicode tables, an argument
  \<open>uni\<close> here; so are \<^verbatim>\<open>filepath.Clean\<close> and \<^verbatim>\<open>mail.ParseAddress\<close> of the standard library.
\<close>

section \<open>Text helpers\<close>

text \<open>The runes of a UTF-8 text, each as its bytes; a byte that starts no sequence stands alone.\<close>

definition continuation :: "char \<Rightarrow> bool" where
  "continuation c \<longleftrightarrow> 128 \<le> (of_char c :: nat) \<and> of_char c < (192 :: nat)"

definition rune_width :: "char \<Rightarrow> nat" where
  "rune_width c =
     (let n = (of_char c :: nat) in
      if n < 194 then 1 else if n < 224 then 2 else if n < 240 then 3 else if n < 245 then 4 else 1)"

function runes :: "string \<Rightarrow> string list" where
  "runes [] = []"
| "runes (c # cs) =
     (let w = rune_width c in
      if length cs + 1 < w \<or> \<not> list_all continuation (take (w - 1) cs) then [c] # runes cs
      else (c # take (w - 1) cs) # runes (drop (w - 1) cs))"
  by pat_completeness auto
termination
  by (relation "measure length") auto

text \<open>\<^verbatim>\<open>strings.ReplaceAll\<close> of a non-empty pattern.\<close>

function replace_all :: "string \<Rightarrow> string \<Rightarrow> string \<Rightarrow> string" where
  "replace_all w new [] = []"
| "replace_all w new (c # cs) =
     (case (if w = [] then None else strip_prefix w (c # cs)) of
        None \<Rightarrow> c # replace_all w new cs
      | Some rest \<Rightarrow> new @ replace_all w new rest)"
  by pat_completeness auto
termination
proof (relation "measure (\<lambda>(w, n, s). length s)")
  fix w new c cs rest
  assume "(if w = [] then None else strip_prefix w (c # cs)) = Some rest"
  then have "w \<noteq> []" "c # cs = w @ rest" by (auto simp: strip_prefix_Some split: if_splits)
  then have "length (c # cs) = length w + length rest" "0 < length w" by simp_all
  then show "((w, new, rest), w, new, c # cs) \<in> measure (\<lambda>(w, n, s). length s)" by simp
qed auto

definition trim_chars :: "string \<Rightarrow> string \<Rightarrow> string" where
  "trim_chars s cs = rev (dropWhile (\<lambda>c. c \<in> set cs) (rev (dropWhile (\<lambda>c. c \<in> set cs) s)))"

section \<open>The settings\<close>

definition legacyCertFile :: string where "legacyCertFile = ''/etc/N2X/fullchain.cer''"
definition legacyKeyFile :: string where "legacyKeyFile = ''/etc/N2X/cert.key''"
definition certFilePrefix :: string where "certFilePrefix = ''/etc/N2X/fullchain-''"
definition certFileSuffix :: string where "certFileSuffix = ''.cer''"
definition keyFilePrefix :: string where "keyFilePrefix = ''/etc/N2X/cert-''"
definition keyFileSuffix :: string where "keyFileSuffix = ''.key''"

record CertConfig =
  CertMode :: string
  RejectUnknownSni :: bool
  CertDomain :: string
  CertFile :: string
  KeyFile :: string
  CertProvider :: string
  Email :: string
  DNSEnv :: "(string, string) gomap"

record certConfigJSON =
  cj_CertMode :: string
  cj_RejectUnknownSni :: bool
  cj_CertDomain :: string
  cj_CertFile :: string
  cj_KeyFile :: string
  cj_Provider :: string
  cj_Email :: string
  cj_DNSEnv :: "(string, string) gomap"
  cj_CertModeSnake :: "string option"
  cj_Mode :: "string option"
  cj_RejectUnknownSniSnake :: "bool option"
  cj_CertDomainSnake :: "string option"
  cj_CertFileSnake :: "string option"
  cj_KeyFileSnake :: "string option"
  cj_ProviderLower :: "string option"
  cj_EmailLower :: "string option"
  cj_DNSEnvSnake :: "(string, string) gomap option"

definition certConfigJSON_zero :: certConfigJSON where
  "certConfigJSON_zero =
     \<lparr>cj_CertMode = [], cj_RejectUnknownSni = False, cj_CertDomain = [], cj_CertFile = [], cj_KeyFile = [],
      cj_Provider = [], cj_Email = [], cj_DNSEnv = [], cj_CertModeSnake = None, cj_Mode = None,
      cj_RejectUnknownSniSnake = None, cj_CertDomainSnake = None, cj_CertFileSnake = None,
      cj_KeyFileSnake = None, cj_ProviderLower = None, cj_EmailLower = None, cj_DNSEnvSnake = None\<rparr>"

definition into_env :: "(string, string) gomap \<Rightarrow> json \<Rightarrow> (string, string) gomap option" where
  "into_env = into_map Some [] into_string"

text \<open>A map field that was not nil before keeps its entries; \<^const>\<open>None\<close> is the nil map.\<close>

definition into_env_nil :: "(string, string) gomap option \<Rightarrow> json \<Rightarrow> (string, string) gomap option option" where
  "into_env_nil = into_ptr [] into_env"

definition certConfigJSON_fields :: "certConfigJSON fields" where
  "certConfigJSON_fields =
     [(''CertMode'', fld cj_CertMode cj_CertMode_update into_string),
      (''RejectUnknownSni'', fld cj_RejectUnknownSni cj_RejectUnknownSni_update into_bool),
      (''CertDomain'', fld cj_CertDomain cj_CertDomain_update into_string),
      (''CertFile'', fld cj_CertFile cj_CertFile_update into_string),
      (''KeyFile'', fld cj_KeyFile cj_KeyFile_update into_string),
      (''Provider'', fld cj_Provider cj_Provider_update into_string),
      (''Email'', fld cj_Email cj_Email_update into_string),
      (''DNSEnv'', fld cj_DNSEnv cj_DNSEnv_update into_env),
      (''cert_mode'', fld cj_CertModeSnake cj_CertModeSnake_update (into_ptr [] into_string)),
      (''mode'', fld cj_Mode cj_Mode_update (into_ptr [] into_string)),
      (''reject_unknown_sni'', fld cj_RejectUnknownSniSnake cj_RejectUnknownSniSnake_update (into_ptr False into_bool)),
      (''cert_domain'', fld cj_CertDomainSnake cj_CertDomainSnake_update (into_ptr [] into_string)),
      (''cert_file'', fld cj_CertFileSnake cj_CertFileSnake_update (into_ptr [] into_string)),
      (''key_file'', fld cj_KeyFileSnake cj_KeyFileSnake_update (into_ptr [] into_string)),
      (''provider'', fld cj_ProviderLower cj_ProviderLower_update (into_ptr [] into_string)),
      (''email'', fld cj_EmailLower cj_EmailLower_update (into_ptr [] into_string)),
      (''dns_env'', fld cj_DNSEnvSnake cj_DNSEnvSnake_update into_env_nil)]"

definition or_else :: "'a option \<Rightarrow> 'a \<Rightarrow> 'a" where
  "or_else x d = (case x of None \<Rightarrow> d | Some v \<Rightarrow> v)"

definition cert_rune :: "(string \<Rightarrow> bool) \<Rightarrow> string \<Rightarrow> string" where
  "cert_rune uni r =
     (case r of
        [c] \<Rightarrow> let n = (of_char c :: nat) in
               if (97 \<le> n \<and> n \<le> 122) \<or> (65 \<le> n \<and> n \<le> 90) \<or> is_digit c \<or> c = CHR ''.'' \<or> c = CHR ''-''
               then r else ''-''
      | _ \<Rightarrow> if uni r then r else ''-'')"

definition certificateFileDomain :: "(string \<Rightarrow> bool) \<Rightarrow> string \<Rightarrow> string" where
  "certificateFileDomain uni domain0 =
     (let d1 = trim_suffix (to_lower (trim_space domain0)) ''.'';
          d2 = (if has_prefix d1 ''*.'' then ''wildcard.'' @ trim_prefix d1 ''*.'' else d1)
      in trim_chars (concat (map (cert_rune uni) (runes d2))) ''.-'')"

definition expandCertificatePath :: "string \<Rightarrow> string \<Rightarrow> string" where
  "expandCertificatePath path domain = replace_all ''{domain}'' domain path"

definition usesAutomaticCertificateMode :: "string \<Rightarrow> bool" where
  "usesAutomaticCertificateMode mode = (to_lower (trim_space mode) \<in> {''dns'', ''http'', ''self''})"

definition isLegacyCertificatePath :: "string \<Rightarrow> string \<Rightarrow> bool" where
  "isLegacyCertificatePath path legacyPath \<longleftrightarrow> path = [] \<or> path = legacyPath"

definition managedPathDomain :: "string \<Rightarrow> string \<Rightarrow> string \<Rightarrow> string \<times> bool" where
  "managedPathDomain path pre suf =
     (if \<not> has_prefix path pre \<or> \<not> has_suffix path suf then ([], False)
      else let domain = trim_suffix (trim_prefix path pre) suf in (domain, domain \<noteq> []))"

definition usesManagedCertificatePaths :: "string \<Rightarrow> string \<Rightarrow> bool" where
  "usesManagedCertificatePaths certFile keyFile =
     (if isLegacyCertificatePath certFile legacyCertFile \<and> isLegacyCertificatePath keyFile legacyKeyFile then True
      else let (certDomain, certManaged) = managedPathDomain certFile certFilePrefix certFileSuffix;
               (keyDomain, keyManaged) = managedPathDomain keyFile keyFilePrefix keyFileSuffix
           in certManaged \<and> keyManaged \<and> certDomain = keyDomain)"

definition normalizeCertificatePaths :: "(string \<Rightarrow> bool) \<Rightarrow> CertConfig \<Rightarrow> CertConfig" where
  "normalizeCertificatePaths uni c =
     (let domain = certificateFileDomain uni (CertDomain c) in
      if domain = [] then c
      else let c1 = c\<lparr>CertFile := expandCertificatePath (CertFile c) domain,
                      KeyFile := expandCertificatePath (KeyFile c) domain\<rparr> in
      if \<not> usesAutomaticCertificateMode (CertMode c1) \<or> \<not> usesManagedCertificatePaths (CertFile c1) (KeyFile c1)
      then c1
      else c1\<lparr>CertFile := certFilePrefix @ domain @ certFileSuffix,
              KeyFile := keyFilePrefix @ domain @ keyFileSuffix\<rparr>)"

definition CertConfig_of_raw :: "certConfigJSON \<Rightarrow> CertConfig" where
  "CertConfig_of_raw raw =
     \<lparr>CertMode = (case cj_CertModeSnake raw of Some v \<Rightarrow> v | None \<Rightarrow> or_else (cj_Mode raw) (cj_CertMode raw)),
      RejectUnknownSni = or_else (cj_RejectUnknownSniSnake raw) (cj_RejectUnknownSni raw),
      CertDomain = or_else (cj_CertDomainSnake raw) (cj_CertDomain raw),
      CertFile = or_else (cj_CertFileSnake raw) (cj_CertFile raw),
      KeyFile = or_else (cj_KeyFileSnake raw) (cj_KeyFile raw),
      CertProvider = or_else (cj_ProviderLower raw) (cj_Provider raw),
      Email = or_else (cj_EmailLower raw) (cj_Email raw),
      DNSEnv = or_else (cj_DNSEnvSnake raw) (cj_DNSEnv raw)\<rparr>"

definition CertConfig_UnmarshalJSON :: "(string \<Rightarrow> bool) \<Rightarrow> CertConfig \<Rightarrow> json \<Rightarrow> CertConfig option" where
  "CertConfig_UnmarshalJSON uni c j =
     do { raw \<leftarrow> into_struct certConfigJSON_fields certConfigJSON_zero j;
          Some (normalizeCertificatePaths uni (CertConfig_of_raw raw)) }"

definition NewCertConfig :: CertConfig where
  "NewCertConfig =
     \<lparr>CertMode = ''none'', RejectUnknownSni = False, CertDomain = [], CertFile = [], KeyFile = [],
      CertProvider = [], Email = [], DNSEnv = []\<rparr>"

section \<open>Checks before an order\<close>

text \<open>\<^verbatim>\<open>net.ParseIP\<close>: an address without a zone.\<close>

definition parse_ip :: "string \<Rightarrow> ip_addr option" where
  "parse_ip s =
     (case parse_addr s of
        Some (IPv6 w z) \<Rightarrow> if z = [] then Some (IPv6 w z) else None
      | r \<Rightarrow> r)"

definition maxCertDomainLength :: nat where "maxCertDomainLength = 253"
definition maxCertDomainLabel :: nat where "maxCertDomainLabel = 63"

datatype cert_error =
    FilesRequired
  | SameFile string
  | DomainRequired
  | DomainIsAddress string
  | WildcardNeedsDNS string
  | WildcardPosition string
  | DomainTooLong string
  | NotPublic string
  | InvalidDomain string
  | BadEmail string
  | ProviderRequired
  | ProviderManual string
  | EmptyVariable
  | EmptyValue string

definition validDomainLabel :: "string \<Rightarrow> bool" where
  "validDomainLabel label =
     (if label = [] \<or> maxCertDomainLabel < length label \<or> hd label = CHR ''-'' \<or> last label = CHR ''-'' then False
      else list_all (\<lambda>r. (97 \<le> (of_char r :: nat) \<and> of_char r \<le> (122 :: nat)) \<or> is_digit r \<or> r = CHR ''-'') label)"

definition validateCertDomain :: "string \<Rightarrow> bool \<Rightarrow> cert_error option" where
  "validateCertDomain domain allowWildcard =
     (if trim_space domain = [] then Some DomainRequired
      else let name0 = trim_suffix (to_lower domain) ''.'' in
      if parse_ip name0 \<noteq> None then Some (DomainIsAddress domain)
      else if has_prefix name0 ''*.'' \<and> \<not> allowWildcard then Some (WildcardNeedsDNS domain)
      else let name = (if has_prefix name0 ''*.'' then trim_prefix name0 ''*.'' else name0) in
      if contains name ''*'' then Some (WildcardPosition domain)
      else if maxCertDomainLength < length name then Some (DomainTooLong domain)
      else let labels = split_on CHR ''.'' name in
      if length labels < 2 then Some (NotPublic domain)
      else if \<not> list_all validDomainLabel labels then Some (InvalidDomain domain)
      else None)"

fun check_dns_env :: "(string, string) gomap \<Rightarrow> cert_error option" where
  "check_dns_env [] = None"
| "check_dns_env ((key, value) # rest) =
     (if trim_space key = [] then Some EmptyVariable
      else if trim_space value = [] then Some (EmptyValue key)
      else check_dns_env rest)"

text \<open>\<open>parse_address\<close> gives the name and the address of a mail address.\<close>

definition ValidateACMECertConfig ::
  "(string \<Rightarrow> string) \<Rightarrow> (string \<Rightarrow> (string \<times> string) option) \<Rightarrow> CertConfig \<Rightarrow> cert_error option" where
  "ValidateACMECertConfig clean parse_address c =
     (if CertFile c = [] \<or> KeyFile c = [] then Some FilesRequired
      else if clean (CertFile c) = clean (KeyFile c) then Some (SameFile (CertFile c))
      else case validateCertDomain (CertDomain c) (CertMode c = ''dns'') of
        Some e \<Rightarrow> Some e
      | None \<Rightarrow>
          if Email c \<noteq> [] \<and> parse_address (Email c) \<noteq> Some ([], Email c) then Some (BadEmail (Email c))
          else if CertMode c \<noteq> ''dns'' then None
          else if trim_space (CertProvider c) = [] then Some ProviderRequired
          else if trim_space (CertProvider c) = ''manual'' then Some (ProviderManual (CertProvider c))
          else check_dns_env (DNSEnv c))"

section \<open>Managed paths\<close>

lemma rune_bytes: "r \<in> set (runes s) \<Longrightarrow> (\<exists>c. r = [c]) \<or> (\<forall>c \<in> set r. 128 \<le> (of_char c :: nat))"
proof (induction s rule: runes.induct)
  case (2 c cs)
  let ?w = "rune_width c"
  show ?case
  proof (cases "length cs + 1 < ?w \<or> \<not> list_all continuation (take (?w - 1) cs)")
    case True
    with 2 show ?thesis by (auto simp: Let_def)
  next
    case False
    show ?thesis
    proof (cases "?w = 1")
      case True
      with False 2 show ?thesis by (auto simp: Let_def)
    next
      case wide: False
      then have "128 \<le> (of_char c :: nat)" by (auto simp: rune_width_def Let_def split: if_splits)
      moreover have "\<forall>d \<in> set (take (?w - 1) cs). 128 \<le> (of_char d :: nat)"
        using False by (auto simp: list_all_iff continuation_def)
      ultimately show ?thesis using False 2 by (auto simp: Let_def)
    qed
  qed
qed simp

lemma cert_rune_no_brace: "r \<in> set (runes s) \<Longrightarrow> CHR ''{'' \<notin> set (cert_rune uni r)"
proof -
  assume "r \<in> set (runes s)"
  then consider c where "r = [c]" | "\<forall>c \<in> set r. 128 \<le> (of_char c :: nat)" using rune_bytes by blast
  then show ?thesis
  proof cases
    case 1
    then show ?thesis by (auto simp: cert_rune_def Let_def is_digit_def)
  next
    case 2
    then have "CHR ''{'' \<notin> set r" by (auto dest!: bspec [of _ _ "CHR ''{''"])
    then show ?thesis by (auto simp: cert_rune_def Let_def split: list.splits)
  qed
qed

lemma set_trim_chars: "set (trim_chars s cs) \<subseteq> set s"
  by (auto simp: trim_chars_def dest!: set_dropWhileD)

lemma file_domain_no_brace: "CHR ''{'' \<notin> set (certificateFileDomain uni d)"
proof
  assume "CHR ''{'' \<in> set (certificateFileDomain uni d)"
  then have "CHR ''{'' \<in> set (concat (map (cert_rune uni) (runes
      (if has_prefix (trim_suffix (to_lower (trim_space d)) ''.'') ''*.''
       then ''wildcard.'' @ trim_prefix (trim_suffix (to_lower (trim_space d)) ''.'') ''*.''
       else trim_suffix (to_lower (trim_space d)) ''.''))))"
    using set_trim_chars unfolding certificateFileDomain_def Let_def by blast
  then show False using cert_rune_no_brace by auto
qed

lemma replace_all_absent: "c \<notin> set s \<Longrightarrow> replace_all (c # w) new s = s"
proof (induction "c # w" new s rule: replace_all.induct)
  case (2 new d cs)
  then show ?case by (auto split: option.splits)
qed simp

lemma managedPathDomain_managed: "managedPathDomain (pre @ d @ suf) pre suf = (d, d \<noteq> [])"
proof -
  have "strip_prefix pre (pre @ d @ suf) = Some (d @ suf)" "strip_prefix (rev suf) (rev (d @ suf)) = Some (rev d)"
    by (simp_all add: strip_prefix_Some)
  then show ?thesis
    by (simp add: managedPathDomain_def has_prefix_iff has_suffix_iff trim_prefix_def trim_suffix_def)
qed

lemma usesManaged_managed:
  "d \<noteq> [] \<Longrightarrow> usesManagedCertificatePaths (certFilePrefix @ d @ certFileSuffix) (keyFilePrefix @ d @ keyFileSuffix)"
  by (simp add: usesManagedCertificatePaths_def managedPathDomain_managed)

lemma expand_managed:
  "expandCertificatePath (certFilePrefix @ certificateFileDomain uni d @ certFileSuffix) x =
     certFilePrefix @ certificateFileDomain uni d @ certFileSuffix"
  "expandCertificatePath (keyFilePrefix @ certificateFileDomain uni d @ keyFileSuffix) x =
     keyFilePrefix @ certificateFileDomain uni d @ keyFileSuffix"
  "expandCertificatePath [] x = []" "expandCertificatePath legacyCertFile x = legacyCertFile"
  "expandCertificatePath legacyKeyFile x = legacyKeyFile"
  using file_domain_no_brace [of uni d]
  by (simp_all add: expandCertificatePath_def replace_all_absent certFilePrefix_def certFileSuffix_def
      keyFilePrefix_def keyFileSuffix_def legacyCertFile_def legacyKeyFile_def)

text \<open>
  Managed certificate paths follow the domain: for a certificate obtained automatically whose files are
  not chosen by the operator, the files are named after the domain; and when the settings, normalised for
  an earlier domain, are given another one, the files are those of the new domain and never those of the
  earlier one.
\<close>

theorem managed_paths_follow_domain:
  assumes "usesAutomaticCertificateMode (CertMode c)"
    and "isLegacyCertificatePath (CertFile c) legacyCertFile" "isLegacyCertificatePath (KeyFile c) legacyKeyFile"
    and "certificateFileDomain uni d \<noteq> []"
  shows "normalizeCertificatePaths uni ((normalizeCertificatePaths uni (c\<lparr>CertDomain := d0\<rparr>))\<lparr>CertDomain := d\<rparr>) =
    c\<lparr>CertDomain := d,
      CertFile := ''/etc/N2X/fullchain-'' @ certificateFileDomain uni d @ ''.cer'',
      KeyFile := ''/etc/N2X/cert-'' @ certificateFileDomain uni d @ ''.key''\<rparr>"
proof -
  have legacy: "usesManagedCertificatePaths (CertFile c) (KeyFile c)"
    using assms by (simp add: usesManagedCertificatePaths_def)
  have same: "expandCertificatePath (CertFile c) x = CertFile c" "expandCertificatePath (KeyFile c) x = KeyFile c" for x
    using assms(2,3) by (auto simp: isLegacyCertificatePath_def expand_managed)
  have lits: "''/etc/N2X/fullchain-'' = certFilePrefix" "''.cer'' = certFileSuffix"
    "''/etc/N2X/cert-'' = keyFilePrefix" "''.key'' = keyFileSuffix"
    by (simp_all add: certFilePrefix_def certFileSuffix_def keyFilePrefix_def keyFileSuffix_def)
  show ?thesis
    unfolding lits using assms(1,4) legacy
    by (cases "certificateFileDomain uni d0 = []")
       (simp_all add: normalizeCertificatePaths_def Let_def same expand_managed usesManaged_managed)
qed

theorem managed_paths_follow_domain_witness:
  "normalizeCertificatePaths (\<lambda>r. False)
     ((normalizeCertificatePaths (\<lambda>r. False) (NewCertConfig\<lparr>CertMode := ''dns'', CertDomain := ''old.example.com''\<rparr>))
        \<lparr>CertDomain := ''a.b''\<rparr>) =
   NewCertConfig\<lparr>CertMode := ''dns'', CertDomain := ''a.b'', CertFile := ''/etc/N2X/fullchain-a.b.cer'',
     KeyFile := ''/etc/N2X/cert-a.b.key''\<rparr>"
proof -
  have t: "trim_space ''a.b'' = ''a.b''" "trim_space ''dns'' = ''dns''"
    by (simp_all add: trim_space_def trim_with.simps go_spaces_def)
  then have "certificateFileDomain (\<lambda>r. False) ''a.b'' = ''a.b''"
    by (simp add: certificateFileDomain_def Let_def to_lower_def lower_char_def trim_suffix_def has_prefix_def
        cert_rune_def rune_width_def continuation_def trim_chars_def)
  moreover have "usesAutomaticCertificateMode ''dns''"
    by (simp add: usesAutomaticCertificateMode_def t to_lower_def lower_char_def)
  ultimately show ?thesis
    using managed_paths_follow_domain [of "NewCertConfig\<lparr>CertMode := ''dns''\<rparr>" "\<lambda>r. False" "''a.b''" "''old.example.com''"]
    by (simp add: NewCertConfig_def isLegacyCertificatePath_def)
qed

end
