(* ===== verification/Panel_Node.thy ===== *)
theory Panel_Node
  imports Panel_Types Conf_Cert
begin

text \<open>
  The node configuration a panel sends, \<^verbatim>\<open>src/api/panel/node.go\<close> and \<^verbatim>\<open>src/api/panel/multiplex.go\<close>: the structs with
  their JSON tags, the decoders of the fields panels spell in several ways, and the normalisation of each node
  type. A table of fields stands for the tags of a struct; a field tagged \<^verbatim>\<open>-\<close> is not in the table.
\<close>

section \<open>Settings shared by the node types\<close>

definition Sec_None :: int where "Sec_None = 0"
definition Sec_Tls :: int where "Sec_Tls = 1"
definition Sec_Reality :: int where "Sec_Reality = 2"

definition securityFromTLS :: "int \<Rightarrow> int" where
  "securityFromTLS tls = (if tls = Sec_Reality then Sec_Reality else Sec_Tls)"

record ECHSettings =
  ech_Enabled :: bool
  ech_Config :: string
  ech_QueryServerName :: string
  ech_Key :: string
  ech_KeyPath :: string
  ech_ConfigPath :: string

definition ECHSettings_zero :: ECHSettings where
  "ECHSettings_zero = \<lparr>ech_Enabled = False, ech_Config = [], ech_QueryServerName = [], ech_Key = [],
     ech_KeyPath = [], ech_ConfigPath = []\<rparr>"

definition ECHSettings_fields :: "ECHSettings fields" where
  "ECHSettings_fields =
     [(''enabled'', fld ech_Enabled ech_Enabled_update into_bool),
      (''config'', fld ech_Config ech_Config_update into_string),
      (''query_server_name'', fld ech_QueryServerName ech_QueryServerName_update into_string),
      (''key'', fld ech_Key ech_Key_update into_string),
      (''key_path'', fld ech_KeyPath ech_KeyPath_update into_string),
      (''config_path'', fld ech_ConfigPath ech_ConfigPath_update into_string)]"

record TlsSettings =
  ts_ServerName :: string
  ts_AllowInsecure :: bool
  ts_Dest :: string
  ts_ServerPort :: string
  ts_ShortId :: string
  ts_PrivateKey :: string
  ts_Mldsa65Seed :: string
  ts_Xver :: int
  ts_Ech :: "ECHSettings option"

definition TlsSettings_zero :: TlsSettings where
  "TlsSettings_zero = \<lparr>ts_ServerName = [], ts_AllowInsecure = False, ts_Dest = [], ts_ServerPort = [],
     ts_ShortId = [], ts_PrivateKey = [], ts_Mldsa65Seed = [], ts_Xver = 0, ts_Ech = None\<rparr>"

definition TlsSettings_fields :: "TlsSettings fields" where
  "TlsSettings_fields =
     [(''server_name'', fld ts_ServerName ts_ServerName_update into_string),
      (''allow_insecure'', fld ts_AllowInsecure ts_AllowInsecure_update into_bool),
      (''dest'', fld ts_Dest ts_Dest_update into_string),
      (''server_port'', fld ts_ServerPort ts_ServerPort_update into_string),
      (''short_id'', fld ts_ShortId ts_ShortId_update into_string),
      (''private_key'', fld ts_PrivateKey ts_PrivateKey_update into_string),
      (''mldsa65Seed'', fld ts_Mldsa65Seed ts_Mldsa65Seed_update into_string),
      (''xver'', fld ts_Xver ts_Xver_update into_uint64_quoted),
      (''ech'', fld ts_Ech ts_Ech_update (into_ptr ECHSettings_zero (into_struct ECHSettings_fields)))]"

definition into_Tls :: "TlsSettings \<Rightarrow> json \<Rightarrow> TlsSettings option" where
  "into_Tls = into_struct TlsSettings_fields"

definition into_TlsBack :: "TlsSettings option \<Rightarrow> json \<Rightarrow> TlsSettings option option" where
  "into_TlsBack = into_ptr TlsSettings_zero into_Tls"

record EncSettings =
  es_Mode :: string
  es_Ticket :: string
  es_ServerPadding :: string
  es_PrivateKey :: string

definition EncSettings_zero :: EncSettings where
  "EncSettings_zero = \<lparr>es_Mode = [], es_Ticket = [], es_ServerPadding = [], es_PrivateKey = []\<rparr>"

definition EncSettings_fields :: "EncSettings fields" where
  "EncSettings_fields =
     [(''mode'', fld es_Mode es_Mode_update into_string),
      (''ticket'', fld es_Ticket es_Ticket_update into_string),
      (''server_padding'', fld es_ServerPadding es_ServerPadding_update into_string),
      (''private_key'', fld es_PrivateKey es_PrivateKey_update into_string)]"

record RealityConfig =
  rc_Xver :: int
  rc_MinClientVer :: string
  rc_MaxClientVer :: string
  rc_MaxTimeDiff :: string

definition RealityConfig_zero :: RealityConfig where
  "RealityConfig_zero = \<lparr>rc_Xver = 0, rc_MinClientVer = [], rc_MaxClientVer = [], rc_MaxTimeDiff = []\<rparr>"

section \<open>Multiplexing\<close>

record MultiplexSettings =
  mux_Enabled :: bool
  mux_Padding :: bool

definition panelTruthy :: "json \<Rightarrow> bool" where
  "panelTruthy value =
     (case value of
        JBool v \<Rightarrow> v
      | JNum s \<Rightarrow> json_float s \<noteq> 0
      | JStr v \<Rightarrow> v = ''1'' \<or> v = ''true''
      | _ \<Rightarrow> False)"

text \<open>The value of a key of a decoded object: the last one given, nil when there is none.\<close>

definition jkey :: "(string \<times> json) list \<Rightarrow> string \<Rightarrow> json" where
  "jkey kvs k = (case map_of (rev kvs) k of None \<Rightarrow> JNull | Some v \<Rightarrow> v)"

definition MultiplexSettings_UnmarshalJSON :: "MultiplexSettings \<Rightarrow> json \<Rightarrow> MultiplexSettings option" where
  "MultiplexSettings_UnmarshalJSON m data =
     (case data of
        JObj raw \<Rightarrow> Some \<lparr>mux_Enabled = panelTruthy (jkey raw ''enabled''), mux_Padding = panelTruthy (jkey raw ''padding'')\<rparr>
      | _ \<Rightarrow> Some \<lparr>mux_Enabled = False, mux_Padding = False\<rparr>)"

section \<open>The common part\<close>

record Route =
  rt_Id :: int
  rt_Match :: json
  rt_Action :: string
  rt_ActionValue :: string

definition Route_zero :: Route where
  "Route_zero = \<lparr>rt_Id = 0, rt_Match = JNull, rt_Action = [], rt_ActionValue = []\<rparr>"

definition Route_fields :: "Route fields" where
  "Route_fields =
     [(''id'', fld rt_Id rt_Id_update into_int),
      (''match'', fld rt_Match rt_Match_update into_any),
      (''action'', fld rt_Action rt_Action_update into_string),
      (''action_value'', fld rt_ActionValue rt_ActionValue_update into_string)]"

record BaseConfig =
  bc_PushInterval :: json
  bc_PullInterval :: json
  bc_DeviceLimitTolerance :: json
  bc_DeviceLimitIgnoredIPs :: json
  bc_DeviceLimitCDNDisabled :: json

definition BaseConfig_zero :: BaseConfig where
  "BaseConfig_zero = \<lparr>bc_PushInterval = JNull, bc_PullInterval = JNull, bc_DeviceLimitTolerance = JNull,
     bc_DeviceLimitIgnoredIPs = JNull, bc_DeviceLimitCDNDisabled = JNull\<rparr>"

definition BaseConfig_fields :: "BaseConfig fields" where
  "BaseConfig_fields =
     [(''push_interval'', fld bc_PushInterval bc_PushInterval_update into_any),
      (''pull_interval'', fld bc_PullInterval bc_PullInterval_update into_any),
      (''device_limit_tolerance'', fld bc_DeviceLimitTolerance bc_DeviceLimitTolerance_update into_any),
      (''device_limit_ignored_ips'', fld bc_DeviceLimitIgnoredIPs bc_DeviceLimitIgnoredIPs_update into_any),
      (''device_limit_cdn_disabled'', fld bc_DeviceLimitCDNDisabled bc_DeviceLimitCDNDisabled_update into_any)]"

record CommonNode =
  cn_DecoyFallback :: "bool option"
  cn_Multiplex :: "MultiplexSettings option"
  cn_Host :: string
  cn_ServerPort :: int
  cn_ServerName :: string
  cn_Routes :: "Route list"
  cn_BaseConfig :: "BaseConfig option"
  cn_CertConfig :: "CertConfig option"

definition CommonNode_zero :: CommonNode where
  "CommonNode_zero = \<lparr>cn_DecoyFallback = None, cn_Multiplex = None, cn_Host = [], cn_ServerPort = 0,
     cn_ServerName = [], cn_Routes = [], cn_BaseConfig = None, cn_CertConfig = None\<rparr>"

definition CommonNode_fields :: "(string \<Rightarrow> bool) \<Rightarrow> CommonNode fields" where
  "CommonNode_fields uni =
     [(''decoy_fallback'', fld cn_DecoyFallback cn_DecoyFallback_update (into_ptr False into_bool)),
      (''multiplex'', fld cn_Multiplex cn_Multiplex_update
         (into_ptr \<lparr>mux_Enabled = False, mux_Padding = False\<rparr> MultiplexSettings_UnmarshalJSON)),
      (''host'', fld cn_Host cn_Host_update into_string),
      (''server_port'', fld cn_ServerPort cn_ServerPort_update into_int),
      (''server_name'', fld cn_ServerName cn_ServerName_update into_string),
      (''routes'', fld cn_Routes cn_Routes_update (into_list Route_zero (into_struct Route_fields))),
      (''base_config'', fld cn_BaseConfig cn_BaseConfig_update
         (into_ptr BaseConfig_zero (into_struct BaseConfig_fields))),
      (''cert_config'', fld cn_CertConfig cn_CertConfig_update
         (into_ptr (NewCertConfig\<lparr>CertMode := []\<rparr>) (CertConfig_UnmarshalJSON uni)))]"

definition MultiplexEnabled :: "CommonNode option \<Rightarrow> bool" where
  "MultiplexEnabled c =
     (case c of None \<Rightarrow> False
      | Some cn \<Rightarrow> (case cn_Multiplex cn of None \<Rightarrow> False | Some m \<Rightarrow> mux_Enabled m))"

section \<open>The node types\<close>

record VAllssNode =
  va_Common :: CommonNode
  va_Tls :: int
  va_TlsSettings :: TlsSettings
  va_TlsSettingsBack :: "TlsSettings option"
  va_Network :: string
  va_NetworkSettings :: "json option"
  va_NetworkSettingsBack :: "json option"
  va_Encryption :: string
  va_EncryptionSettings :: EncSettings
  va_Decryption :: string
  va_ServerName :: string
  va_Flow :: string
  va_RealityConfig :: RealityConfig

definition VAllssNode_zero :: VAllssNode where
  "VAllssNode_zero = \<lparr>va_Common = CommonNode_zero, va_Tls = 0, va_TlsSettings = TlsSettings_zero,
     va_TlsSettingsBack = None, va_Network = [], va_NetworkSettings = None, va_NetworkSettingsBack = None,
     va_Encryption = [], va_EncryptionSettings = EncSettings_zero, va_Decryption = [], va_ServerName = [],
     va_Flow = [], va_RealityConfig = RealityConfig_zero\<rparr>"

definition VAllssNode_fields :: "(string \<Rightarrow> bool) \<Rightarrow> VAllssNode fields" where
  "VAllssNode_fields uni =
     [(''tls'', fld va_Tls va_Tls_update into_int),
      (''tls_settings'', fld va_TlsSettings va_TlsSettings_update into_Tls),
      (''tlsSettings'', fld va_TlsSettingsBack va_TlsSettingsBack_update into_TlsBack),
      (''network'', fld va_Network va_Network_update into_string),
      (''network_settings'', fld va_NetworkSettings va_NetworkSettings_update into_raw),
      (''networkSettings'', fld va_NetworkSettingsBack va_NetworkSettingsBack_update into_raw),
      (''encryption'', fld va_Encryption va_Encryption_update into_string),
      (''encryption_settings'', fld va_EncryptionSettings va_EncryptionSettings_update (into_struct EncSettings_fields)),
      (''decryption'', fld va_Decryption va_Decryption_update into_string),
      (''server_name'', fld va_ServerName va_ServerName_update into_string),
      (''flow'', fld va_Flow va_Flow_update into_string)] @
     embed va_Common va_Common_update [''server_name''] (CommonNode_fields uni)"

record ShadowsocksNode =
  ss_Common :: CommonNode
  ss_Cipher :: string
  ss_ServerKey :: string

definition ShadowsocksNode_zero :: ShadowsocksNode where
  "ShadowsocksNode_zero = \<lparr>ss_Common = CommonNode_zero, ss_Cipher = [], ss_ServerKey = []\<rparr>"

definition ShadowsocksNode_fields :: "(string \<Rightarrow> bool) \<Rightarrow> ShadowsocksNode fields" where
  "ShadowsocksNode_fields uni =
     [(''cipher'', fld ss_Cipher ss_Cipher_update into_string),
      (''server_key'', fld ss_ServerKey ss_ServerKey_update into_string)] @
     embed ss_Common ss_Common_update [] (CommonNode_fields uni)"

record TrojanNode =
  tr_Common :: CommonNode
  tr_Network :: string
  tr_NetworkSettings :: "json option"
  tr_Tls :: int
  tr_TlsSettings :: TlsSettings
  tr_TlsSettingsBack :: "TlsSettings option"
  tr_RealityConfig :: RealityConfig

definition TrojanNode_zero :: TrojanNode where
  "TrojanNode_zero = \<lparr>tr_Common = CommonNode_zero, tr_Network = [], tr_NetworkSettings = None, tr_Tls = 0,
     tr_TlsSettings = TlsSettings_zero, tr_TlsSettingsBack = None, tr_RealityConfig = RealityConfig_zero\<rparr>"

definition TrojanNode_fields :: "(string \<Rightarrow> bool) \<Rightarrow> TrojanNode fields" where
  "TrojanNode_fields uni =
     [(''network'', fld tr_Network tr_Network_update into_string),
      (''networkSettings'', fld tr_NetworkSettings tr_NetworkSettings_update into_raw),
      (''tls'', fld tr_Tls tr_Tls_update into_int),
      (''tls_settings'', fld tr_TlsSettings tr_TlsSettings_update into_Tls),
      (''tlsSettings'', fld tr_TlsSettingsBack tr_TlsSettingsBack_update into_TlsBack)] @
     embed tr_Common tr_Common_update [] (CommonNode_fields uni)"

record AnyTlsNode =
  at_Common :: CommonNode
  at_Tls :: int
  at_TlsSettings :: TlsSettings
  at_TlsSettingsBack :: "TlsSettings option"
  at_PaddingScheme :: "string list"
  at_RealityConfig :: RealityConfig

definition AnyTlsNode_zero :: AnyTlsNode where
  "AnyTlsNode_zero = \<lparr>at_Common = CommonNode_zero, at_Tls = 0, at_TlsSettings = TlsSettings_zero,
     at_TlsSettingsBack = None, at_PaddingScheme = [], at_RealityConfig = RealityConfig_zero\<rparr>"

definition AnyTlsNode_fields :: "(string \<Rightarrow> bool) \<Rightarrow> AnyTlsNode fields" where
  "AnyTlsNode_fields uni =
     [(''tls'', fld at_Tls at_Tls_update into_int),
      (''tls_settings'', fld at_TlsSettings at_TlsSettings_update into_Tls),
      (''tlsSettings'', fld at_TlsSettingsBack at_TlsSettingsBack_update into_TlsBack),
      (''padding_scheme'', fld at_PaddingScheme at_PaddingScheme_update (into_list [] into_string))] @
     embed at_Common at_Common_update [] (CommonNode_fields uni)"

end
