(* ===== verification/Panel_Quic.thy ===== *)
theory Panel_Quic
  imports Panel_Node
begin

text \<open>
  The remaining node types of \<^verbatim>\<open>src/api/panel/node.go\<close>: TUIC, Hysteria in both generations, ShadowTLS, Naive and
  ArtX, with the decoders of durations and port ranges and the defaults of ShadowTLS and ArtX.
\<close>

section \<open>Durations and port ranges\<close>

definition second :: int where "second = 1000000000"

text \<open>
  \<^verbatim>\<open>time.ParseDuration\<close>: an optional sign and a sequence of decimal numbers with units. The fraction of a number is
  multiplied by the unit in floating point, as the library does.
\<close>

definition unit_value :: "string \<Rightarrow> int option" where
  "unit_value u =
     (if u = ''ns'' then Some 1
      else if u = ''us'' \<or> u = [CHR 0xC2, CHR 0xB5] @ ''s'' \<or> u = [CHR 0xCE, CHR 0xBC] @ ''s'' then Some 1000
      else if u = ''ms'' then Some 1000000
      else if u = ''s'' then Some second
      else if u = ''m'' then Some (60 * second)
      else if u = ''h'' then Some (3600 * second)
      else None)"

function duration_terms :: "int \<Rightarrow> string \<Rightarrow> int option" where
  "duration_terms d s =
     (if s = [] then Some d
      else let ip = takeWhile is_digit s; r1 = dropWhile is_digit s;
               (fp, r2) = (case r1 of
                   [] \<Rightarrow> ([], [])
                 | c # cs \<Rightarrow> if c = CHR ''.'' then (takeWhile is_digit cs, dropWhile is_digit cs) else ([], r1));
               u = takeWhile (\<lambda>c. c \<noteq> CHR ''.'' \<and> \<not> is_digit c) r2;
               r3 = dropWhile (\<lambda>c. c \<noteq> CHR ''.'' \<and> \<not> is_digit c) r2
           in if ip = [] \<and> fp = [] \<or> u = [] then None
              else case unit_value u of
                None \<Rightarrow> None
              | Some k \<Rightarrow>
                  (let v = int (decimal_value ip) * k +
                        (if fp = [] then 0
                         else trunc_rat (f64 (f64 (of_nat (decimal_value fp)) * f64 (of_int k / 10 ^ length fp))))
                   in if 2 ^ 63 < d + v then None else duration_terms (d + v) r3))"
  by pat_completeness auto
termination
proof (relation "measure (\<lambda>(d, s). length s)", goal_cases)
  case (2 d s ip r1 fr fp r2 u r3 k v)
  have len: "length (dropWhile P xs) \<le> length xs" for P and xs :: string by (rule length_dropWhile_le)
  have r1: "length ip + length r1 = length s"
    using 2(2,3) by (metis length_append takeWhile_dropWhile_id)
  have r2: "length fp + length r2 \<le> length r1"
  proof (cases r1)
    case Nil
    with 2(4,5) show ?thesis by simp
  next
    case (Cons c cs)
    have "length (takeWhile is_digit cs) + length (dropWhile is_digit cs) = length cs"
      by (metis length_append takeWhile_dropWhile_id)
    with Cons 2(4,5) show ?thesis by (auto split: if_splits)
  qed
  have r3: "length u + length r3 = length r2"
    using 2(6,7) by (metis length_append takeWhile_dropWhile_id)
  have "u \<noteq> []" using 2(8) by simp
  then have "0 < length u" by simp
  with r1 r2 r3 have "length r3 < length s" by linarith
  then show ?case by simp
qed auto

declare duration_terms.simps [simp del]

definition ParseDuration :: "string \<Rightarrow> int option" where
  "ParseDuration s0 =
     (let (neg, s) = (case s0 of
            [] \<Rightarrow> (False, [])
          | c # cs \<Rightarrow> if c = CHR ''-'' then (True, cs) else if c = CHR ''+'' then (False, cs) else (False, s0))
      in if s = ''0'' then Some 0
         else if s = [] then None
         else case duration_terms 0 s of
           None \<Rightarrow> None
         | Some d \<Rightarrow> if neg then Some (- d) else if 2 ^ 63 - 1 < d then None else Some d)"

definition Duration_UnmarshalJSON :: "int \<Rightarrow> json \<Rightarrow> int option" where
  "Duration_UnmarshalJSON d data =
     (case data of
        JNull \<Rightarrow> Some 0
      | JNum s \<Rightarrow> Some (i64 (trunc_rat (f64 (of_int second * json_float s))))
      | JStr v \<Rightarrow> if trim_space v = [] then Some 0 else ParseDuration (trim_space v)
      | _ \<Rightarrow> None)"

definition port_entry :: "json \<Rightarrow> string option" where
  "port_entry e =
     (case e of JStr s \<Rightarrow> Some s | JNum s \<Rightarrow> Some (itoa (i64 (trunc_rat (json_float s)))) | _ \<Rightarrow> None)"

definition PortRanges_UnmarshalJSON :: "string list \<Rightarrow> json \<Rightarrow> string list option" where
  "PortRanges_UnmarshalJSON p data =
     (case data of
        JNull \<Rightarrow> Some []
      | JStr v \<Rightarrow> Some [v]
      | JNum s \<Rightarrow> Some [itoa (i64 (trunc_rat (json_float s)))]
      | JArr v \<Rightarrow> into_elems [] (\<lambda>_. port_entry) v
      | _ \<Rightarrow> None)"

section \<open>Node types\<close>

record TuicNode =
  tu_Common :: CommonNode
  tu_Version :: int
  tu_CongestionControl :: string
  tu_ZeroRTTHandshake :: bool
  tu_AuthTimeout :: int
  tu_Heartbeat :: int
  tu_TlsSettings :: TlsSettings
  tu_TlsSettingsBack :: "TlsSettings option"

definition TuicNode_zero :: TuicNode where
  "TuicNode_zero = \<lparr>tu_Common = CommonNode_zero, tu_Version = 0, tu_CongestionControl = [],
     tu_ZeroRTTHandshake = False, tu_AuthTimeout = 0, tu_Heartbeat = 0, tu_TlsSettings = TlsSettings_zero,
     tu_TlsSettingsBack = None\<rparr>"

definition TuicNode_fields :: "(string \<Rightarrow> bool) \<Rightarrow> TuicNode fields" where
  "TuicNode_fields uni =
     [(''version'', fld tu_Version tu_Version_update into_int),
      (''congestion_control'', fld tu_CongestionControl tu_CongestionControl_update into_string),
      (''zero_rtt_handshake'', fld tu_ZeroRTTHandshake tu_ZeroRTTHandshake_update into_bool),
      (''auth_timeout'', fld tu_AuthTimeout tu_AuthTimeout_update Duration_UnmarshalJSON),
      (''heartbeat'', fld tu_Heartbeat tu_Heartbeat_update Duration_UnmarshalJSON),
      (''tls_settings'', fld tu_TlsSettings tu_TlsSettings_update into_Tls),
      (''tlsSettings'', fld tu_TlsSettingsBack tu_TlsSettingsBack_update into_TlsBack)] @
     embed tu_Common tu_Common_update [] (CommonNode_fields uni)"

record HysteriaNode =
  hy_Common :: CommonNode
  hy_UpMbps :: int
  hy_DownMbps :: int
  hy_Obfs :: string
  hy_ServerPorts :: "string list"
  hy_ReceiveWindowConn :: int
  hy_ReceiveWindowClient :: int
  hy_MaxConnClient :: int
  hy_DisableMTUDiscovery :: bool
  hy_TlsSettings :: TlsSettings
  hy_TlsSettingsBack :: "TlsSettings option"

definition HysteriaNode_zero :: HysteriaNode where
  "HysteriaNode_zero = \<lparr>hy_Common = CommonNode_zero, hy_UpMbps = 0, hy_DownMbps = 0, hy_Obfs = [],
     hy_ServerPorts = [], hy_ReceiveWindowConn = 0, hy_ReceiveWindowClient = 0, hy_MaxConnClient = 0,
     hy_DisableMTUDiscovery = False, hy_TlsSettings = TlsSettings_zero, hy_TlsSettingsBack = None\<rparr>"

definition HysteriaNode_fields :: "(string \<Rightarrow> bool) \<Rightarrow> HysteriaNode fields" where
  "HysteriaNode_fields uni =
     [(''up_mbps'', fld hy_UpMbps hy_UpMbps_update into_int),
      (''down_mbps'', fld hy_DownMbps hy_DownMbps_update into_int),
      (''obfs'', fld hy_Obfs hy_Obfs_update into_string),
      (''server_ports'', fld hy_ServerPorts hy_ServerPorts_update PortRanges_UnmarshalJSON),
      (''recv_window_conn'', fld hy_ReceiveWindowConn hy_ReceiveWindowConn_update into_uint64),
      (''recv_window_client'', fld hy_ReceiveWindowClient hy_ReceiveWindowClient_update into_uint64),
      (''max_conn_client'', fld hy_MaxConnClient hy_MaxConnClient_update into_int),
      (''disable_mtu_discovery'', fld hy_DisableMTUDiscovery hy_DisableMTUDiscovery_update into_bool),
      (''tls_settings'', fld hy_TlsSettings hy_TlsSettings_update into_Tls),
      (''tlsSettings'', fld hy_TlsSettingsBack hy_TlsSettingsBack_update into_TlsBack)] @
     embed hy_Common hy_Common_update [] (CommonNode_fields uni)"

record Hysteria2Node =
  h2_Common :: CommonNode
  h2_IgnoreClientBandwidth :: bool
  h2_UpMbps :: int
  h2_DownMbps :: int
  h2_ObfsType :: string
  h2_ObfsPassword :: string
  h2_ServerPorts :: "string list"
  h2_Masquerade :: "json option"
  h2_TlsSettings :: TlsSettings
  h2_TlsSettingsBack :: "TlsSettings option"

definition Hysteria2Node_zero :: Hysteria2Node where
  "Hysteria2Node_zero = \<lparr>h2_Common = CommonNode_zero, h2_IgnoreClientBandwidth = False, h2_UpMbps = 0,
     h2_DownMbps = 0, h2_ObfsType = [], h2_ObfsPassword = [], h2_ServerPorts = [], h2_Masquerade = None,
     h2_TlsSettings = TlsSettings_zero, h2_TlsSettingsBack = None\<rparr>"

definition Hysteria2Node_fields :: "(string \<Rightarrow> bool) \<Rightarrow> Hysteria2Node fields" where
  "Hysteria2Node_fields uni =
     [(''ignore_client_bandwidth'', fld h2_IgnoreClientBandwidth h2_IgnoreClientBandwidth_update into_bool),
      (''up_mbps'', fld h2_UpMbps h2_UpMbps_update into_int),
      (''down_mbps'', fld h2_DownMbps h2_DownMbps_update into_int),
      (''obfs'', fld h2_ObfsType h2_ObfsType_update into_string),
      (''obfs-password'', fld h2_ObfsPassword h2_ObfsPassword_update into_string),
      (''server_ports'', fld h2_ServerPorts h2_ServerPorts_update PortRanges_UnmarshalJSON),
      (''masquerade'', fld h2_Masquerade h2_Masquerade_update into_raw),
      (''tls_settings'', fld h2_TlsSettings h2_TlsSettings_update into_Tls),
      (''tlsSettings'', fld h2_TlsSettingsBack h2_TlsSettingsBack_update into_TlsBack)] @
     embed h2_Common h2_Common_update [] (CommonNode_fields uni)"

record ShadowTLSHandshake =
  hs_Server :: string
  hs_ServerPort :: int

definition ShadowTLSHandshake_zero :: ShadowTLSHandshake where
  "ShadowTLSHandshake_zero = \<lparr>hs_Server = [], hs_ServerPort = 0\<rparr>"

definition ShadowTLSHandshake_fields :: "ShadowTLSHandshake fields" where
  "ShadowTLSHandshake_fields =
     [(''server'', fld hs_Server hs_Server_update into_string),
      (''server_port'', fld hs_ServerPort hs_ServerPort_update into_int)]"

record ShadowTLSNode =
  st_Common :: CommonNode
  st_Version :: int
  st_Password :: string
  st_Handshake :: ShadowTLSHandshake
  st_StrictMode :: bool
  st_WildcardSNI :: string
  st_HandshakeForServerName :: "(string, ShadowTLSHandshake) gomap"
  st_Cipher :: string
  st_ServerKey :: string

definition ShadowTLSNode_zero :: ShadowTLSNode where
  "ShadowTLSNode_zero = \<lparr>st_Common = CommonNode_zero, st_Version = 0, st_Password = [],
     st_Handshake = ShadowTLSHandshake_zero, st_StrictMode = False, st_WildcardSNI = [],
     st_HandshakeForServerName = [], st_Cipher = [], st_ServerKey = []\<rparr>"

definition ShadowTLSNode_fields :: "(string \<Rightarrow> bool) \<Rightarrow> ShadowTLSNode fields" where
  "ShadowTLSNode_fields uni =
     [(''version'', fld st_Version st_Version_update into_int),
      (''password'', fld st_Password st_Password_update into_string),
      (''handshake'', fld st_Handshake st_Handshake_update (into_struct ShadowTLSHandshake_fields)),
      (''strict_mode'', fld st_StrictMode st_StrictMode_update into_bool),
      (''wildcard_sni'', fld st_WildcardSNI st_WildcardSNI_update into_string),
      (''handshake_for_server_name'', fld st_HandshakeForServerName st_HandshakeForServerName_update
         (into_map Some ShadowTLSHandshake_zero (into_struct ShadowTLSHandshake_fields))),
      (''cipher'', fld st_Cipher st_Cipher_update into_string),
      (''server_key'', fld st_ServerKey st_ServerKey_update into_string)] @
     embed st_Common st_Common_update [] (CommonNode_fields uni)"

record NaiveNode =
  nv_Common :: CommonNode
  nv_Network :: string
  nv_TlsSettings :: TlsSettings
  nv_TlsSettingsBack :: "TlsSettings option"

definition NaiveNode_zero :: NaiveNode where
  "NaiveNode_zero = \<lparr>nv_Common = CommonNode_zero, nv_Network = [], nv_TlsSettings = TlsSettings_zero,
     nv_TlsSettingsBack = None\<rparr>"

definition NaiveNode_fields :: "(string \<Rightarrow> bool) \<Rightarrow> NaiveNode fields" where
  "NaiveNode_fields uni =
     [(''network'', fld nv_Network nv_Network_update into_string),
      (''tls_settings'', fld nv_TlsSettings nv_TlsSettings_update into_Tls),
      (''tlsSettings'', fld nv_TlsSettingsBack nv_TlsSettingsBack_update into_TlsBack)] @
     embed nv_Common nv_Common_update [] (CommonNode_fields uni)"

end
