(* ===== verification/Panel_Info.thy ===== *)
theory Panel_Info
  imports Panel_Quic Porthop
begin

text \<open>
  \<^verbatim>\<open>GetNodeInfo\<close> of \<^verbatim>\<open>src/api/panel/node.go\<close>: the ArtX node type, the normalisation of the decoded settings, the
  blocking and DNS rules taken from the routes, and the node info a response is turned into. A failed type
  assertion or an index out of range stops the program; it is the error \<open>NodePanic\<close>.
\<close>

section \<open>ArtX\<close>

record ArtXFallback =
  fb_Enabled :: bool
  fb_Origin :: string

definition ArtXFallback_fields :: "ArtXFallback fields" where
  "ArtXFallback_fields =
     [(''enabled'', fld fb_Enabled fb_Enabled_update into_bool),
      (''origin'', fld fb_Origin fb_Origin_update into_string)]"

record ArtXBehavior =
  bh_Padding :: string
  bh_Keepalive :: string
  bh_ErrorResponse :: string

definition ArtXBehavior_fields :: "ArtXBehavior fields" where
  "ArtXBehavior_fields =
     [(''padding'', fld bh_Padding bh_Padding_update into_string),
      (''keepalive'', fld bh_Keepalive bh_Keepalive_update into_string),
      (''error_response'', fld bh_ErrorResponse bh_ErrorResponse_update into_string)]"

record ArtXNode =
  ax_Common :: CommonNode
  ax_PublicHost :: string
  ax_PublicPort :: int
  ax_Underlay :: string
  ax_WireVersion :: int
  ax_FlowControl :: string
  ax_Profile :: string
  ax_ProfileVersion :: int
  ax_UDP :: bool
  ax_UDPMode :: string
  ax_TlsSettings :: TlsSettings
  ax_TlsSettingsBack :: "TlsSettings option"
  ax_PaddingScheme :: "string list"
  ax_Fallback :: ArtXFallback
  ax_Behavior :: ArtXBehavior

definition ArtXNode_zero :: ArtXNode where
  "ArtXNode_zero = \<lparr>ax_Common = CommonNode_zero, ax_PublicHost = [], ax_PublicPort = 0, ax_Underlay = [],
     ax_WireVersion = 0, ax_FlowControl = [], ax_Profile = [], ax_ProfileVersion = 0, ax_UDP = False,
     ax_UDPMode = [], ax_TlsSettings = TlsSettings_zero, ax_TlsSettingsBack = None, ax_PaddingScheme = [],
     ax_Fallback = \<lparr>fb_Enabled = False, fb_Origin = []\<rparr>,
     ax_Behavior = \<lparr>bh_Padding = [], bh_Keepalive = [], bh_ErrorResponse = []\<rparr>\<rparr>"

definition ArtXNode_fields :: "(string \<Rightarrow> bool) \<Rightarrow> ArtXNode fields" where
  "ArtXNode_fields uni =
     [(''public_host'', fld ax_PublicHost ax_PublicHost_update into_string),
      (''public_port'', fld ax_PublicPort ax_PublicPort_update into_int),
      (''underlay'', fld ax_Underlay ax_Underlay_update into_string),
      (''wire_version'', fld ax_WireVersion ax_WireVersion_update into_int),
      (''flow_control'', fld ax_FlowControl ax_FlowControl_update into_string),
      (''profile'', fld ax_Profile ax_Profile_update into_string),
      (''profile_version'', fld ax_ProfileVersion ax_ProfileVersion_update into_int),
      (''udp'', fld ax_UDP ax_UDP_update into_bool),
      (''udp_mode'', fld ax_UDPMode ax_UDPMode_update into_string),
      (''tls_settings'', fld ax_TlsSettings ax_TlsSettings_update into_Tls),
      (''tlsSettings'', fld ax_TlsSettingsBack ax_TlsSettingsBack_update into_TlsBack),
      (''padding_scheme'', fld ax_PaddingScheme ax_PaddingScheme_update (into_list [] into_string)),
      (''fallback'', fld ax_Fallback ax_Fallback_update (into_struct ArtXFallback_fields)),
      (''behavior'', fld ax_Behavior ax_Behavior_update (into_struct ArtXBehavior_fields))] @
     embed ax_Common ax_Common_update [] (CommonNode_fields uni)"

section \<open>Normalisation\<close>

definition mergeLegacyTLSSettings :: "TlsSettings \<Rightarrow> TlsSettings option \<Rightarrow> TlsSettings" where
  "mergeLegacyTLSSettings current legacy = (case legacy of None \<Rightarrow> current | Some l \<Rightarrow> l)"

definition normalizeArtXNode :: "ArtXNode \<Rightarrow> ArtXNode" where
  "normalizeArtXNode n0 =
     (let n1 = n0\<lparr>ax_TlsSettings := mergeLegacyTLSSettings (ax_TlsSettings n0) (ax_TlsSettingsBack n0),
                  ax_TlsSettingsBack := None\<rparr>;
          n2 = (if trim_space (ax_Underlay n1) = [] then n1\<lparr>ax_Underlay := ''anytls''\<rparr> else n1);
          n3 = n2\<lparr>ax_FlowControl := trim_space (ax_FlowControl n2)\<rparr>;
          n4 = (if ax_FlowControl n3 = [] \<or> ax_Underlay n3 \<noteq> ''artx-wire''
                then n3\<lparr>ax_FlowControl := ''legacy''\<rparr> else n3);
          n5 = (if trim_space (ax_Profile n4) = [] then n4\<lparr>ax_Profile := ''balanced''\<rparr> else n4);
          n6 = (if ax_ProfileVersion n5 < 1 then n5\<lparr>ax_ProfileVersion := 1\<rparr> else n5)
      in if trim_space (ax_UDPMode n6) = [] \<or> \<not> ax_UDP n6 \<or> ax_Underlay n6 \<noteq> ''artx-wire''
         then n6\<lparr>ax_UDPMode := ''compat''\<rparr> else n6)"

definition normalizeShadowTLSNode :: "ShadowTLSNode \<Rightarrow> ShadowTLSNode" where
  "normalizeShadowTLSNode n0 =
     (let n1 = (if st_Version n0 < 1 \<or> 3 < st_Version n0 then n0\<lparr>st_Version := 3\<rparr> else n0);
          n2 = (if trim_space (st_Cipher n1) = [] then n1\<lparr>st_Cipher := ''2022-blake3-aes-128-gcm''\<rparr> else n1);
          n3 = (if trim_space (hs_Server (st_Handshake n2)) = []
                then (if trim_space (cn_ServerName (st_Common n2)) \<noteq> []
                      then n2\<lparr>st_Handshake := (st_Handshake n2)\<lparr>hs_Server := cn_ServerName (st_Common n2)\<rparr>\<rparr>
                      else n2\<lparr>st_Handshake := (st_Handshake n2)\<lparr>hs_Server := cn_Host (st_Common n2)\<rparr>\<rparr>)
                else n2);
          n4 = (if hs_ServerPort (st_Handshake n3) = 0
                then n3\<lparr>st_Handshake := (st_Handshake n3)\<lparr>hs_ServerPort := 443\<rparr>\<rparr> else n3);
          sni = to_lower (trim_space (st_WildcardSNI n4))
      in if sni = ''authed'' \<or> sni = ''all'' then n4\<lparr>st_WildcardSNI := sni\<rparr>
         else n4\<lparr>st_WildcardSNI := ''off''\<rparr>)"

definition xhttpObjectLikeKeys :: "string list" where
  "xhttpObjectLikeKeys =
     [''downloadSettings'', ''extra'', ''headers'', ''realitySettings'', ''sockopt'', ''splithttpSettings'',
      ''tlsSettings'', ''xhttpSettings'', ''xmux'']"

definition shouldNormalizeObjectLikeArray :: "string \<Rightarrow> json \<Rightarrow> bool" where
  "shouldNormalizeObjectLikeArray key value \<longleftrightarrow> key \<in> set xhttpObjectLikeKeys \<and> value = JArr []"

text \<open>
  The normalised value and whether it differs. An empty array under an object-like key becomes an empty
  object, which needs no further change.
\<close>

fun normalizeLegacyXHTTPValue :: "json \<Rightarrow> json \<times> bool"
  and normalize_members :: "(string \<times> json) list \<Rightarrow> (string \<times> json) list \<times> bool"
  and normalize_items :: "json list \<Rightarrow> json list \<times> bool" where
  "normalizeLegacyXHTTPValue (JObj kvs) = (case normalize_members kvs of (kvs', changed) \<Rightarrow> (JObj kvs', changed))"
| "normalizeLegacyXHTTPValue (JArr js) = (case normalize_items js of (js', changed) \<Rightarrow> (JArr js', changed))"
| "normalizeLegacyXHTTPValue v = (v, False)"
| "normalize_members [] = ([], False)"
| "normalize_members ((key, child) # kvs) =
     (case normalize_members kvs of (kvs', ch) \<Rightarrow>
        if shouldNormalizeObjectLikeArray key child then ((key, JObj []) # kvs', True)
        else case normalizeLegacyXHTTPValue child of (child', ch') \<Rightarrow> ((key, child') # kvs', ch' \<or> ch))"
| "normalize_items [] = ([], False)"
| "normalize_items (child # js) =
     (case normalize_items js of (js', ch) \<Rightarrow>
        case normalizeLegacyXHTTPValue child of (child', ch') \<Rightarrow> (child' # js', ch' \<or> ch))"

definition normalizeLegacyXHTTPSettings :: "string \<Rightarrow> json option \<Rightarrow> json option" where
  "normalizeLegacyXHTTPSettings network raw =
     (case raw of
        None \<Rightarrow> None
      | Some payload \<Rightarrow>
          if network \<noteq> ''xhttp'' \<and> network \<noteq> ''splithttp'' then Some payload
          else case normalizeLegacyXHTTPValue payload of
            (normalized, changed) \<Rightarrow> if \<not> changed then Some payload else Some normalized)"

section \<open>Lenient fields\<close>

definition item_strings :: "json list \<Rightarrow> string list" where
  "item_strings v = List.map_filter (\<lambda>item. case item of JStr s \<Rightarrow> Some s | _ \<Rightarrow> None) v"

definition ignoredIPsToList :: "json \<Rightarrow> string list" where
  "ignoredIPsToList i =
     (let raw = (case i of
            JArr v \<Rightarrow> item_strings v
          | JStr v \<Rightarrow> fields_func (\<lambda>r. r = CHR '','' \<or> r = CHR '' '' \<or> r = CHR 0x0A \<or> r = CHR 0x09 \<or> r = CHR 0x0D) [] v
          | _ \<Rightarrow> [])
      in filter (\<lambda>s. s \<noteq> []) (map trim_space raw))"

definition toleranceToInt :: "json \<Rightarrow> int \<Rightarrow> int" where
  "toleranceToInt i def =
     (let result = (case i of
            JNum s \<Rightarrow> i64 (trunc_rat (json_float s))
          | JStr v \<Rightarrow> (case atoi v of Some n \<Rightarrow> n | None \<Rightarrow> def)
          | _ \<Rightarrow> def)
      in if result < 0 then 0 else result)"

text \<open>\<^verbatim>\<open>strconv.Atoi\<close> with its error dropped: 0 for a syntax error, the nearest bound when out of range.\<close>

definition atoi_value :: "string \<Rightarrow> int" where
  "atoi_value s =
     (case atoi s of
        Some v \<Rightarrow> v
      | None \<Rightarrow>
          (case s of
             [] \<Rightarrow> 0
           | c # cs \<Rightarrow>
               if c = CHR ''-'' then (if all_digits cs then - (2 ^ 63) else 0)
               else if all_digits (if c = CHR ''+'' then cs else s) then 2 ^ 63 - 1 else 0))"

datatype node_error =
    RequestFailed string
  | DecodeFailed string
  | TuicVersion int
  | UnsupportedType string
  | NodePanic

definition intervalToTime :: "json \<Rightarrow> node_error + int" where
  "intervalToTime i =
     (case i of
        JNull \<Rightarrow> Inr 0
      | JStr s \<Rightarrow> Inr (i64 (atoi_value s * second))
      | JNum s \<Rightarrow> Inr (i64 (i64 (trunc_rat (json_float s)) * second))
      | _ \<Rightarrow> Inl NodePanic)"

end
