(* ===== verification/Panel_Fetch.thy ===== *)
theory Panel_Fetch
  imports Panel_Info
begin

text \<open>
  \<^verbatim>\<open>Client.GetNodeInfo\<close> and the cache it keeps (\<^verbatim>\<open>src/api/panel/node.go\<close>, \<^verbatim>\<open>src/api/panel/panel.go\<close>).

  The client holds its lock only while it reads the cache before the request and while it writes it after the
  response; pushes of the panel and failed rebuilds invalidate the cache in between. So a fetch is two steps:
  \<open>node_request\<close> takes a snapshot, \<open>node_response\<close> turns the response into a node info and updates the cache.
  \<open>hash\<close> is the SHA-256 of the canonical encoding of a node info.
\<close>

section \<open>The node info\<close>

record dns_entry =
  de_address :: string
  de_domains :: "string list"

record RawDNS =
  rd_DNSMap :: "(string, dns_entry) gomap"
  rd_DNSJson :: string

record NodeInfo =
  ni_Id :: int
  ni_Type :: string
  ni_Security :: int
  ni_PushInterval :: int
  ni_PullInterval :: int
  ni_DeviceLimitTolerance :: int
  ni_DeviceLimitIgnoredIPs :: "string list"
  ni_DeviceLimitCDNDisabled :: "string list"
  ni_RawDNS :: RawDNS
  ni_Rules :: Rules
  ni_VAllss :: "VAllssNode option"
  ni_AnyTls :: "AnyTlsNode option"
  ni_ArtX :: "ArtXNode option"
  ni_Shadowsocks :: "ShadowsocksNode option"
  ni_Trojan :: "TrojanNode option"
  ni_Tuic :: "TuicNode option"
  ni_Hysteria :: "HysteriaNode option"
  ni_Hysteria2 :: "Hysteria2Node option"
  ni_ShadowTLS :: "ShadowTLSNode option"
  ni_Naive :: "NaiveNode option"
  ni_Common :: "CommonNode option"
  ni_CertConfig :: "CertConfig option"

definition RealityParams :: "NodeInfo \<Rightarrow> TlsSettings \<times> RealityConfig \<times> bool" where
  "RealityParams n =
     (case ni_VAllss n of
        Some v \<Rightarrow> (va_TlsSettings v, va_RealityConfig v, True)
      | None \<Rightarrow>
          (case ni_Trojan n of
             Some t \<Rightarrow> (tr_TlsSettings t, tr_RealityConfig t, True)
           | None \<Rightarrow>
               (case ni_AnyTls n of
                  Some a \<Rightarrow> (at_TlsSettings a, at_RealityConfig a, True)
                | None \<Rightarrow> (TlsSettings_zero, RealityConfig_zero, False))))"

definition hysteriaVersion :: "json option \<Rightarrow> int" where
  "hysteriaVersion body =
     (case Option.bind body (into_struct [(''version'', into_int)] 0) of
        None \<Rightarrow> 0
      | Some version \<Rightarrow> if version < 0 then 0 else version)"

definition new_node :: "int \<Rightarrow> string \<Rightarrow> NodeInfo" where
  "new_node nodeId nodeType =
     \<lparr>ni_Id = nodeId, ni_Type = nodeType, ni_Security = 0, ni_PushInterval = 0, ni_PullInterval = 0,
      ni_DeviceLimitTolerance = 0, ni_DeviceLimitIgnoredIPs = [], ni_DeviceLimitCDNDisabled = [],
      ni_RawDNS = \<lparr>rd_DNSMap = [], rd_DNSJson = []\<rparr>, ni_Rules = \<lparr>r_Regexp = [], r_Protocol = []\<rparr>,
      ni_VAllss = None, ni_AnyTls = None, ni_ArtX = None, ni_Shadowsocks = None, ni_Trojan = None,
      ni_Tuic = None, ni_Hysteria = None, ni_Hysteria2 = None, ni_ShadowTLS = None, ni_Naive = None,
      ni_Common = None, ni_CertConfig = None\<rparr>"

section \<open>Protocol parameters\<close>

text \<open>One definition per case of the switch; each gives the node with its parameters and the common part.\<close>

type_synonym decoded = "node_error + NodeInfo \<times> CommonNode"

definition decode_VAllss :: "(string \<Rightarrow> bool) \<Rightarrow> json option \<Rightarrow> NodeInfo \<Rightarrow> decoded" where
  "decode_VAllss uni body node =
     (case Option.bind body (into_struct (VAllssNode_fields uni) VAllssNode_zero) of
        None \<Rightarrow> Inl (DecodeFailed ''v2ray'')
      | Some r0 \<Rightarrow>
          let r1 = (if va_NetworkSettingsBack r0 \<noteq> None
                    then r0\<lparr>va_NetworkSettings := va_NetworkSettingsBack r0, va_NetworkSettingsBack := None\<rparr> else r0);
              r2 = r1\<lparr>va_TlsSettings := mergeLegacyTLSSettings (va_TlsSettings r1) (va_TlsSettingsBack r1),
                      va_TlsSettingsBack := None\<rparr>;
              r3 = r2\<lparr>va_NetworkSettings := normalizeLegacyXHTTPSettings (va_Network r2) (va_NetworkSettings r2)\<rparr>
          in Inr (node\<lparr>ni_VAllss := Some r3, ni_Security := va_Tls r3\<rparr>, va_Common r3))"

definition decode_Shadowsocks :: "(string \<Rightarrow> bool) \<Rightarrow> json option \<Rightarrow> NodeInfo \<Rightarrow> decoded" where
  "decode_Shadowsocks uni body node =
     (case Option.bind body (into_struct (ShadowsocksNode_fields uni) ShadowsocksNode_zero) of
        None \<Rightarrow> Inl (DecodeFailed ''shadowsocks'')
      | Some r \<Rightarrow> Inr (node\<lparr>ni_Shadowsocks := Some r, ni_Security := Sec_None\<rparr>, ss_Common r))"

definition decode_Trojan :: "(string \<Rightarrow> bool) \<Rightarrow> json option \<Rightarrow> NodeInfo \<Rightarrow> decoded" where
  "decode_Trojan uni body node =
     (case Option.bind body (into_struct (TrojanNode_fields uni) TrojanNode_zero) of
        None \<Rightarrow> Inl (DecodeFailed ''trojan'')
      | Some r0 \<Rightarrow>
          let r = r0\<lparr>tr_TlsSettings := mergeLegacyTLSSettings (tr_TlsSettings r0) (tr_TlsSettingsBack r0),
                     tr_TlsSettingsBack := None\<rparr>
          in Inr (node\<lparr>ni_Trojan := Some r, ni_Security := securityFromTLS (tr_Tls r)\<rparr>, tr_Common r))"

definition decode_AnyTls :: "(string \<Rightarrow> bool) \<Rightarrow> json option \<Rightarrow> NodeInfo \<Rightarrow> decoded" where
  "decode_AnyTls uni body node =
     (case Option.bind body (into_struct (AnyTlsNode_fields uni) AnyTlsNode_zero) of
        None \<Rightarrow> Inl (DecodeFailed ''anytls'')
      | Some r0 \<Rightarrow>
          let r = r0\<lparr>at_TlsSettings := mergeLegacyTLSSettings (at_TlsSettings r0) (at_TlsSettingsBack r0),
                     at_TlsSettingsBack := None\<rparr>
          in Inr (node\<lparr>ni_AnyTls := Some r, ni_Security := securityFromTLS (at_Tls r)\<rparr>, at_Common r))"

definition decode_ArtX :: "(string \<Rightarrow> bool) \<Rightarrow> json option \<Rightarrow> NodeInfo \<Rightarrow> decoded" where
  "decode_ArtX uni body node =
     (case Option.bind body (into_struct (ArtXNode_fields uni) ArtXNode_zero) of
        None \<Rightarrow> Inl (DecodeFailed ''artx'')
      | Some r0 \<Rightarrow>
          let r = normalizeArtXNode r0
          in Inr (node\<lparr>ni_ArtX := Some r, ni_Security := Sec_Tls\<rparr>, ax_Common r))"

definition decode_Tuic :: "(string \<Rightarrow> bool) \<Rightarrow> json option \<Rightarrow> NodeInfo \<Rightarrow> decoded" where
  "decode_Tuic uni body node =
     (case Option.bind body (into_struct (TuicNode_fields uni) TuicNode_zero) of
        None \<Rightarrow> Inl (DecodeFailed ''tuic'')
      | Some r0 \<Rightarrow>
          let r = r0\<lparr>tu_TlsSettings := mergeLegacyTLSSettings (tu_TlsSettings r0) (tu_TlsSettingsBack r0),
                     tu_TlsSettingsBack := None\<rparr>
          in if tu_Version r \<noteq> 0 \<and> tu_Version r < 5 then Inl (TuicVersion (tu_Version r))
             else Inr (node\<lparr>ni_Tuic := Some r, ni_Security := Sec_Tls\<rparr>, tu_Common r))"

definition decode_Hysteria :: "(string \<Rightarrow> bool) \<Rightarrow> string \<Rightarrow> json option \<Rightarrow> NodeInfo \<Rightarrow> decoded" where
  "decode_Hysteria uni nodeType body node =
     (let probed = hysteriaVersion body;
          version = (if probed = 0 then (if nodeType = ''hysteria2'' then 2 else 1) else probed)
      in if 2 \<le> version
         then (case Option.bind body (into_struct (Hysteria2Node_fields uni) Hysteria2Node_zero) of
                 None \<Rightarrow> Inl (DecodeFailed ''hysteria2'')
               | Some r0 \<Rightarrow>
                   let r = r0\<lparr>h2_TlsSettings := mergeLegacyTLSSettings (h2_TlsSettings r0) (h2_TlsSettingsBack r0),
                              h2_TlsSettingsBack := None\<rparr>
                   in Inr (node\<lparr>ni_Hysteria2 := Some r, ni_Type := ''hysteria2'', ni_Security := Sec_Tls\<rparr>, h2_Common r))
         else (case Option.bind body (into_struct (HysteriaNode_fields uni) HysteriaNode_zero) of
                 None \<Rightarrow> Inl (DecodeFailed ''hysteria'')
               | Some r0 \<Rightarrow>
                   let r = r0\<lparr>hy_TlsSettings := mergeLegacyTLSSettings (hy_TlsSettings r0) (hy_TlsSettingsBack r0),
                              hy_TlsSettingsBack := None\<rparr>
                   in Inr (node\<lparr>ni_Hysteria := Some r, ni_Type := ''hysteria'', ni_Security := Sec_Tls\<rparr>, hy_Common r)))"

definition decode_ShadowTLS :: "(string \<Rightarrow> bool) \<Rightarrow> json option \<Rightarrow> NodeInfo \<Rightarrow> decoded" where
  "decode_ShadowTLS uni body node =
     (case Option.bind body (into_struct (ShadowTLSNode_fields uni) ShadowTLSNode_zero) of
        None \<Rightarrow> Inl (DecodeFailed ''shadowtls'')
      | Some r0 \<Rightarrow>
          let r = normalizeShadowTLSNode r0
          in Inr (node\<lparr>ni_ShadowTLS := Some r, ni_Security := Sec_None\<rparr>, st_Common r))"

definition decode_Naive :: "(string \<Rightarrow> bool) \<Rightarrow> json option \<Rightarrow> NodeInfo \<Rightarrow> decoded" where
  "decode_Naive uni body node =
     (case Option.bind body (into_struct (NaiveNode_fields uni) NaiveNode_zero) of
        None \<Rightarrow> Inl (DecodeFailed ''naive'')
      | Some r0 \<Rightarrow>
          let r = r0\<lparr>nv_TlsSettings := mergeLegacyTLSSettings (nv_TlsSettings r0) (nv_TlsSettingsBack r0),
                     nv_TlsSettingsBack := None\<rparr>
          in Inr (node\<lparr>ni_Naive := Some r, ni_Security := Sec_Tls\<rparr>, nv_Common r))"

definition decode_params :: "(string \<Rightarrow> bool) \<Rightarrow> string \<Rightarrow> json option \<Rightarrow> NodeInfo \<Rightarrow> decoded" where
  "decode_params uni nodeType body node =
     (if nodeType = ''vmess'' \<or> nodeType = ''vless'' then decode_VAllss uni body node
      else if nodeType = ''shadowsocks'' then decode_Shadowsocks uni body node
      else if nodeType = ''trojan'' then decode_Trojan uni body node
      else if nodeType = ''anytls'' then decode_AnyTls uni body node
      else if nodeType = ''artx'' then decode_ArtX uni body node
      else if nodeType = ''tuic'' then decode_Tuic uni body node
      else if nodeType = ''hysteria'' \<or> nodeType = ''hysteria2'' then decode_Hysteria uni nodeType body node
      else if nodeType = ''shadowtls'' then decode_ShadowTLS uni body node
      else if nodeType = ''naive'' then decode_Naive uni body node
      else Inl (UnsupportedType nodeType))"

section \<open>Routes\<close>

fun assert_strings :: "json list \<Rightarrow> string list option" where
  "assert_strings [] = Some []"
| "assert_strings (JStr s # js) = map_option ((#) s) (assert_strings js)"
| "assert_strings (_ # js) = None"

definition route_matches :: "json \<Rightarrow> node_error + string list" where
  "route_matches m =
     (case m of
        JStr s \<Rightarrow> Inr (split_on CHR '','' s)
      | JArr temp \<Rightarrow> (case assert_strings temp of None \<Rightarrow> Inl NodePanic | Some ms \<Rightarrow> Inr ms)
      | _ \<Rightarrow> Inl NodePanic)"

definition block_rule :: "string \<Rightarrow> Rules \<Rightarrow> Rules" where
  "block_rule v rules =
     (if has_prefix v ''protocol:''
      then rules\<lparr>r_Protocol := r_Protocol rules @ [trim_prefix v ''protocol:'']\<rparr>
      else rules\<lparr>r_Regexp := r_Regexp rules @ [trim_prefix v ''regexp:'']\<rparr>)"

definition dns_rule :: "nat \<Rightarrow> string \<Rightarrow> string list \<Rightarrow> RawDNS \<Rightarrow> node_error + RawDNS" where
  "dns_rule i actionValue matchs raw =
     (case matchs of
        [] \<Rightarrow> Inl NodePanic
      | m # ms \<Rightarrow>
          if m \<noteq> ''main''
          then Inr (raw\<lparr>rd_DNSMap := AList.update (itoa (int i)) \<lparr>de_address = actionValue, de_domains = matchs\<rparr> (rd_DNSMap raw)\<rparr>)
          else Inr (raw\<lparr>rd_DNSJson := concat ms\<rparr>))"

fun parse_routes :: "nat \<Rightarrow> Route list \<Rightarrow> NodeInfo \<Rightarrow> node_error + NodeInfo" where
  "parse_routes i [] node = Inr node"
| "parse_routes i (r # rs) node =
     (case route_matches (rt_Match r) of
        Inl e \<Rightarrow> Inl e
      | Inr matchs \<Rightarrow>
          if rt_Action r = ''block''
          then parse_routes (i + 1) rs (node\<lparr>ni_Rules := fold block_rule matchs (ni_Rules node)\<rparr>)
          else if rt_Action r = ''dns''
          then (case dns_rule i (rt_ActionValue r) matchs (ni_RawDNS node) of
                  Inl e \<Rightarrow> Inl e
                | Inr raw \<Rightarrow> parse_routes (i + 1) rs (node\<lparr>ni_RawDNS := raw\<rparr>))
          else parse_routes (i + 1) rs node)"

section \<open>Intervals and limits\<close>

definition defaultInterval :: int where "defaultInterval = 60 * second"

definition set_intervals :: "CommonNode \<Rightarrow> NodeInfo \<Rightarrow> node_error + NodeInfo" where
  "set_intervals cm node =
     (let n1 = node\<lparr>ni_PushInterval := defaultInterval, ni_PullInterval := defaultInterval,
                    ni_DeviceLimitTolerance := 1\<rparr>
      in case cn_BaseConfig cm of
           None \<Rightarrow> Inr n1
         | Some b \<Rightarrow>
             (case intervalToTime (bc_PushInterval b) of
                Inl e \<Rightarrow> Inl e
              | Inr push \<Rightarrow>
                  (case intervalToTime (bc_PullInterval b) of
                     Inl e \<Rightarrow> Inl e
                   | Inr pull \<Rightarrow>
                       Inr (n1\<lparr>ni_PushInterval := push, ni_PullInterval := pull,
                               ni_DeviceLimitTolerance := toleranceToInt (bc_DeviceLimitTolerance b) 1,
                               ni_DeviceLimitIgnoredIPs := ignoredIPsToList (bc_DeviceLimitIgnoredIPs b),
                               ni_DeviceLimitCDNDisabled := ignoredIPsToList (bc_DeviceLimitCDNDisabled b)\<rparr>))))"

text \<open>
  The common part is shared with the parameters of the protocol: clearing its routes, base and certificate
  settings clears them there too.
\<close>

definition set_common :: "CommonNode \<Rightarrow> NodeInfo \<Rightarrow> NodeInfo" where
  "set_common cm n =
     n\<lparr>ni_Common := Some cm,
       ni_VAllss := map_option (va_Common_update (\<lambda>_. cm)) (ni_VAllss n),
       ni_AnyTls := map_option (at_Common_update (\<lambda>_. cm)) (ni_AnyTls n),
       ni_ArtX := map_option (ax_Common_update (\<lambda>_. cm)) (ni_ArtX n),
       ni_Shadowsocks := map_option (ss_Common_update (\<lambda>_. cm)) (ni_Shadowsocks n),
       ni_Trojan := map_option (tr_Common_update (\<lambda>_. cm)) (ni_Trojan n),
       ni_Tuic := map_option (tu_Common_update (\<lambda>_. cm)) (ni_Tuic n),
       ni_Hysteria := map_option (hy_Common_update (\<lambda>_. cm)) (ni_Hysteria n),
       ni_Hysteria2 := map_option (h2_Common_update (\<lambda>_. cm)) (ni_Hysteria2 n),
       ni_ShadowTLS := map_option (st_Common_update (\<lambda>_. cm)) (ni_ShadowTLS n),
       ni_Naive := map_option (nv_Common_update (\<lambda>_. cm)) (ni_Naive n)\<rparr>"

definition build_node :: "(string \<Rightarrow> bool) \<Rightarrow> int \<Rightarrow> string \<Rightarrow> json option \<Rightarrow> node_error + NodeInfo" where
  "build_node uni nodeId nodeType body =
     (case decode_params uni nodeType body (new_node nodeId nodeType) of
        Inl e \<Rightarrow> Inl e
      | Inr (node, cm) \<Rightarrow>
          (case parse_routes 0 (cn_Routes cm) node of
             Inl e \<Rightarrow> Inl e
           | Inr n1 \<Rightarrow>
               (case set_intervals cm n1 of
                  Inl e \<Rightarrow> Inl e
                | Inr n2 \<Rightarrow>
                    Inr (set_common (cm\<lparr>cn_Routes := [], cn_BaseConfig := None, cn_CertConfig := None\<rparr>)
                           (n2\<lparr>ni_CertConfig := cn_CertConfig cm\<rparr>)))))"

section \<open>The cache\<close>

record NodeCache =
  nodeEtag :: string
  nodeConfigHash :: string
  nodeCacheVersion :: "64 word"
  nodeRetryVersion :: "64 word"

record http_response =
  rs_Status :: int
  rs_ETag :: string
  rs_Body :: "json option"

definition InvalidateNodeInfoCache :: "NodeCache \<Rightarrow> NodeCache" where
  "InvalidateNodeInfoCache c =
     c\<lparr>nodeEtag := [], nodeConfigHash := [], nodeCacheVersion := nodeCacheVersion c + 1,
       nodeRetryVersion := nodeRetryVersion c + 1\<rparr>"

definition invalidateNodeInfoCache :: "NodeCache \<Rightarrow> NodeCache" where
  "invalidateNodeInfoCache c = c\<lparr>nodeEtag := [], nodeCacheVersion := nodeCacheVersion c + 1\<rparr>"

text \<open>A failed request, \<^verbatim>\<open>checkResponse\<close>: a transport error, no response, or a status from 400 on.\<close>

definition checkResponse :: "string + http_response option \<Rightarrow> node_error option" where
  "checkResponse res =
     (case res of
        Inl err \<Rightarrow> Some (RequestFailed err)
      | Inr None \<Rightarrow> Some (RequestFailed ''empty response'')
      | Inr (Some r) \<Rightarrow> if 400 \<le> rs_Status r then Some (RequestFailed ''status'') else None)"

text \<open>What is read under the lock before the request.\<close>

definition node_request :: "NodeCache \<Rightarrow> NodeCache" where
  "node_request c = c"

definition node_response ::
  "(string \<Rightarrow> bool) \<Rightarrow> (NodeInfo \<Rightarrow> string) \<Rightarrow> int \<Rightarrow> string \<Rightarrow> NodeCache \<Rightarrow> string + http_response option
     \<Rightarrow> NodeCache \<Rightarrow> NodeCache \<times> (node_error + NodeInfo option)" where
  "node_response uni hash nodeId nodeType snap res c =
     (case checkResponse res of
        Some e \<Rightarrow> (c, Inl e)
      | None \<Rightarrow>
          let r = the (projr res) in
          if rs_Status r = 304 then (c, Inr None)
          else case build_node uni nodeId nodeType (rs_Body r) of
            Inl e \<Rightarrow> (c, Inl e)
          | Inr node \<Rightarrow>
              let newConfigHash = hash node;
                  with_etag = (\<lambda>d. if nodeCacheVersion d = nodeCacheVersion snap then d\<lparr>nodeEtag := rs_ETag r\<rparr> else d)
              in if nodeConfigHash snap = newConfigHash then (with_etag c, Inr None)
                 else (with_etag (if nodeRetryVersion c = nodeRetryVersion snap
                                  then c\<lparr>nodeConfigHash := newConfigHash\<rparr> else c), Inr (Some node)))"

end
