(* ===== verification/Panel_Cache.thy ===== *)
theory Panel_Cache
  imports Panel_Fetch
begin

text \<open>
  The cache of the node configuration under concurrency: fetches in flight, pushes of the panel and requests to
  rebuild interleave freely. The counters are 64 bits wide; a step that would bring a counter back to the value
  a fetch in flight has read, after as many invalidations as there are values, is left out.
\<close>

section \<open>Interleavings\<close>

text \<open>\<open>retry\<close> is set by a request to rebuild and cleared when a fetch hands a node info to the controller.\<close>

record fetch_state =
  fs_cache :: NodeCache
  fs_inflight :: "NodeCache list"
  fs_retry :: bool

datatype fetch_event = FBegin | FFinish NodeCache "string + http_response option" | FPush | FRebuild

definition unread :: "NodeCache \<Rightarrow> NodeCache list \<Rightarrow> bool" where
  "unread c snaps \<longleftrightarrow> (\<forall>s \<in> set snaps. nodeCacheVersion s \<noteq> nodeCacheVersion c)"

inductive fetch_step ::
  "(string \<Rightarrow> bool) \<Rightarrow> (NodeInfo \<Rightarrow> string) \<Rightarrow> int \<Rightarrow> string \<Rightarrow> fetch_state \<Rightarrow> fetch_event \<Rightarrow> fetch_state \<Rightarrow> bool"
  for uni :: "string \<Rightarrow> bool" and hash :: "NodeInfo \<Rightarrow> string" and nodeId :: int and nodeType :: string where
  begin_fetch: "fetch_step uni hash nodeId nodeType s FBegin
     (s\<lparr>fs_inflight := node_request (fs_cache s) # fs_inflight s\<rparr>)"
| finish_fetch: "snap \<in> set (fs_inflight s) \<Longrightarrow>
     node_response uni hash nodeId nodeType snap res (fs_cache s) = (c, r) \<Longrightarrow>
     fetch_step uni hash nodeId nodeType s (FFinish snap res)
       (s\<lparr>fs_cache := c, fs_inflight := remove1 snap (fs_inflight s),
          fs_retry := fs_retry s \<and> \<not> (\<exists>node. r = Inr (Some node) \<and> nodeRetryVersion snap = nodeRetryVersion (fs_cache s))\<rparr>)"
| push: "unread (invalidateNodeInfoCache (fs_cache s)) (fs_inflight s) \<Longrightarrow>
     fetch_step uni hash nodeId nodeType s FPush (s\<lparr>fs_cache := invalidateNodeInfoCache (fs_cache s)\<rparr>)"
| rebuild: "unread (InvalidateNodeInfoCache (fs_cache s)) (fs_inflight s) \<Longrightarrow>
     \<forall>x \<in> set (fs_inflight s). nodeRetryVersion x \<noteq> nodeRetryVersion (InvalidateNodeInfoCache (fs_cache s)) \<Longrightarrow>
     fetch_step uni hash nodeId nodeType s FRebuild
       (s\<lparr>fs_cache := InvalidateNodeInfoCache (fs_cache s), fs_retry := True\<rparr>)"

inductive_cases fetch_stepE: "fetch_step uni hash nodeId nodeType s e s'"

definition fetch_start :: "fetch_state \<Rightarrow> bool" where
  "fetch_start s \<longleftrightarrow> fs_inflight s = [] \<and> \<not> fs_retry s"

text \<open>
  While a rebuild is asked for, the cache holds neither ETag nor hash, and neither does a snapshot taken since;
  and a snapshot that may still write the ETag was taken since.
\<close>

definition retry_inv :: "fetch_state \<Rightarrow> bool" where
  "retry_inv s \<longleftrightarrow>
     (\<forall>x \<in> set (fs_inflight s). nodeCacheVersion x = nodeCacheVersion (fs_cache s) \<longrightarrow>
        nodeRetryVersion x = nodeRetryVersion (fs_cache s)) \<and>
     (fs_retry s \<longrightarrow>
        nodeEtag (fs_cache s) = [] \<and> nodeConfigHash (fs_cache s) = [] \<and>
        (\<forall>x \<in> set (fs_inflight s). nodeRetryVersion x = nodeRetryVersion (fs_cache s) \<longrightarrow>
           nodeEtag x = [] \<and> nodeConfigHash x = []))"

lemma node_response_cases:
  assumes "node_response uni hash nodeId nodeType snap res c = (c', r)"
  obtains (same) "c' = c" "\<nexists>n. r = Inr (Some n)"
  | (known) e node where "nodeConfigHash snap = hash node" "r = Inr None"
      "c' = (if nodeCacheVersion c = nodeCacheVersion snap then c\<lparr>nodeEtag := e\<rparr> else c)"
  | (delivered) e node where "r = Inr (Some node)" "nodeConfigHash snap \<noteq> hash node"
      "c' = (let d = (if nodeRetryVersion c = nodeRetryVersion snap then c\<lparr>nodeConfigHash := hash node\<rparr> else c)
             in if nodeCacheVersion c = nodeCacheVersion snap then d\<lparr>nodeEtag := e\<rparr> else d)"
proof (cases "checkResponse res")
  case (Some err)
  with assms same show ?thesis by (auto simp: node_response_def)
next
  case None
  let ?r = "the (projr res)"
  show ?thesis
  proof (cases "rs_Status ?r = 304")
    case True
    with None assms same show ?thesis by (auto simp: node_response_def Let_def)
  next
    case False
    show ?thesis
    proof (cases "build_node uni nodeId nodeType (rs_Body ?r)")
      case (Inl err)
      with None False assms same show ?thesis by (auto simp: node_response_def Let_def)
    next
      case (Inr node)
      show ?thesis
      proof (cases "nodeConfigHash snap = hash node")
        case True
        with None False Inr assms known [of node "rs_ETag ?r"] show ?thesis
          by (simp add: node_response_def Let_def split: if_splits)
      next
        case ne: False
        with None False Inr assms delivered [of node "rs_ETag ?r"] show ?thesis
          by (cases "nodeCacheVersion c = nodeCacheVersion snap"; cases "nodeRetryVersion c = nodeRetryVersion snap")
             (auto simp: node_response_def Let_def)
      qed
    qed
  qed
qed

lemma node_response_versions:
  assumes "node_response uni hash nodeId nodeType snap res c = (c', r)"
  shows "nodeCacheVersion c' = nodeCacheVersion c" "nodeRetryVersion c' = nodeRetryVersion c"
  by (rule node_response_cases [OF assms]; simp add: Let_def)+

lemma retry_inv_mono:
  assumes "retry_inv s" "set xs \<subseteq> set (fs_inflight s)"
    and "nodeCacheVersion c = nodeCacheVersion (fs_cache s)" "nodeRetryVersion c = nodeRetryVersion (fs_cache s)"
    and "b \<Longrightarrow> fs_retry s \<and> c = fs_cache s"
  shows "retry_inv (s\<lparr>fs_cache := c, fs_inflight := xs, fs_retry := b\<rparr>)"
  using assms by (cases b) (auto simp: retry_inv_def)

lemma retry_inv_finish:
  assumes hash: "\<And>n. hash n \<noteq> []" and i: "retry_inv s" and "snap \<in> set (fs_inflight s)"
    and r: "node_response uni hash nodeId nodeType snap res (fs_cache s) = (c, r)"
  shows "retry_inv (s\<lparr>fs_cache := c, fs_inflight := remove1 snap (fs_inflight s),
    fs_retry := fs_retry s \<and> \<not> (\<exists>node. r = Inr (Some node) \<and> nodeRetryVersion snap = nodeRetryVersion (fs_cache s))\<rparr>)"
proof (rule retry_inv_mono [OF i set_remove1_subset node_response_versions [OF r]])
  assume b: "fs_retry s \<and> \<not> (\<exists>node. r = Inr (Some node) \<and> nodeRetryVersion snap = nodeRetryVersion (fs_cache s))"
  have s: "nodeCacheVersion snap = nodeCacheVersion (fs_cache s) \<Longrightarrow>
      nodeRetryVersion snap = nodeRetryVersion (fs_cache s) \<and> nodeConfigHash snap = []"
    using i assms(3) b by (auto simp: retry_inv_def)
  from r show "fs_retry s \<and> c = fs_cache s"
  proof (cases rule: node_response_cases)
    case same
    with b show ?thesis by blast
  next
    case (known e node)
    have "nodeCacheVersion (fs_cache s) \<noteq> nodeCacheVersion snap" using s known(1) hash by metis
    with b known(3) show ?thesis by simp
  next
    case (delivered e node)
    have v: "nodeRetryVersion (fs_cache s) \<noteq> nodeRetryVersion snap" using b delivered(1) by metis
    then have "nodeCacheVersion (fs_cache s) \<noteq> nodeCacheVersion snap" using s by metis
    with b v delivered(3) show ?thesis by simp
  qed
qed

lemma fetch_component:
  assumes "\<And>n. hash n \<noteq> []"
  shows "component fetch_start (fetch_step uni hash nodeId nodeType) retry_inv"
proof
  show "retry_inv s" if "fetch_start s" for s using that by (simp add: fetch_start_def retry_inv_def)
  show "retry_inv s'" if "retry_inv s" "fetch_step uni hash nodeId nodeType s e s'" for s e s'
    using that(2,1)
  proof cases
    case begin_fetch
    with that(1) show ?thesis by (auto simp: retry_inv_def node_request_def)
  next
    case (finish_fetch snap res c r)
    with that(1) assms retry_inv_finish show ?thesis by blast
  next
    case push
    with that(1) show ?thesis by (auto simp: retry_inv_def invalidateNodeInfoCache_def unread_def)
  next
    case rebuild
    with that(1) show ?thesis by (auto simp: retry_inv_def InvalidateNodeInfoCache_def unread_def)
  qed
qed

text \<open>
  C28. A request to rebuild a node is never lost. Whatever pushes, fetches in flight and further requests interleave,
  as long as no fetch begun after the request has handed over a node info, every fetch begun after it sends no
  ETag, so the panel answers with the configuration, and a configuration that can be decoded is handed over even
  though its content did not change.
\<close>

theorem rebuild_not_lost:
  assumes "\<And>n. hash n \<noteq> []"
    and "reachable fetch_start (fetch_step uni hash nodeId nodeType) s" "fs_retry s"
    and "snap = node_request (fs_cache s) \<or>
      snap \<in> set (fs_inflight s) \<and> nodeRetryVersion snap = nodeRetryVersion (fs_cache s)"
    and "200 \<le> rs_Status resp" "rs_Status resp < 300" "build_node uni nodeId nodeType (rs_Body resp) = Inr node"
  shows "nodeEtag snap = [] \<and>
    snd (node_response uni hash nodeId nodeType snap (Inr (Some resp)) c) = Inr (Some node)"
proof -
  have "retry_inv s" by (rule component.reachable_inv [OF fetch_component [OF assms(1)] assms(2)])
  with assms(3,4) have "nodeEtag snap = []" "nodeConfigHash snap = []"
    by (auto simp: retry_inv_def node_request_def)
  with assms(1) [of node] assms(5-7) show ?thesis
    by (simp add: node_response_def checkResponse_def Let_def)
qed

definition ex_cache :: NodeCache where
  "ex_cache = \<lparr>nodeEtag = ''e'', nodeConfigHash = ''h'', nodeCacheVersion = 3, nodeRetryVersion = 1\<rparr>"

lemma build_node_ex: "\<exists>node. build_node uni 1 ''shadowsocks'' (Some (JObj [])) = Inr node"
  by (simp add: build_node_def decode_params_def decode_Shadowsocks_def into_struct_def ShadowsocksNode_zero_def
      CommonNode_zero_def set_intervals_def Let_def)

theorem rebuild_not_lost_witness:
  "\<exists>node. snd (node_response (\<lambda>r. False) (\<lambda>n. ''h'') 1 ''shadowsocks'' (InvalidateNodeInfoCache ex_cache)
      (Inr (Some \<lparr>rs_Status = 200, rs_ETag = ''e'', rs_Body = Some (JObj [])\<rparr>)) (InvalidateNodeInfoCache ex_cache)) =
    Inr (Some node)"
proof -
  let ?s = "\<lparr>fs_cache = ex_cache, fs_inflight = [], fs_retry = False\<rparr>"
  let ?t = "\<lparr>fs_cache = InvalidateNodeInfoCache ex_cache, fs_inflight = [], fs_retry = True\<rparr>"
  have "reachable fetch_start (fetch_step (\<lambda>r. False) (\<lambda>n. ''h'') 1 ''shadowsocks'') ?s"
    by (rule reach_start) (simp add: fetch_start_def)
  moreover have "fetch_step (\<lambda>r. False) (\<lambda>n. ''h'') 1 ''shadowsocks'' ?s FRebuild ?t"
    using fetch_step.rebuild [of ?s "\<lambda>r. False" "\<lambda>n. ''h''" 1 "''shadowsocks''"] by (simp add: unread_def)
  ultimately have r: "reachable fetch_start (fetch_step (\<lambda>r. False) (\<lambda>n. ''h'') 1 ''shadowsocks'') ?t"
    by (rule reach_step)
  obtain node where b: "build_node (\<lambda>r. False) 1 ''shadowsocks'' (Some (JObj [])) = Inr node"
    using build_node_ex by blast
  have "nodeEtag (InvalidateNodeInfoCache ex_cache) = [] \<and>
    snd (node_response (\<lambda>r. False) (\<lambda>n. ''h'') 1 ''shadowsocks'' (InvalidateNodeInfoCache ex_cache)
      (Inr (Some \<lparr>rs_Status = 200, rs_ETag = ''e'', rs_Body = Some (JObj [])\<rparr>)) (InvalidateNodeInfoCache ex_cache)) =
    Inr (Some node)"
    by (rule rebuild_not_lost [OF _ r]) (simp_all add: node_request_def b)
  then show ?thesis by blast
qed

section \<open>What a node info looks like\<close>

text \<open>Which protocol sections a node info has, and that the sections share its common part.\<close>

definition sections_of :: "NodeInfo \<Rightarrow> bool list" where
  "sections_of n =
     [ni_VAllss n \<noteq> None, ni_AnyTls n \<noteq> None, ni_ArtX n \<noteq> None, ni_Shadowsocks n \<noteq> None, ni_Trojan n \<noteq> None,
      ni_Tuic n \<noteq> None, ni_Hysteria n \<noteq> None, ni_Hysteria2 n \<noteq> None, ni_ShadowTLS n \<noteq> None, ni_Naive n \<noteq> None]"

definition shares_common :: "NodeInfo \<Rightarrow> bool" where
  "shares_common n \<longleftrightarrow>
     list_all (\<lambda>c. c = None \<or> c = ni_Common n)
       [map_option va_Common (ni_VAllss n), map_option at_Common (ni_AnyTls n), map_option ax_Common (ni_ArtX n),
        map_option ss_Common (ni_Shadowsocks n), map_option tr_Common (ni_Trojan n), map_option tu_Common (ni_Tuic n),
        map_option hy_Common (ni_Hysteria n), map_option h2_Common (ni_Hysteria2 n),
        map_option st_Common (ni_ShadowTLS n), map_option nv_Common (ni_Naive n)]"

definition one_section :: "int \<Rightarrow> string \<Rightarrow> NodeInfo \<Rightarrow> bool" where
  "one_section i t node \<longleftrightarrow>
     length (filter id (sections_of node)) = 1 \<and> ni_Id node = i \<and>
     (ni_Type node = t \<or> ni_Type node = ''hysteria'' \<or> ni_Type node = ''hysteria2'')"

lemma one_section_updates [simp]:
  "one_section i t ((new_node i t)\<lparr>ni_VAllss := Some a, ni_Security := k\<rparr>)"
  "one_section i t ((new_node i t)\<lparr>ni_AnyTls := Some b, ni_Security := k\<rparr>)"
  "one_section i t ((new_node i t)\<lparr>ni_ArtX := Some c, ni_Security := k\<rparr>)"
  "one_section i t ((new_node i t)\<lparr>ni_Shadowsocks := Some d, ni_Security := k\<rparr>)"
  "one_section i t ((new_node i t)\<lparr>ni_Trojan := Some e, ni_Security := k\<rparr>)"
  "one_section i t ((new_node i t)\<lparr>ni_Tuic := Some f, ni_Security := k\<rparr>)"
  "one_section i t ((new_node i t)\<lparr>ni_Hysteria := Some g, ni_Type := ''hysteria'', ni_Security := k\<rparr>)"
  "one_section i t ((new_node i t)\<lparr>ni_Hysteria2 := Some h, ni_Type := ''hysteria2'', ni_Security := k\<rparr>)"
  "one_section i t ((new_node i t)\<lparr>ni_ShadowTLS := Some st, ni_Security := k\<rparr>)"
  "one_section i t ((new_node i t)\<lparr>ni_Naive := Some nv, ni_Security := k\<rparr>)"
  by (simp_all add: one_section_def sections_of_def new_node_def)

lemma Let_forget: "(let x = a in f x) = y \<Longrightarrow> \<exists>x. f x = y"
  by (auto simp: Let_def)

lemma decode_VAllss_section: "decode_VAllss uni body (new_node i t) = Inr (node, cm) \<Longrightarrow> one_section i t node"
  by (auto simp: decode_VAllss_def split: option.splits dest!: Let_forget)

lemma decode_Shadowsocks_section: "decode_Shadowsocks uni body (new_node i t) = Inr (node, cm) \<Longrightarrow> one_section i t node"
  by (auto simp: decode_Shadowsocks_def split: option.splits dest!: Let_forget)

lemma decode_Trojan_section: "decode_Trojan uni body (new_node i t) = Inr (node, cm) \<Longrightarrow> one_section i t node"
  by (auto simp: decode_Trojan_def split: option.splits dest!: Let_forget)

lemma decode_AnyTls_section: "decode_AnyTls uni body (new_node i t) = Inr (node, cm) \<Longrightarrow> one_section i t node"
  by (auto simp: decode_AnyTls_def split: option.splits dest!: Let_forget)

lemma decode_ArtX_section: "decode_ArtX uni body (new_node i t) = Inr (node, cm) \<Longrightarrow> one_section i t node"
  by (auto simp: decode_ArtX_def split: option.splits dest!: Let_forget)

lemma decode_Tuic_section: "decode_Tuic uni body (new_node i t) = Inr (node, cm) \<Longrightarrow> one_section i t node"
  by (auto simp: decode_Tuic_def split: option.splits if_splits dest!: Let_forget)

lemma decode_Hysteria_section: "decode_Hysteria uni nt body (new_node i t) = Inr (node, cm) \<Longrightarrow> one_section i t node"
  by (auto simp: decode_Hysteria_def split: option.splits if_splits dest!: Let_forget)

lemma decode_ShadowTLS_section: "decode_ShadowTLS uni body (new_node i t) = Inr (node, cm) \<Longrightarrow> one_section i t node"
  by (auto simp: decode_ShadowTLS_def split: option.splits dest!: Let_forget)

lemma decode_Naive_section: "decode_Naive uni body (new_node i t) = Inr (node, cm) \<Longrightarrow> one_section i t node"
  by (auto simp: decode_Naive_def split: option.splits dest!: Let_forget)

lemmas decode_sections = decode_VAllss_section decode_Shadowsocks_section decode_Trojan_section
  decode_AnyTls_section decode_ArtX_section decode_Tuic_section decode_Hysteria_section
  decode_ShadowTLS_section decode_Naive_section

lemma decode_params_section:
  "decode_params uni nodeType body (new_node i t) = Inr (node, cm) \<Longrightarrow> one_section i t node"
  by (simp only: decode_params_def split: if_split_asm)
     (erule decode_sections | simp only: sum.distinct)+

lemma one_section_keeps [simp]:
  "one_section i t (node\<lparr>ni_Rules := r\<rparr>) = one_section i t node"
  "one_section i t (node\<lparr>ni_RawDNS := d\<rparr>) = one_section i t node"
  "one_section i t (node\<lparr>ni_PushInterval := a, ni_PullInterval := b, ni_DeviceLimitTolerance := c\<rparr>) = one_section i t node"
  "one_section i t (node\<lparr>ni_PushInterval := a, ni_PullInterval := b, ni_DeviceLimitTolerance := c,
     ni_DeviceLimitIgnoredIPs := x, ni_DeviceLimitCDNDisabled := y\<rparr>) = one_section i t node"
  "one_section i t (node\<lparr>ni_CertConfig := z\<rparr>) = one_section i t node"
  unfolding one_section_def sections_of_def by simp_all

lemma parse_routes_keeps: "parse_routes k rs node = Inr n \<Longrightarrow> one_section i t node \<Longrightarrow> one_section i t n"
proof (induction rs arbitrary: k node)
  case (Cons r rs)
  from Cons.prems obtain node' k' where "parse_routes k' rs node' = Inr n" "one_section i t node'"
    by (auto split: sum.splits if_splits)
  with Cons.IH [of k' node'] show ?case by simp
qed simp

lemma set_intervals_keeps: "set_intervals cm node = Inr n \<Longrightarrow> one_section i t node \<Longrightarrow> one_section i t n"
  by (auto simp: set_intervals_def Let_def split: option.splits sum.splits)

lemma one_section_set_common [simp]: "one_section i t (set_common cm n) = one_section i t n"
proof -
  have "sections_of (set_common cm n) = sections_of n" by (simp add: sections_of_def set_common_def)
  moreover have "ni_Id (set_common cm n) = ni_Id n" "ni_Type (set_common cm n) = ni_Type n"
    by (simp_all add: set_common_def)
  ultimately show ?thesis by (simp add: one_section_def)
qed

lemma option_shape: "x = None \<or> (\<exists>z. x = Some z)"
  by (cases x) simp_all

lemma shares_set_common: "shares_common (set_common cm n)" "ni_Common (set_common cm n) = Some cm"
  unfolding shares_common_def set_common_def
  by (simp_all add: option.map_comp comp_def option_shape)

text \<open>
  A node info built from a response is well formed: it has exactly one protocol section, the identifier of the
  client and its node type (Hysteria nodes one of the two Hysteria types), the section shares the common part,
  and the routes, base and certificate settings, which belong to the node info, are gone from it.
\<close>

theorem build_node_wellformed:
  assumes "build_node uni i t body = Inr n"
  shows "one_section i t n \<and> shares_common n \<and>
    (\<exists>cm. ni_Common n = Some cm \<and> cn_Routes cm = [] \<and> cn_BaseConfig cm = None \<and> cn_CertConfig cm = None)"
proof -
  obtain node cm n1 n2 where d: "decode_params uni t body (new_node i t) = Inr (node, cm)"
    and r: "parse_routes 0 (cn_Routes cm) node = Inr n1" and s: "set_intervals cm n1 = Inr n2"
    and n: "n = set_common (cm\<lparr>cn_Routes := [], cn_BaseConfig := None, cn_CertConfig := None\<rparr>)
      (n2\<lparr>ni_CertConfig := cn_CertConfig cm\<rparr>)"
    using assms unfolding build_node_def by (auto split: sum.splits)
  have "one_section i t n2"
    using decode_params_section [OF d] parse_routes_keeps [OF r] set_intervals_keeps [OF s] by blast
  then show ?thesis by (simp add: n shares_set_common)
qed

theorem build_node_wellformed_witness:
  "\<exists>n. build_node (\<lambda>r. False) 1 ''shadowsocks'' (Some (JObj [])) = Inr n \<and> shares_common n"
  using build_node_ex [of "\<lambda>r. False"] build_node_wellformed by blast

section \<open>Rules taken from the routes\<close>

definition block_matches :: "Route list \<Rightarrow> string list" where
  "block_matches rs =
     concat (map (\<lambda>r. case route_matches (rt_Match r) of Inr ms \<Rightarrow> ms | Inl _ \<Rightarrow> [])
       (filter (\<lambda>r. rt_Action r = ''block'') rs))"

definition bad_route :: "Route \<Rightarrow> bool" where
  "bad_route r \<longleftrightarrow>
     (case route_matches (rt_Match r) of
        Inl _ \<Rightarrow> True
      | Inr ms \<Rightarrow> rt_Action r = ''dns'' \<and> ms = [])"

lemma fold_block_rule:
  "fold block_rule ms rules =
     \<lparr>r_Regexp = r_Regexp rules @ map (\<lambda>v. trim_prefix v ''regexp:'') (filter (\<lambda>v. \<not> has_prefix v ''protocol:'') ms),
      r_Protocol = r_Protocol rules @ map (\<lambda>v. trim_prefix v ''protocol:'') (filter (\<lambda>v. has_prefix v ''protocol:'') ms)\<rparr>"
  by (induction ms arbitrary: rules) (simp_all add: block_rule_def)

lemma dns_rule_error: "(\<exists>e. dns_rule i a ms raw = Inl e) \<longleftrightarrow> ms = []"
  by (auto simp: dns_rule_def split: list.splits)

lemma parse_routes_bad: "(\<exists>e. parse_routes i rs node = Inl e) \<longleftrightarrow> (\<exists>r \<in> set rs. bad_route r)"
proof (induction rs arbitrary: i node)
  case (Cons r rs)
  show ?case
  proof (cases "bad_route r")
    case True
    then show ?thesis
      using dns_rule_error [of i "rt_ActionValue r" "[]" "ni_RawDNS node"]
      by (auto simp: bad_route_def split: sum.splits)
  next
    case False
    then obtain ms where ms: "route_matches (rt_Match r) = Inr ms" "rt_Action r = ''dns'' \<Longrightarrow> ms \<noteq> []"
      by (auto simp: bad_route_def split: sum.splits)
    obtain node' where "parse_routes i (r # rs) node = parse_routes (i + 1) rs node'"
    proof (cases "rt_Action r = ''dns''")
      case True
      then obtain raw where "dns_rule i (rt_ActionValue r) ms (ni_RawDNS node) = Inr raw"
        using ms(2) dns_rule_error [of i "rt_ActionValue r" ms "ni_RawDNS node"]
        by (cases "dns_rule i (rt_ActionValue r) ms (ni_RawDNS node)") auto
      with True ms(1) that show ?thesis by simp
    next
      case False
      with ms(1) that show ?thesis by (cases "rt_Action r = ''block''") simp_all
    qed
    with Cons.IH [of "i + 1" node'] False show ?thesis by simp
  qed
qed simp

lemma parse_routes_rules:
  "parse_routes i rs node = Inr n \<Longrightarrow> ni_Rules n = fold block_rule (block_matches rs) (ni_Rules node)"
proof (induction rs arbitrary: i node)
  case (Cons r rs)
  then obtain node' where "parse_routes (i + 1) rs node' = Inr n"
    "ni_Rules node' = (if rt_Action r = ''block''
       then fold block_rule (case route_matches (rt_Match r) of Inr ms \<Rightarrow> ms | Inl _ \<Rightarrow> []) (ni_Rules node)
       else ni_Rules node)"
    by (auto split: sum.splits if_splits)
  with Cons.IH [of "i + 1" node'] show ?case by (simp add: block_matches_def)
qed (simp add: block_matches_def)

text \<open>
  The blocking rules are exactly those of the routes: reading the routes fails when and only when the match of
  some route is neither a text nor a list of texts, or a DNS route has an empty list; otherwise the protocol rules
  are the \<^verbatim>\<open>protocol:\<close> matches of the blocking routes and the domain rules all their other matches, in order and with
  their prefix removed.
\<close>

theorem parse_routes_exact:
  "(case parse_routes 0 rs (new_node i t) of
      Inl e \<Rightarrow> (\<exists>r \<in> set rs. bad_route r)
    | Inr n \<Rightarrow> \<not> (\<exists>r \<in> set rs. bad_route r) \<and>
        r_Protocol (ni_Rules n) =
          map (\<lambda>v. trim_prefix v ''protocol:'') (filter (\<lambda>v. has_prefix v ''protocol:'') (block_matches rs)) \<and>
        r_Regexp (ni_Rules n) =
          map (\<lambda>v. trim_prefix v ''regexp:'') (filter (\<lambda>v. \<not> has_prefix v ''protocol:'') (block_matches rs)))"
proof (cases "parse_routes 0 rs (new_node i t)")
  case (Inl e)
  then show ?thesis using parse_routes_bad [of 0 rs "new_node i t"] by auto
next
  case (Inr n)
  then have "\<not> (\<exists>r \<in> set rs. bad_route r)" using parse_routes_bad [of 0 rs "new_node i t"] by auto
  moreover have "ni_Rules (new_node i t) = \<lparr>r_Regexp = [], r_Protocol = []\<rparr>" by (simp add: new_node_def)
  ultimately show ?thesis using Inr parse_routes_rules [OF Inr] by (simp add: fold_block_rule)
qed

section \<open>Legacy XHTTP settings\<close>

fun object_like_clean :: "json \<Rightarrow> bool"
  and members_clean :: "(string \<times> json) list \<Rightarrow> bool"
  and items_clean :: "json list \<Rightarrow> bool" where
  "object_like_clean (JObj kvs) = members_clean kvs"
| "object_like_clean (JArr js) = items_clean js"
| "object_like_clean v = True"
| "members_clean [] = True"
| "members_clean ((key, child) # kvs) =
     (\<not> shouldNormalizeObjectLikeArray key child \<and> object_like_clean child \<and> members_clean kvs)"
| "items_clean [] = True"
| "items_clean (child # js) = (object_like_clean child \<and> items_clean js)"

lemma normalize_not_empty_array:
  "fst (normalizeLegacyXHTTPValue v) = JArr [] \<longleftrightarrow> v = JArr []"
  by (cases v rule: normalizeLegacyXHTTPValue.cases)
     (auto split: prod.splits dest: arg_cong [of _ _ length] elim: normalize_items.elims)

lemma normalize_clean:
  "(case normalizeLegacyXHTTPValue v of (v', ch) \<Rightarrow>
      object_like_clean v' \<and> ch = (\<not> object_like_clean v) \<and> (\<not> ch \<longrightarrow> v' = v))"
  "(case normalize_members kvs of (kvs', ch) \<Rightarrow>
      members_clean kvs' \<and> ch = (\<not> members_clean kvs) \<and> (\<not> ch \<longrightarrow> kvs' = kvs))"
  "(case normalize_items js of (js', ch) \<Rightarrow>
      items_clean js' \<and> ch = (\<not> items_clean js) \<and> (\<not> ch \<longrightarrow> js' = js))"
proof (induction v and kvs and js rule: normalizeLegacyXHTTPValue_normalize_members_normalize_items.induct)
  case (5 key child kvs)
  show ?case
  proof (cases "shouldNormalizeObjectLikeArray key child")
    case True
    with 5 show ?thesis by (auto simp: shouldNormalizeObjectLikeArray_def split: prod.splits)
  next
    case False
    have "\<not> shouldNormalizeObjectLikeArray key (fst (normalizeLegacyXHTTPValue child))"
      using False normalize_not_empty_array [of child] by (simp add: shouldNormalizeObjectLikeArray_def)
    with 5 False show ?thesis by (auto split: prod.splits)
  qed
qed (auto split: prod.splits)

text \<open>
  Normalising legacy XHTTP settings: the result holds, at no depth, an empty array where the core expects an
  object; a change is reported exactly when the settings held one, and unreported means untouched.
\<close>

theorem normalizeLegacyXHTTPValue_exact:
  "object_like_clean (fst (normalizeLegacyXHTTPValue v)) \<and>
   snd (normalizeLegacyXHTTPValue v) = (\<not> object_like_clean v) \<and>
   (snd (normalizeLegacyXHTTPValue v) \<or> fst (normalizeLegacyXHTTPValue v) = v)"
  using normalize_clean(1) [of v] by (auto split: prod.splits)

end
