(* ===== verification/Conf_Types.thy ===== *)
theory Conf_Types
  imports Conf_Cert
begin

text \<open>
  The configuration structs of \<^verbatim>\<open>src/conf\<close> with their JSON tags and their decoders: limits (\<^verbatim>\<open>limit.go\<close>), the options of
  the two cores (\<^verbatim>\<open>xray.go\<close>, \<^verbatim>\<open>sing.go\<close>, \<^verbatim>\<open>artx.go\<close>), cores (\<^verbatim>\<open>core.go\<close>) and dynamic DNS (\<^verbatim>\<open>ddns.go\<close>).
\<close>

section \<open>Bounded integers\<close>

definition into_uint :: "nat \<Rightarrow> int \<Rightarrow> json \<Rightarrow> int option" where
  "into_uint w old j =
     (case into_uint64 old j of None \<Rightarrow> None | Some v \<Rightarrow> if v < 2 ^ w then Some v else None)"

definition into_int32 :: "int \<Rightarrow> json \<Rightarrow> int option" where
  "into_int32 old j =
     (case into_int old j of None \<Rightarrow> None | Some v \<Rightarrow> if - (2 ^ 31) \<le> v \<and> v < 2 ^ 31 then Some v else None)"

abbreviation into_strings :: "string list \<Rightarrow> json \<Rightarrow> string list option" where
  "into_strings \<equiv> into_list [] into_string"

section \<open>Limits\<close>

record RecorderConfig =
  rec_Url :: string
  rec_Token :: string
  rec_Timeout :: int

definition RecorderConfig_fields :: "RecorderConfig fields" where
  "RecorderConfig_fields =
     [(''Url'', fld rec_Url rec_Url_update into_string),
      (''Token'', fld rec_Token rec_Token_update into_string),
      (''Timeout'', fld rec_Timeout rec_Timeout_update into_int)]"

record RedisConfig =
  red_Address :: string
  red_Password :: string
  red_Db :: int
  red_Expiry :: int

definition RedisConfig_fields :: "RedisConfig fields" where
  "RedisConfig_fields =
     [(''Address'', fld red_Address red_Address_update into_string),
      (''Password'', fld red_Password red_Password_update into_string),
      (''Db'', fld red_Db red_Db_update into_int),
      (''Expiry'', fld red_Expiry red_Expiry_update into_int)]"

record IpReportConfig =
  ipr_Periodic :: int
  ipr_Type :: string
  ipr_RecorderConfig :: "RecorderConfig option"
  ipr_RedisConfig :: "RedisConfig option"
  ipr_EnableIpSync :: bool

definition IpReportConfig_zero :: IpReportConfig where
  "IpReportConfig_zero = \<lparr>ipr_Periodic = 0, ipr_Type = [], ipr_RecorderConfig = None, ipr_RedisConfig = None,
     ipr_EnableIpSync = False\<rparr>"

definition IpReportConfig_fields :: "IpReportConfig fields" where
  "IpReportConfig_fields =
     [(''Periodic'', fld ipr_Periodic ipr_Periodic_update into_int),
      (''Type'', fld ipr_Type ipr_Type_update into_string),
      (''RecorderConfig'', fld ipr_RecorderConfig ipr_RecorderConfig_update
         (into_ptr \<lparr>rec_Url = [], rec_Token = [], rec_Timeout = 0\<rparr> (into_struct RecorderConfig_fields))),
      (''RedisConfig'', fld ipr_RedisConfig ipr_RedisConfig_update
         (into_ptr \<lparr>red_Address = [], red_Password = [], red_Db = 0, red_Expiry = 0\<rparr> (into_struct RedisConfig_fields))),
      (''EnableIpSync'', fld ipr_EnableIpSync ipr_EnableIpSync_update into_bool)]"

record DynamicSpeedLimitConfig =
  dyn_Periodic :: int
  dyn_Traffic :: int
  dyn_SpeedLimit :: int
  dyn_ExpireTime :: int

definition DynamicSpeedLimitConfig_fields :: "DynamicSpeedLimitConfig fields" where
  "DynamicSpeedLimitConfig_fields =
     [(''Periodic'', fld dyn_Periodic dyn_Periodic_update into_int),
      (''Traffic'', fld dyn_Traffic dyn_Traffic_update into_int),
      (''SpeedLimit'', fld dyn_SpeedLimit dyn_SpeedLimit_update into_int),
      (''ExpireTime'', fld dyn_ExpireTime dyn_ExpireTime_update into_int)]"

record LimitConfig =
  lc_EnableRealtime :: bool
  lc_SpeedLimit :: int
  lc_IPLimit :: int
  lc_ConnLimit :: int
  lc_EnableIpRecorder :: bool
  lc_IpRecorderConfig :: "IpReportConfig option"
  lc_EnableDynamicSpeedLimit :: bool
  lc_DynamicSpeedLimitConfig :: "DynamicSpeedLimitConfig option"

definition LimitConfig_zero :: LimitConfig where
  "LimitConfig_zero = \<lparr>lc_EnableRealtime = False, lc_SpeedLimit = 0, lc_IPLimit = 0, lc_ConnLimit = 0,
     lc_EnableIpRecorder = False, lc_IpRecorderConfig = None, lc_EnableDynamicSpeedLimit = False,
     lc_DynamicSpeedLimitConfig = None\<rparr>"

definition LimitConfig_fields :: "LimitConfig fields" where
  "LimitConfig_fields =
     [(''EnableRealtime'', fld lc_EnableRealtime lc_EnableRealtime_update into_bool),
      (''SpeedLimit'', fld lc_SpeedLimit lc_SpeedLimit_update into_int),
      (''DeviceLimit'', fld lc_IPLimit lc_IPLimit_update into_int),
      (''ConnLimit'', fld lc_ConnLimit lc_ConnLimit_update into_int),
      (''EnableIpRecorder'', fld lc_EnableIpRecorder lc_EnableIpRecorder_update into_bool),
      (''IpRecorderConfig'', fld lc_IpRecorderConfig lc_IpRecorderConfig_update
         (into_ptr IpReportConfig_zero (into_struct IpReportConfig_fields))),
      (''EnableDynamicSpeedLimit'', fld lc_EnableDynamicSpeedLimit lc_EnableDynamicSpeedLimit_update into_bool),
      (''DynamicSpeedLimitConfig'', fld lc_DynamicSpeedLimitConfig lc_DynamicSpeedLimitConfig_update
         (into_ptr \<lparr>dyn_Periodic = 0, dyn_Traffic = 0, dyn_SpeedLimit = 0, dyn_ExpireTime = 0\<rparr>
            (into_struct DynamicSpeedLimitConfig_fields)))]"

section \<open>Options of the xray core\<close>

record FallBackConfigForXray =
  fx_SNI :: string
  fx_Alpn :: string
  fx_Path :: string
  fx_Dest :: string
  fx_ProxyProtocolVer :: int

definition FallBackConfigForXray_zero :: FallBackConfigForXray where
  "FallBackConfigForXray_zero = \<lparr>fx_SNI = [], fx_Alpn = [], fx_Path = [], fx_Dest = [], fx_ProxyProtocolVer = 0\<rparr>"

definition FallBackConfigForXray_fields :: "FallBackConfigForXray fields" where
  "FallBackConfigForXray_fields =
     [(''SNI'', fld fx_SNI fx_SNI_update into_string),
      (''Alpn'', fld fx_Alpn fx_Alpn_update into_string),
      (''Path'', fld fx_Path fx_Path_update into_string),
      (''Dest'', fld fx_Dest fx_Dest_update into_string),
      (''ProxyProtocolVer'', fld fx_ProxyProtocolVer fx_ProxyProtocolVer_update into_uint64)]"

record XrayOptions =
  xo_EnableProxyProtocol :: bool
  xo_EnableDNS :: bool
  xo_DNSType :: string
  xo_EnableUot :: bool
  xo_EnableTFO :: bool
  xo_DisableIVCheck :: bool
  xo_DisableSniffing :: bool
  xo_EnableFallback :: bool
  xo_DecoyFallback :: bool
  xo_FallBackConfigs :: "FallBackConfigForXray list"

definition XrayOptions_fields :: "XrayOptions fields" where
  "XrayOptions_fields =
     [(''EnableProxyProtocol'', fld xo_EnableProxyProtocol xo_EnableProxyProtocol_update into_bool),
      (''EnableDNS'', fld xo_EnableDNS xo_EnableDNS_update into_bool),
      (''DNSType'', fld xo_DNSType xo_DNSType_update into_string),
      (''EnableUot'', fld xo_EnableUot xo_EnableUot_update into_bool),
      (''EnableTFO'', fld xo_EnableTFO xo_EnableTFO_update into_bool),
      (''DisableIVCheck'', fld xo_DisableIVCheck xo_DisableIVCheck_update into_bool),
      (''DisableSniffing'', fld xo_DisableSniffing xo_DisableSniffing_update into_bool),
      (''EnableFallback'', fld xo_EnableFallback xo_EnableFallback_update into_bool),
      (''DecoyFallback'', fld xo_DecoyFallback xo_DecoyFallback_update into_bool),
      (''FallBackConfigs'', fld xo_FallBackConfigs xo_FallBackConfigs_update
         (into_list FallBackConfigForXray_zero (into_struct FallBackConfigForXray_fields)))]"

definition NewXrayOptions :: XrayOptions where
  "NewXrayOptions =
     \<lparr>xo_EnableProxyProtocol = False, xo_EnableDNS = False, xo_DNSType = ''AsIs'', xo_EnableUot = False,
      xo_EnableTFO = False, xo_DisableIVCheck = False, xo_DisableSniffing = False, xo_EnableFallback = False,
      xo_DecoyFallback = False, xo_FallBackConfigs = []\<rparr>"

definition FallbackEnabled :: "XrayOptions option \<Rightarrow> bool" where
  "FallbackEnabled x = (case x of None \<Rightarrow> False | Some o' \<Rightarrow> xo_EnableFallback o' \<or> xo_DecoyFallback o')"

text \<open>\<^verbatim>\<open>decoy.Selector\<close>: the destination that stands for the companion web service.\<close>

definition decoy_Selector :: string where
  "decoy_Selector = ''n2x://decoy''"

definition ResolvedFallbackConfigs :: "XrayOptions option \<Rightarrow> FallBackConfigForXray list" where
  "ResolvedFallbackConfigs x =
     (case x of
        None \<Rightarrow> []
      | Some o' \<Rightarrow>
          if xo_FallBackConfigs o' \<noteq> [] then xo_FallBackConfigs o'
          else if \<not> xo_DecoyFallback o' then []
          else [FallBackConfigForXray_zero\<lparr>fx_Dest := decoy_Selector\<rparr>])"

section \<open>Options of the sing core\<close>

record FallBack =
  fs_Server :: string
  fs_ServerPort :: string

definition FallBack_fields :: "FallBack fields" where
  "FallBack_fields =
     [(''Server'', fld fs_Server fs_Server_update into_string),
      (''ServerPort'', fld fs_ServerPort fs_ServerPort_update into_string)]"

record FallBackConfigForSing =
  fg_FallBack :: FallBack
  fg_FallBackForALPN :: "(string, FallBack) gomap"

definition FallBackConfigForSing_zero :: FallBackConfigForSing where
  "FallBackConfigForSing_zero = \<lparr>fg_FallBack = \<lparr>fs_Server = [], fs_ServerPort = []\<rparr>, fg_FallBackForALPN = []\<rparr>"

definition FallBackConfigForSing_fields :: "FallBackConfigForSing fields" where
  "FallBackConfigForSing_fields =
     [(''FallBack'', fld fg_FallBack fg_FallBack_update (into_struct FallBack_fields)),
      (''FallBackForALPN'', fld fg_FallBackForALPN fg_FallBackForALPN_update
         (into_map Some \<lparr>fs_Server = [], fs_ServerPort = []\<rparr> (into_struct FallBack_fields)))]"

record BrutalOptions =
  br_Enabled :: bool
  br_UpMbps :: int
  br_DownMbps :: int

definition BrutalOptions_fields :: "BrutalOptions fields" where
  "BrutalOptions_fields =
     [(''Enable'', fld br_Enabled br_Enabled_update into_bool),
      (''UpMbps'', fld br_UpMbps br_UpMbps_update into_int),
      (''DownMbps'', fld br_DownMbps br_DownMbps_update into_int)]"

record MultiplexConfig =
  mx_Enabled :: bool
  mx_Padding :: bool
  mx_Brutal :: BrutalOptions

definition MultiplexConfig_zero :: MultiplexConfig where
  "MultiplexConfig_zero = \<lparr>mx_Enabled = False, mx_Padding = False,
     mx_Brutal = \<lparr>br_Enabled = False, br_UpMbps = 0, br_DownMbps = 0\<rparr>\<rparr>"

definition MultiplexConfig_fields :: "MultiplexConfig fields" where
  "MultiplexConfig_fields =
     [(''Enable'', fld mx_Enabled mx_Enabled_update into_bool),
      (''Padding'', fld mx_Padding mx_Padding_update into_bool),
      (''Brutal'', fld mx_Brutal mx_Brutal_update (into_struct BrutalOptions_fields))]"

record HysteriaOptions =
  ho_PortHopping :: "string list"
  ho_Masquerade :: string
  ho_BrutalDebug :: bool
  ho_ReceiveWindowConn :: int
  ho_ReceiveWindowClient :: int
  ho_MaxConnClient :: int
  ho_DisableMTUDiscovery :: bool

definition HysteriaOptions_zero :: HysteriaOptions where
  "HysteriaOptions_zero = \<lparr>ho_PortHopping = [], ho_Masquerade = [], ho_BrutalDebug = False,
     ho_ReceiveWindowConn = 0, ho_ReceiveWindowClient = 0, ho_MaxConnClient = 0, ho_DisableMTUDiscovery = False\<rparr>"

definition HysteriaOptions_fields :: "HysteriaOptions fields" where
  "HysteriaOptions_fields =
     [(''PortHopping'', fld ho_PortHopping ho_PortHopping_update into_strings),
      (''Masquerade'', fld ho_Masquerade ho_Masquerade_update into_string),
      (''BrutalDebug'', fld ho_BrutalDebug ho_BrutalDebug_update into_bool),
      (''ReceiveWindowConn'', fld ho_ReceiveWindowConn ho_ReceiveWindowConn_update into_uint64),
      (''ReceiveWindowClient'', fld ho_ReceiveWindowClient ho_ReceiveWindowClient_update into_uint64),
      (''MaxConnClient'', fld ho_MaxConnClient ho_MaxConnClient_update into_int),
      (''DisableMTUDiscovery'', fld ho_DisableMTUDiscovery ho_DisableMTUDiscovery_update into_bool)]"

record TuicOptions =
  to_AuthTimeout :: string
  to_Heartbeat :: string
  to_CongestionControl :: string

definition TuicOptions_fields :: "TuicOptions fields" where
  "TuicOptions_fields =
     [(''AuthTimeout'', fld to_AuthTimeout to_AuthTimeout_update into_string),
      (''Heartbeat'', fld to_Heartbeat to_Heartbeat_update into_string),
      (''CongestionControl'', fld to_CongestionControl to_CongestionControl_update into_string)]"

record ShadowTLSHandshakeTarget =
  sh_Server :: string
  sh_ServerPort :: int

definition ShadowTLSHandshakeTarget_fields :: "ShadowTLSHandshakeTarget fields" where
  "ShadowTLSHandshakeTarget_fields =
     [(''Server'', fld sh_Server sh_Server_update into_string),
      (''ServerPort'', fld sh_ServerPort sh_ServerPort_update (into_uint 16))]"

record ShadowTLSOptions =
  so_Version :: int
  so_HandshakeServer :: string
  so_HandshakeServerPort :: int
  so_StrictMode :: bool
  so_HandshakeForServerName :: "(string, ShadowTLSHandshakeTarget) gomap"
  so_WildcardSNI :: string

definition ShadowTLSOptions_zero :: ShadowTLSOptions where
  "ShadowTLSOptions_zero = \<lparr>so_Version = 0, so_HandshakeServer = [], so_HandshakeServerPort = 0,
     so_StrictMode = False, so_HandshakeForServerName = [], so_WildcardSNI = []\<rparr>"

definition ShadowTLSOptions_fields :: "ShadowTLSOptions fields" where
  "ShadowTLSOptions_fields =
     [(''Version'', fld so_Version so_Version_update into_int),
      (''HandshakeServer'', fld so_HandshakeServer so_HandshakeServer_update into_string),
      (''HandshakeServerPort'', fld so_HandshakeServerPort so_HandshakeServerPort_update (into_uint 16)),
      (''StrictMode'', fld so_StrictMode so_StrictMode_update into_bool),
      (''HandshakeForServerName'', fld so_HandshakeForServerName so_HandshakeForServerName_update
         (into_map Some \<lparr>sh_Server = [], sh_ServerPort = 0\<rparr> (into_struct ShadowTLSHandshakeTarget_fields))),
      (''WildcardSNI'', fld so_WildcardSNI so_WildcardSNI_update into_string)]"

record NaiveOptions =
  no_Network :: string

definition NaiveOptions_fields :: "NaiveOptions fields" where
  "NaiveOptions_fields = [(''Network'', fld no_Network no_Network_update into_string)]"

record SingOptions =
  sg_TCPFastOpen :: bool
  sg_SniffEnabled :: bool
  sg_SniffOverrideDestination :: bool
  sg_EnableDNS :: bool
  sg_DomainStrategy :: string
  sg_FallBackConfigs :: "FallBackConfigForSing option"
  sg_Multiplex :: "MultiplexConfig option"
  sg_ShadowTLSOptions :: "ShadowTLSOptions option"
  sg_NaiveOptions :: "NaiveOptions option"
  sg_HysteriaOptions :: "HysteriaOptions option"
  sg_TuicOptions :: "TuicOptions option"

definition SingOptions_fields :: "SingOptions fields" where
  "SingOptions_fields =
     [(''EnableTFO'', fld sg_TCPFastOpen sg_TCPFastOpen_update into_bool),
      (''EnableSniff'', fld sg_SniffEnabled sg_SniffEnabled_update into_bool),
      (''SniffOverrideDestination'', fld sg_SniffOverrideDestination sg_SniffOverrideDestination_update into_bool),
      (''EnableDNS'', fld sg_EnableDNS sg_EnableDNS_update into_bool),
      (''DomainStrategy'', fld sg_DomainStrategy sg_DomainStrategy_update into_string),
      (''FallBackConfigs'', fld sg_FallBackConfigs sg_FallBackConfigs_update
         (into_ptr FallBackConfigForSing_zero (into_struct FallBackConfigForSing_fields))),
      (''MultiplexConfig'', fld sg_Multiplex sg_Multiplex_update
         (into_ptr MultiplexConfig_zero (into_struct MultiplexConfig_fields))),
      (''ShadowTLSOptions'', fld sg_ShadowTLSOptions sg_ShadowTLSOptions_update
         (into_ptr ShadowTLSOptions_zero (into_struct ShadowTLSOptions_fields))),
      (''NaiveOptions'', fld sg_NaiveOptions sg_NaiveOptions_update
         (into_ptr \<lparr>no_Network = []\<rparr> (into_struct NaiveOptions_fields))),
      (''HysteriaOptions'', fld sg_HysteriaOptions sg_HysteriaOptions_update
         (into_ptr HysteriaOptions_zero (into_struct HysteriaOptions_fields))),
      (''TuicOptions'', fld sg_TuicOptions sg_TuicOptions_update
         (into_ptr \<lparr>to_AuthTimeout = [], to_Heartbeat = [], to_CongestionControl = []\<rparr>
            (into_struct TuicOptions_fields)))]"

definition NewSingOptions :: SingOptions where
  "NewSingOptions =
     \<lparr>sg_TCPFastOpen = False, sg_SniffEnabled = True, sg_SniffOverrideDestination = True, sg_EnableDNS = False,
      sg_DomainStrategy = [], sg_FallBackConfigs = Some FallBackConfigForSing_zero,
      sg_Multiplex = Some MultiplexConfig_zero, sg_ShadowTLSOptions = None, sg_NaiveOptions = None,
      sg_HysteriaOptions = None, sg_TuicOptions = None\<rparr>"

end
