(* ===== verification/Json5.thy ===== *)
theory Json5
  imports Prelude
begin

text \<open>
  The reader of \<^verbatim>\<open>src/common/json5/json5.go\<close>, which blanks comments and trailing commas of a configuration
  file in place so that a strict JSON parser accepts the rest. The loops keep the source's index into the byte
  array; each is total because the index grows. The second half says what the reader does to a text, item by
  item: string literals, comments, commas, other bytes.
\<close>

section \<open>The reader\<close>

definition isNL :: "char \<Rightarrow> bool" where
  "isNL c \<longleftrightarrow> c = CHR 0x0A \<or> c = CHR 0x0D"

definition isWS :: "char \<Rightarrow> bool" where
  "isWS c \<longleftrightarrow> c = CHR '' '' \<or> c = CHR 0x09 \<or> isNL c"

function blank_line :: "string \<Rightarrow> nat \<Rightarrow> string \<times> nat" where
  "blank_line s i =
     (if i < length s \<and> \<not> isNL (s ! i) then blank_line (s[i := CHR '' '']) (i + 1) else (s, i))"
  by auto
termination by (relation "measure (\<lambda>(s, i). length s - i)") auto

function blank_block :: "string \<Rightarrow> nat \<Rightarrow> string \<times> nat" where
  "blank_block s i =
     (if i < length s then
        if s ! i \<noteq> CHR ''*'' then blank_block (s[i := CHR '' '']) (i + 1)
        else let s1 = s[i := CHR '' '']; k = i + 1 in
             if k < length s1 \<and> s1 ! k = CHR ''/'' then (s1[k := CHR '' ''], k)
             else blank_block s1 (k + 1)
      else (s, i))"
  by auto
termination by (relation "measure (\<lambda>(s, i). length s - i)") auto

declare blank_line.simps [simp del] blank_block.simps [simp del]

definition consumeComment :: "string \<Rightarrow> nat \<Rightarrow> string \<times> nat" where
  "consumeComment s0 i0 =
     (let (s, i) = (if i0 < length s0 \<and> s0 ! i0 = CHR ''/'' then blank_line (s0[i0 - 1 := CHR '' '']) i0
                    else (s0, i0))
      in if i < length s \<and> s ! i = CHR ''*'' then blank_block (s[i - 1 := CHR '' '', i := CHR '' '']) i
         else (s, i))"

text \<open>Blanking keeps the length, never moves back, and changes a byte to a blank or not at all.\<close>

definition blanked :: "string \<Rightarrow> string \<Rightarrow> bool" where
  "blanked s t \<longleftrightarrow> list_all2 (\<lambda>a b. b = a \<or> b = CHR '' '') s t"

lemma blanked_refl [simp]: "blanked s s"
  by (simp add: blanked_def list.rel_refl)

lemma blanked_update: "blanked s t \<Longrightarrow> blanked s (t[i := CHR '' ''])"
  unfolding blanked_def list_all2_conv_all_nth by (metis length_list_update nth_list_update_eq nth_list_update_neq)

lemma blanked_length: "blanked s t \<Longrightarrow> length t = length s"
  by (simp add: blanked_def list_all2_conv_all_nth)

lemma blank_line_blanked: "blanked s0 s \<Longrightarrow> blanked s0 (fst (blank_line s i)) \<and> i \<le> snd (blank_line s i)"
proof (induction s i rule: blank_line.induct)
  case (1 s i)
  show ?case
    by (subst (1 2) blank_line.simps)
      (use 1 in \<open>auto simp: blanked_update intro: order.trans [OF le_SucI [OF order.refl]]\<close>)
qed

lemma blank_block_blanked: "blanked s0 s \<Longrightarrow> blanked s0 (fst (blank_block s i)) \<and> i \<le> snd (blank_block s i)"
proof (induction s i rule: blank_block.induct)
  case (1 s i)
  let ?s1 = "s[i := CHR '' '']"
  have b: "blanked s0 ?s1" by (rule blanked_update [OF 1(3)])
  show ?case
    by (subst (1 2) blank_block.simps)
      (use 1(1) 1(2) [OF _ _ refl refl] b 1(3) in \<open>force simp: Let_def intro: blanked_update\<close>)
qed

lemma consumeComment_blanked:
  "blanked s0 s \<Longrightarrow> blanked s0 (fst (consumeComment s i)) \<and> i \<le> snd (consumeComment s i)"
proof -
  assume b: "blanked s0 s"
  obtain t k where t: "(if i < length s \<and> s ! i = CHR ''/'' then blank_line (s[i - 1 := CHR '' '']) i else (s, i)) = (t, k)"
    by fastforce
  have "blanked s0 t \<and> i \<le> k"
    using blank_line_blanked [OF blanked_update [OF b], of "i - 1" i] b t by (auto split: if_splits)
  moreover from this have "blanked s0 (t[k - 1 := CHR '' '', k := CHR '' ''])" by (simp add: blanked_update)
  ultimately show ?thesis
    using blank_block_blanked [of s0 "t[k - 1 := CHR '' '', k := CHR '' '']" k]
    by (simp add: consumeComment_def t)
qed

lemmas consumeComment_length = conjunct1 [OF consumeComment_blanked [OF blanked_refl], THEN blanked_length]
lemmas consumeComment_mono = conjunct2 [OF consumeComment_blanked [OF blanked_refl]]

text \<open>The index after a string literal that opens before \<open>i\<close>; a backslash takes the next byte with it.\<close>

function string_end :: "string \<Rightarrow> nat \<Rightarrow> nat" where
  "string_end s i =
     (if i < length s then
        if s ! i = CHR 0x22 then i + 1
        else if s ! i = CHR 0x5C then string_end s (i + 2)
        else string_end s (i + 1)
      else i)"
  by auto
termination by (relation "measure (\<lambda>(s, i). length s - i)") auto

declare string_end.simps [simp del]

lemma string_end_mono: "i \<le> string_end s i"
  by (induction s i rule: string_end.induct) (subst string_end.simps, auto)

text \<open>The inner loop after a comma at \<open>j\<close>.\<close>

function comma_loop :: "string \<Rightarrow> nat \<Rightarrow> nat \<Rightarrow> string \<times> nat" where
  "comma_loop s j i0 =
     (let i = i0 + 1 in
      if length s \<le> i then (s, i)
      else if s ! i = CHR ''}'' \<or> s ! i = CHR '']'' then (s[j := CHR '' ''], i)
      else if s ! i = CHR ''/'' then
        let (s', i') = consumeComment s (i + 1) in comma_loop s' j i'
      else if \<not> isWS (s ! i) then (s, i)
      else comma_loop s j i)"
  by auto
termination
proof (relation "measure (\<lambda>(s, j, i). length s - i)", goal_cases)
  case (2 s j i0 i x s' i')
  then show ?case
    using consumeComment_length [of s "i + 1"] consumeComment_mono [of "i + 1" s] by (simp add: prod_eq_iff)
qed auto

declare comma_loop.simps [simp del]

lemma comma_loop_blanked: "blanked s0 s \<Longrightarrow> blanked s0 (fst (comma_loop s j i)) \<and> i < snd (comma_loop s j i)"
proof (induction s j i rule: comma_loop.induct)
  case (1 s j i0)
  obtain s' i' where cc: "consumeComment s (i0 + 1 + 1) = (s', i')" by fastforce
  with consumeComment_blanked [OF 1(3), of "i0 + 1 + 1"] have b: "blanked s0 s'" "i0 < i'" by auto
  note IH1 = 1(1) [OF refl _ _ _ cc [symmetric] refl b(1)]
  note IH2 = 1(2) [OF refl _ _ _ _ 1(3)]
  show ?case
    by (subst (1 2) comma_loop.simps) (use cc b IH1 IH2 1(3) in \<open>auto simp: Let_def blanked_update\<close>)
qed

text \<open>The outer loop.\<close>

function prep_loop :: "string \<Rightarrow> nat \<Rightarrow> string" where
  "prep_loop s i =
     (if i < length s then
        if s ! i = CHR 0x22 then prep_loop s (string_end s (i + 1))
        else if s ! i = CHR ''/'' then let (s', i') = consumeComment s (i + 1) in prep_loop s' i'
        else if s ! i = CHR '','' then let (s', i') = comma_loop s i i in prep_loop s' i'
        else prep_loop s (i + 1)
      else s)"
  by auto
termination
proof (relation "measure (\<lambda>(s, i). length s - i)", goal_cases)
  case (2 s i)
  then show ?case using string_end_mono [of "i + 1" s] by simp
next
  case (3 s i x s' i')
  then show ?case
    using consumeComment_length [of s "i + 1"] consumeComment_mono [of "i + 1" s] by (auto split: prod.splits)
next
  case (4 s i x s' i')
  then have "comma_loop s i i = (s', i')" by simp
  with 4 show ?case using comma_loop_blanked [OF blanked_refl, of s i i] blanked_length [of s s'] by auto
qed auto

declare prep_loop.simps [simp del]

definition prep :: "string \<Rightarrow> string" where
  "prep s = prep_loop s 0"

lemma prep_loop_blanked: "blanked s0 s \<Longrightarrow> blanked s0 (prep_loop s i)"
proof (induction s i rule: prep_loop.induct)
  case (1 s i)
  obtain s1 i1 where cc: "consumeComment s (i + 1) = (s1, i1)" by fastforce
  obtain s2 i2 where cl: "comma_loop s i i = (s2, i2)" by fastforce
  have b: "blanked s0 s1" "blanked s0 s2"
    using consumeComment_blanked [OF 1(5), of "i + 1"] comma_loop_blanked [OF 1(5), of i i] cc cl by auto
  note IH = 1(1) [OF _ _ 1(5)] 1(2) [OF _ _ _ cc [symmetric] refl b(1)] 1(3) [OF _ _ _ _ cl [symmetric] refl b(2)]
    1(4) [OF _ _ _ _ 1(5)]
  show ?case by (subst prep_loop.simps) (use cc cl IH 1(5) in \<open>simp add: Let_def\<close>)
qed

text \<open>
  The reader keeps the length of a file and every byte's position: each byte is unchanged or blanked, so an
  offset in the text it gives is an offset in the file.
\<close>

theorem prep_keeps_offsets:
  "length (prep s) = length s \<and> (\<nexists>k. k < length s \<and> prep s ! k \<notin> {s ! k, CHR '' ''})"
proof -
  have "blanked s (prep s)" by (simp add: prep_def prep_loop_blanked)
  then show ?thesis by (auto simp: blanked_def list_all2_conv_all_nth)
qed

section \<open>What the reader does, item by item\<close>

datatype item = Lit string | Line string | Block string | Comma | Byte char

fun literal_body :: "string \<Rightarrow> bool" where
  "literal_body [] = True"
| "literal_body (c # cs) =
     (if c = CHR 0x22 then False
      else if c = CHR 0x5C then (case cs of [] \<Rightarrow> False | d # ds \<Rightarrow> literal_body ds)
      else literal_body cs)"

text \<open>
  A text is well formed when the body of each literal has its quotes escaped, a line comment runs to a line end
  or the end of the text, and a block comment has no \<^verbatim>\<open>*\<close> inside.
\<close>

fun items_ok :: "item list \<Rightarrow> bool" where
  "items_ok [] = True"
| "items_ok (Lit b # is) = (literal_body b \<and> items_ok is)"
| "items_ok (Line b # is) =
     (list_all (\<lambda>c. \<not> isNL c) b \<and> (case is of [] \<Rightarrow> True | Byte c # _ \<Rightarrow> isNL c | _ \<Rightarrow> False) \<and> items_ok is)"
| "items_ok (Block b # is) = (CHR ''*'' \<notin> set b \<and> items_ok is)"
| "items_ok (Comma # is) = items_ok is"
| "items_ok (Byte c # is) = (c \<notin> {CHR 0x22, CHR ''/'', CHR '',''} \<and> items_ok is)"

fun item_text :: "item \<Rightarrow> string" where
  "item_text (Lit b) = CHR 0x22 # b @ [CHR 0x22]"
| "item_text (Line b) = CHR ''/'' # CHR ''/'' # b"
| "item_text (Block b) = CHR ''/'' # CHR ''*'' # b @ ''*/''"
| "item_text Comma = '',''"
| "item_text (Byte c) = [c]"

abbreviation items_text :: "item list \<Rightarrow> string" where
  "items_text is \<equiv> concat (map item_text is)"

abbreviation blanks :: "nat \<Rightarrow> string" where
  "blanks n \<equiv> replicate n (CHR '' '')"

text \<open>A comma is trailing when only white space and comments stand between it and a closing bracket.\<close>

fun closes :: "item list \<Rightarrow> bool" where
  "closes [] = False"
| "closes (Byte c # is) = (if c = CHR ''}'' \<or> c = CHR '']'' then True else if isWS c then closes is else False)"
| "closes (Line b # is) = closes is"
| "closes (Block b # is) = closes is"
| "closes (Comma # is) = False"
| "closes (Lit b # is) = False"

fun cleaned :: "item list \<Rightarrow> string" where
  "cleaned [] = []"
| "cleaned (Comma # is) = (if closes is then CHR '' '' else CHR '','') # cleaned is"
| "cleaned (Line b # is) = blanks (length b + 2) @ cleaned is"
| "cleaned (Block b # is) = blanks (length b + 4) @ cleaned is"
| "cleaned (Lit b # is) = item_text (Lit b) @ cleaned is"
| "cleaned (Byte c # is) = c # cleaned is"

lemma string_end_literal:
  "literal_body b \<Longrightarrow> string_end (p @ b @ CHR 0x22 # r) (length p) = length p + length b + 1"
proof (induction b arbitrary: p rule: literal_body.induct)
  case 1
  show ?case by (subst string_end.simps) simp
next
  case (2 c cs)
  show ?case
  proof (cases "c = CHR 0x5C")
    case True
    with 2(3) obtain d ds where cs: "cs = d # ds" "literal_body ds" by (auto split: list.splits)
    have "string_end ((p @ [c, d]) @ ds @ CHR 0x22 # r) (length (p @ [c, d])) = length (p @ [c, d]) + length ds + 1"
      using 2(1) [OF _ True cs, of "p @ [c, d]"] True by simp
    with cs True show ?thesis by (subst string_end.simps) simp
  next
    case False
    with 2(3) have c: "c \<noteq> CHR 0x22" "literal_body cs" by (auto split: if_splits)
    from 2(2) [OF c(1) False c(2), of "p @ [c]"] c False show ?thesis by (subst string_end.simps) simp
  qed
qed

lemma blank_line_run:
  "list_all (\<lambda>c. \<not> isNL c) b \<Longrightarrow> r = [] \<or> isNL (hd r) \<Longrightarrow>
     blank_line (p @ b @ r) (length p) = (p @ blanks (length b) @ r, length p + length b)"
proof (induction b arbitrary: p)
  case Nil
  then show ?case by (subst blank_line.simps) (auto simp: nth_append hd_conv_nth)
next
  case (Cons c b)
  from Cons.IH [of "p @ [CHR '' '']"] Cons.prems show ?case by (subst blank_line.simps) simp
qed

lemma blank_block_run:
  "CHR ''*'' \<notin> set b \<Longrightarrow>
     blank_block (p @ b @ CHR ''*'' # CHR ''/'' # r) (length p)
       = (p @ blanks (length b + 2) @ r, length p + length b + 1)"
proof (induction b arbitrary: p)
  case Nil
  then show ?case by (subst blank_block.simps) (simp add: Let_def nth_append list_update_append)
next
  case (Cons c b)
  from Cons.IH [of "p @ [CHR '' '']"] Cons.prems show ?case by (subst blank_block.simps) auto
qed

lemma consume_line:
  assumes "list_all (\<lambda>c. \<not> isNL c) b" "r = [] \<or> isNL (hd r)"
  shows "consumeComment (p @ CHR ''/'' # CHR ''/'' # b @ r) (length p + 1)
           = (p @ blanks (length b + 2) @ r, length p + length b + 2)"
proof -
  have "blank_line ((p @ [CHR '' '']) @ (CHR ''/'' # b) @ r) (length (p @ [CHR '' '']))
      = ((p @ [CHR '' '']) @ blanks (length (CHR ''/'' # b)) @ r, length (p @ [CHR '' '']) + length (CHR ''/'' # b))"
    by (rule blank_line_run) (use assms in \<open>simp_all add: isNL_def\<close>)
  moreover have "\<not> (r \<noteq> [] \<and> hd r = CHR ''*'')" using assms(2) by (auto simp: isNL_def)
  ultimately show ?thesis
    by (cases r) (auto simp: consumeComment_def nth_append list_update_append)
qed

lemma blanks_last: "blanks (n + 4) @ r = blanks (n + 3) @ CHR '' '' # r"
proof -
  have "n + 4 = Suc (n + 3)" by simp
  then show ?thesis by (metis replicate_app_Cons_same append_Cons replicate_Suc)
qed

lemma consume_block:
  assumes "CHR ''*'' \<notin> set b"
  shows "consumeComment (p @ CHR ''/'' # CHR ''*'' # b @ CHR ''*'' # CHR ''/'' # r) (length p + 1)
           = (p @ blanks (length b + 4) @ r, length p + length b + 3)"
proof -
  have "blank_block ((p @ [CHR '' '']) @ (CHR '' '' # b) @ CHR ''*'' # CHR ''/'' # r) (length (p @ [CHR '' '']))
      = ((p @ [CHR '' '']) @ blanks (length (CHR '' '' # b) + 2) @ r, length (p @ [CHR '' '']) + length (CHR '' '' # b) + 1)"
    by (rule blank_block_run) (use assms in simp)
  then show ?thesis by (simp add: consumeComment_def nth_append list_update_append numeral_eq_Suc)
qed

text \<open>One turn of each loop at an item.\<close>

lemma prep_at:
  "prep_loop (p @ c # r) (length p) =
     (if c = CHR 0x22 then prep_loop (p @ c # r) (string_end (p @ c # r) (length p + 1))
      else if c = CHR ''/'' then let (s', i') = consumeComment (p @ c # r) (length p + 1) in prep_loop s' i'
      else if c = CHR '','' then let (s', i') = comma_loop (p @ c # r) (length p) (length p) in prep_loop s' i'
      else prep_loop ((p @ [c]) @ r) (length (p @ [c])))"
  by (subst prep_loop.simps) simp

lemma prep_at_end: "length s \<le> i \<Longrightarrow> prep_loop s i = s"
  by (subst prep_loop.simps) simp

lemma prep_skip:
  "i = length p \<Longrightarrow> c \<notin> {CHR 0x22, CHR ''/'', CHR '',''} \<Longrightarrow> prep_loop (p @ c # r) i = prep_loop ((p @ [c]) @ r) (length (p @ [c]))"
  using prep_at [of p c r] by simp

definition after_comma :: "string \<Rightarrow> nat \<Rightarrow> nat \<Rightarrow> string" where
  "after_comma s j i = (let (s', i') = comma_loop s j i in prep_loop s' i')"

lemma after_comma_at:
  "after_comma (p @ m # c # r) j (length p) =
     (if c = CHR ''}'' \<or> c = CHR '']'' then prep_loop ((p @ m # c # r)[j := CHR '' '']) (length p + 1)
      else if c = CHR ''/'' then let (s', i') = consumeComment (p @ m # c # r) (length p + 2) in after_comma s' j i'
      else if \<not> isWS c then prep_loop (p @ m # c # r) (length p + 1)
      else after_comma (p @ m # c # r) j (length p + 1))"
  unfolding after_comma_def by (subst comma_loop.simps) (auto simp: Let_def nth_append split: prod.splits)

lemma after_comma_end: "length s \<le> i + 1 \<Longrightarrow> after_comma s j i = s"
  unfolding after_comma_def by (subst comma_loop.simps) (simp add: prep_at_end)

lemma isWS_bytes: "isWS c \<Longrightarrow> c \<notin> {CHR 0x22, CHR ''/'', CHR '','', CHR ''}'', CHR '']''}"
  by (auto simp: isWS_def isNL_def)

text \<open>A comment ends on its last byte, or on the line end after it; either way the loops go on behind it.\<close>

lemma items_ok_line:
  assumes "items_ok (Line b # is)"
  obtains "is = []" "list_all (\<lambda>c. \<not> isNL c) b"
  | c js where "is = Byte c # js" "isNL c" "items_ok js" "list_all (\<lambda>c. \<not> isNL c) b"
  using assms by (cases "is") (auto split: item.splits)

definition scanned :: "item list \<Rightarrow> bool" where
  "scanned is \<longleftrightarrow> (\<forall>p. prep_loop (p @ items_text is) (length p) = p @ cleaned is)"

definition comma_scanned :: "item list \<Rightarrow> bool" where
  "comma_scanned is \<longleftrightarrow>
     (\<forall>p c q. after_comma (p @ c # q @ items_text is) (length p) (length p + length q)
        = p @ (if closes is then CHR '' '' else c) # q @ cleaned is)"

lemma scannedD: "scanned is \<Longrightarrow> s = p @ items_text is \<Longrightarrow> i = length p \<Longrightarrow> prep_loop s i = p @ cleaned is"
  by (simp add: scanned_def)

lemma scanned_byte:
  "scanned is \<Longrightarrow> c \<notin> {CHR 0x22, CHR ''/'', CHR '',''} \<Longrightarrow>
     prep_loop (p @ c # items_text is) (length p) = p @ c # cleaned is"
  using scannedD [of "is" "(p @ [c]) @ items_text is" "p @ [c]" "length (p @ [c])"] prep_skip [of "length p" p c "items_text is"]
  by simp

lemma comma_scannedD:
  "comma_scanned is \<Longrightarrow> s = p @ c # q @ items_text is \<Longrightarrow> j = length p \<Longrightarrow> i = length p + length q \<Longrightarrow>
     after_comma s j i = p @ (if closes is then CHR '' '' else c) # q @ cleaned is"
  by (simp add: comma_scanned_def)

lemma scanned_step:
  assumes ok: "items_ok is" and IH: "\<And>js. length js < length is \<Longrightarrow> items_ok js \<Longrightarrow> scanned js \<and> comma_scanned js"
  shows "scanned is"
  unfolding scanned_def
proof
  fix p
  show "prep_loop (p @ items_text is) (length p) = p @ cleaned is"
  proof (cases "is")
    case Nil
    then show ?thesis by (simp add: prep_at_end)
  next
    case (Cons x js)
    show ?thesis
    proof (cases x)
      case (Lit b)
      with ok Cons have b: "literal_body b" "items_ok js" by auto
      have "string_end (p @ items_text is) (length p + 1) = length (p @ item_text (Lit b))"
        using string_end_literal [OF b(1), of "p @ [CHR 0x22]" "items_text js"] Cons Lit by simp
      with Cons Lit show ?thesis
        using scannedD [of js "p @ items_text is" "p @ item_text (Lit b)"] IH [of js] b
        by (simp add: prep_at)
    next
      case (Line b)
      from ok [unfolded Cons Line] show ?thesis
      proof (cases rule: items_ok_line)
        case 1
        then show ?thesis
          using consume_line [of b "[]" p] Cons Line by (simp add: prep_at prep_at_end)
      next
        case (2 c ks)
        let ?p = "p @ blanks (length b + 2)"
        have "prep_loop (?p @ c # items_text ks) (length ?p) = ?p @ c # cleaned ks"
          by (rule scanned_byte) (use IH [of ks] 2 Cons isWS_bytes [of c] in \<open>auto simp: isWS_def\<close>)
        then show ?thesis
          using consume_line [of b "c # items_text ks" p] Cons Line 2 by (simp add: prep_at)
      qed
    next
      case (Block b)
      with ok Cons have b: "CHR ''*'' \<notin> set b" "items_ok js" by auto
      let ?p = "p @ blanks (length b + 3)"
      have "prep_loop (?p @ CHR '' '' # items_text js) (length ?p) = ?p @ CHR '' '' # cleaned js"
        by (rule scanned_byte) (use IH [of js] b Cons in auto)
      then show ?thesis
        using consume_block [OF b(1), of p "items_text js"] Cons Block by (simp add: prep_at blanks_last add.assoc)
    next
      case Comma
      with IH [of js] ok Cons have "comma_scanned js" by auto
      from comma_scannedD [OF this, of "p @ items_text is" p "CHR '',''" "[]"] show ?thesis
        using Cons Comma by (simp add: prep_at after_comma_def)
    next
      case (Byte c)
      with ok Cons IH [of js] show ?thesis
        using scannedD [of js "p @ items_text is" "p @ [c]"] by (simp add: prep_at)
    qed
  qed
qed

lemma comma_scanned_step:
  assumes ok: "items_ok is" and sc: "scanned is"
    and IH: "\<And>js. length js < length is \<Longrightarrow> items_ok js \<Longrightarrow> comma_scanned js"
  shows "comma_scanned is"
  unfolding comma_scanned_def
proof (intro allI)
  fix p q :: string and d
  define u m where um: "u = butlast (d # q)" "m = last (d # q)"
  have dq: "d # q = u @ [m]" unfolding um by simp
  then have len: "length q = length u" by (metis length_append_singleton length_Cons nat.inject)
  have turn: "after_comma (p @ d # q @ c # r) (length p) (length p + length q) =
     (if c = CHR ''}'' \<or> c = CHR '']'' then prep_loop (p @ CHR '' '' # q @ c # r) (length (p @ CHR '' '' # q))
      else if c = CHR ''/'' then let (s', i') = consumeComment ((p @ d # q) @ c # r) (length (p @ d # q) + 1)
        in after_comma s' (length p) i'
      else if \<not> isWS c then prep_loop (p @ d # q @ c # r) (length (p @ d # q))
      else after_comma (p @ d # (q @ [c]) @ r) (length p) (length p + length (q @ [c])))" for c r
  proof -
    have s: "p @ d # q @ c # r = (p @ u) @ m # c # r" using arg_cong [OF dq, of "\<lambda>l. p @ l @ c # r"] by simp
    have "(p @ d # q @ c # r)[length p := CHR '' ''] = p @ CHR '' '' # q @ c # r" by simp
    with after_comma_at [of "p @ u" m c r "length p", folded s] len show ?thesis by simp
  qed
  show "after_comma (p @ d # q @ items_text is) (length p) (length p + length q)
      = p @ (if closes is then CHR '' '' else d) # q @ cleaned is"
  proof (cases "is")
    case Nil
    then show ?thesis by (simp add: after_comma_end)
  next
    case (Cons x js)
    show ?thesis
    proof (cases x)
      case (Byte c)
      have here: "prep_loop (p @ e # q @ items_text is) (length (p @ e # q)) = p @ e # q @ cleaned is" for e
        using scannedD [OF sc, of _ "p @ e # q"] by simp
      have on: "after_comma (p @ d # (q @ [c]) @ items_text js) (length p) (length p + length (q @ [c]))
          = p @ (if closes js then CHR '' '' else d) # (q @ [c]) @ cleaned js"
        by (rule comma_scannedD [OF IH refl refl refl]) (use ok Cons Byte in simp_all)
      have "c \<noteq> CHR ''/''" using ok Cons Byte by simp
      with turn [of c "items_text js"] here on isWS_bytes [of c] Cons Byte show ?thesis by auto
    next
      case (Line b)
      from ok [unfolded Cons Line] show ?thesis
      proof (cases rule: items_ok_line)
        case 1
        then show ?thesis
          using consume_line [of b "[]" "p @ d # q"] turn [of "CHR ''/''" "CHR ''/'' # b"] Cons Line
          by (simp add: after_comma_end isWS_def isNL_def)
      next
        case (2 c ks)
        let ?q = "q @ blanks (length b + 2) @ [c]"
        have "after_comma (p @ d # ?q @ items_text ks) (length p) (length p + length ?q)
            = p @ (if closes ks then CHR '' '' else d) # ?q @ cleaned ks"
          by (rule comma_scannedD [OF IH refl refl refl]) (use 2 Cons in simp_all)
        moreover have "c \<noteq> CHR ''}''" "c \<noteq> CHR '']''" "isWS c" using 2 isWS_bytes [of c] by (auto simp: isWS_def)
        ultimately show ?thesis
          using consume_line [of b "c # items_text ks" "p @ d # q"]
            turn [of "CHR ''/''" "CHR ''/'' # b @ c # items_text ks"] Cons Line 2
          by (simp add: add.assoc)
      qed
    next
      case (Block b)
      with ok Cons have b: "CHR ''*'' \<notin> set b" "items_ok js" by auto
      let ?q = "q @ blanks (length b + 4)"
      have "after_comma (p @ d # ?q @ items_text js) (length p) (length p + length ?q)
          = p @ (if closes js then CHR '' '' else d) # ?q @ cleaned js"
        by (rule comma_scannedD [OF IH refl refl refl]) (use b Cons in simp_all)
      then show ?thesis
        using consume_block [OF b(1), of "p @ d # q" "items_text js"]
          turn [of "CHR ''/''" "CHR ''*'' # b @ ''*/'' @ items_text js"] Cons Block
        by (simp add: numeral_eq_Suc add.assoc)
    next
      case Comma
      then show ?thesis
        using turn [of "CHR '',''" "items_text js"] scannedD [OF sc, of _ "p @ d # q"] Cons by (simp add: isWS_def isNL_def)
    next
      case (Lit b)
      then show ?thesis
        using turn [of "CHR 0x22" "b @ CHR 0x22 # items_text js"] scannedD [OF sc, of _ "p @ d # q"] Cons
        by (simp add: isWS_def isNL_def)
    qed
  qed
qed

lemma items_scanned: "items_ok is \<Longrightarrow> scanned is \<and> comma_scanned is"
proof (induction "is" rule: length_induct)
  case (1 "is")
  then have IH: "\<And>js. length js < length is \<Longrightarrow> items_ok js \<Longrightarrow> scanned js \<and> comma_scanned js" by blast
  with scanned_step [OF 1(2)] comma_scanned_step [OF 1(2)] show ?case by blast
qed

text \<open>
  On a well-formed text the reader blanks exactly the comments and the trailing commas: string literals are
  kept to the byte, even when they hold comment marks or commas, and so is every other byte.
\<close>

theorem prep_cleans: "items_ok is \<Longrightarrow> prep (items_text is) = cleaned is"
  using items_scanned [of "is"] scannedD [of "is" "items_text is" "[]" 0] by (simp add: prep_def)

theorem prep_cleans_witness:
  "prep (items_text [Byte CHR ''['', Lit ''/*a,'', Comma, Block ''b'', Byte CHR '']''])
     = cleaned [Byte CHR ''['', Lit ''/*a,'', Comma, Block ''b'', Byte CHR '']'']
   \<and> cleaned [Byte CHR ''['', Lit ''/*a,'', Comma, Block ''b'', Byte CHR '']'']
     = CHR ''['' # CHR 0x22 # ''/*a,'' @ CHR 0x22 # ''      ]''"
proof
  show "prep (items_text [Byte CHR ''['', Lit ''/*a,'', Comma, Block ''b'', Byte CHR '']''])
     = cleaned [Byte CHR ''['', Lit ''/*a,'', Comma, Block ''b'', Byte CHR '']'']"
    by (rule prep_cleans) simp
qed (simp add: isWS_def isNL_def numeral_eq_Suc)

section \<open>A block comment that ends in two stars\<close>

lemma blank_block_rest: "CHR ''*'' \<notin> set r \<Longrightarrow> blank_block (p @ r) (length p) = (p @ blanks (length r), length p + length r)"
proof (induction r arbitrary: p)
  case Nil
  show ?case by (subst blank_block.simps) simp
next
  case (Cons c r)
  from Cons.IH [of "p @ [CHR '' '']"] Cons.prems show ?case by (subst blank_block.simps) auto
qed

lemma blank_block_stars:
  "CHR ''*'' \<notin> set b \<Longrightarrow> CHR ''*'' \<notin> set r \<Longrightarrow>
     blank_block (p @ b @ ''**/'' @ r) (length p)
       = (p @ blanks (length b + 1) @ CHR ''*'' # blanks (length r + 1), length p + length b + 3 + length r)"
proof (induction b arbitrary: p)
  case Nil
  have "blank_block ((p @ '' *'') @ CHR ''/'' # r) (length (p @ '' *''))
      = ((p @ '' *'') @ blanks (length (CHR ''/'' # r)), length (p @ '' *'') + length (CHR ''/'' # r))"
    by (rule blank_block_rest) (use Nil in simp)
  then show ?case by (subst blank_block.simps) (simp add: Let_def nth_append)
next
  case (Cons c b)
  from Cons.IH [of "p @ [CHR '' '']"] Cons.prems show ?case by (subst blank_block.simps) auto
qed

text \<open>
  After a star the reader skips the next byte without looking at it, so a block comment that ends in two
  stars is not closed: everything behind it is blanked to the end of the file.
\<close>

theorem double_star_never_closes:
  assumes "CHR ''*'' \<notin> set b" "CHR ''*'' \<notin> set r"
  shows "prep (''/*'' @ b @ ''**/'' @ r) = blanks (length b + 3) @ CHR ''*'' # blanks (length r + 1)"
proof -
  have "blank_block ('' '' @ (CHR '' '' # b) @ ''**/'' @ r) (length '' '')
      = ('' '' @ blanks (length (CHR '' '' # b) + 1) @ CHR ''*'' # blanks (length r + 1),
         length '' '' + length (CHR '' '' # b) + 3 + length r)"
    by (rule blank_block_stars) (use assms in auto)
  then show ?thesis
    using prep_at [of "[]" "CHR ''/''" "CHR ''*'' # b @ ''**/'' @ r"]
    by (simp add: prep_def consumeComment_def prep_at_end numeral_eq_Suc)
qed

theorem double_star_never_closes_witness:
  "prep ''/* a **/{}'' = ''      *   ''"
  using double_star_never_closes [of "'' a ''" "''{}''"] by (simp add: numeral_eq_Suc)

end
