(* ===== verification/Conf_Node.thy ===== *)
theory Conf_Node
  imports Conf_Types Json5
begin

text \<open>
  The rest of the configuration structs and the whole decoder: environment placeholders (\<^verbatim>\<open>envsubst.go\<close>), cores
  (\<^verbatim>\<open>core.go\<close>, \<^verbatim>\<open>xray.go\<close>, \<^verbatim>\<open>sing.go\<close>), nodes with their include files (\<^verbatim>\<open>node.go\<close>), dynamic DNS (\<^verbatim>\<open>ddns.go\<close>),
  the restart window (\<^verbatim>\<open>scheduled_restart.go\<close>) and the file itself (\<^verbatim>\<open>conf.go\<close>, \<^verbatim>\<open>validate.go\<close>).

  What the decoder asks of the machine is a record \<open>host\<close>: environment variables, files, the two JSON parsers
  (\<^verbatim>\<open>encoding/json\<close> and the stricter \<^verbatim>\<open>encoding/json/v2\<close>), URL, mail address and public suffix parsing.
\<close>

section \<open>The machine\<close>

record url =
  u_Scheme :: string
  u_Host :: string
  u_Hostname :: string
  u_User :: bool
  u_Fragment :: string

text \<open>A parse error carries its offset and the tokens of the JSON pointer, when the parser gives them.\<close>

datatype json_error = OtherJson | Syntactic (offset: nat) (pointer: "string list") (duplicate: bool)

record host =
  h_LookupEnv :: "string \<Rightarrow> string option"
  h_ReadFile :: "string \<Rightarrow> string option"
  h_IsDir :: "string \<Rightarrow> bool option"
  h_HttpGet :: "string \<Rightarrow> string option"
  h_json :: "string \<Rightarrow> json option"
  h_json2 :: "string \<Rightarrow> json_error + json"
  h_url :: "string \<Rightarrow> url option"
  h_mail :: "string \<Rightarrow> (string \<times> string) option"
  h_zone :: "string \<Rightarrow> string"
  h_letter :: "string \<Rightarrow> bool"
  h_location :: "string \<Rightarrow> bool"

definition and_then :: "'e + 'a \<Rightarrow> ('a \<Rightarrow> 'e + 'b) \<Rightarrow> 'e + 'b" where
  "and_then x f = (case x of Inl e \<Rightarrow> Inl e | Inr v \<Rightarrow> f v)"

definition or_fail :: "'e \<Rightarrow> 'a option \<Rightarrow> 'e + 'a" where
  "or_fail e x = (case x of None \<Rightarrow> Inl e | Some v \<Rightarrow> Inr v)"

lemma and_then_simps [simp]: "and_then (Inl e) f = Inl e" "and_then (Inr v) f = f v"
  by (simp_all add: and_then_def)

lemma and_then_Inr: "and_then x f = Inr y \<longleftrightarrow> (\<exists>v. x = Inr v \<and> f v = Inr y)"
  by (cases x) auto

lemma or_fail_Inr [simp]: "or_fail e x = Inr v \<longleftrightarrow> x = Some v"
  by (cases x) (auto simp: or_fail_def)

subsection \<open>Paths\<close>

fun clean_elems :: "bool \<Rightarrow> string list \<Rightarrow> string list \<Rightarrow> string list" where
  "clean_elems rooted out [] = rev out"
| "clean_elems rooted out (e # es) =
     (if e = [] \<or> e = ''.'' then clean_elems rooted out es
      else if e = ''..'' then
        (case out of
           [] \<Rightarrow> clean_elems rooted (if rooted then [] else [e]) es
         | o' # os \<Rightarrow> clean_elems rooted (if o' = ''..'' then e # out else os) es)
      else clean_elems rooted (e # out) es)"

definition filepath_Clean :: "string \<Rightarrow> string" where
  "filepath_Clean p =
     (let rooted = has_prefix p ''/'';
          q = join_with ''/'' (clean_elems rooted [] (split_on CHR ''/'' p))
      in if rooted then CHR ''/'' # q else if q = [] then ''.'' else q)"

definition filepath_Dir :: "string \<Rightarrow> string" where
  "filepath_Dir p = filepath_Clean (rev (dropWhile (\<lambda>c. c \<noteq> CHR ''/'') (rev p)))"

section \<open>Environment placeholders\<close>

datatype load_error = MissingEnv string | OpenInclude | DecodeFailed

fun cut_at :: "string \<Rightarrow> string \<Rightarrow> (string \<times> string) option" where
  "cut_at sep [] = (if sep = [] then Some ([], []) else None)"
| "cut_at sep (c # cs) =
     (case strip_prefix sep (c # cs) of
        Some r \<Rightarrow> Some ([], r)
      | None \<Rightarrow> map_option (\<lambda>(l, r). (c # l, r)) (cut_at sep cs))"

definition substEnvString :: "(string \<Rightarrow> string option) \<Rightarrow> string \<Rightarrow> load_error + string" where
  "substEnvString lookup s =
     (if \<not> has_prefix s ''${'' \<or> \<not> has_suffix s ''}'' then Inr s
      else let expr = trim_space (trim_suffix (trim_prefix s ''${'') ''}'') in
        if expr = [] then Inr s
        else let (varName, def) = (case cut_at '':-'' expr of
                                     None \<Rightarrow> (expr, None)
                                   | Some (left, right) \<Rightarrow> (trim_space left, Some right)) in
          if varName = [] then Inr s
          else case lookup varName of
                 Some v \<Rightarrow> if v \<noteq> [] then Inr v else (case def of Some d \<Rightarrow> Inr d | None \<Rightarrow> Inl (MissingEnv varName))
               | None \<Rightarrow> (case def of Some d \<Rightarrow> Inr d | None \<Rightarrow> Inl (MissingEnv varName)))"

text \<open>
  An object is a Go map here: its keys are distinct, and the order of the list is one order the program may walk
  it in.
\<close>

fun walkAndSubst :: "(string \<Rightarrow> string option) \<Rightarrow> json \<Rightarrow> load_error + json"
  and walk_entries :: "(string \<Rightarrow> string option) \<Rightarrow> (string \<times> json) list \<Rightarrow> load_error + (string \<times> json) list"
  and walk_elems :: "(string \<Rightarrow> string option) \<Rightarrow> json list \<Rightarrow> load_error + json list" where
  "walkAndSubst lookup (JObj kvs) = and_then (walk_entries lookup kvs) (\<lambda>r. Inr (JObj r))"
| "walkAndSubst lookup (JArr js) = and_then (walk_elems lookup js) (\<lambda>r. Inr (JArr r))"
| "walkAndSubst lookup (JStr s) = and_then (substEnvString lookup s) (\<lambda>r. Inr (JStr r))"
| "walkAndSubst lookup JNull = Inr JNull"
| "walkAndSubst lookup (JBool b) = Inr (JBool b)"
| "walkAndSubst lookup (JNum n) = Inr (JNum n)"
| "walk_entries lookup [] = Inr []"
| "walk_entries lookup ((k, j) # kvs) =
     and_then (walkAndSubst lookup j) (\<lambda>j'. and_then (walk_entries lookup kvs) (\<lambda>r. Inr ((k, j') # r)))"
| "walk_elems lookup [] = Inr []"
| "walk_elems lookup (j # js) =
     and_then (walkAndSubst lookup j) (\<lambda>j'. and_then (walk_elems lookup js) (\<lambda>r. Inr (j' # r)))"

text \<open>\<^verbatim>\<open>resolveEnvPlaceholders\<close> on the text of a file.\<close>

definition resolveEnvPlaceholders :: "host \<Rightarrow> json option \<Rightarrow> load_error + json" where
  "resolveEnvPlaceholders h v =
     and_then (or_fail DecodeFailed v) (walkAndSubst (h_LookupEnv h))"

section \<open>Cores\<close>

record XrayLogConfig =
  xl_Level :: string
  xl_AccessPath :: string
  xl_ErrorPath :: string

definition XrayLogConfig_fields :: "XrayLogConfig fields" where
  "XrayLogConfig_fields =
     [(''Level'', fld xl_Level xl_Level_update into_string),
      (''AccessPath'', fld xl_AccessPath xl_AccessPath_update into_string),
      (''ErrorPath'', fld xl_ErrorPath xl_ErrorPath_update into_string)]"

record XrayConnectionConfig =
  xc_StatsUserUplink :: bool
  xc_StatsUserDownlink :: bool
  xc_Handshake :: int
  xc_ConnIdle :: int
  xc_UplinkOnly :: int
  xc_DownlinkOnly :: int
  xc_BufferSize :: int

definition XrayConnectionConfig_fields :: "XrayConnectionConfig fields" where
  "XrayConnectionConfig_fields =
     [(''statsUserUplink'', fld xc_StatsUserUplink xc_StatsUserUplink_update into_bool),
      (''statsUserDownlink'', fld xc_StatsUserDownlink xc_StatsUserDownlink_update into_bool),
      (''handshake'', fld xc_Handshake xc_Handshake_update (into_uint 32)),
      (''connIdle'', fld xc_ConnIdle xc_ConnIdle_update (into_uint 32)),
      (''uplinkOnly'', fld xc_UplinkOnly xc_UplinkOnly_update (into_uint 32)),
      (''downlinkOnly'', fld xc_DownlinkOnly xc_DownlinkOnly_update (into_uint 32)),
      (''bufferSize'', fld xc_BufferSize xc_BufferSize_update into_int32)]"

definition XrayConnectionConfig_zero :: XrayConnectionConfig where
  "XrayConnectionConfig_zero = \<lparr>xc_StatsUserUplink = False, xc_StatsUserDownlink = False, xc_Handshake = 0,
     xc_ConnIdle = 0, xc_UplinkOnly = 0, xc_DownlinkOnly = 0, xc_BufferSize = 0\<rparr>"

record XrayConfig =
  xr_LogConfig :: "XrayLogConfig option"
  xr_AssetPath :: string
  xr_DnsConfigPath :: string
  xr_RouteConfigPath :: string
  xr_ConnectionConfig :: "XrayConnectionConfig option"
  xr_LegacyConnConfig :: "XrayConnectionConfig option"
  xr_InboundConfigPath :: string
  xr_OutboundConfigPath :: string
  xr_EnableBTExtraSniffing :: "bool option"

definition XrayConfig_fields :: "XrayConfig fields" where
  "XrayConfig_fields =
     [(''Log'', fld xr_LogConfig xr_LogConfig_update
         (into_ptr \<lparr>xl_Level = [], xl_AccessPath = [], xl_ErrorPath = []\<rparr> (into_struct XrayLogConfig_fields))),
      (''AssetPath'', fld xr_AssetPath xr_AssetPath_update into_string),
      (''DnsConfigPath'', fld xr_DnsConfigPath xr_DnsConfigPath_update into_string),
      (''RouteConfigPath'', fld xr_RouteConfigPath xr_RouteConfigPath_update into_string),
      (''ConnectionConfig'', fld xr_ConnectionConfig xr_ConnectionConfig_update
         (into_ptr XrayConnectionConfig_zero (into_struct XrayConnectionConfig_fields))),
      (''XrayConnectionConfig'', fld xr_LegacyConnConfig xr_LegacyConnConfig_update
         (into_ptr XrayConnectionConfig_zero (into_struct XrayConnectionConfig_fields))),
      (''InboundConfigPath'', fld xr_InboundConfigPath xr_InboundConfigPath_update into_string),
      (''OutboundConfigPath'', fld xr_OutboundConfigPath xr_OutboundConfigPath_update into_string),
      (''EnableBTExtraSniffing'', fld xr_EnableBTExtraSniffing xr_EnableBTExtraSniffing_update (into_ptr False into_bool))]"

definition BTExtraSniffingEnabled :: "XrayConfig \<Rightarrow> bool" where
  "BTExtraSniffingEnabled x \<longleftrightarrow> (case xr_EnableBTExtraSniffing x of None \<Rightarrow> True | Some b \<Rightarrow> b)"

definition NewXrayConfig :: XrayConfig where
  "NewXrayConfig =
     \<lparr>xr_LogConfig = Some \<lparr>xl_Level = ''warning'', xl_AccessPath = [], xl_ErrorPath = []\<rparr>,
      xr_AssetPath = ''/etc/N2X/'', xr_DnsConfigPath = [], xr_RouteConfigPath = [],
      xr_ConnectionConfig = Some \<lparr>xc_StatsUserUplink = True, xc_StatsUserDownlink = True, xc_Handshake = 4,
        xc_ConnIdle = 300, xc_UplinkOnly = 2, xc_DownlinkOnly = 5, xc_BufferSize = 64\<rparr>,
      xr_LegacyConnConfig = None, xr_InboundConfigPath = [], xr_OutboundConfigPath = [],
      xr_EnableBTExtraSniffing = None\<rparr>"

definition XrayConfig_UnmarshalJSON :: "XrayConfig \<Rightarrow> json \<Rightarrow> XrayConfig option" where
  "XrayConfig_UnmarshalJSON x b =
     (case into_struct XrayConfig_fields x b of
        None \<Rightarrow> None
      | Some tmp \<Rightarrow>
          Some (if xr_ConnectionConfig tmp = None \<and> xr_LegacyConnConfig tmp \<noteq> None
                then tmp\<lparr>xr_ConnectionConfig := xr_LegacyConnConfig tmp\<rparr> else tmp))"

record SingLogConfig =
  sl_Disabled :: bool
  sl_Level :: string
  sl_Output :: string
  sl_Timestamp :: bool

definition SingLogConfig_fields :: "SingLogConfig fields" where
  "SingLogConfig_fields =
     [(''Disable'', fld sl_Disabled sl_Disabled_update into_bool),
      (''Level'', fld sl_Level sl_Level_update into_string),
      (''Output'', fld sl_Output sl_Output_update into_string),
      (''Timestamp'', fld sl_Timestamp sl_Timestamp_update into_bool)]"

record SingNtpConfig =
  sn_Enable :: bool
  sn_Server :: string
  sn_ServerPort :: int

definition SingNtpConfig_fields :: "SingNtpConfig fields" where
  "SingNtpConfig_fields =
     [(''Enable'', fld sn_Enable sn_Enable_update into_bool),
      (''Server'', fld sn_Server sn_Server_update into_string),
      (''ServerPort'', fld sn_ServerPort sn_ServerPort_update (into_uint 16))]"

record SingConfig =
  sc_LogConfig :: SingLogConfig
  sc_NtpConfig :: SingNtpConfig
  sc_OriginalPath :: string

definition SingConfig_fields :: "SingConfig fields" where
  "SingConfig_fields =
     [(''Log'', fld sc_LogConfig sc_LogConfig_update (into_struct SingLogConfig_fields)),
      (''NTP'', fld sc_NtpConfig sc_NtpConfig_update (into_struct SingNtpConfig_fields)),
      (''OriginalPath'', fld sc_OriginalPath sc_OriginalPath_update into_string)]"

definition NewSingConfig :: SingConfig where
  "NewSingConfig =
     \<lparr>sc_LogConfig = \<lparr>sl_Disabled = False, sl_Level = ''error'', sl_Output = [], sl_Timestamp = True\<rparr>,
      sc_NtpConfig = \<lparr>sn_Enable = False, sn_Server = ''time.apple.com'', sn_ServerPort = 0\<rparr>,
      sc_OriginalPath = []\<rparr>"

record CoreConfig =
  co_Type :: string
  co_Name :: string
  co_XrayConfig :: "XrayConfig option"
  co_SingConfig :: "SingConfig option"

definition CoreConfig_fields :: "CoreConfig fields" where
  "CoreConfig_fields =
     [(''Type'', fld co_Type co_Type_update into_string), (''Name'', fld co_Name co_Name_update into_string)]"

definition CoreConfig_zero :: CoreConfig where
  "CoreConfig_zero = \<lparr>co_Type = [], co_Name = [], co_XrayConfig = None, co_SingConfig = None\<rparr>"

definition CoreConfig_UnmarshalJSON :: "CoreConfig \<Rightarrow> json \<Rightarrow> CoreConfig option" where
  "CoreConfig_UnmarshalJSON c0 b =
     do { c \<leftarrow> into_struct CoreConfig_fields c0 b;
          if co_Type c = ''xray'' then
            do { x \<leftarrow> XrayConfig_UnmarshalJSON NewXrayConfig b; Some (c\<lparr>co_XrayConfig := Some x\<rparr>) }
          else if co_Type c = ''sing'' then
            do { x \<leftarrow> into_struct SingConfig_fields NewSingConfig b; Some (c\<lparr>co_SingConfig := Some x\<rparr>) }
          else Some c }"

section \<open>Dynamic DNS\<close>

record DDNSConfig =
  dd_Enabled :: bool
  dd_Provider :: string
  dd_Domain :: string
  dd_ZoneName :: string
  dd_RecordType :: string
  dd_Interval :: int
  dd_TTL :: int
  dd_IPURL :: string
  dd_DNSEnv :: "(string, string) gomap"

definition DDNSConfig_zero :: DDNSConfig where
  "DDNSConfig_zero = \<lparr>dd_Enabled = False, dd_Provider = [], dd_Domain = [], dd_ZoneName = [], dd_RecordType = [],
     dd_Interval = 0, dd_TTL = 0, dd_IPURL = [], dd_DNSEnv = []\<rparr>"

definition DDNSConfig_fields :: "DDNSConfig fields" where
  "DDNSConfig_fields =
     [(''Enabled'', fld dd_Enabled dd_Enabled_update into_bool),
      (''Provider'', fld dd_Provider dd_Provider_update into_string),
      (''Domain'', fld dd_Domain dd_Domain_update into_string),
      (''ZoneName'', fld dd_ZoneName dd_ZoneName_update into_string),
      (''RecordType'', fld dd_RecordType dd_RecordType_update into_string),
      (''Interval'', fld dd_Interval dd_Interval_update into_int),
      (''TTL'', fld dd_TTL dd_TTL_update into_int),
      (''IPURL'', fld dd_IPURL dd_IPURL_update into_string),
      (''DNSEnv'', fld dd_DNSEnv dd_DNSEnv_update into_env)]"

definition upper_char :: "char \<Rightarrow> char" where
  "upper_char c = (let n = (of_char c :: nat) in if 97 \<le> n \<and> n \<le> 122 then char_of (n - 32) else c)"

definition to_upper :: "string \<Rightarrow> string" where
  "to_upper s = map upper_char s"

definition from_cert :: "DDNSConfig \<Rightarrow> CertConfig \<Rightarrow> DDNSConfig" where
  "from_cert c cert =
     (let c1 = (if dd_Provider c = [] then c\<lparr>dd_Provider := CertProvider cert\<rparr> else c);
          c2 = (if dd_Domain c1 = [] then c1\<lparr>dd_Domain := CertDomain cert\<rparr> else c1)
      in if dd_DNSEnv c2 = [] \<and> to_lower (trim_space (dd_Provider c2)) = to_lower (trim_space (CertProvider cert))
         then c2\<lparr>dd_DNSEnv := DNSEnv cert\<rparr> else c2)"

definition dns_name :: "string \<Rightarrow> string" where
  "dns_name s = to_lower (trim_suffix (trim_space s) ''.'')"

definition DDNS_Effective :: "host \<Rightarrow> DDNSConfig \<Rightarrow> CertConfig option \<Rightarrow> DDNSConfig" where
  "DDNS_Effective h c0 cert =
     (let c = (case cert of None \<Rightarrow> c0 | Some ct \<Rightarrow> from_cert c0 ct);
          domain = dns_name (dd_Domain c);
          zone = dns_name (dd_ZoneName c);
          rtype = to_upper (trim_space (dd_RecordType c));
          rtype' = (if rtype = [] then ''A'' else rtype)
      in c\<lparr>dd_Provider := to_lower (trim_space (dd_Provider c)),
           dd_Domain := domain,
           dd_ZoneName := (if zone = [] then h_zone h domain else zone),
           dd_RecordType := rtype',
           dd_Interval := (if dd_Interval c = 0 then 300 else dd_Interval c),
           dd_TTL := (if dd_TTL c = 0 then 600 else dd_TTL c),
           dd_IPURL := (if dd_IPURL c \<noteq> [] then dd_IPURL c
                        else if rtype' = ''AAAA'' then ''https://api6.ipify.org'' else ''https://api.ipify.org'')\<rparr>)"

datatype ddns_error =
    DDNSProvider | DDNSDomain cert_error | DDNSZone cert_error | DDNSOutside | DDNSRecordType | DDNSInterval | DDNSTTL
  | DDNSURL | DDNSKey string

definition ddns_keys :: "string \<Rightarrow> string list" where
  "ddns_keys provider =
     (if provider = ''alidns'' then [''ALICLOUD_ACCESS_KEY'', ''ALICLOUD_SECRET_KEY''] else [''CF_DNS_API_TOKEN''])"

definition DDNS_Validate :: "host \<Rightarrow> DDNSConfig \<Rightarrow> ddns_error option" where
  "DDNS_Validate h c =
     (if \<not> dd_Enabled c then None
      else if dd_Provider c \<noteq> ''cloudflare'' \<and> dd_Provider c \<noteq> ''alidns'' then Some DDNSProvider
      else case validateCertDomain (dd_Domain c) False of Some e \<Rightarrow> Some (DDNSDomain e) | None \<Rightarrow>
      (case validateCertDomain (dd_ZoneName c) False of Some e \<Rightarrow> Some (DDNSZone e) | None \<Rightarrow>
      (if dd_Domain c \<noteq> dd_ZoneName c \<and> \<not> has_suffix (dd_Domain c) (CHR ''.'' # dd_ZoneName c) then Some DDNSOutside
      else if dd_RecordType c \<noteq> ''A'' \<and> dd_RecordType c \<noteq> ''AAAA'' then Some DDNSRecordType
      else if dd_Interval c < 30 \<or> 86400 < dd_Interval c then Some DDNSInterval
      else if dd_TTL c \<noteq> 1 \<and> (dd_TTL c < 60 \<or> 86400 < dd_TTL c) \<or> dd_Provider c = ''alidns'' \<and> dd_TTL c < 600
      then Some DDNSTTL
      else if (case h_url h (dd_IPURL c) of
                 None \<Rightarrow> True
               | Some u \<Rightarrow> u_Scheme u \<noteq> ''https'' \<or> u_Hostname u = [] \<or> u_User u \<or> u_Fragment u \<noteq> [])
      then Some DDNSURL
      else map_option DDNSKey
             (find (\<lambda>key. trim_space (mget [] (dd_DNSEnv c) key) = []) (ddns_keys (dd_Provider c))))))"

section \<open>The restart window\<close>

record ScheduledRestartConfig =
  sr_Enabled :: bool
  sr_IntervalDays :: int
  sr_StartTime :: string
  sr_EndTime :: string
  sr_Timezone :: string

text \<open>
  \<^verbatim>\<open>time.Parse("15:04", value)\<close>: an hour of one or two digits, a colon, a minute of two digits. The source then
  asks for the value to be the printed form. The result is in minutes.
\<close>

definition parse_clock :: "string \<Rightarrow> (nat \<times> nat) option" where
  "parse_clock s =
     (let hh = takeWhile (\<lambda>c. c \<noteq> CHR '':'') s; mm = drop (length hh + 1) s in
      if all_digits hh \<and> length hh \<le> 2 \<and> length hh < length s \<and> all_digits mm \<and> length mm = 2
         \<and> decimal_value hh < 24 \<and> decimal_value mm < 60
      then Some (decimal_value hh, decimal_value mm) else None)"

definition two_digits :: "nat \<Rightarrow> string" where
  "two_digits n = [digit_char (n div 10), digit_char (n mod 10)]"

definition print_clock :: "nat \<times> nat \<Rightarrow> string" where
  "print_clock t = two_digits (fst t) @ CHR '':'' # two_digits (snd t)"

definition parseRestartTime :: "string \<Rightarrow> nat option" where
  "parseRestartTime value =
     (case parse_clock value of
        None \<Rightarrow> None
      | Some t \<Rightarrow> if print_clock t \<noteq> value then None else Some (60 * fst t + snd t))"

datatype window_error = BadStart | BadEnd | EndNotLater

definition Window :: "ScheduledRestartConfig \<Rightarrow> window_error + nat \<times> nat" where
  "Window c =
     and_then (or_fail BadStart (parseRestartTime (sr_StartTime c)))
       (\<lambda>s. and_then (or_fail BadEnd (parseRestartTime (sr_EndTime c)))
         (\<lambda>e. if e \<le> s then Inl EndNotLater else Inr (s, e)))"

definition Location :: "host \<Rightarrow> ScheduledRestartConfig \<Rightarrow> bool" where
  "Location h c \<longleftrightarrow> sr_Timezone c = [] \<or> h_location h (sr_Timezone c)"

section \<open>Nodes\<close>

record WebSocketConfig =
  wsc_Enabled :: bool
  wsc_URL :: string
  wsc_Debug :: bool

definition WebSocketConfig_fields :: "WebSocketConfig fields" where
  "WebSocketConfig_fields =
     [(''Enabled'', fld wsc_Enabled wsc_Enabled_update into_bool),
      (''URL'', fld wsc_URL wsc_URL_update into_string),
      (''Debug'', fld wsc_Debug wsc_Debug_update into_bool)]"

record ApiConfig =
  ap_APIHost :: string
  ap_APISendIP :: string
  ap_NodeID :: int
  ap_Key :: string
  ap_NodeType :: string
  ap_Timeout :: int
  ap_RuleListPath :: string
  ap_WebSocket :: WebSocketConfig

definition ApiConfig_fields :: "ApiConfig fields" where
  "ApiConfig_fields =
     [(''ApiHost'', fld ap_APIHost ap_APIHost_update into_string),
      (''ApiSendIP'', fld ap_APISendIP ap_APISendIP_update into_string),
      (''NodeID'', fld ap_NodeID ap_NodeID_update into_int),
      (''ApiKey'', fld ap_Key ap_Key_update into_string),
      (''NodeType'', fld ap_NodeType ap_NodeType_update into_string),
      (''Timeout'', fld ap_Timeout ap_Timeout_update into_int),
      (''RuleListPath'', fld ap_RuleListPath ap_RuleListPath_update into_string),
      (''WebSocket'', fld ap_WebSocket ap_WebSocket_update (into_struct WebSocketConfig_fields))]"

record ArtXOptions =
  ax_WindowBudgetSharePercent :: int
  ax_WindowBudgetReservePercent :: int

definition ArtXOptions_fields :: "ArtXOptions fields" where
  "ArtXOptions_fields =
     [(''WindowBudgetSharePercent'', fld ax_WindowBudgetSharePercent ax_WindowBudgetSharePercent_update into_uint64),
      (''WindowBudgetReservePercent'', fld ax_WindowBudgetReservePercent ax_WindowBudgetReservePercent_update into_uint64)]"

record Options =
  op_Name :: string
  op_Core :: string
  op_CoreName :: string
  op_ListenIP :: string
  op_SendIP :: string
  op_DeviceOnlineMinTraffic :: int
  op_ReportMinTraffic :: int
  op_LimitConfig :: LimitConfig
  op_RawOptions :: "json option"
  op_XrayOptions :: "XrayOptions option"
  op_SingOptions :: "SingOptions option"
  op_ArtXOptions :: "ArtXOptions option"
  op_CertConfig :: "CertConfig option"
  op_DDNSConfig :: DDNSConfig

definition CertConfig_zero :: CertConfig where
  "CertConfig_zero = \<lparr>CertMode = [], RejectUnknownSni = False, CertDomain = [], CertFile = [], KeyFile = [],
     CertProvider = [], Email = [], DNSEnv = []\<rparr>"

definition XrayOptions_zero :: XrayOptions where
  "XrayOptions_zero = NewXrayOptions\<lparr>xo_DNSType := []\<rparr>"

definition SingOptions_zero :: SingOptions where
  "SingOptions_zero = NewSingOptions\<lparr>sg_SniffEnabled := False, sg_SniffOverrideDestination := False,
     sg_FallBackConfigs := None, sg_Multiplex := None\<rparr>"

definition Options_fields :: "host \<Rightarrow> Options fields" where
  "Options_fields h =
     [(''Name'', fld op_Name op_Name_update into_string),
      (''Core'', fld op_Core op_Core_update into_string),
      (''CoreName'', fld op_CoreName op_CoreName_update into_string),
      (''ListenIP'', fld op_ListenIP op_ListenIP_update into_string),
      (''SendIP'', fld op_SendIP op_SendIP_update into_string),
      (''DeviceOnlineMinTraffic'', fld op_DeviceOnlineMinTraffic op_DeviceOnlineMinTraffic_update into_int),
      (''ReportMinTraffic'', fld op_ReportMinTraffic op_ReportMinTraffic_update into_int),
      (''LimitConfig'', fld op_LimitConfig op_LimitConfig_update (into_struct LimitConfig_fields)),
      (''RawOptions'', fld op_RawOptions op_RawOptions_update into_raw),
      (''XrayOptions'', fld op_XrayOptions op_XrayOptions_update
         (into_ptr XrayOptions_zero (into_struct XrayOptions_fields))),
      (''SingOptions'', fld op_SingOptions op_SingOptions_update
         (into_ptr SingOptions_zero (into_struct SingOptions_fields))),
      (''ArtXOptions'', fld op_ArtXOptions op_ArtXOptions_update
         (into_ptr \<lparr>ax_WindowBudgetSharePercent = 0, ax_WindowBudgetReservePercent = 0\<rparr> (into_struct ArtXOptions_fields))),
      (''CertConfig'', fld op_CertConfig op_CertConfig_update
         (into_ptr CertConfig_zero (CertConfig_UnmarshalJSON (h_letter h)))),
      (''DDNSConfig'', fld op_DDNSConfig op_DDNSConfig_update (into_struct DDNSConfig_fields))]"

definition Options_UnmarshalJSON :: "host \<Rightarrow> Options \<Rightarrow> json \<Rightarrow> Options option" where
  "Options_UnmarshalJSON h o0 data =
     do { op \<leftarrow> into_struct (Options_fields h) o0 data;
          if op_Core op = ''xray'' then
            do { x \<leftarrow> into_struct XrayOptions_fields NewXrayOptions data; Some (op\<lparr>op_XrayOptions := Some x\<rparr>) }
          else if op_Core op = ''sing'' then
            do { x \<leftarrow> into_struct SingOptions_fields NewSingOptions data; Some (op\<lparr>op_SingOptions := Some x\<rparr>) }
          else Some (op\<lparr>op_Core := [], op_RawOptions := Some data\<rparr>) }"

record rawNodeConfig =
  rn_Include :: string
  rn_ApiRaw :: "json option"
  rn_OptRaw :: "json option"

definition rawNodeConfig_fields :: "rawNodeConfig fields" where
  "rawNodeConfig_fields =
     [(''Include'', fld rn_Include rn_Include_update into_string),
      (''ApiConfig'', fld rn_ApiRaw rn_ApiRaw_update into_raw),
      (''Options'', fld rn_OptRaw rn_OptRaw_update into_raw)]"

record NodeConfig =
  nc_ApiConfig :: ApiConfig
  nc_Options :: Options

definition ApiConfig_default :: ApiConfig where
  "ApiConfig_default = \<lparr>ap_APIHost = ''http://127.0.0.1'', ap_APISendIP = [], ap_NodeID = 0, ap_Key = [],
     ap_NodeType = [], ap_Timeout = 30, ap_RuleListPath = [],
     ap_WebSocket = \<lparr>wsc_Enabled = False, wsc_URL = [], wsc_Debug = False\<rparr>\<rparr>"

definition Options_default :: Options where
  "Options_default = \<lparr>op_Name = [], op_Core = [], op_CoreName = [], op_ListenIP = ''0.0.0.0'', op_SendIP = ''0.0.0.0'',
     op_DeviceOnlineMinTraffic = 0, op_ReportMinTraffic = 0, op_LimitConfig = LimitConfig_zero, op_RawOptions = None,
     op_XrayOptions = None, op_SingOptions = None, op_ArtXOptions = None, op_CertConfig = Some NewCertConfig,
     op_DDNSConfig = DDNSConfig_zero\<rparr>"

text \<open>The text of an include file; only the literal names \<^verbatim>\<open>http\<close> and \<^verbatim>\<open>https\<close> are fetched.\<close>

definition include_text :: "host \<Rightarrow> string \<Rightarrow> string option" where
  "include_text h incl =
     (let file = trim_prefix incl '':'' in
      map_option prep (if file = ''http'' \<or> file = ''https'' then h_HttpGet h file else h_ReadFile h incl))"

definition read_include :: "host \<Rightarrow> rawNodeConfig \<Rightarrow> json \<Rightarrow> load_error + rawNodeConfig \<times> json" where
  "read_include h rn data =
     (if rn_Include rn = [] then Inr (rn, data)
      else and_then (or_fail OpenInclude (include_text h (rn_Include rn)))
        (\<lambda>t. and_then (resolveEnvPlaceholders h (h_json h t))
          (\<lambda>d. and_then (or_fail DecodeFailed (into_struct rawNodeConfig_fields rn d)) (\<lambda>rn'. Inr (rn', d)))))"

definition NodeConfig_UnmarshalJSON :: "host \<Rightarrow> json \<Rightarrow> load_error + NodeConfig" where
  "NodeConfig_UnmarshalJSON h j =
     and_then (resolveEnvPlaceholders h (Some j))
      (\<lambda>d0. and_then (or_fail DecodeFailed
               (into_struct rawNodeConfig_fields \<lparr>rn_Include = [], rn_ApiRaw = None, rn_OptRaw = None\<rparr> d0))
        (\<lambda>rn0. and_then (read_include h rn0 d0)
          (\<lambda>(rn, d). and_then (or_fail DecodeFailed
               (into_struct ApiConfig_fields ApiConfig_default (or_else (rn_ApiRaw rn) d)))
            (\<lambda>api. and_then (or_fail DecodeFailed
                 (Options_UnmarshalJSON h Options_default (or_else (rn_OptRaw rn) d)))
              (\<lambda>op. Inr \<lparr>nc_ApiConfig = api, nc_Options = op\<rparr>)))))"

section \<open>The file\<close>

text \<open>
  The top level and the blocks without a decoder of their own are read by \<^verbatim>\<open>encoding/json/v2\<close>: keys match exactly
  and \<^verbatim>\<open>null\<close> gives the zero value.
\<close>

definition null_zero :: "'a \<Rightarrow> ('a \<Rightarrow> json \<Rightarrow> 'a option) \<Rightarrow> 'a \<Rightarrow> json \<Rightarrow> 'a option" where
  "null_zero zero into old j = (if j = JNull then Some zero else into old j)"

fun exact_keys :: "'s fields \<Rightarrow> 's \<Rightarrow> (string \<times> json) list \<Rightarrow> 's option" where
  "exact_keys fs s [] = Some s"
| "exact_keys fs s ((k, j) # kvs) =
     (case map_of fs k of
        None \<Rightarrow> exact_keys fs s kvs
      | Some f \<Rightarrow> (case f s j of None \<Rightarrow> None | Some s' \<Rightarrow> exact_keys fs s' kvs))"

definition exact_struct :: "'s \<Rightarrow> 's fields \<Rightarrow> 's \<Rightarrow> json \<Rightarrow> 's option" where
  "exact_struct zero fs s j = (case j of JNull \<Rightarrow> Some zero | JObj kvs \<Rightarrow> exact_keys fs s kvs | _ \<Rightarrow> None)"

record LogConfig =
  lg_Level :: string
  lg_Output :: string

definition LogConfig_fields :: "LogConfig fields" where
  "LogConfig_fields =
     [(''Level'', fld lg_Level lg_Level_update (null_zero [] into_string)),
      (''Output'', fld lg_Output lg_Output_update (null_zero [] into_string))]"

record MemoryConfig =
  mc_SoftLimitPercent :: int
  mc_RestartPercent :: int

definition MemoryConfig_fields :: "MemoryConfig fields" where
  "MemoryConfig_fields =
     [(''SoftLimitPercent'', fld mc_SoftLimitPercent mc_SoftLimitPercent_update (null_zero 0 into_int)),
      (''RestartPercent'', fld mc_RestartPercent mc_RestartPercent_update (null_zero 0 into_int))]"

definition ScheduledRestartConfig_zero :: ScheduledRestartConfig where
  "ScheduledRestartConfig_zero = \<lparr>sr_Enabled = False, sr_IntervalDays = 0, sr_StartTime = [], sr_EndTime = [], sr_Timezone = []\<rparr>"

definition ScheduledRestartConfig_fields :: "ScheduledRestartConfig fields" where
  "ScheduledRestartConfig_fields =
     [(''Enabled'', fld sr_Enabled sr_Enabled_update (null_zero False into_bool)),
      (''IntervalDays'', fld sr_IntervalDays sr_IntervalDays_update (null_zero 0 into_int)),
      (''StartTime'', fld sr_StartTime sr_StartTime_update (null_zero [] into_string)),
      (''EndTime'', fld sr_EndTime sr_EndTime_update (null_zero [] into_string)),
      (''Timezone'', fld sr_Timezone sr_Timezone_update (null_zero [] into_string))]"

record Conf =
  cf_LogConfig :: LogConfig
  cf_CoresConfig :: "CoreConfig list"
  cf_NodeConfig :: "NodeConfig list"
  cf_MemoryConfig :: MemoryConfig
  cf_ScheduledRestart :: ScheduledRestartConfig

definition New :: Conf where
  "New = \<lparr>cf_LogConfig = \<lparr>lg_Level = ''info'', lg_Output = []\<rparr>, cf_CoresConfig = [], cf_NodeConfig = [],
     cf_MemoryConfig = \<lparr>mc_SoftLimitPercent = 70, mc_RestartPercent = 90\<rparr>,
     cf_ScheduledRestart = \<lparr>sr_Enabled = False, sr_IntervalDays = 3, sr_StartTime = ''03:00'', sr_EndTime = ''05:00'', sr_Timezone = []\<rparr>\<rparr>"

fun decode_nodes :: "host \<Rightarrow> json list \<Rightarrow> load_error + NodeConfig list" where
  "decode_nodes h [] = Inr []"
| "decode_nodes h (j # js) =
     and_then (NodeConfig_UnmarshalJSON h j) (\<lambda>n. and_then (decode_nodes h js) (\<lambda>ns. Inr (n # ns)))"

definition decode_conf_key :: "host \<Rightarrow> Conf \<Rightarrow> string \<Rightarrow> json \<Rightarrow> load_error + Conf" where
  "decode_conf_key h c k j =
     (if k = ''Log'' then
        and_then (or_fail DecodeFailed (exact_struct \<lparr>lg_Level = [], lg_Output = []\<rparr> LogConfig_fields (cf_LogConfig c) j))
          (\<lambda>l. Inr (c\<lparr>cf_LogConfig := l\<rparr>))
      else if k = ''Cores'' then
        and_then (or_fail DecodeFailed (into_list CoreConfig_zero CoreConfig_UnmarshalJSON (cf_CoresConfig c) j))
          (\<lambda>l. Inr (c\<lparr>cf_CoresConfig := l\<rparr>))
      else if k = ''Nodes'' then
        and_then (case j of JNull \<Rightarrow> Inr [] | JArr js \<Rightarrow> decode_nodes h js | _ \<Rightarrow> Inl DecodeFailed)
          (\<lambda>l. Inr (c\<lparr>cf_NodeConfig := l\<rparr>))
      else if k = ''Memory'' then
        and_then (or_fail DecodeFailed
            (exact_struct \<lparr>mc_SoftLimitPercent = 0, mc_RestartPercent = 0\<rparr> MemoryConfig_fields (cf_MemoryConfig c) j))
          (\<lambda>l. Inr (c\<lparr>cf_MemoryConfig := l\<rparr>))
      else if k = ''ScheduledRestart'' then
        and_then (or_fail DecodeFailed
            (exact_struct ScheduledRestartConfig_zero ScheduledRestartConfig_fields (cf_ScheduledRestart c) j))
          (\<lambda>l. Inr (c\<lparr>cf_ScheduledRestart := l\<rparr>))
      else Inr c)"

fun decode_conf_keys :: "host \<Rightarrow> Conf \<Rightarrow> (string \<times> json) list \<Rightarrow> load_error + Conf" where
  "decode_conf_keys h c [] = Inr c"
| "decode_conf_keys h c ((k, j) # kvs) = and_then (decode_conf_key h c k j) (\<lambda>c'. decode_conf_keys h c' kvs)"

definition Conf_zero :: Conf where
  "Conf_zero = \<lparr>cf_LogConfig = \<lparr>lg_Level = [], lg_Output = []\<rparr>, cf_CoresConfig = [], cf_NodeConfig = [],
     cf_MemoryConfig = \<lparr>mc_SoftLimitPercent = 0, mc_RestartPercent = 0\<rparr>, cf_ScheduledRestart = ScheduledRestartConfig_zero\<rparr>"

text \<open>
  \<^verbatim>\<open>Conf.decode\<close>. Its argument is a text, of which the two parsers read \<open>v1\<close> and \<open>v2\<close>. A missing variable makes it
  fall back to the text as it is.
\<close>

definition Conf_decode :: "host \<Rightarrow> Conf \<Rightarrow> json option \<Rightarrow> json option \<Rightarrow> load_error + Conf" where
  "Conf_decode h c v1 v2 =
     (let resolved = (case resolveEnvPlaceholders h v1 of
                        Inr j \<Rightarrow> Inr j
                      | Inl (MissingEnv _) \<Rightarrow> or_fail DecodeFailed v2
                      | Inl e \<Rightarrow> Inl e)
      in and_then resolved
           (\<lambda>j. case j of JNull \<Rightarrow> Inr Conf_zero | JObj kvs \<Rightarrow> decode_conf_keys h c kvs | _ \<Rightarrow> Inl DecodeFailed))"

definition LoadFromPath :: "host \<Rightarrow> Conf \<Rightarrow> string \<Rightarrow> load_error + Conf" where
  "LoadFromPath h p filePath =
     and_then (or_fail OpenInclude (h_ReadFile h filePath))
       (\<lambda>t. Conf_decode h p (h_json h (prep t)) (case h_json2 h (prep t) of Inl _ \<Rightarrow> None | Inr j \<Rightarrow> Some j))"

section \<open>Times of day\<close>

lemma decimal_two: "d < 10 \<Longrightarrow> e < 10 \<Longrightarrow> decimal_value [digit_char d, digit_char e] = 10 * d + e"
  by (simp add: decimal_value_def)

lemma digit_char_not_colon: "d < 10 \<Longrightarrow> digit_char d \<noteq> CHR '':''"
  using is_digit_digit_char [of d] by (auto simp: is_digit_def)

lemma parse_print_clock:
  assumes "a < 24" "b < 60"
  shows "parse_clock (print_clock (a, b)) = Some (a, b)"
proof -
  have d: "a div 10 < 10" "a mod 10 < 10" "b div 10 < 10" "b mod 10 < 10" using assms by auto
  let ?hh = "two_digits a" and ?mm = "two_digits b"
  have tw: "takeWhile (\<lambda>c. c \<noteq> CHR '':'') (print_clock (a, b)) = ?hh"
    using d by (simp add: print_clock_def two_digits_def digit_char_not_colon)
  have dr: "drop (length ?hh + 1) (print_clock (a, b)) = ?mm" by (simp add: print_clock_def two_digits_def)
  have v: "decimal_value ?hh = a" "decimal_value ?mm = b" using d by (simp_all add: two_digits_def decimal_two)
  have ad: "all_digits ?hh" "all_digits ?mm" using d by (simp_all add: two_digits_def all_digits_def)
  have len: "length ?hh = 2" "length ?mm = 2" "length (print_clock (a, b)) = 5"
    by (simp_all add: two_digits_def print_clock_def)
  show ?thesis unfolding parse_clock_def tw Let_def dr using v ad len assms by simp
qed

text \<open>
  A time of day is accepted exactly in the form HH:MM, and is then the number of its minutes, below a day.
\<close>

theorem parseRestartTime_exact:
  "parseRestartTime s = Some t \<longleftrightarrow> (\<exists>a b. a < 24 \<and> b < 60 \<and> s = print_clock (a, b) \<and> t = 60 * a + b)"
proof
  assume "parseRestartTime s = Some t"
  then obtain a b where ab: "parse_clock s = Some (a, b)" "print_clock (a, b) = s" "t = 60 * a + b"
    by (auto simp: parseRestartTime_def split: option.splits if_splits)
  from ab(1) have "a < 24" "b < 60" by (auto simp: parse_clock_def Let_def split: if_splits)
  with ab show "\<exists>a b. a < 24 \<and> b < 60 \<and> s = print_clock (a, b) \<and> t = 60 * a + b" by blast
next
  assume "\<exists>a b. a < 24 \<and> b < 60 \<and> s = print_clock (a, b) \<and> t = 60 * a + b"
  then show "parseRestartTime s = Some t" by (auto simp: parseRestartTime_def parse_print_clock)
qed

section \<open>The connection settings of a core\<close>

lemma decode_keys_field:
  assumes keep: "\<And>m f s j s'. (m, f) \<in> set fs \<Longrightarrow> m \<noteq> n \<Longrightarrow> f s j = Some s' \<Longrightarrow> g s' = g s"
    and none: "\<And>k j. (k, j) \<in> set kvs \<Longrightarrow> field_named (map fst fs) k \<noteq> Some n"
  shows "decode_keys fs s kvs = Some s' \<Longrightarrow> g s' = g s"
  using none
proof (induction kvs arbitrary: s)
  case (Cons kv kvs)
  obtain k j where kv: "kv = (k, j)" by (cases kv)
  show ?case
  proof (cases "Option.bind (field_named (map fst fs) k) (map_of fs)")
    case None
    with Cons.prems(1) kv have "decode_keys fs s kvs = Some s'" by simp
    then show ?thesis by (rule Cons.IH) (use Cons.prems(2) in auto)
  next
    case (Some f)
    then obtain m where m: "field_named (map fst fs) k = Some m" "(m, f) \<in> set fs"
      by (auto simp: bind_eq_Some_conv dest: map_of_SomeD)
    with Cons.prems(2) [of k j] kv have "m \<noteq> n" by auto
    obtain s1 where s1: "f s j = Some s1" "decode_keys fs s1 kvs = Some s'"
      using Cons.prems(1) Some kv by (auto split: option.splits)
    have "g s' = g s1" using Cons.IH [OF s1(2)] Cons.prems(2) by auto
    with keep [OF m(2) \<open>m \<noteq> n\<close> s1(1)] show ?thesis by simp
  qed
qed simp

lemma xray_fields_keep_connection:
  "(m, f) \<in> set XrayConfig_fields \<Longrightarrow> m \<noteq> ''ConnectionConfig'' \<Longrightarrow> f s j = Some s' \<Longrightarrow>
     xr_ConnectionConfig s' = xr_ConnectionConfig s"
  by (auto simp: XrayConfig_fields_def fld_def)

text \<open>
  A core that does not write \<^verbatim>\<open>ConnectionConfig\<close> runs with the built-in connection settings, whatever its
  \<^verbatim>\<open>XrayConnectionConfig\<close> says: the fallback to the older key only applies when the setting is nil, and the
  defaults are filled in before.
\<close>

theorem legacy_connection_ignored:
  assumes "CoreConfig_UnmarshalJSON CoreConfig_zero (JObj kvs) = Some c" "co_Type c = ''xray''"
    and "\<And>k j. (k, j) \<in> set kvs \<Longrightarrow> to_lower k \<noteq> to_lower ''ConnectionConfig''"
  shows "\<exists>x. co_XrayConfig c = Some x \<and> xr_ConnectionConfig x = xr_ConnectionConfig NewXrayConfig"
proof -
  obtain c1 x where x: "XrayConfig_UnmarshalJSON NewXrayConfig (JObj kvs) = Some x" "c = c1\<lparr>co_XrayConfig := Some x\<rparr>"
    using assms(1,2) by (auto simp: CoreConfig_UnmarshalJSON_def bind_eq_Some_conv split: if_splits) metis
  from x(1) obtain tmp where tmp: "decode_keys XrayConfig_fields NewXrayConfig kvs = Some tmp"
    and x_tmp: "x = (if xr_ConnectionConfig tmp = None \<and> xr_LegacyConnConfig tmp \<noteq> None
                then tmp\<lparr>xr_ConnectionConfig := xr_LegacyConnConfig tmp\<rparr> else tmp)"
    by (auto simp: XrayConfig_UnmarshalJSON_def into_struct_def split: option.splits)
  have none: "field_named (map fst XrayConfig_fields) k \<noteq> Some ''ConnectionConfig''" if "(k, j) \<in> set kvs" for k j
    using assms(3) [OF that] by (auto simp: field_named_def find_Some_iff split: if_splits)
  have "xr_ConnectionConfig tmp = xr_ConnectionConfig NewXrayConfig"
    by (rule decode_keys_field [OF _ _ tmp]) (use xray_fields_keep_connection none in blast)+
  with x x_tmp show ?thesis by (auto simp: NewXrayConfig_def)
qed

definition legacy_core :: "(string \<times> json) list" where
  "legacy_core = [(''Type'', JStr ''xray''), (''XrayConnectionConfig'', JObj [(''handshake'', JNum ''9'')])]"

theorem legacy_connection_ignored_witness:
  "\<exists>c x. CoreConfig_UnmarshalJSON CoreConfig_zero (JObj legacy_core) = Some c \<and> co_XrayConfig c = Some x
     \<and> xr_ConnectionConfig x = xr_ConnectionConfig NewXrayConfig
     \<and> map_option xc_Handshake (xr_LegacyConnConfig x) = Some 9"
proof -
  have "(case CoreConfig_UnmarshalJSON CoreConfig_zero (JObj legacy_core) of
           None \<Rightarrow> False
         | Some c \<Rightarrow> co_Type c = ''xray'' \<and>
             (case co_XrayConfig c of None \<Rightarrow> False | Some x \<Rightarrow> map_option xc_Handshake (xr_LegacyConnConfig x) = Some 9))"
    by code_simp
  then obtain c x where c: "CoreConfig_UnmarshalJSON CoreConfig_zero (JObj legacy_core) = Some c" "co_Type c = ''xray''"
    "co_XrayConfig c = Some x" "map_option xc_Handshake (xr_LegacyConnConfig x) = Some 9"
    by (auto split: option.splits)
  have "to_lower k \<noteq> to_lower ''ConnectionConfig''" if "(k, j) \<in> set legacy_core" for k j
    using that by (auto simp: legacy_core_def to_lower_def lower_char_def)
  from legacy_connection_ignored [OF c(1,2) this] c show ?thesis by auto
qed

end
