(* ===== verification/Conf_Validator.thy ===== *)
theory Conf_Validator
  imports Conf_Node
begin

text \<open>
  The validator of \<^verbatim>\<open>src/conf/validate.go\<close>: the issues it collects, how warnings are made of issues, how syntax
  errors are located, and how placeholders are resolved while every missing variable is reported.

  A message is kept as its format with the arguments; \<open>AErr\<close> stands for the text of an error of a library call.
  The order in which the program walks a Go map is the order of the list that models it.
\<close>

section \<open>Issues\<close>

datatype IssueKind = IssueConfig | IssueSyntax | IssueCert

datatype arg = AStr string | AInt int | AErr

datatype message = Msg string "arg list" | Noted message string | InFile string string message

record Issue =
  is_Path :: string
  is_Message :: message
  is_Kind :: IssueKind
  is_onReload :: "message option"

record validator =
  v_CoreTypes :: "string list"
  v_issues :: "Issue list"
  v_warnings :: "Issue list"
  v_envPaths :: "string list"
  v_nodeBodies :: "(string, (string \<times> json) list) gomap"

definition isCertPath :: "string \<Rightarrow> bool" where
  "isCertPath path \<longleftrightarrow> ''CertConfig'' \<in> set (split_on CHR ''.'' path)"

definition addKind :: "IssueKind \<Rightarrow> string \<Rightarrow> message \<Rightarrow> validator \<Rightarrow> validator" where
  "addKind kind path m v =
     (if path \<in> set (v_envPaths v) then v
      else v\<lparr>v_issues := v_issues v @ [\<lparr>is_Path = path, is_Message = m, is_Kind = kind, is_onReload = None\<rparr>]\<rparr>)"

definition add :: "string \<Rightarrow> message \<Rightarrow> validator \<Rightarrow> validator" where
  "add path m v = addKind (if isCertPath path then IssueCert else IssueConfig) path m v"

record ValidationError =
  ve_File :: string
  ve_Issues :: "Issue list"
  ve_Warnings :: "Issue list"

definition result :: "validator \<Rightarrow> string \<Rightarrow> ValidationError option" where
  "result v file =
     (if v_issues v = [] then None
      else Some \<lparr>ve_File = file, ve_Issues = v_issues v, ve_Warnings = v_warnings v\<rparr>)"

definition to_warning :: "string \<Rightarrow> string \<Rightarrow> Issue \<Rightarrow> Issue" where
  "to_warning onStart onReload issue =
     issue\<lparr>is_onReload := Some (Noted (is_Message issue) onReload), is_Message := Noted (is_Message issue) onStart\<rparr>"

definition asWarnings :: "string \<Rightarrow> string \<Rightarrow> (validator \<Rightarrow> validator) \<Rightarrow> validator \<Rightarrow> validator" where
  "asWarnings onStart onReload check v =
     (let before = length (v_issues v); v' = check v
      in v'\<lparr>v_warnings := v_warnings v' @ map (to_warning onStart onReload) (drop before (v_issues v')),
            v_issues := take before (v_issues v')\<rparr>)"

fun newWarnings :: "Issue list \<Rightarrow> Issue list \<Rightarrow> Issue list" where
  "newWarnings running [] = []"
| "newWarnings running (w # next) =
     (if list_ex (\<lambda>r. is_Path r = is_Path w) running then newWarnings running next
      else \<lparr>is_Path = is_Path w,
            is_Message = (case is_onReload w of None \<Rightarrow> is_Message w | Some m \<Rightarrow> m),
            is_Kind = is_Kind w, is_onReload = None\<rparr> # newWarnings running next)"

section \<open>Paths and positions\<close>

definition joinPath :: "string \<Rightarrow> string \<Rightarrow> string" where
  "joinPath path key = (if path = [] then key else if key = [] then path else path @ ''.'' @ key)"

definition indexPath :: "string \<Rightarrow> nat \<Rightarrow> string" where
  "indexPath path i = path @ ''['' @ itoa (int i) @ '']''"

definition pointerPath :: "string list \<Rightarrow> string" where
  "pointerPath tokens =
     foldl (\<lambda>path token. case atoi token of
              Some i \<Rightarrow> if 0 \<le> i then indexPath path (nat i) else joinPath path token
            | None \<Rightarrow> joinPath path token) [] tokens"

definition lineColumn :: "string \<Rightarrow> nat \<Rightarrow> nat \<times> nat" where
  "lineColumn raw off =
     (let before = take off raw
      in (length (filter (\<lambda>c. c = CHR 0x0A) before) + 1,
          length (takeWhile (\<lambda>c. c \<noteq> CHR 0x0A) (rev before)) + 1))"

definition addSyntaxError :: "string \<Rightarrow> string \<Rightarrow> json_error \<Rightarrow> validator \<Rightarrow> validator" where
  "addSyntaxError path raw err v =
     (case err of
        OtherJson \<Rightarrow> addKind IssueSyntax path (Msg ''invalid JSON: %v'' [AErr]) v
      | Syntactic off tokens dup \<Rightarrow>
          let (line, column) = lineColumn raw off; loc = joinPath path (pointerPath tokens) in
          if dup then addKind IssueSyntax loc (Msg ''duplicate key (line %d, column %d); remove one of them''
                        [AInt (int line), AInt (int column)]) v
          else addKind IssueSyntax loc (Msg ''invalid JSON at line %d, column %d: %v''
                 [AInt (int line), AInt (int column), AErr]) v)"

definition parseJSON5 :: "host \<Rightarrow> string \<Rightarrow> string \<Rightarrow> validator \<Rightarrow> json option \<times> validator" where
  "parseJSON5 h path raw v =
     (case h_json2 h (prep raw) of
        Inl err \<Rightarrow> (None, addSyntaxError path raw err v)
      | Inr tree \<Rightarrow> (Some tree, v))"

section \<open>Placeholders\<close>

fun resolveEnvValue :: "host \<Rightarrow> string \<Rightarrow> json \<Rightarrow> bool \<Rightarrow> validator \<Rightarrow> json \<times> validator"
  and resolve_entries :: "host \<Rightarrow> string \<Rightarrow> (string \<times> json) list \<Rightarrow> bool \<Rightarrow> validator \<Rightarrow> (string \<times> json) list \<times> validator"
  and resolve_elems :: "host \<Rightarrow> string \<Rightarrow> nat \<Rightarrow> json list \<Rightarrow> bool \<Rightarrow> validator \<Rightarrow> json list \<times> validator" where
  "resolveEnvValue h path (JObj kvs) c v = (let (r, v') = resolve_entries h path kvs c v in (JObj r, v'))"
| "resolveEnvValue h path (JArr js) c v = (let (r, v') = resolve_elems h path 0 js c v in (JArr r, v'))"
| "resolveEnvValue h path (JStr s) c v =
     (case substEnvString (h_LookupEnv h) s of
        Inr r \<Rightarrow> (JStr r, v)
      | Inl _ \<Rightarrow>
          (JStr [],
           if c then v
           else let v1 = add path (Msg ''environment variable is not set: %v (set it, or give a default like ${VAR:-value})'' [AErr]) v
                in v1\<lparr>v_envPaths := path # v_envPaths v1\<rparr>))"
| "resolveEnvValue h path JNull c v = (JNull, v)"
| "resolveEnvValue h path (JBool b) c v = (JBool b, v)"
| "resolveEnvValue h path (JNum n) c v = (JNum n, v)"
| "resolve_entries h path [] c v = ([], v)"
| "resolve_entries h path ((k, j) # kvs) c v =
     (let (j', v1) = resolveEnvValue h (joinPath path k) j (c \<or> has_prefix k ''_'') v;
          (r, v2) = resolve_entries h path kvs c v1 in ((k, j') # r, v2))"
| "resolve_elems h path i [] c v = ([], v)"
| "resolve_elems h path i (j # js) c v =
     (let (j', v1) = resolveEnvValue h (indexPath path i) j c v;
          (r, v2) = resolve_elems h path (i + 1) js c v1 in (j' # r, v2))"

definition resolveEnv :: "host \<Rightarrow> string \<Rightarrow> json \<Rightarrow> validator \<Rightarrow> json \<times> validator" where
  "resolveEnv h path tree v = resolveEnvValue h path tree False v"

text \<open>
  Where the decoder fails: the error as \<^verbatim>\<open>json/v2\<close> reports it, with its pointer when it is a semantic error, and
  whether that error wraps another.
\<close>

datatype decode_error = NotSemantic | Semantic "string list" bool

definition addDecodeError :: "decode_error \<Rightarrow> validator \<Rightarrow> validator" where
  "addDecodeError e v =
     (case e of
        NotSemantic \<Rightarrow> add [] (Msg ''cannot decode config: %v'' [AErr]) v
      | Semantic tokens w \<Rightarrow> add (pointerPath tokens) (Msg ''wrong value type: %v'' [AErr]) v)"

section \<open>Checks report by appending\<close>

text \<open>
  What every check of the validator promises: it only appends issues, never forgets a path whose value is
  unknown, and a path is only unknown when its missing variable was reported.
\<close>

definition env_reported :: "validator \<Rightarrow> bool" where
  "env_reported v \<longleftrightarrow> (v_envPaths v \<noteq> [] \<longrightarrow> v_issues v \<noteq> [])"

locale reporter =
  fixes check :: "validator \<Rightarrow> validator"
  assumes appends: "\<exists>xs. v_issues (check v) = v_issues v @ xs"
    and core_types: "v_CoreTypes (check v) = v_CoreTypes v"
    and reported: "env_reported v \<Longrightarrow> env_reported (check v)"
begin

lemma clean_before: "v_issues (check v) = [] \<Longrightarrow> v_issues v = []"
  using appends [of v] by auto

lemma not_lost: "i \<in> set (v_issues v) \<Longrightarrow> i \<in> set (v_issues (check v))"
  using appends [of v] by auto

end

lemma reporter_id: "reporter (\<lambda>v. v)"
  by unfold_locales auto

lemma reporter_comp: "reporter f \<Longrightarrow> reporter g \<Longrightarrow> reporter (\<lambda>v. g (f v))"
  unfolding reporter_def by (metis append.assoc)

interpretation addKind: reporter "addKind kind path m" for kind path m
  by unfold_locales (auto simp: addKind_def env_reported_def)

interpretation add: reporter "add path m" for path m
  unfolding add_def by (rule addKind.reporter_axioms)

interpretation addSyntaxError: reporter "addSyntaxError path raw err" for path raw err
  unfolding addSyntaxError_def
  by (cases err; cases "duplicate err") (simp_all add: split_beta Let_def addKind.reporter_axioms)

interpretation addDecodeError: reporter "addDecodeError e" for e
  unfolding addDecodeError_def by (cases e) (simp_all add: add.reporter_axioms)

interpretation parseJSON5: reporter "\<lambda>v. snd (parseJSON5 h path raw v)" for h path raw
  unfolding parseJSON5_def
  by (cases "h_json2 h (prep raw)") (simp_all add: addSyntaxError.reporter_axioms reporter_id)

end
