(* ===== verification/Conf_Rules.thy ===== *)
theory Conf_Rules
  imports Conf_Validator Porthop Panel_Quic "HOL-Library.List_Lexorder"
begin

text \<open>
  The rules a decoded configuration is checked against: \<^verbatim>\<open>src/conf/validate_rules.go\<close>, \<^verbatim>\<open>validate_nodes.go\<close> and the
  rule of \<^verbatim>\<open>scheduled_restart.go\<close>. A check is a function on the validator; \<open>steps\<close> runs several in order.
\<close>

fun steps :: "('a \<Rightarrow> 'a) list \<Rightarrow> 'a \<Rightarrow> 'a" where
  "steps [] v = v"
| "steps (f # fs) v = steps fs (f v)"

definition report :: "bool \<Rightarrow> string \<Rightarrow> message \<Rightarrow> validator \<Rightarrow> validator" where
  "report b path m v = (if b then add path m v else v)"

definition each :: "'a list \<Rightarrow> (nat \<Rightarrow> 'a \<Rightarrow> validator \<Rightarrow> validator) \<Rightarrow> validator \<Rightarrow> validator" where
  "each xs f = steps (map (\<lambda>(i, x). f i x) (enumerate 0 xs))"

section \<open>Tables\<close>

definition logLevels :: "string list" where "logLevels = [''debug'', ''info'', ''warn'', ''error'']"
definition coreTypes :: "string list" where "coreTypes = [''xray'', ''sing'']"
definition xrayLogLevels :: "string list" where "xrayLogLevels = [''debug'', ''info'', ''warning'', ''error'', ''none'']"
definition singLogLevels :: "string list" where
  "singLogLevels = [''trace'', ''debug'', ''info'', ''warn'', ''warning'', ''error'', ''fatal'', ''panic'']"
definition panelNodeTypes :: "string list" where
  "panelNodeTypes =
     [''v2ray'', ''anytls'', ''artx'', ''vmess'', ''trojan'', ''shadowsocks'', ''vless'', ''hysteria'', ''hysteria2'', ''tuic'',
      ''shadowtls'', ''naive'']"
definition xrayDNSTypes :: "string list" where
  "xrayDNSTypes =
     [''asis'', ''useip'', ''useipv4'', ''useipv6'', ''useipv4v6'', ''useipv6v4'', ''forceip'', ''forceipv4'', ''forceipv6'',
      ''forceipv4v6'', ''forceipv6v4'']"
definition singDomainStrategies :: "string list" where
  "singDomainStrategies = [''as_is'', ''prefer_ipv4'', ''prefer_ipv6'', ''ipv4_only'', ''ipv6_only'']"
definition wildcardSNIModes :: "string list" where "wildcardSNIModes = [''off'', ''authed'', ''all'']"
definition naiveNetworks :: "string list" where "naiveNetworks = [''tcp'', ''udp'']"
definition tuicCongestion :: "string list" where "tuicCongestion = [''cubic'', ''new_reno'', ''bbr'']"
definition masqueradeSchemes :: "string list" where "masqueradeSchemes = [''http'', ''https'', ''file'']"
definition certModes :: "string list" where "certModes = [''none'', ''file'', ''self'', ''http'', ''dns'']"
definition httpSchemes :: "string list" where "httpSchemes = [''http'', ''https'']"
definition wsSchemes :: "string list" where "wsSchemes = [''ws'', ''wss'']"

definition maxProxyProtocolVersion :: int where "maxProxyProtocolVersion = 2"
definition maxShadowTLSVersion :: int where "maxShadowTLSVersion = 3"
definition maxArtXSharePercent :: int where "maxArtXSharePercent = 100"
definition maxArtXReservePercent :: int where "maxArtXReservePercent = 99"
definition maxPort :: int where "maxPort = 65535"

text \<open>\<^verbatim>\<open>strconv.Quote\<close> of a name from these tables, which holds no byte that needs an escape.\<close>

definition quoteList :: "string list \<Rightarrow> string" where
  "quoteList vs = join_with '', '' (map (\<lambda>s. CHR 0x22 # s @ [CHR 0x22]) vs)"

section \<open>Single values\<close>

definition nonNegative :: "string \<Rightarrow> int \<Rightarrow> validator \<Rightarrow> validator" where
  "nonNegative path value = report (value < 0) path (Msg ''must not be negative, got %d'' [AInt value])"

definition oneOf :: "string \<Rightarrow> string \<Rightarrow> string \<Rightarrow> string list \<Rightarrow> validator \<Rightarrow> validator" where
  "oneOf path what value allowed =
     (let normalized = to_lower (trim_space value) in
      report (normalized \<noteq> [] \<and> normalized \<notin> set allowed) path
        (Msg ''unsupported %s %q (use %s)'' [AStr what, AStr value, AStr (quoteList allowed)]))"

definition checkURL :: "host \<Rightarrow> string \<Rightarrow> string \<Rightarrow> string list \<Rightarrow> validator \<Rightarrow> validator" where
  "checkURL h path value schemes =
     report (case h_url h value of None \<Rightarrow> True | Some u \<Rightarrow> u_Scheme u \<notin> set schemes \<or> u_Host u = [])
       path (Msg ''must be a %s URL with a host, got %q''
               [AStr (join_with '' or '' (map (\<lambda>s. s @ ''://'') schemes)), AStr value])"

definition checkIP :: "string \<Rightarrow> string \<Rightarrow> validator \<Rightarrow> validator" where
  "checkIP path value =
     (if value = [] then (\<lambda>v. v)
      else report (parse_addr value = None) path
             (Msg ''%q is not a valid IP address (no port or brackets)'' [AStr value]))"

definition checkDuration :: "string \<Rightarrow> string \<Rightarrow> validator \<Rightarrow> validator" where
  "checkDuration path value =
     (if value = [] then (\<lambda>v. v)
      else case ParseDuration value of
             None \<Rightarrow> add path (Msg ''%q is not a duration like \"10s\" or \"1m\"'' [AStr value])
           | Some d \<Rightarrow> report (d < 0) path (Msg ''must not be negative, got %s'' [AStr value]))"

definition checkPort :: "string \<Rightarrow> string \<Rightarrow> validator \<Rightarrow> validator" where
  "checkPort path value =
     (if value = [] then (\<lambda>v. v)
      else report (case atoi value of None \<Rightarrow> True | Some port \<Rightarrow> port < 1 \<or> maxPort < port) path
             (Msg ''%q is not a port between 1 and %d'' [AStr value, AInt maxPort]))"

definition checkMasquerade :: "host \<Rightarrow> string \<Rightarrow> string \<Rightarrow> validator \<Rightarrow> validator" where
  "checkMasquerade h path value0 =
     (let value = trim_space value0 in
      if value = [] \<or> value = decoy_Selector then (\<lambda>v. v)
      else let parsed = h_url h value in
        if (case parsed of None \<Rightarrow> True | Some u \<Rightarrow> u_Scheme u \<notin> set masqueradeSchemes) then
          let scheme = (case parsed of None \<Rightarrow> value | Some u \<Rightarrow> if u_Scheme u \<noteq> [] then u_Scheme u else value) in
          add path (Msg ''unsupported masquerade %q (use an http://, https:// or file:// URL, or %s)''
                      [AStr scheme, AStr decoy_Selector])
        else report (case parsed of None \<Rightarrow> False | Some u \<Rightarrow> u_Scheme u \<noteq> ''file'' \<and> u_Host u = []) path
               (Msg ''masquerade URL %q has no host'' [AStr value]))"

definition checkPortHopping :: "string \<Rightarrow> string list \<Rightarrow> validator \<Rightarrow> validator" where
  "checkPortHopping path ranges =
     (if ranges = [] then (\<lambda>v. v)
      else case ParseRanges ranges of Inl _ \<Rightarrow> add path (Msg ''%v'' [AErr]) | Inr _ \<Rightarrow> (\<lambda>v. v))"

definition checkParentDir :: "host \<Rightarrow> string \<Rightarrow> string \<Rightarrow> validator \<Rightarrow> validator" where
  "checkParentDir h path file =
     (if file = [] then (\<lambda>v. v)
      else let dir = filepath_Dir file in
        report (h_IsDir h dir \<noteq> Some True) path (Msg ''directory %s does not exist'' [AStr dir]))"

text \<open>The issues of a file xray reads itself are told at the key that names the file.\<close>

definition in_file :: "string \<Rightarrow> string \<Rightarrow> Issue \<Rightarrow> Issue" where
  "in_file path file i = \<lparr>is_Path = path, is_Message = InFile file (is_Path i) (is_Message i), is_Kind = is_Kind i,
     is_onReload = None\<rparr>"

definition checkJSONFile :: "host \<Rightarrow> string \<Rightarrow> string \<Rightarrow> bool \<Rightarrow> validator \<Rightarrow> validator" where
  "checkJSONFile h path file wantArray v =
     (if file = [] then v
      else case h_ReadFile h file of
             None \<Rightarrow> add path (Msg ''cannot read %s: %v'' [AStr file, AErr]) v
           | Some raw \<Rightarrow>
               (case h_json2 h raw of
                  Inl err \<Rightarrow>
                    let before = length (v_issues v); v' = addSyntaxError [] raw err v
                    in v'\<lparr>v_issues := take before (v_issues v') @ map (in_file path file) (drop before (v_issues v'))\<rparr>
                | Inr tree \<Rightarrow>
                    let isArray = (case tree of JArr _ \<Rightarrow> True | _ \<Rightarrow> False);
                        isObject = (case tree of JObj _ \<Rightarrow> True | _ \<Rightarrow> False) in
                    if wantArray \<and> \<not> isArray then add path (Msg ''%s must contain a JSON array'' [AStr file]) v
                    else if \<not> wantArray \<and> \<not> isObject then add path (Msg ''%s must contain a JSON object'' [AStr file]) v
                    else v))"

section \<open>Blocks\<close>

definition checkMemory :: "MemoryConfig \<Rightarrow> validator \<Rightarrow> validator" where
  "checkMemory m = steps
     [report (mc_RestartPercent m < 0 \<or> 99 < mc_RestartPercent m) ''Memory.RestartPercent''
        (Msg ''must be 0 (disabled) or 1..99'' []),
      if mc_SoftLimitPercent m < 0 \<or> 99 < mc_SoftLimitPercent m then
        add ''Memory.SoftLimitPercent'' (Msg ''must be 0 (disabled) or 1..99'' [])
      else report (0 < mc_RestartPercent m \<and> mc_RestartPercent m \<le> mc_SoftLimitPercent m) ''Memory.SoftLimitPercent''
             (Msg ''must be below RestartPercent so garbage collection has memory headroom'' [])]"

definition checkLog :: "host \<Rightarrow> LogConfig \<Rightarrow> validator \<Rightarrow> validator" where
  "checkLog h l = steps
     [report (lg_Level l \<noteq> [] \<and> lg_Level l \<notin> set logLevels) ''Log.Level''
        (Msg ''unsupported level %q (use %s)'' [AStr (lg_Level l), AStr (quoteList logLevels)]),
      checkParentDir h ''Log.Output'' (lg_Output l)]"

definition checkScheduledRestart :: "host \<Rightarrow> ScheduledRestartConfig \<Rightarrow> validator \<Rightarrow> validator" where
  "checkScheduledRestart h c =
     (let start = parseRestartTime (sr_StartTime c); fin = parseRestartTime (sr_EndTime c) in steps
     [report (sr_IntervalDays c < 1 \<or> 3650 < sr_IntervalDays c) ''ScheduledRestart.IntervalDays''
        (Msg ''must be between 1 and 3650 days'' []),
      report (start = None) ''ScheduledRestart.StartTime'' (Msg ''%v'' [AErr]),
      report (fin = None) ''ScheduledRestart.EndTime'' (Msg ''%v'' [AErr]),
      report (case (start, fin) of (Some s, Some e) \<Rightarrow> e \<le> s | _ \<Rightarrow> False) ''ScheduledRestart.EndTime''
        (Msg ''must be later than StartTime within the same day'' []),
      report (\<not> Location h c) ''ScheduledRestart.Timezone'' (Msg ''unknown timezone %q'' [AStr (sr_Timezone c)])])"

definition checkCoreType :: "string \<Rightarrow> string \<Rightarrow> validator \<Rightarrow> validator" where
  "checkCoreType path coreType v =
     (if coreType \<notin> set coreTypes then
        if to_lower coreType \<in> set coreTypes then
          add path (Msg ''core type must be lowercase %q'' [AStr (to_lower coreType)]) v
        else add path (Msg ''unsupported core type %q (use %s)'' [AStr coreType, AStr (quoteList coreTypes)]) v
      else report (v_CoreTypes v \<noteq> [] \<and> coreType \<notin> set (v_CoreTypes v)) path
             (Msg ''core type %q is not built into this binary (available: %s)''
                [AStr coreType, AStr (quoteList (v_CoreTypes v))]) v)"

definition checkXrayCore :: "host \<Rightarrow> string \<Rightarrow> XrayConfig \<Rightarrow> validator \<Rightarrow> validator" where
  "checkXrayCore h path x = steps
     [case xr_LogConfig x of
        None \<Rightarrow> (\<lambda>v. v)
      | Some l \<Rightarrow> steps
          [report (xl_Level l \<noteq> [] \<and> to_lower (xl_Level l) \<notin> set xrayLogLevels) (path @ ''.Log.Level'')
             (Msg ''unsupported xray log level %q (use %s)'' [AStr (xl_Level l), AStr (quoteList xrayLogLevels)]),
           if xl_AccessPath l \<noteq> ''none'' then checkParentDir h (path @ ''.Log.AccessPath'') (xl_AccessPath l) else (\<lambda>v. v),
           if xl_ErrorPath l \<noteq> ''none'' then checkParentDir h (path @ ''.Log.ErrorPath'') (xl_ErrorPath l) else (\<lambda>v. v)],
      asWarnings ''ignored: xray runs with its default DNS settings''
        ''reload rejected: xray keeps its current DNS settings''
        (checkJSONFile h (path @ ''.DnsConfigPath'') (xr_DnsConfigPath x) False),
      checkJSONFile h (path @ ''.RouteConfigPath'') (xr_RouteConfigPath x) False,
      checkJSONFile h (path @ ''.InboundConfigPath'') (xr_InboundConfigPath x) True,
      checkJSONFile h (path @ ''.OutboundConfigPath'') (xr_OutboundConfigPath x) True]"

definition checkSingCore :: "host \<Rightarrow> string \<Rightarrow> SingConfig \<Rightarrow> validator \<Rightarrow> validator" where
  "checkSingCore h path s = steps
     [report (sl_Level (sc_LogConfig s) \<noteq> [] \<and> sl_Level (sc_LogConfig s) \<notin> set singLogLevels) (path @ ''.Log.Level'')
        (Msg ''unsupported sing-box log level %q (use %s)'' [AStr (sl_Level (sc_LogConfig s)), AStr (quoteList singLogLevels)]),
      checkParentDir h (path @ ''.Log.Output'') (sl_Output (sc_LogConfig s)),
      report (sn_Enable (sc_NtpConfig s) \<and> trim_space (sn_Server (sc_NtpConfig s)) = []) (path @ ''.NTP.Server'')
        (Msg ''required when NTP is enabled'' []),
      report (sc_OriginalPath s \<noteq> [] \<and> h_ReadFile h (sc_OriginalPath s) = None) (path @ ''.OriginalPath'')
        (Msg ''cannot read %s: %v'' [AStr (sc_OriginalPath s), AErr])]"

definition core_name :: "CoreConfig \<Rightarrow> string" where
  "core_name c = (if co_Name c = [] then co_Type c else co_Name c)"

text \<open>The loop of \<^verbatim>\<open>checkCores\<close>: \<open>seen\<close> gives the first core with a name, \<open>names\<close> its type.\<close>

fun cores_loop :: "host \<Rightarrow> nat \<Rightarrow> CoreConfig list \<Rightarrow> (string, nat) gomap \<Rightarrow> (string, string) gomap \<Rightarrow> validator
    \<Rightarrow> (string, string) gomap \<times> validator" where
  "cores_loop h i [] seen names v = (names, v)"
| "cores_loop h i (core # cores) seen names v =
     (let path = indexPath ''Cores'' i;
          v1 = checkCoreType (path @ ''.Type'') (co_Type core) v;
          name = core_name core;
          (seen', names', v2) =
            (case map_of seen name of
               Some first \<Rightarrow> (seen, names,
                 add path (Msg ''duplicate core name %q (same as Cores[%d]); give each core a distinct Name''
                             [AStr name, AInt (int first)]) v1)
             | None \<Rightarrow> (AList.update name i seen, AList.update name (co_Type core) names, v1));
          v3 = (case co_XrayConfig core of
                  Some x \<Rightarrow> checkXrayCore h path x v2
                | None \<Rightarrow> (case co_SingConfig core of Some s \<Rightarrow> checkSingCore h path s v2 | None \<Rightarrow> v2))
      in cores_loop h (i + 1) cores seen' names' v3)"

definition checkCores :: "host \<Rightarrow> CoreConfig list \<Rightarrow> validator \<Rightarrow> (string, string) gomap \<times> validator" where
  "checkCores h cores v =
     (if cores = [] then ([], add ''Cores'' (Msg ''at least one core is required'' []) v)
      else cores_loop h 0 cores [] [] v)"

section \<open>Nodes\<close>

text \<open>\<^verbatim>\<open>lookupKey\<close>, \<^verbatim>\<open>stringKey\<close>: a key as \<^verbatim>\<open>encoding/json\<close> finds it, exactly or else in any case, in sorted order.\<close>

definition sortedKeys :: "(string \<times> json) list \<Rightarrow> string list" where
  "sortedKeys object = sort (map fst object)"

definition lookupKey :: "(string \<times> json) list \<Rightarrow> string \<Rightarrow> json option" where
  "lookupKey object key =
     (case map_of object key of
        Some value \<Rightarrow> Some value
      | None \<Rightarrow>
          (case find (\<lambda>c. to_lower c = to_lower key) (sortedKeys object) of
             None \<Rightarrow> None | Some c \<Rightarrow> map_of object c))"

definition stringKey :: "(string \<times> json) list \<Rightarrow> string \<Rightarrow> string" where
  "stringKey object key = (case lookupKey object key of Some (JStr s) \<Rightarrow> s | _ \<Rightarrow> [])"

definition nodePaths :: "string \<Rightarrow> validator \<Rightarrow> string \<times> string" where
  "nodePaths base v =
     (let body = mget [] (v_nodeBodies v) base
      in (if lookupKey body ''ApiConfig'' \<noteq> None then base @ ''.ApiConfig'' else base,
          if lookupKey body ''Options'' \<noteq> None then base @ ''.Options'' else base))"

definition checkAPI :: "host \<Rightarrow> string \<Rightarrow> ApiConfig \<Rightarrow> validator \<Rightarrow> validator" where
  "checkAPI h path a =
     (let nodeType = to_lower (ap_NodeType a) in steps
     [checkURL h (path @ ''.ApiHost'') (ap_APIHost a) httpSchemes,
      report (trim_space (ap_Key a) = []) (path @ ''.ApiKey'') (Msg ''required'' []),
      report (ap_NodeID a \<le> 0) (path @ ''.NodeID'') (Msg ''must be a positive integer, got %d'' [AInt (ap_NodeID a)]),
      if nodeType = [] then add (path @ ''.NodeType'') (Msg ''required (use %s)'' [AStr (quoteList panelNodeTypes)])
      else report (nodeType \<notin> set panelNodeTypes) (path @ ''.NodeType'')
             (Msg ''unsupported node type %q (use %s)'' [AStr (ap_NodeType a), AStr (quoteList panelNodeTypes)]),
      nonNegative (path @ ''.Timeout'') (ap_Timeout a),
      checkIP (path @ ''.ApiSendIP'') (ap_APISendIP a),
      if wsc_URL (ap_WebSocket a) \<noteq> [] then checkURL h (path @ ''.WebSocket.URL'') (wsc_URL (ap_WebSocket a)) wsSchemes
      else (\<lambda>v. v)])"

definition nodeIdentity :: "ApiConfig \<Rightarrow> string" where
  "nodeIdentity a =
     (let t = to_lower (ap_NodeType a); nodeType = (if t = ''v2ray'' then ''vmess'' else t);
          host = trim_right_char (trim_space (ap_APIHost a)) CHR ''/''
      in host @ ''|'' @ itoa (ap_NodeID a) @ ''|'' @ nodeType)"

definition coreTypeConfigured :: "(string, string) gomap \<Rightarrow> string \<Rightarrow> bool" where
  "coreTypeConfigured cores coreType \<longleftrightarrow> list_ex (\<lambda>(_, configured). configured = coreType) cores"

text \<open>The core an options block asks for; one that is not a core's name is read back from the undecoded block.\<close>

definition written_core :: "Options \<Rightarrow> string" where
  "written_core op =
     (if op_Core op = [] then
        (case op_RawOptions op of
           None \<Rightarrow> []
         | Some raw \<Rightarrow>
             (case into_struct [(''Core'', (\<lambda>s j. into_string s j))] [] raw of None \<Rightarrow> [] | Some c \<Rightarrow> c))
      else op_Core op)"

definition checkCoreSelection :: "string \<Rightarrow> Options \<Rightarrow> (string, string) gomap \<Rightarrow> validator \<Rightarrow> validator" where
  "checkCoreSelection path op cores =
     (let core = written_core op in steps
     [if core = [] then (\<lambda>v. v)
      else if core \<notin> set coreTypes then
        if to_lower core \<in> set coreTypes then add (path @ ''.Core'') (Msg ''core must be lowercase %q'' [AStr (to_lower core)])
        else add (path @ ''.Core'') (Msg ''unsupported core %q (use %s, or leave it empty)'' [AStr core, AStr (quoteList coreTypes)])
      else report (\<not> coreTypeConfigured cores core) (path @ ''.Core'') (Msg ''no %q core is configured in Cores'' [AStr core]),
      if op_CoreName op = [] then (\<lambda>v. v)
      else case map_of cores (op_CoreName op) of
             None \<Rightarrow> add (path @ ''.CoreName'')
               (Msg ''no core named %q in Cores (a core's name is its Name, or its Type when Name is empty)'' [AStr (op_CoreName op)])
           | Some coreType \<Rightarrow> report (core \<noteq> [] \<and> coreType \<noteq> core) (path @ ''.CoreName'')
               (Msg ''core %q is a %s core but Core is %q'' [AStr (op_CoreName op), AStr coreType, AStr core])])"

definition checkLimit :: "string \<Rightarrow> LimitConfig \<Rightarrow> validator \<Rightarrow> validator" where
  "checkLimit path l = steps
     [nonNegative (path @ ''.SpeedLimit'') (lc_SpeedLimit l),
      nonNegative (path @ ''.DeviceLimit'') (lc_IPLimit l),
      nonNegative (path @ ''.ConnLimit'') (lc_ConnLimit l),
      case lc_DynamicSpeedLimitConfig l of
        None \<Rightarrow> report (lc_EnableDynamicSpeedLimit l) (path @ ''.DynamicSpeedLimitConfig'')
                  (Msg ''required when EnableDynamicSpeedLimit is true'' [])
      | Some d \<Rightarrow> steps
          [nonNegative (path @ ''.DynamicSpeedLimitConfig.Periodic'') (dyn_Periodic d),
           nonNegative (path @ ''.DynamicSpeedLimitConfig.Traffic'') (dyn_Traffic d),
           nonNegative (path @ ''.DynamicSpeedLimitConfig.SpeedLimit'') (dyn_SpeedLimit d),
           nonNegative (path @ ''.DynamicSpeedLimitConfig.ExpireTime'') (dyn_ExpireTime d)]]"

definition checkXrayOptions :: "string \<Rightarrow> XrayOptions \<Rightarrow> validator \<Rightarrow> validator" where
  "checkXrayOptions path x = steps
     [oneOf (path @ ''.DNSType'') ''DNSType'' (xo_DNSType x) xrayDNSTypes,
      each (xo_FallBackConfigs x) (\<lambda>i f. let p = indexPath (path @ ''.FallBackConfigs'') i in steps
        [report (trim_space (fx_Dest f) = []) (p @ ''.Dest'') (Msg ''required'' []),
         report (maxProxyProtocolVersion < fx_ProxyProtocolVer f) (p @ ''.ProxyProtocolVer'')
           (Msg ''must be 0, 1 or 2, got %d'' [AInt (fx_ProxyProtocolVer f)])])]"

definition checkSingOptions :: "host \<Rightarrow> string \<Rightarrow> SingOptions \<Rightarrow> validator \<Rightarrow> validator" where
  "checkSingOptions h path s = steps
     [oneOf (path @ ''.DomainStrategy'') ''DomainStrategy'' (sg_DomainStrategy s) singDomainStrategies,
      case sg_FallBackConfigs s of
        None \<Rightarrow> (\<lambda>v. v)
      | Some f \<Rightarrow> steps
          [checkPort (path @ ''.FallBackConfigs.FallBack.ServerPort'') (fs_ServerPort (fg_FallBack f)),
           each (sort (map fst (fg_FallBackForALPN f))) (\<lambda>_ alpn.
             checkPort (path @ ''.FallBackConfigs.FallBackForALPN.'' @ alpn @ ''.ServerPort'')
               (fs_ServerPort (mget \<lparr>fs_Server = [], fs_ServerPort = []\<rparr> (fg_FallBackForALPN f) alpn)))],
      case sg_Multiplex s of
        None \<Rightarrow> (\<lambda>v. v)
      | Some m \<Rightarrow> steps
          [nonNegative (path @ ''.MultiplexConfig.Brutal.UpMbps'') (br_UpMbps (mx_Brutal m)),
           nonNegative (path @ ''.MultiplexConfig.Brutal.DownMbps'') (br_DownMbps (mx_Brutal m))],
      case sg_ShadowTLSOptions s of
        None \<Rightarrow> (\<lambda>v. v)
      | Some t \<Rightarrow> steps
          [report (so_Version t < 0 \<or> maxShadowTLSVersion < so_Version t) (path @ ''.ShadowTLSOptions.Version'')
             (Msg ''must be 1, 2 or 3 (0 keeps the panel's value), got %d'' [AInt (so_Version t)]),
           oneOf (path @ ''.ShadowTLSOptions.WildcardSNI'') ''WildcardSNI'' (so_WildcardSNI t) wildcardSNIModes],
      case sg_NaiveOptions s of
        None \<Rightarrow> (\<lambda>v. v)
      | Some n \<Rightarrow> oneOf (path @ ''.NaiveOptions.Network'') ''network'' (no_Network n) naiveNetworks,
      case sg_HysteriaOptions s of
        None \<Rightarrow> (\<lambda>v. v)
      | Some y \<Rightarrow> steps
          [checkPortHopping (path @ ''.HysteriaOptions.PortHopping'') (ho_PortHopping y),
           checkMasquerade h (path @ ''.HysteriaOptions.Masquerade'') (ho_Masquerade y),
           nonNegative (path @ ''.HysteriaOptions.MaxConnClient'') (ho_MaxConnClient y)],
      case sg_TuicOptions s of
        None \<Rightarrow> (\<lambda>v. v)
      | Some t \<Rightarrow> steps
          [checkDuration (path @ ''.TuicOptions.AuthTimeout'') (to_AuthTimeout t),
           checkDuration (path @ ''.TuicOptions.Heartbeat'') (to_Heartbeat t),
           oneOf (path @ ''.TuicOptions.CongestionControl'') ''congestion control'' (to_CongestionControl t) tuicCongestion]]"

definition checkCert :: "host \<Rightarrow> string \<Rightarrow> CertConfig option \<Rightarrow> validator \<Rightarrow> validator" where
  "checkCert h path co =
     (case co of None \<Rightarrow> (\<lambda>v. v) | Some c \<Rightarrow>
      if CertMode c = [] then (\<lambda>v. v)
      else if CertMode c \<notin> set certModes then
        let lower = to_lower (trim_space (CertMode c)) in
        if lower \<in> set certModes then add path (Msg ''CertMode %q must be lowercase %q'' [AStr (CertMode c), AStr lower])
        else add path (Msg ''unsupported CertMode %q (use %s)'' [AStr (CertMode c), AStr (quoteList certModes)])
      else if CertMode c = ''none'' then (\<lambda>v. v)
      else if contains (CertFile c) ''{domain}'' \<or> contains (KeyFile c) ''{domain}'' then
        add path (Msg ''CertFile or KeyFile uses {domain} but CertDomain is empty'' [])
      else if CertMode c = ''file'' \<or> CertMode c = ''self'' then
        if CertFile c = [] \<or> KeyFile c = [] then
          add path (Msg ''CertFile and KeyFile are required in %s mode'' [AStr (CertMode c)])
        else if CertMode c = ''self'' then (\<lambda>v. v)
        else each [CertFile c, KeyFile c] (\<lambda>_ file.
               report (h_IsDir h file \<noteq> Some False) path
                 (Msg ''certificate file not found: %s (file mode only reads existing files)'' [AStr file]))
      else report (ValidateACMECertConfig filepath_Clean (h_mail h) c \<noteq> None) path (Msg ''%v'' [AErr]))"

text \<open>
  \<^verbatim>\<open>decodeUnpinnedOptions\<close>: the options of a node without a core, read for every core that may serve it. An error
  is told only when no reading is left.
\<close>

definition serving_type :: "Options \<Rightarrow> (string, string) gomap \<Rightarrow> string \<Rightarrow> bool" where
  "serving_type op cores t =
     (case (if op_CoreName op = [] then None else map_of cores (op_CoreName op)) of
        Some coreType \<Rightarrow> coreType = t
      | None \<Rightarrow> coreTypeConfigured cores t)"

definition unpinned_readings :: "Options \<Rightarrow> (string, string) gomap \<Rightarrow> json \<Rightarrow> XrayOptions option \<times> SingOptions option \<times> bool" where
  "unpinned_readings op cores raw =
     (let tx = serving_type op cores ''xray''; ts = serving_type op cores ''sing'';
          xray = (if tx then into_struct XrayOptions_fields NewXrayOptions raw else None);
          sing = (if ts then into_struct SingOptions_fields NewSingOptions raw else None)
      in (xray, sing, (tx \<and> xray = None \<or> ts \<and> sing = None) \<and> xray = None \<and> sing = None))"

definition decodeUnpinnedOptions ::
  "string \<Rightarrow> Options \<Rightarrow> (string, string) gomap \<Rightarrow> json \<Rightarrow> validator \<Rightarrow> validator" where
  "decodeUnpinnedOptions path op cores raw =
     report (snd (snd (unpinned_readings op cores raw))) path (Msg ''wrong value type: %v'' [AErr])"

definition core_options :: "Options \<Rightarrow> (string, string) gomap \<Rightarrow> XrayOptions option \<times> SingOptions option" where
  "core_options op cores =
     (case (if op_Core op = [] then op_RawOptions op else None) of
        None \<Rightarrow> (op_XrayOptions op, op_SingOptions op)
      | Some raw \<Rightarrow> (fst (unpinned_readings op cores raw), fst (snd (unpinned_readings op cores raw))))"

definition checkOptions :: "host \<Rightarrow> string \<Rightarrow> Options \<Rightarrow> (string, string) gomap \<Rightarrow> validator \<Rightarrow> validator" where
  "checkOptions h path op cores = steps
     [checkIP (path @ ''.ListenIP'') (op_ListenIP op),
      checkIP (path @ ''.SendIP'') (op_SendIP op),
      nonNegative (path @ ''.DeviceOnlineMinTraffic'') (op_DeviceOnlineMinTraffic op),
      nonNegative (path @ ''.ReportMinTraffic'') (op_ReportMinTraffic op),
      checkLimit (path @ ''.LimitConfig'') (op_LimitConfig op),
      case (if op_Core op = [] then op_RawOptions op else None) of
        None \<Rightarrow> (\<lambda>v. v) | Some raw \<Rightarrow> decodeUnpinnedOptions path op cores raw,
      case fst (core_options op cores) of None \<Rightarrow> (\<lambda>v. v) | Some x \<Rightarrow> checkXrayOptions path x,
      case snd (core_options op cores) of None \<Rightarrow> (\<lambda>v. v) | Some s \<Rightarrow> checkSingOptions h path s,
      case op_ArtXOptions op of
        None \<Rightarrow> (\<lambda>v. v)
      | Some a \<Rightarrow> steps
          [report (maxArtXSharePercent < ax_WindowBudgetSharePercent a) (path @ ''.ArtXOptions.WindowBudgetSharePercent'')
             (Msg ''must be between 0 and %d, got %d'' [AInt maxArtXSharePercent, AInt (ax_WindowBudgetSharePercent a)]),
           report (maxArtXReservePercent < ax_WindowBudgetReservePercent a) (path @ ''.ArtXOptions.WindowBudgetReservePercent'')
             (Msg ''must be between 0 and %d, got %d'' [AInt maxArtXReservePercent, AInt (ax_WindowBudgetReservePercent a)])],
      checkCert h (path @ ''.CertConfig'') (op_CertConfig op),
      report (DDNS_Validate h (DDNS_Effective h (op_DDNSConfig op) (op_CertConfig op)) \<noteq> None) (path @ ''.DDNSConfig'')
        (Msg ''%v'' [AErr])]"

record certFileUse =
  cu_node :: nat
  cu_domain :: string

definition cert_domain_key :: "CertConfig \<Rightarrow> string" where
  "cert_domain_key c = to_lower (trim_suffix (trim_space (CertDomain c)) ''.'')"

text \<open>The files a node would write, by the key that names them.\<close>

definition written_files :: "CertConfig \<Rightarrow> (string \<times> string) list" where
  "written_files c =
     (if CertMode c \<in> {''dns'', ''http'', ''self''}
      then filter (\<lambda>(_, p). p \<noteq> []) [(''CertFile'', CertFile c), (''KeyFile'', KeyFile c)] else [])"

fun shared_loop :: "string \<Rightarrow> nat \<Rightarrow> string \<Rightarrow> (string \<times> string) list \<Rightarrow> (string, certFileUse) gomap \<Rightarrow> validator
    \<Rightarrow> (string, certFileUse) gomap \<times> validator" where
  "shared_loop path node domain [] uses v = (uses, v)"
| "shared_loop path node domain ((key, file) # files) uses v =
     (let clean = filepath_Clean file in
      case map_of uses clean of
        None \<Rightarrow> shared_loop path node domain files (AList.update clean \<lparr>cu_node = node, cu_domain = domain\<rparr> uses) v
      | Some previous \<Rightarrow>
          shared_loop path node domain files uses
            (report (cu_domain previous \<noteq> domain) (path @ ''.'' @ key)
               (Msg ''%s is also used by Nodes[%d] for domain %q; each domain needs its own files''
                  [AStr file, AInt (int (cu_node previous)), AStr (cu_domain previous)]) v))"

definition checkSharedCertFiles ::
  "string \<Rightarrow> nat \<Rightarrow> CertConfig option \<Rightarrow> (string, certFileUse) gomap \<Rightarrow> validator \<Rightarrow> (string, certFileUse) gomap \<times> validator" where
  "checkSharedCertFiles path node co uses v =
     (case co of None \<Rightarrow> (uses, v) | Some c \<Rightarrow> shared_loop path node (cert_domain_key c) (written_files c) uses v)"

fun nodes_loop :: "host \<Rightarrow> (string, string) gomap \<Rightarrow> nat \<Rightarrow> NodeConfig list \<Rightarrow> (string, nat) gomap
    \<Rightarrow> (string, certFileUse) gomap \<Rightarrow> validator \<Rightarrow> validator" where
  "nodes_loop h cores i [] identities certFiles v = v"
| "nodes_loop h cores i (node # nodes) identities certFiles v =
     (let base = indexPath ''Nodes'' i;
          (apiPath, optPath) = nodePaths base v;
          v1 = checkAPI h apiPath (nc_ApiConfig node) v;
          v2 = checkCoreSelection optPath (nc_Options node) cores v1;
          v3 = checkOptions h optPath (nc_Options node) cores v2;
          identity = nodeIdentity (nc_ApiConfig node);
          (identities', v4) =
            (case map_of identities identity of
               Some first \<Rightarrow> (identities,
                 add base (Msg ''same panel node as Nodes[%d] (ApiHost, NodeID and NodeType all match); list each node once''
                             [AInt (int first)]) v3)
             | None \<Rightarrow> (AList.update identity i identities, v3));
          (certFiles', v5) = checkSharedCertFiles (optPath @ ''.CertConfig'') i (op_CertConfig (nc_Options node)) certFiles v4
      in nodes_loop h cores (i + 1) nodes identities' certFiles' v5)"

definition checkNodes :: "host \<Rightarrow> NodeConfig list \<Rightarrow> (string, string) gomap \<Rightarrow> validator \<Rightarrow> validator" where
  "checkNodes h nodes cores v =
     (if nodes = [] then add ''Nodes'' (Msg ''at least one node is required'' []) v
      else nodes_loop h cores 0 nodes [] [] v)"

definition checkConf :: "host \<Rightarrow> Conf \<Rightarrow> validator \<Rightarrow> validator" where
  "checkConf h c v =
     (let v1 = checkLog h (cf_LogConfig c) v;
          v2 = checkMemory (cf_MemoryConfig c) v1;
          v3 = checkScheduledRestart h (cf_ScheduledRestart c) v2;
          (names, v4) = checkCores h (cf_CoresConfig c) v3
      in checkNodes h (cf_NodeConfig c) names v4)"

end
