(* ===== verification/Conf_Accept.thy ===== *)
theory Conf_Accept
  imports Conf_Rules
begin

text \<open>
  What a configuration must satisfy to be accepted. The contract \<open>rule\<close> gives a check its exact meaning, a condition
  on the data it looks at; the composition lemmas carry it from single values to the whole file, where the loops
  with their tables become statements about all cores and all pairs of nodes.
\<close>

section \<open>The contract of a rule\<close>

locale rule = reporter check
  for check :: "validator \<Rightarrow> validator" +
  fixes ok :: "string list \<Rightarrow> bool"
  assumes env_kept: "v_envPaths (check v) = v_envPaths v"
    and exact: "v_envPaths v = [] \<Longrightarrow> v_issues (check v) = [] \<longleftrightarrow> v_issues v = [] \<and> ok (v_CoreTypes v)"
begin

lemma accepts: "env_reported v \<Longrightarrow> v_issues (check v) = [] \<Longrightarrow> v_issues v = [] \<and> v_envPaths v = [] \<and> ok (v_CoreTypes v)"
  using exact [of v] clean_before [of v] unfolding env_reported_def by blast

end

lemma rule_iff:
  "rule check ok \<longleftrightarrow> (\<forall>v. (\<exists>xs. v_issues (check v) = v_issues v @ xs) \<and> v_CoreTypes (check v) = v_CoreTypes v
     \<and> v_envPaths (check v) = v_envPaths v
     \<and> (v_envPaths v = [] \<longrightarrow> (v_issues (check v) = [] \<longleftrightarrow> v_issues v = [] \<and> ok (v_CoreTypes v))))"
    (is "_ \<longleftrightarrow> (\<forall>v. ?grows v \<and> ?types v \<and> ?kept v \<and> ?exact v)")
proof
  assume *: "\<forall>v. ?grows v \<and> ?types v \<and> ?kept v \<and> ?exact v"
  have "env_reported (check v)" if "env_reported v" for v
    using * [rule_format, of v] that by (auto simp: env_reported_def)
  with * show "rule check ok" by unfold_locales blast+
qed (auto simp: rule_def rule_axioms_def reporter_def)

lemma rule_reporter: "rule f P \<Longrightarrow> reporter f"
  by (simp add: rule_def)

lemma rule_id: "rule (\<lambda>v. v) (\<lambda>_. True)"
  by (simp add: rule_iff)

lemma rule_add: "rule (add path m) (\<lambda>_. False)"
  by (simp add: rule_iff add_def addKind_def)

lemma rule_report: "rule (report b path m) (\<lambda>_. \<not> b)"
  by (auto simp: rule_iff report_def add_def addKind_def)

lemma rule_comp: "rule f P \<Longrightarrow> rule g Q \<Longrightarrow> rule (\<lambda>v. g (f v)) (\<lambda>ct. P ct \<and> Q ct)"
  unfolding rule_iff by (metis append.assoc)

lemma rule_steps_Nil: "rule (steps []) (\<lambda>_. True)"
  by (simp add: rule_iff)

lemma rule_steps_Cons: "rule f P \<Longrightarrow> rule (steps fs) Q \<Longrightarrow> rule (steps (f # fs)) (\<lambda>ct. P ct \<and> Q ct)"
  using rule_comp [of f P "steps fs" Q] by (simp add: rule_iff)

lemma rule_if: "rule f P \<Longrightarrow> rule g Q \<Longrightarrow> rule (if b then f else g) (\<lambda>ct. if b then P ct else Q ct)"
  by (cases b) auto

lemma rule_option:
  "rule f P \<Longrightarrow> (\<And>x. rule (g x) (Q x)) \<Longrightarrow>
     rule (case y of None \<Rightarrow> f | Some x \<Rightarrow> g x) (\<lambda>ct. case y of None \<Rightarrow> P ct | Some x \<Rightarrow> Q x ct)"
  by (cases y) auto

lemma rule_each:
  assumes "\<And>i x. rule (f i x) (P x)"
  shows "rule (each xs f) (\<lambda>ct. list_all (\<lambda>x. P x ct) xs)"
proof -
  have "rule (steps (map (\<lambda>(i, x). f i x) (enumerate n xs))) (\<lambda>ct. list_all (\<lambda>x. P x ct) xs)" for n
  proof (induction xs arbitrary: n)
    case (Cons x xs)
    from rule_steps_Cons [OF assms [of n x] this [of "Suc n"]] show ?case by (simp del: steps.simps)
  qed (simp add: rule_steps_Nil)
  then show ?thesis by (simp add: each_def)
qed

text \<open>A path may depend on the validator: it does not matter to acceptance.\<close>

lemma rule_at: "(\<And>p. rule (f p) P) \<Longrightarrow> rule (\<lambda>v. f (g v) v) P"
  by (simp add: rule_iff)

lemma rule_weaken: "rule f P \<Longrightarrow> (\<And>ct. P ct = Q ct) \<Longrightarrow> rule f Q"
  by (simp add: rule_iff)

lemma rule_same: "(\<And>v. f v = g v) \<Longrightarrow> rule g P \<Longrightarrow> (\<And>ct. P ct = Q ct) \<Longrightarrow> rule f Q"
  by (simp add: rule_iff)

lemmas rule_intros = rule_id rule_add rule_report rule_steps_Nil rule_steps_Cons rule_if rule_option

section \<open>Single values\<close>

definition url_ok :: "host \<Rightarrow> string list \<Rightarrow> string \<Rightarrow> bool" where
  "url_ok h schemes s \<longleftrightarrow> (\<exists>u. h_url h s = Some u \<and> u_Scheme u \<in> set schemes \<and> u_Host u \<noteq> [])"

definition one_of :: "string \<Rightarrow> string list \<Rightarrow> bool" where
  "one_of s allowed \<longleftrightarrow> to_lower (trim_space s) \<in> insert [] (set allowed)"

definition ip_ok :: "string \<Rightarrow> bool" where
  "ip_ok s \<longleftrightarrow> s = [] \<or> parse_addr s \<noteq> None"

definition duration_ok :: "string \<Rightarrow> bool" where
  "duration_ok s \<longleftrightarrow> s = [] \<or> (\<exists>d \<ge> 0. ParseDuration s = Some d)"

definition port_ok :: "string \<Rightarrow> bool" where
  "port_ok s \<longleftrightarrow> s = [] \<or> (\<exists>p. atoi s = Some p \<and> 1 \<le> p \<and> p \<le> 65535)"

definition masquerade_ok :: "host \<Rightarrow> string \<Rightarrow> bool" where
  "masquerade_ok h s \<longleftrightarrow> trim_space s \<in> {[], decoy_Selector} \<or>
     (\<exists>u. h_url h (trim_space s) = Some u \<and> u_Scheme u \<in> {''http'', ''https'', ''file''}
        \<and> (u_Scheme u = ''file'' \<or> u_Host u \<noteq> []))"

definition dir_ok :: "host \<Rightarrow> string \<Rightarrow> bool" where
  "dir_ok h file \<longleftrightarrow> file = [] \<or> h_IsDir h (filepath_Dir file) = Some True"

definition json_file_ok :: "host \<Rightarrow> string \<Rightarrow> bool \<Rightarrow> bool" where
  "json_file_ok h file wantArray \<longleftrightarrow> file = [] \<or>
     (\<exists>raw j. h_ReadFile h file = Some raw \<and> h_json2 h raw = Inr j
        \<and> (if wantArray then \<exists>js. j = JArr js else \<exists>kvs. j = JObj kvs))"

interpretation nonNegative: rule "nonNegative path n" "\<lambda>_. 0 \<le> n" for path n
  unfolding nonNegative_def by (rule rule_weaken [OF rule_report]) auto

interpretation oneOf: rule "oneOf path what s allowed" "\<lambda>_. one_of s allowed" for path what s allowed
  unfolding oneOf_def Let_def by (rule rule_weaken [OF rule_report]) (auto simp: one_of_def)

interpretation checkURL: rule "checkURL h path s schemes" "\<lambda>_. url_ok h schemes s" for h path s schemes
  unfolding checkURL_def by (rule rule_weaken [OF rule_report]) (auto simp: url_ok_def split: option.splits)

interpretation checkIP: rule "checkIP path s" "\<lambda>_. ip_ok s" for path s
  unfolding checkIP_def by (rule rule_weaken, (rule rule_intros)+) (auto simp: ip_ok_def)

interpretation checkDuration: rule "checkDuration path s" "\<lambda>_. duration_ok s" for path s
  unfolding checkDuration_def by (rule rule_weaken, (rule rule_intros)+) (auto simp: duration_ok_def split: option.splits)

interpretation checkPort: rule "checkPort path s" "\<lambda>_. port_ok s" for path s
  unfolding checkPort_def maxPort_def
  by (rule rule_weaken, (rule rule_intros)+) (auto simp: port_ok_def split: option.splits)

interpretation checkMasquerade: rule "checkMasquerade h path s" "\<lambda>_. masquerade_ok h s" for h path s
  unfolding checkMasquerade_def Let_def
  by (rule rule_weaken, (rule rule_intros)+) (auto simp: masquerade_ok_def masqueradeSchemes_def split: option.splits)

interpretation checkPortHopping: rule "checkPortHopping path rs" "\<lambda>_. rs = [] \<or> (\<exists>out. ParseRanges rs = Inr out)" for path rs
proof (cases "ParseRanges rs")
  case (Inl e)
  then show "rule (checkPortHopping path rs) (\<lambda>_. rs = [] \<or> (\<exists>out. ParseRanges rs = Inr out))"
    by (cases "rs = []") (simp_all add: checkPortHopping_def rule_id rule_add)
next
  case (Inr out)
  then show "rule (checkPortHopping path rs) (\<lambda>_. rs = [] \<or> (\<exists>out. ParseRanges rs = Inr out))"
    by (simp add: checkPortHopping_def rule_id)
qed

interpretation checkParentDir: rule "checkParentDir h path f" "\<lambda>_. dir_ok h f" for h path f
  unfolding checkParentDir_def Let_def by (rule rule_weaken, (rule rule_intros)+) (auto simp: dir_ok_def)

text \<open>A syntax error is always told, at the file's own key once no value is unknown.\<close>

lemma addSyntaxError_issue:
  "v_envPaths v = [] \<Longrightarrow> \<exists>i. addSyntaxError path raw err v = v\<lparr>v_issues := v_issues v @ [i]\<rparr>"
  by (cases err) (auto simp: addSyntaxError_def addKind_def Let_def split: prod.splits)

lemma addSyntaxError_env: "v_envPaths (addSyntaxError path raw err v) = v_envPaths v"
  by (cases err) (auto simp: addSyntaxError_def addKind_def Let_def split: prod.splits)

interpretation checkJSONFile: rule "checkJSONFile h path f w" "\<lambda>_. json_file_ok h f w" for h path f w
proof (cases "f = [] \<or> h_ReadFile h f = None")
  case True
  then show "rule (checkJSONFile h path f w) (\<lambda>_. json_file_ok h f w)"
    by (cases "f = []")
      (simp_all add: checkJSONFile_def [abs_def] json_file_ok_def rule_id rule_add)
next
  case False
  then obtain raw where raw: "f \<noteq> []" "h_ReadFile h f = Some raw" by auto
  show "rule (checkJSONFile h path f w) (\<lambda>_. json_file_ok h f w)"
  proof (cases "h_json2 h raw")
    case (Inl err)
    have c: "checkJSONFile h path f w v = (let v' = addSyntaxError [] raw err v in
        v'\<lparr>v_issues := take (length (v_issues v)) (v_issues v') @ map (in_file path f) (drop (length (v_issues v)) (v_issues v'))\<rparr>)" for v
      using raw Inl by (simp add: checkJSONFile_def Let_def)
    show ?thesis
      unfolding rule_iff
    proof (intro allI conjI impI)
      fix v
      show "\<exists>xs. v_issues (checkJSONFile h path f w v) = v_issues v @ xs"
        using addSyntaxError.appends [of "[]" raw err v] by (auto simp: c Let_def)
      show "v_CoreTypes (checkJSONFile h path f w v) = v_CoreTypes v"
        "v_envPaths (checkJSONFile h path f w v) = v_envPaths v"
        by (simp_all add: c Let_def addSyntaxError.core_types addSyntaxError_env)
      assume "v_envPaths v = []"
      with addSyntaxError_issue [of v "[]" raw err]
      show "v_issues (checkJSONFile h path f w v) = [] \<longleftrightarrow> v_issues v = [] \<and> json_file_ok h f w"
        using raw Inl by (auto simp: c Let_def json_file_ok_def)
    qed
  next
    case (Inr j)
    then show ?thesis
      using raw
      by (cases j; cases w) (simp_all add: checkJSONFile_def [abs_def] json_file_ok_def rule_id rule_add)
  qed
qed

text \<open>Issues turned into warnings do not stop a configuration.\<close>

lemma rule_asWarnings: "rule f P \<Longrightarrow> rule (asWarnings onStart onReload f) (\<lambda>_. True)"
proof -
  assume f: "rule f P"
  have "take (length (v_issues v)) (v_issues (f v)) = v_issues v" for v
    using reporter.appends [OF rule_reporter [OF f], of v] by auto
  with f show ?thesis by (simp add: rule_iff asWarnings_def Let_def)
qed

section \<open>Blocks\<close>

definition memory_ok :: "MemoryConfig \<Rightarrow> bool" where
  "memory_ok m \<longleftrightarrow> mc_RestartPercent m \<in> {0..99} \<and> mc_SoftLimitPercent m \<in> {0..99}
     \<and> (mc_RestartPercent m = 0 \<or> mc_SoftLimitPercent m < mc_RestartPercent m)"

definition log_ok :: "host \<Rightarrow> LogConfig \<Rightarrow> bool" where
  "log_ok h l \<longleftrightarrow> (lg_Level l = [] \<or> lg_Level l \<in> set logLevels) \<and> dir_ok h (lg_Output l)"

definition restart_ok :: "host \<Rightarrow> ScheduledRestartConfig \<Rightarrow> bool" where
  "restart_ok h c \<longleftrightarrow> sr_IntervalDays c \<in> {1..3650} \<and> (\<exists>w. Window c = Inr w) \<and> Location h c"

definition core_type_ok :: "string \<Rightarrow> string list \<Rightarrow> bool" where
  "core_type_ok t built \<longleftrightarrow> t \<in> {''xray'', ''sing''} \<and> (built = [] \<or> t \<in> set built)"

definition xray_core_ok :: "host \<Rightarrow> XrayConfig \<Rightarrow> bool" where
  "xray_core_ok h x \<longleftrightarrow>
     (case xr_LogConfig x of None \<Rightarrow> True | Some l \<Rightarrow>
        (xl_Level l = [] \<or> to_lower (xl_Level l) \<in> set xrayLogLevels)
        \<and> (xl_AccessPath l = ''none'' \<or> dir_ok h (xl_AccessPath l)) \<and> (xl_ErrorPath l = ''none'' \<or> dir_ok h (xl_ErrorPath l)))
     \<and> json_file_ok h (xr_RouteConfigPath x) False \<and> json_file_ok h (xr_InboundConfigPath x) True
     \<and> json_file_ok h (xr_OutboundConfigPath x) True"

definition sing_core_ok :: "host \<Rightarrow> SingConfig \<Rightarrow> bool" where
  "sing_core_ok h s \<longleftrightarrow>
     (sl_Level (sc_LogConfig s) = [] \<or> sl_Level (sc_LogConfig s) \<in> set singLogLevels) \<and> dir_ok h (sl_Output (sc_LogConfig s))
     \<and> \<not> (sn_Enable (sc_NtpConfig s) \<and> trim_space (sn_Server (sc_NtpConfig s)) = [])
     \<and> (sc_OriginalPath s = [] \<or> h_ReadFile h (sc_OriginalPath s) \<noteq> None)"

interpretation checkMemory: rule "checkMemory m" "\<lambda>_. memory_ok m" for m
  unfolding checkMemory_def
  by (rule rule_weaken, (rule rule_intros)+) (auto simp: memory_ok_def)

interpretation checkLog: rule "checkLog h l" "\<lambda>_. log_ok h l" for h l
  unfolding checkLog_def
  by (rule rule_weaken, (rule rule_intros checkParentDir.rule_axioms)+) (auto simp: log_ok_def)

interpretation checkScheduledRestart: rule "checkScheduledRestart h c" "\<lambda>_. restart_ok h c" for h c
  unfolding checkScheduledRestart_def Let_def
  by (rule rule_weaken, (rule rule_intros)+)
    (auto simp: restart_ok_def Window_def or_fail_def split: option.splits)

interpretation checkCoreType: rule "checkCoreType path t" "core_type_ok t" for path t
  by (auto simp: rule_iff checkCoreType_def core_type_ok_def coreTypes_def report_def add_def addKind_def)

interpretation checkXrayCore: rule "checkXrayCore h path x" "\<lambda>_. xray_core_ok h x" for h path x
  unfolding checkXrayCore_def
  by (rule rule_weaken,
      (rule rule_intros checkParentDir.rule_axioms rule_asWarnings checkJSONFile.rule_axioms)+)
    (auto simp: xray_core_ok_def split: option.splits)

interpretation checkSingCore: rule "checkSingCore h path s" "\<lambda>_. sing_core_ok h s" for h path s
  unfolding checkSingCore_def
  by (rule rule_weaken, (rule rule_intros checkParentDir.rule_axioms)+) (auto simp: sing_core_ok_def)

section \<open>Cores\<close>

definition core_ok :: "host \<Rightarrow> string list \<Rightarrow> CoreConfig \<Rightarrow> bool" where
  "core_ok h built c \<longleftrightarrow> core_type_ok (co_Type c) built
     \<and> (case co_XrayConfig c of Some x \<Rightarrow> xray_core_ok h x
        | None \<Rightarrow> (case co_SingConfig c of Some s \<Rightarrow> sing_core_ok h s | None \<Rightarrow> True))"

definition cores_ok :: "host \<Rightarrow> string list \<Rightarrow> CoreConfig list \<Rightarrow> bool" where
  "cores_ok h built cores \<longleftrightarrow> cores \<noteq> [] \<and> list_all (core_ok h built) cores \<and> distinct (map core_name cores)"

definition core_table :: "CoreConfig list \<Rightarrow> (string, string) gomap" where
  "core_table cores = map (\<lambda>c. (core_name c, co_Type c)) cores"

lemma update_append_absent: "map_of m k = None \<Longrightarrow> AList.update k v m = m @ [(k, v)]"
  by (induction m) (auto split: if_splits)

lemma dom_update: "dom (map_of (AList.update k v m)) = insert k (dom (map_of m))"
  by (auto simp: dom_def)

lemma cores_loop_table:
  "distinct (map core_name cores) \<Longrightarrow> core_name ` set cores \<inter> dom (map_of seen) = {} \<Longrightarrow>
     dom (map_of seen) = dom (map_of names) \<Longrightarrow> fst (cores_loop h i cores seen names v) = names @ core_table cores"
proof (induction cores arbitrary: i seen names v)
  case (Cons c cores)
  have none: "map_of seen (core_name c) = None" "map_of names (core_name c) = None"
    using Cons.prems(2,3) by (auto simp: domIff)
  let ?seen = "AList.update (core_name c) i seen" and ?names = "AList.update (core_name c) (co_Type c) names"
  have "fst (cores_loop h (i + 1) cores ?seen ?names w) = ?names @ core_table cores" for w
    by (rule Cons.IH) (use Cons.prems in \<open>simp_all add: dom_update del: map_of_update_eq\<close>)
  with none show ?case by (simp add: Let_def core_table_def update_append_absent)
qed (simp add: core_table_def)

lemma rule_core_blocks:
  "rule (case x of Some y \<Rightarrow> checkXrayCore h path y | None \<Rightarrow> (case s of Some z \<Rightarrow> checkSingCore h path z | None \<Rightarrow> (\<lambda>v. v)))
     (\<lambda>_. case x of Some y \<Rightarrow> xray_core_ok h y | None \<Rightarrow> (case s of Some z \<Rightarrow> sing_core_ok h z | None \<Rightarrow> True))"
  by (cases x; cases s) (simp_all add: rule_id checkXrayCore.rule_axioms checkSingCore.rule_axioms)

lemma cores_loop_rule:
  "rule (\<lambda>v. snd (cores_loop h i cores seen names v))
     (\<lambda>built. list_all (core_ok h built) cores \<and> distinct (map core_name cores)
        \<and> core_name ` set cores \<inter> dom (map_of seen) = {})"
proof (induction cores arbitrary: i seen names)
  case (Cons c cores)
  let ?path = "indexPath ''Cores'' i" and ?n = "core_name c"
  let ?blocks = "case co_XrayConfig c of Some y \<Rightarrow> checkXrayCore h ?path y
    | None \<Rightarrow> (case co_SingConfig c of Some z \<Rightarrow> checkSingCore h ?path z | None \<Rightarrow> (\<lambda>v. v))"
  note head = rule_comp [OF checkCoreType.rule_axioms [of "?path @ ''.Type''" "co_Type c"]]
  show ?case
  proof (cases "map_of seen ?n")
    case None
    have eq: "snd (cores_loop h i (c # cores) seen names v) =
        snd (cores_loop h (i + 1) cores (AList.update ?n i seen) (AList.update ?n (co_Type c) names)
          (?blocks (checkCoreType (?path @ ''.Type'') (co_Type c) v)))" for v
      using None by (simp add: Let_def split: option.splits)
    show ?thesis
      by (rule rule_same [OF eq rule_comp [OF head [OF rule_core_blocks] Cons.IH [of "i + 1"]]])
        (use None in \<open>auto simp: core_ok_def dom_update domIff simp del: map_of_update_eq\<close>)
  next
    case (Some first)
    have eq: "snd (cores_loop h i (c # cores) seen names v) =
        snd (cores_loop h (i + 1) cores seen names
          (?blocks (add ?path (Msg ''duplicate core name %q (same as Cores[%d]); give each core a distinct Name''
                             [AStr ?n, AInt (int first)]) (checkCoreType (?path @ ''.Type'') (co_Type c) v))))" for v
      using Some by (simp add: Let_def split: option.splits)
    show ?thesis
      by (rule rule_same [OF eq rule_comp [OF rule_comp [OF head [OF rule_add] rule_core_blocks] Cons.IH [of "i + 1"]]])
        (use Some in auto)
  qed
qed (simp add: rule_id)

interpretation checkCores: rule "\<lambda>v. snd (checkCores h cores v)" "\<lambda>built. cores_ok h built cores" for h cores
proof (cases "cores = []")
  case True
  then show "rule (\<lambda>v. snd (checkCores h cores v)) (\<lambda>built. cores_ok h built cores)"
    by (simp add: checkCores_def cores_ok_def rule_add)
next
  case False
  then show "rule (\<lambda>v. snd (checkCores h cores v)) (\<lambda>built. cores_ok h built cores)"
    using rule_weaken [OF cores_loop_rule [of h 0 cores "[]" "[]"], of "\<lambda>built. cores_ok h built cores"]
    by (simp add: checkCores_def cores_ok_def)
qed

lemma checkCores_table: "distinct (map core_name cores) \<Longrightarrow> fst (checkCores h cores v) = core_table cores"
  using cores_loop_table [of cores "[]" "[]" h 0 v] by (simp add: checkCores_def core_table_def)

end
