(* ===== verification/Conf_Accept_Nodes.thy ===== *)
theory Conf_Accept_Nodes
  imports Conf_Accept
begin

text \<open>
  The exact meaning of the node rules: the conditions on one node, and those on all of them, that no two are the
  same panel node and that no certificate file is written for two domains.
\<close>

section \<open>One node\<close>

definition api_ok :: "host \<Rightarrow> ApiConfig \<Rightarrow> bool" where
  "api_ok h a \<longleftrightarrow> url_ok h httpSchemes (ap_APIHost a) \<and> trim_space (ap_Key a) \<noteq> [] \<and> 0 < ap_NodeID a
     \<and> to_lower (ap_NodeType a) \<in> set panelNodeTypes \<and> 0 \<le> ap_Timeout a \<and> ip_ok (ap_APISendIP a)
     \<and> (wsc_URL (ap_WebSocket a) = [] \<or> url_ok h wsSchemes (wsc_URL (ap_WebSocket a)))"

definition selection_ok :: "(string, string) gomap \<Rightarrow> Options \<Rightarrow> bool" where
  "selection_ok cores op \<longleftrightarrow>
     (written_core op = [] \<or> written_core op \<in> set coreTypes \<and> written_core op \<in> snd ` set cores)
     \<and> (op_CoreName op = [] \<or>
        (\<exists>t. map_of cores (op_CoreName op) = Some t \<and> (written_core op = [] \<or> t = written_core op)))"

definition limit_ok :: "LimitConfig \<Rightarrow> bool" where
  "limit_ok l \<longleftrightarrow> 0 \<le> lc_SpeedLimit l \<and> 0 \<le> lc_IPLimit l \<and> 0 \<le> lc_ConnLimit l
     \<and> (case lc_DynamicSpeedLimitConfig l of
          None \<Rightarrow> \<not> lc_EnableDynamicSpeedLimit l
        | Some d \<Rightarrow> 0 \<le> dyn_Periodic d \<and> 0 \<le> dyn_Traffic d \<and> 0 \<le> dyn_SpeedLimit d \<and> 0 \<le> dyn_ExpireTime d)"

definition xray_options_ok :: "XrayOptions \<Rightarrow> bool" where
  "xray_options_ok x \<longleftrightarrow> one_of (xo_DNSType x) xrayDNSTypes
     \<and> list_all (\<lambda>f. trim_space (fx_Dest f) \<noteq> [] \<and> fx_ProxyProtocolVer f \<le> 2) (xo_FallBackConfigs x)"

definition sing_options_ok :: "host \<Rightarrow> SingOptions \<Rightarrow> bool" where
  "sing_options_ok h s \<longleftrightarrow> one_of (sg_DomainStrategy s) singDomainStrategies
     \<and> (case sg_FallBackConfigs s of None \<Rightarrow> True | Some f \<Rightarrow>
          port_ok (fs_ServerPort (fg_FallBack f))
          \<and> list_all (\<lambda>a. port_ok (fs_ServerPort (mget \<lparr>fs_Server = [], fs_ServerPort = []\<rparr> (fg_FallBackForALPN f) a)))
              (map fst (fg_FallBackForALPN f)))
     \<and> (case sg_Multiplex s of None \<Rightarrow> True | Some m \<Rightarrow> 0 \<le> br_UpMbps (mx_Brutal m) \<and> 0 \<le> br_DownMbps (mx_Brutal m))
     \<and> (case sg_ShadowTLSOptions s of None \<Rightarrow> True | Some t \<Rightarrow>
          so_Version t \<in> {0..3} \<and> one_of (so_WildcardSNI t) wildcardSNIModes)
     \<and> (case sg_NaiveOptions s of None \<Rightarrow> True | Some n \<Rightarrow> one_of (no_Network n) naiveNetworks)
     \<and> (case sg_HysteriaOptions s of None \<Rightarrow> True | Some y \<Rightarrow>
          (ho_PortHopping y = [] \<or> (\<exists>rs. ParseRanges (ho_PortHopping y) = Inr rs))
          \<and> masquerade_ok h (ho_Masquerade y) \<and> 0 \<le> ho_MaxConnClient y)
     \<and> (case sg_TuicOptions s of None \<Rightarrow> True | Some t \<Rightarrow>
          duration_ok (to_AuthTimeout t) \<and> duration_ok (to_Heartbeat t) \<and> one_of (to_CongestionControl t) tuicCongestion)"

definition cert_ok :: "host \<Rightarrow> CertConfig option \<Rightarrow> bool" where
  "cert_ok h co \<longleftrightarrow> (case co of None \<Rightarrow> True | Some c \<Rightarrow>
     CertMode c \<in> {[], ''none''} \<or>
     \<not> contains (CertFile c) ''{domain}'' \<and> \<not> contains (KeyFile c) ''{domain}''
     \<and> (CertMode c \<in> {''dns'', ''http''} \<and> ValidateACMECertConfig filepath_Clean (h_mail h) c = None
        \<or> CertMode c = ''self'' \<and> CertFile c \<noteq> [] \<and> KeyFile c \<noteq> []
        \<or> CertMode c = ''file'' \<and> CertFile c \<noteq> [] \<and> KeyFile c \<noteq> []
          \<and> h_IsDir h (CertFile c) = Some False \<and> h_IsDir h (KeyFile c) = Some False))"

definition readable :: "Options \<Rightarrow> (string, string) gomap \<Rightarrow> bool" where
  "readable op cores \<longleftrightarrow> (case (if op_Core op = [] then op_RawOptions op else None) of
     None \<Rightarrow> True | Some raw \<Rightarrow> \<not> snd (snd (unpinned_readings op cores raw)))"

definition options_ok :: "host \<Rightarrow> (string, string) gomap \<Rightarrow> Options \<Rightarrow> bool" where
  "options_ok h cores op \<longleftrightarrow> ip_ok (op_ListenIP op) \<and> ip_ok (op_SendIP op) \<and> 0 \<le> op_DeviceOnlineMinTraffic op
     \<and> 0 \<le> op_ReportMinTraffic op \<and> limit_ok (op_LimitConfig op) \<and> readable op cores
     \<and> (case fst (core_options op cores) of None \<Rightarrow> True | Some x \<Rightarrow> xray_options_ok x)
     \<and> (case snd (core_options op cores) of None \<Rightarrow> True | Some s \<Rightarrow> sing_options_ok h s)
     \<and> (case op_ArtXOptions op of None \<Rightarrow> True | Some a \<Rightarrow>
          ax_WindowBudgetSharePercent a \<le> 100 \<and> ax_WindowBudgetReservePercent a \<le> 99)
     \<and> cert_ok h (op_CertConfig op)
     \<and> DDNS_Validate h (DDNS_Effective h (op_DDNSConfig op) (op_CertConfig op)) = None"

definition node_ok :: "host \<Rightarrow> (string, string) gomap \<Rightarrow> NodeConfig \<Rightarrow> bool" where
  "node_ok h cores n \<longleftrightarrow> api_ok h (nc_ApiConfig n) \<and> selection_ok cores (nc_Options n) \<and> options_ok h cores (nc_Options n)"

lemmas value_rules = checkURL.rule_axioms checkIP.rule_axioms nonNegative.rule_axioms oneOf.rule_axioms
  checkPort.rule_axioms checkDuration.rule_axioms checkMasquerade.rule_axioms checkPortHopping.rule_axioms

interpretation checkAPI: rule "checkAPI h path a" "\<lambda>_. api_ok h a" for h path a
  unfolding checkAPI_def Let_def
  by (rule rule_weaken, (rule rule_intros value_rules)+) (auto simp: api_ok_def panelNodeTypes_def)

lemma coreTypeConfigured_iff: "coreTypeConfigured cores t \<longleftrightarrow> t \<in> snd ` set cores"
  by (force simp: coreTypeConfigured_def list_ex_iff)

interpretation checkCoreSelection: rule "checkCoreSelection path op cores" "\<lambda>_. selection_ok cores op" for path op cores
  unfolding checkCoreSelection_def Let_def
  by (rule rule_weaken, (rule rule_intros)+) (auto simp: selection_ok_def coreTypeConfigured_iff split: option.splits)

interpretation checkLimit: rule "checkLimit path l" "\<lambda>_. limit_ok l" for path l
  unfolding checkLimit_def
  by (rule rule_weaken, (rule rule_intros value_rules)+) (auto simp: limit_ok_def split: option.splits)

interpretation checkXrayOptions: rule "checkXrayOptions path x" "\<lambda>_. xray_options_ok x" for path x
  unfolding checkXrayOptions_def Let_def
  by (rule rule_weaken, (rule rule_intros value_rules rule_each)+)
    (auto simp: xray_options_ok_def maxProxyProtocolVersion_def list_all_iff not_less)

interpretation checkSingOptions: rule "checkSingOptions h path s" "\<lambda>_. sing_options_ok h s" for h path s
  unfolding checkSingOptions_def
  by (rule rule_weaken, (rule rule_intros value_rules rule_each)+)
    (simp add: sing_options_ok_def maxShadowTLSVersion_def not_less list_all_iff conj_assoc cong: option.case_cong)

lemma checkCert_files:
  "rule (each [a, b] (\<lambda>_ f. report (h_IsDir h f \<noteq> Some False) path (m f)))
     (\<lambda>_. h_IsDir h a = Some False \<and> h_IsDir h b = Some False)"
  by (rule rule_weaken [OF rule_each [where P = "\<lambda>f _. h_IsDir h f = Some False"]])
    (auto intro: rule_weaken [OF rule_report])

interpretation checkCert: rule "checkCert h path co" "\<lambda>_. cert_ok h co" for h path co
proof (cases co)
  case None
  then show "rule (checkCert h path co) (\<lambda>_. cert_ok h co)" by (simp add: checkCert_def cert_ok_def rule_id)
next
  case (Some c)
  let ?m = "CertMode c"
  have modes: "set certModes = {''none'', ''file'', ''self'', ''http'', ''dns''}" by (simp add: certModes_def)
  consider "?m = []" | "?m = ''none''" | "?m = ''file''" | "?m = ''self''" | "?m = ''http'' \<or> ?m = ''dns''" | "?m \<noteq> []" "?m \<notin> set certModes"
    unfolding modes by blast
  then show "rule (checkCert h path co) (\<lambda>_. cert_ok h co)"
  proof cases
    case 3
    then show ?thesis
      by (auto simp: checkCert_def cert_ok_def Some modes rule_id rule_add checkCert_files)
  next
    case 5
    then show ?thesis
      by (auto simp: checkCert_def cert_ok_def Some modes rule_id rule_add intro: rule_weaken [OF rule_report])
  next
    case 6
    then show ?thesis
      by (simp add: checkCert_def cert_ok_def Some Let_def rule_add) (simp add: modes rule_add)
  qed (auto simp: checkCert_def cert_ok_def Some modes rule_id rule_add)
qed

interpretation checkOptions: rule "checkOptions h path op cores" "\<lambda>_. options_ok h cores op" for h path op cores
  unfolding checkOptions_def decodeUnpinnedOptions_def
  by (rule rule_weaken,
      (rule rule_intros value_rules checkLimit.rule_axioms checkXrayOptions.rule_axioms checkSingOptions.rule_axioms
         checkCert.rule_axioms)+)
    (simp add: options_ok_def readable_def maxArtXSharePercent_def maxArtXReservePercent_def not_less conj_assoc
       cong: option.case_cong)

section \<open>Certificate files\<close>

text \<open>The files a list of nodes writes, each with the domain it is written for.\<close>

definition cert_claims :: "CertConfig option \<Rightarrow> (string \<times> string) list" where
  "cert_claims co = (case co of None \<Rightarrow> [] | Some c \<Rightarrow>
     map (\<lambda>(key, f). (filepath_Clean f, cert_domain_key c)) (written_files c))"

definition node_claims :: "NodeConfig \<Rightarrow> (string \<times> string) list" where
  "node_claims n = cert_claims (op_CertConfig (nc_Options n))"

definition recorded :: "(string, certFileUse) gomap \<Rightarrow> (string \<times> string) set" where
  "recorded uses = {(f, cu_domain u) | f u. map_of uses f = Some u}"

lemma recorded_Nil [simp]: "recorded [] = {}"
  by (simp add: recorded_def)

lemma recorded_update:
  "map_of uses f = None \<Longrightarrow> recorded (AList.update f \<lparr>cu_node = n, cu_domain = d\<rparr> uses) = insert (f, d) (recorded uses)"
  unfolding recorded_def update_conv' by (auto simp: fun_upd_def)

lemma single_valued_recorded: "single_valued (recorded uses)"
  by (auto simp: single_valued_def recorded_def)

lemma recorded_clash: "map_of uses f = Some u \<Longrightarrow> d \<noteq> cu_domain u \<Longrightarrow> \<not> single_valued (insert (f, d) (recorded uses \<union> R))"
  by (auto simp: single_valued_def recorded_def)

lemma shared_loop_rule:
  "rule (\<lambda>v. snd (shared_loop path n d files uses v))
     (\<lambda>_. single_valued (recorded uses \<union> (\<lambda>(k, f). (filepath_Clean f, d)) ` set files))"
proof (induction files arbitrary: uses)
  case Nil
  then show ?case by (simp add: rule_id single_valued_recorded)
next
  case (Cons kf files)
  obtain k f where kf: "kf = (k, f)" by (cases kf)
  let ?c = "filepath_Clean f"
  show ?case
  proof (cases "map_of uses ?c")
    case None
    with Cons.IH [of "AList.update ?c \<lparr>cu_node = n, cu_domain = d\<rparr> uses"] kf show ?thesis
      by (simp add: Let_def recorded_update)
  next
    case (Some u)
    show ?thesis
    proof (rule rule_same [OF _ rule_comp [OF rule_report Cons.IH [of uses]]])
      show "snd (shared_loop path n d (kf # files) uses v) =
          snd (shared_loop path n d files uses (report (cu_domain u \<noteq> d) (path @ ''.'' @ k)
               (Msg ''%s is also used by Nodes[%d] for domain %q; each domain needs its own files''
                  [AStr f, AInt (int (cu_node u)), AStr (cu_domain u)]) v))" for v
        using Some kf by (simp add: Let_def)
      have "(?c, cu_domain u) \<in> recorded uses" using Some by (auto simp: recorded_def)
      then show "(\<not> cu_domain u \<noteq> d \<and> single_valued (recorded uses \<union> (\<lambda>(k, f). (filepath_Clean f, d)) ` set files)) =
          single_valued (recorded uses \<union> (\<lambda>(k, f). (filepath_Clean f, d)) ` set (kf # files))" for ct :: "string list"
        using recorded_clash [OF Some, of d] by (cases "cu_domain u = d") (auto simp: kf insert_absorb)
    qed
  qed
qed

lemma shared_loop_recorded:
  "single_valued (recorded uses \<union> (\<lambda>(k, f). (filepath_Clean f, d)) ` set files) \<Longrightarrow>
     recorded (fst (shared_loop path n d files uses v)) = recorded uses \<union> (\<lambda>(k, f). (filepath_Clean f, d)) ` set files"
proof (induction files arbitrary: uses v)
  case (Cons kf files)
  obtain k f where kf: "kf = (k, f)" by (cases kf)
  let ?c = "filepath_Clean f"
  show ?case
  proof (cases "map_of uses ?c")
    case None
    with Cons.IH [of "AList.update ?c \<lparr>cu_node = n, cu_domain = d\<rparr> uses" v] Cons.prems kf show ?thesis
      by (simp add: Let_def recorded_update)
  next
    case (Some u)
    have u: "cu_domain u = d" using recorded_clash [OF Some, of d] Cons.prems kf by auto
    have "(?c, d) \<in> recorded uses" using Some u by (auto simp: recorded_def)
    with Cons.IH [of uses] Cons.prems kf Some show ?thesis by (simp add: Let_def insert_absorb)
  qed
qed simp

text \<open>The three facts for the check itself.\<close>

lemma checkSharedCertFiles_rule:
  "rule (\<lambda>v. snd (checkSharedCertFiles path n co uses v)) (\<lambda>_. single_valued (recorded uses \<union> set (cert_claims co)))"
  by (cases co) (simp_all add: checkSharedCertFiles_def cert_claims_def rule_id single_valued_recorded shared_loop_rule)

lemma checkSharedCertFiles_recorded:
  "single_valued (recorded uses \<union> set (cert_claims co)) \<Longrightarrow>
     recorded (fst (checkSharedCertFiles path n co uses v)) = recorded uses \<union> set (cert_claims co)"
  by (cases co) (simp_all add: checkSharedCertFiles_def cert_claims_def shared_loop_recorded)

lemma shared_loop_path: "fst (shared_loop path n d files uses v) = fst (shared_loop path' n d files uses w)"
proof (induction files arbitrary: uses v w)
  case (Cons kf files)
  obtain k f where "kf = (k, f)" by (cases kf)
  then show ?case using Cons.IH by (simp add: Let_def split: option.split)
qed simp

lemma checkSharedCertFiles_fst: "fst (checkSharedCertFiles path n co uses v) = fst (checkSharedCertFiles path' n co uses w)"
  by (cases co) (simp_all add: checkSharedCertFiles_def shared_loop_path [of path _ _ _ _ v path' w])

section \<open>All nodes\<close>

abbreviation node_id :: "NodeConfig \<Rightarrow> string" where
  "node_id n \<equiv> nodeIdentity (nc_ApiConfig n)"

definition nodes_ok :: "host \<Rightarrow> (string, string) gomap \<Rightarrow> NodeConfig list \<Rightarrow> bool" where
  "nodes_ok h cores nodes \<longleftrightarrow> nodes \<noteq> [] \<and> list_all (node_ok h cores) nodes \<and> distinct (map node_id nodes)
     \<and> single_valued (\<Union> (set (map (set \<circ> node_claims) nodes)))"

text \<open>The checks of one node before its identity is looked up.\<close>

definition node_checks :: "host \<Rightarrow> (string, string) gomap \<Rightarrow> string \<Rightarrow> NodeConfig \<Rightarrow> validator \<Rightarrow> validator" where
  "node_checks h cores base n v =
     (let (apiPath, optPath) = nodePaths base v in
      checkOptions h optPath (nc_Options n) cores (checkCoreSelection optPath (nc_Options n) cores
        (checkAPI h apiPath (nc_ApiConfig n) v)))"

lemma node_checks_rule: "rule (node_checks h cores base n) (\<lambda>_. node_ok h cores n)"
proof (rule rule_same)
  show "node_checks h cores base n v =
      (\<lambda>p w. checkOptions h (snd p) (nc_Options n) cores (checkCoreSelection (snd p) (nc_Options n) cores
        (checkAPI h (fst p) (nc_ApiConfig n) w))) (nodePaths base v) v" for v
    by (simp add: node_checks_def split_beta)
  show "rule (\<lambda>v. (\<lambda>p w. checkOptions h (snd p) (nc_Options n) cores (checkCoreSelection (snd p) (nc_Options n) cores
        (checkAPI h (fst p) (nc_ApiConfig n) w))) (nodePaths base v) v)
      (\<lambda>_. (api_ok h (nc_ApiConfig n) \<and> selection_ok cores (nc_Options n)) \<and> options_ok h cores (nc_Options n))"
    by (rule rule_at, rule rule_comp [OF rule_comp [OF checkAPI.rule_axioms checkCoreSelection.rule_axioms] checkOptions.rule_axioms])
qed (simp add: node_ok_def)

definition node_seen :: "nat \<Rightarrow> NodeConfig \<Rightarrow> (string, nat) gomap \<Rightarrow> (string, nat) gomap" where
  "node_seen i n ids = (case map_of ids (node_id n) of None \<Rightarrow> AList.update (node_id n) i ids | Some _ \<Rightarrow> ids)"

definition node_dup :: "string \<Rightarrow> NodeConfig \<Rightarrow> (string, nat) gomap \<Rightarrow> validator \<Rightarrow> validator" where
  "node_dup base n ids = (case map_of ids (node_id n) of
     None \<Rightarrow> (\<lambda>v. v)
   | Some first \<Rightarrow> add base (Msg ''same panel node as Nodes[%d] (ApiHost, NodeID and NodeType all match); list each node once''
                             [AInt (int first)]))"

lemma node_dup_rule: "rule (node_dup base n ids) (\<lambda>_. node_id n \<notin> dom (map_of ids))"
  unfolding node_dup_def by (cases "map_of ids (node_id n)") (simp_all add: rule_id rule_add domIff)

lemma nodes_loop_step:
  "nodes_loop h cores i (n # nodes) ids uses v =
     nodes_loop h cores (i + 1) nodes (node_seen i n ids)
       (fst (checkSharedCertFiles [] i (op_CertConfig (nc_Options n)) uses v))
       (snd (checkSharedCertFiles (snd (nodePaths (indexPath ''Nodes'' i) v) @ ''.CertConfig'') i
               (op_CertConfig (nc_Options n)) uses
          (node_dup (indexPath ''Nodes'' i) n ids (node_checks h cores (indexPath ''Nodes'' i) n v))))"
  (is "_ = nodes_loop h cores (i + 1) nodes _ _ (snd (?cc ?w))")
proof -
  have "fst (?cc ?w) = fst (checkSharedCertFiles [] i (op_CertConfig (nc_Options n)) uses v)"
    by (rule checkSharedCertFiles_fst)
  then show ?thesis
    by (cases "map_of ids (node_id n)")
      (simp_all add: split_beta Let_def node_checks_def node_dup_def node_seen_def)
qed

lemma nodes_loop_rule:
  "rule (nodes_loop h cores i nodes ids uses)
     (\<lambda>_. list_all (node_ok h cores) nodes \<and> distinct (map node_id nodes) \<and> node_id ` set nodes \<inter> dom (map_of ids) = {}
        \<and> single_valued (recorded uses \<union> (\<Union>n \<in> set nodes. set (node_claims n))))"
proof (induction nodes arbitrary: i ids uses)
  case Nil
  then show ?case by (simp add: rule_id single_valued_recorded)
next
  case (Cons n nodes)
  let ?base = "indexPath ''Nodes'' i" and ?co = "op_CertConfig (nc_Options n)"
  let ?uses = "fst (checkSharedCertFiles [] i ?co uses undefined)"
  define F where "F p w = nodes_loop h cores (i + 1) nodes (node_seen i n ids) ?uses
     (snd (checkSharedCertFiles (p @ ''.CertConfig'') i ?co uses (node_dup ?base n ids (node_checks h cores ?base n w))))" for p w
  have tail: "nodes_loop h cores i (n # nodes) ids uses v = F (snd (nodePaths ?base v)) v" for v
    by (simp only: F_def nodes_loop_step checkSharedCertFiles_fst [of "[]" i ?co uses v "[]" undefined])
  have head: "rule (F p)
     (\<lambda>_. ((node_ok h cores n \<and> node_id n \<notin> dom (map_of ids)) \<and> single_valued (recorded uses \<union> set (cert_claims ?co)))
        \<and> list_all (node_ok h cores) nodes \<and> distinct (map node_id nodes)
        \<and> node_id ` set nodes \<inter> dom (map_of (node_seen i n ids)) = {}
        \<and> single_valued (recorded ?uses \<union> (\<Union>n \<in> set nodes. set (node_claims n))))" for p
    unfolding F_def [abs_def]
    by (rule rule_comp [OF rule_comp [OF rule_comp [OF node_checks_rule node_dup_rule] checkSharedCertFiles_rule] Cons.IH])
  have uses: "recorded ?uses = recorded uses \<union> set (node_claims n)" if "single_valued (recorded uses \<union> set (node_claims n))"
    using checkSharedCertFiles_recorded [of uses ?co "[]" i undefined] that by (simp add: node_claims_def)
  have sub: "single_valued (recorded uses \<union> set (node_claims n))" if "single_valued (recorded uses \<union> (set (node_claims n) \<union> R))" for R
    by (rule single_valued_subset [OF _ that]) auto
  show ?case
  proof (rule rule_same [OF tail rule_at [of F, OF head]], goal_cases)
    case (1 ct)
    show ?case
    proof (cases "node_id n \<in> dom (map_of ids) \<or> \<not> single_valued (recorded uses \<union> set (node_claims n))")
      case True
      then show ?thesis using sub by (auto simp: node_claims_def)
    next
      case False
      then have "dom (map_of (node_seen i n ids)) = insert (node_id n) (dom (map_of ids))"
        by (simp add: node_seen_def dom_update domIff del: map_of_update_eq)
      then show ?thesis using False uses by (auto simp: node_claims_def [symmetric] Un_assoc)
    qed
  qed
qed

interpretation checkNodes: rule "checkNodes h nodes cores" "\<lambda>_. nodes_ok h cores nodes" for h nodes cores
proof (cases "nodes = []")
  case True
  then show "rule (checkNodes h nodes cores) (\<lambda>_. nodes_ok h cores nodes)"
    by (simp add: checkNodes_def [abs_def] nodes_ok_def rule_add)
next
  case False
  then show "rule (checkNodes h nodes cores) (\<lambda>_. nodes_ok h cores nodes)"
    using nodes_loop_rule [of h cores 0 nodes "[]" "[]"] by (simp add: checkNodes_def [abs_def] nodes_ok_def)
qed

section \<open>The whole configuration\<close>

definition conf_ok :: "host \<Rightarrow> string list \<Rightarrow> Conf \<Rightarrow> bool" where
  "conf_ok h built c \<longleftrightarrow> log_ok h (cf_LogConfig c) \<and> memory_ok (cf_MemoryConfig c) \<and> restart_ok h (cf_ScheduledRestart c)
     \<and> cores_ok h built (cf_CoresConfig c) \<and> nodes_ok h (core_table (cf_CoresConfig c)) (cf_NodeConfig c)"

lemma checkCores_fst: "fst (checkCores h cores v) = fst (checkCores h cores w)"
proof -
  have "fst (cores_loop h i cores seen names v) = fst (cores_loop h i cores seen names w)" for i seen names
  proof (induction cores arbitrary: i seen names v w)
    case (Cons c cores)
    then show ?case by (simp add: Let_def split: option.split)
  qed simp
  then show ?thesis by (simp add: checkCores_def)
qed

interpretation checkConf: rule "checkConf h c" "\<lambda>built. conf_ok h built c" for h c
proof (rule rule_same)
  let ?cores = "cf_CoresConfig c"
  let ?names = "fst (checkCores h ?cores undefined)"
  let ?w = "\<lambda>v. checkScheduledRestart h (cf_ScheduledRestart c) (checkMemory (cf_MemoryConfig c) (checkLog h (cf_LogConfig c) v))"
  show "checkConf h c v = checkNodes h (cf_NodeConfig c) ?names (snd (checkCores h ?cores
      (checkScheduledRestart h (cf_ScheduledRestart c) (checkMemory (cf_MemoryConfig c) (checkLog h (cf_LogConfig c) v)))))" for v
    using checkCores_fst [of h ?cores "?w v" undefined] by (simp add: checkConf_def split_beta Let_def)
  show "rule (\<lambda>v. checkNodes h (cf_NodeConfig c) ?names (snd (checkCores h ?cores
      (checkScheduledRestart h (cf_ScheduledRestart c) (checkMemory (cf_MemoryConfig c) (checkLog h (cf_LogConfig c) v))))))
    (\<lambda>built. (((log_ok h (cf_LogConfig c) \<and> memory_ok (cf_MemoryConfig c)) \<and> restart_ok h (cf_ScheduledRestart c))
      \<and> cores_ok h built ?cores) \<and> nodes_ok h ?names (cf_NodeConfig c))"
    by (rule rule_comp [OF rule_comp [OF rule_comp [OF rule_comp [OF checkLog.rule_axioms checkMemory.rule_axioms]
        checkScheduledRestart.rule_axioms] checkCores.rule_axioms] checkNodes.rule_axioms])
  show "((((log_ok h (cf_LogConfig c) \<and> memory_ok (cf_MemoryConfig c)) \<and> restart_ok h (cf_ScheduledRestart c))
      \<and> cores_ok h built ?cores) \<and> nodes_ok h ?names (cf_NodeConfig c)) = conf_ok h built c" for built
    using checkCores_table [of ?cores h undefined] by (auto simp: conf_ok_def cores_ok_def)
qed

end
