(* ===== verification/Edit_Distance.thy ===== *)
theory Edit_Distance
  imports Prelude
begin

text \<open>
  \<^verbatim>\<open>editDistance\<close> of \<^verbatim>\<open>src/conf/validate_schema.go\<close>, which finds the key an operator probably meant. The table of
  the source is filled in the same order; the result is shown to be the least cost of an alignment of the two
  words in which a letter is kept, changed, dropped, inserted or swapped with its neighbour.
\<close>

section \<open>The table\<close>

definition edit_cell :: "'a list \<Rightarrow> 'a list \<Rightarrow> nat list list \<Rightarrow> nat \<Rightarrow> nat \<Rightarrow> nat" where
  "edit_cell ra rb rows i j =
     (let cost = (if ra ! (i - 1) = rb ! (j - 1) then 0 else 1);
          d = min (min (rows ! (i - 1) ! j + 1) (rows ! i ! (j - 1) + 1)) (rows ! (i - 1) ! (j - 1) + cost)
      in if 1 < i \<and> 1 < j \<and> ra ! (i - 1) = rb ! (j - 2) \<and> ra ! (i - 2) = rb ! (j - 1)
         then min d (rows ! (i - 2) ! (j - 2) + 1) else d)"

definition edit_start :: "nat \<Rightarrow> nat \<Rightarrow> nat list list" where
  "edit_start m n = map (\<lambda>i. map (\<lambda>j. if i = 0 then j else if j = 0 then i else 0) [0..<n + 1]) [0..<m + 1]"

definition edit_row :: "'a list \<Rightarrow> 'a list \<Rightarrow> nat \<Rightarrow> nat list list \<Rightarrow> nat list list" where
  "edit_row ra rb i rows =
     fold (\<lambda>j rows. rows[i := (rows ! i)[j := edit_cell ra rb rows i j]]) [1..<length rb + 1] rows"

definition editDistance :: "'a list \<Rightarrow> 'a list \<Rightarrow> nat" where
  "editDistance ra rb =
     (let rows = fold (edit_row ra rb) [1..<length ra + 1] (edit_start (length ra) (length rb))
      in rows ! length ra ! length rb)"

section \<open>Alignments\<close>

inductive align :: "nat \<Rightarrow> 'a list \<Rightarrow> 'a list \<Rightarrow> bool" where
  nil: "align 0 [] []"
| keep: "align n a b \<Longrightarrow> align n (a @ [x]) (b @ [x])"
| drop: "align n a b \<Longrightarrow> align (Suc n) (a @ [x]) b"
| insert: "align n a b \<Longrightarrow> align (Suc n) a (b @ [x])"
| change: "align n a b \<Longrightarrow> align (Suc n) (a @ [x]) (b @ [y])"
| swap: "align n a b \<Longrightarrow> align (Suc n) (a @ [x, y]) (b @ [y, x])"

text \<open>The recursion behind the table, on the lengths of two prefixes.\<close>

fun osa :: "'a list \<Rightarrow> 'a list \<Rightarrow> nat \<Rightarrow> nat \<Rightarrow> nat" where
  "osa a b 0 j = j"
| "osa a b (Suc i) 0 = Suc i"
| "osa a b (Suc i) (Suc j) =
     (let d = min (min (osa a b i (Suc j) + 1) (osa a b (Suc i) j + 1)) (osa a b i j + (if a ! i = b ! j then 0 else 1))
      in if 0 < i \<and> 0 < j \<and> a ! i = b ! (j - 1) \<and> a ! (i - 1) = b ! j
         then min d (osa a b (i - 1) (j - 1) + 1) else d)"

lemma osa_0 [simp]: "osa a b i 0 = i"
  by (cases i) auto

lemma osa_step:
  "0 < i \<Longrightarrow> 0 < j \<Longrightarrow> osa a b i j =
     (let d = min (min (osa a b (i - 1) j + 1) (osa a b i (j - 1) + 1))
                  (osa a b (i - 1) (j - 1) + (if a ! (i - 1) = b ! (j - 1) then 0 else 1))
      in if 1 < i \<and> 1 < j \<and> a ! (i - 1) = b ! (j - 2) \<and> a ! (i - 2) = b ! (j - 1)
         then min d (osa a b (i - 2) (j - 2) + 1) else d)"
  by (cases i; cases j) (simp_all add: numeral_2_eq_2 Let_def)

lemma osa_swap:
  "1 < i \<Longrightarrow> 1 < j \<Longrightarrow> a ! (i - 1) = b ! (j - 2) \<Longrightarrow> a ! (i - 2) = b ! (j - 1) \<Longrightarrow>
     osa a b i j \<le> osa a b (i - 2) (j - 2) + 1"
  by (subst osa_step) (simp_all add: Let_def min_le_iff_disj del: osa.simps)

lemma osa_append: "i \<le> length a \<Longrightarrow> j \<le> length b \<Longrightarrow> osa (a @ c) (b @ d) i j = osa a b i j"
proof (induction a b i j rule: osa.induct)
  case (3 a b i j)
  then have "(a @ c) ! i = a ! i" "(b @ d) ! j = b ! j" "(a @ c) ! (i - 1) = a ! (i - 1)" "(b @ d) ! (j - 1) = b ! (j - 1)"
    using "3.prems" by (simp_all add: nth_append less_imp_diff_less)
  with 3 show ?case by (simp add: Let_def)
qed auto

lemma take_Suc_app: "i < length a \<Longrightarrow> take (Suc i) a = take i a @ [a ! i]"
  by (rule take_Suc_conv_app_nth)

lemma osa_align: "i \<le> length a \<Longrightarrow> j \<le> length b \<Longrightarrow> align (osa a b i j) (take i a) (take j b)"
proof (induction a b i j rule: osa.induct)
  case (1 a b j)
  then have "align j [] (take j b)"
  proof (induction j)
    case (Suc j)
    then show ?case using align.insert [of j "[]" "take j b" "b ! j"] by (simp add: take_Suc_app)
  qed (simp add: align.nil)
  then show ?case by simp
next
  case (2 a b i)
  then have "align i (take i a) []" if "i \<le> length a" for i
    using that
  proof (induction i)
    case (Suc i)
    then show ?case using align.drop [of i "take i a" "[]" "a ! i"] by (simp add: take_Suc_app)
  qed (simp add: align.nil)
  with 2 show ?case by simp
next
  case (3 a b i j)
  have ij: "i < length a" "j < length b" using "3.prems" by simp_all
  note ta = take_Suc_app [OF ij(1)] and tb = take_Suc_app [OF ij(2)]
  have del: "align (osa a b i (Suc j) + 1) (take (Suc i) a) (take (Suc j) b)"
    using align.drop [OF 3(1)] "3.prems" by (simp add: ta)
  have ins: "align (osa a b (Suc i) j + 1) (take (Suc i) a) (take (Suc j) b)"
    using align.insert [OF 3(2)] "3.prems" by (simp add: tb)
  have sub: "align (osa a b i j + (if a ! i = b ! j then 0 else 1)) (take (Suc i) a) (take (Suc j) b)"
    using align.keep [OF 3(3), of "b ! j"] align.change [OF 3(3), of "a ! i" "b ! j"] ij by (simp add: ta tb)
  have swap: "align (osa a b (i - 1) (j - 1) + 1) (take (Suc i) a) (take (Suc j) b)"
    if t: "0 < i" "0 < j" "a ! i = b ! (j - 1)" "a ! (i - 1) = b ! j"
  proof -
    have "take i a = take (i - 1) a @ [a ! (i - 1)]" "take j b = take (j - 1) b @ [b ! (j - 1)]"
      using take_Suc_app [of "i - 1" a] take_Suc_app [of "j - 1" b] t ij by simp_all
    then show ?thesis
      using align.swap [OF 3(4), where x = "a ! (i - 1)" and y = "a ! i"] t ij by (simp add: ta tb)
  qed
  show ?case using del ins sub swap by (auto simp: min_def Let_def)
qed

lemma align_osa: "align n a b \<Longrightarrow> osa a b (length a) (length b) \<le> n"
proof (induction rule: align.induct)
  case (keep n a b x)
  have "osa (a @ [x]) (b @ [x]) (Suc (length a)) (Suc (length b)) \<le> osa (a @ [x]) (b @ [x]) (length a) (length b)"
    by (simp add: Let_def min_le_iff_disj)
  with keep.IH show ?case by (simp add: osa_append)
next
  case (drop n a b x)
  have "osa (a @ [x]) (b @ []) (length a) (length b) = osa a b (length a) (length b)" by (rule osa_append) simp_all
  then have "osa (a @ [x]) b (Suc (length a)) (length b) \<le> osa a b (length a) (length b) + 1"
    by (cases "length b") (simp_all add: Let_def min_le_iff_disj)
  with drop.IH show ?case by simp
next
  case (insert n a b x)
  have "osa (a @ []) (b @ [x]) (length a) (length b) = osa a b (length a) (length b)" by (rule osa_append) simp_all
  then have "osa a (b @ [x]) (length a) (Suc (length b)) \<le> osa a b (length a) (length b) + 1"
    by (cases "length a") (simp_all add: Let_def min_le_iff_disj)
  with insert.IH show ?case by simp
next
  case (change n a b x y)
  have "osa (a @ [x]) (b @ [y]) (Suc (length a)) (Suc (length b)) \<le> osa (a @ [x]) (b @ [y]) (length a) (length b) + 1"
    by (simp add: Let_def min_le_iff_disj)
  with change.IH show ?case by (simp add: osa_append)
next
  case (swap n a b x y)
  have "osa (a @ [x, y]) (b @ [y, x]) (length a + 2) (length b + 2)
      \<le> osa (a @ [x, y]) (b @ [y, x]) (length a + 2 - 2) (length b + 2 - 2) + 1"
    by (rule osa_swap) (simp_all add: nth_append)
  with swap.IH show ?case by (simp add: osa_append numeral_2_eq_2 del: osa.simps)
qed simp

section \<open>The table holds the recursion\<close>

definition filled :: "'a list \<Rightarrow> 'a list \<Rightarrow> nat \<Rightarrow> nat \<Rightarrow> nat list list \<Rightarrow> bool" where
  "filled a b i j rows \<longleftrightarrow> length rows = length a + 1 \<and> (\<forall>r \<le> length a. length (rows ! r) = length b + 1)
     \<and> (\<forall>k \<le> length a. \<forall>l \<le> length b. k = 0 \<or> l = 0 \<or> k < i \<or> k = i \<and> l < j \<longrightarrow> rows ! k ! l = osa a b k l)"

lemma filled_start: "filled a b 1 1 (edit_start (length a) (length b))"
proof -
  have e: "edit_start (length a) (length b) ! k = map (\<lambda>j. if k = 0 then j else if j = 0 then k else 0) [0..<length b + 1]"
    if "k \<le> length a" for k
    using that by (simp add: edit_start_def nth_map_upt del: upt_Suc)
  have c: "edit_start (length a) (length b) ! k ! l = (if k = 0 then l else if l = 0 then k else 0)"
    if "k \<le> length a" "l \<le> length b" for k l
    using that e by (simp add: nth_map_upt del: upt_Suc)
  have "length (edit_start (length a) (length b)) = length a + 1" by (simp add: edit_start_def)
  then show ?thesis by (auto simp: filled_def c e simp del: upt_Suc)
qed

lemma filled_cell:
  assumes f: "filled a b i j rows" and i: "1 \<le> i" "i \<le> length a" and j: "1 \<le> j" "j \<le> length b"
  shows "filled a b i (j + 1) (rows[i := (rows ! i)[j := edit_cell a b rows i j]])"
proof -
  have at: "rows ! k ! l = osa a b k l" if "k \<le> length a" "l \<le> length b" "k = 0 \<or> l = 0 \<or> k < i \<or> k = i \<and> l < j" for k l
    using f that unfolding filled_def by blast
  have cell: "edit_cell a b rows i j = osa a b i j"
    unfolding edit_cell_def using i j by (subst osa_step) (simp_all add: at Let_def)
  have len: "length rows = length a + 1" "\<And>r. r \<le> length a \<Longrightarrow> length (rows ! r) = length b + 1"
    using f by (auto simp: filled_def)
  show ?thesis
    unfolding filled_def
  proof (intro conjI allI impI)
    fix k l
    assume kl: "k \<le> length a" "l \<le> length b" "k = 0 \<or> l = 0 \<or> k < i \<or> k = i \<and> l < j + 1"
    show "rows[i := (rows ! i)[j := edit_cell a b rows i j]] ! k ! l = osa a b k l"
    proof (cases "k = i \<and> l = j")
      case True
      then show ?thesis using len i j cell by simp
    next
      case False
      with kl have "rows ! k ! l = osa a b k l" by (intro at) auto
      with False len i show ?thesis by (cases "k = i") auto
    qed
  qed (use len i in \<open>auto simp: nth_list_update\<close>)
qed

lemma filled_next: "filled a b i (Suc (length b)) rows \<Longrightarrow> filled a b (i + 1) 1 rows"
  unfolding filled_def by (metis Suc_eq_plus1 le_imp_less_Suc less_Suc_eq less_one)

lemma filled_row:
  assumes "filled a b i 1 rows" "1 \<le> i" "i \<le> length a"
  shows "filled a b (i + 1) 1 (edit_row a b i rows)"
proof -
  have "filled a b i (Suc n) (fold (\<lambda>j rows. rows[i := (rows ! i)[j := edit_cell a b rows i j]]) [1..<Suc n] rows)"
    if "n \<le> length b" for n
    using that
  proof (induction n)
    case (Suc n)
    then show ?case using filled_cell [OF Suc.IH assms(2,3), of] by simp
  qed (use assms in simp)
  from filled_next [OF this [of "length b"]] show ?thesis by (simp add: edit_row_def)
qed

lemma editDistance_osa: "editDistance a b = osa a b (length a) (length b)"
proof -
  have "filled a b (Suc n) 1 (fold (edit_row a b) [1..<Suc n] (edit_start (length a) (length b)))" if "n \<le> length a" for n
    using that
  proof (induction n)
    case (Suc n)
    then show ?case using filled_row [OF Suc.IH] by simp
  qed (use filled_start [of a b] in simp)
  from this [of "length a"] show ?thesis by (auto simp: editDistance_def filled_def)
qed

text \<open>
  C33. The edit distance is the least cost of an alignment: some alignment of the two words costs that much, and
  none costs less.
\<close>

theorem editDistance_optimal: "editDistance a b = (LEAST n. align n a b) \<and> align (editDistance a b) a b"
proof -
  have "align (editDistance a b) a b"
    using osa_align [of "length a" a "length b" b] by (simp add: editDistance_osa)
  moreover from this have "(LEAST n. align n a b) = editDistance a b"
    by (rule Least_equality) (simp add: align_osa editDistance_osa)
  ultimately show ?thesis by simp
qed

end
