(* ===== verification/Conf_Schema.thy ===== *)
theory Conf_Schema
  imports Conf_Rules Edit_Distance
begin

text \<open>
  The schema check of \<^verbatim>\<open>src/conf/validate_schema.go\<close>: it walks the undecoded file beside the Go types and reports
  keys the decoder would ignore. A Go type is what the check uses of it: its kind and what is done with a value of
  it. The tables list the tagged fields of each struct in order; they are shown to name exactly the keys of the
  decoders.
\<close>

section \<open>Types\<close>

datatype kind = KStruct | KMap | KSlice | KOther

type_synonym checker = "bool \<Rightarrow> string \<Rightarrow> json \<Rightarrow> validator \<Rightarrow> validator"

type_synonym schemaField = "string \<times> kind \<times> checker"

definition kindMatches :: "kind \<Rightarrow> json \<Rightarrow> bool" where
  "kindMatches t value =
     (case value of JObj _ \<Rightarrow> t = KStruct \<or> t = KMap | JArr _ \<Rightarrow> t = KSlice | _ \<Rightarrow> True)"

definition matchField :: "schemaField list \<Rightarrow> string \<Rightarrow> json \<Rightarrow> bool \<Rightarrow> schemaField option" where
  "matchField fl key value ci =
     (let exact = filter (\<lambda>f. fst f = key) fl;
          candidates = (if exact = [] \<and> ci then filter (\<lambda>f. to_lower (fst f) = to_lower key) fl else exact)
      in if candidates = [] then None
         else case find (\<lambda>f. kindMatches (fst (snd f)) value) candidates of
                Some f \<Rightarrow> Some f | None \<Rightarrow> Some (hd candidates))"

fun suggest_loop :: "string \<Rightarrow> (string \<times> nat) option \<Rightarrow> schemaField list \<Rightarrow> (string \<times> nat) option" where
  "suggest_loop lowerKey best [] = best"
| "suggest_loop lowerKey best (f # fs) =
     (let d = editDistance (runes lowerKey) (runes (to_lower (fst f))) in
      suggest_loop lowerKey
        (case best of None \<Rightarrow> Some (fst f, d) | Some (b, bd) \<Rightarrow> if d < bd then Some (fst f, d) else Some (b, bd)) fs)"

definition suggestField :: "string \<Rightarrow> schemaField list \<Rightarrow> string" where
  "suggestField key fl =
     (case suggest_loop (to_lower key) None fl of
        None \<Rightarrow> []
      | Some (b, d) \<Rightarrow> if max 2 (length key div 3) < d then [] else b)"

definition unknownKeyMessage :: "string \<Rightarrow> schemaField list \<Rightarrow> bool \<Rightarrow> message" where
  "unknownKeyMessage key fl ci =
     (let s = suggestField key fl in
      if s \<noteq> [] then
        if \<not> ci \<and> to_lower s = to_lower key
        then Msg ''unknown key; did you mean %q? (key names are case-sensitive here)'' [AStr s]
        else Msg ''unknown key; did you mean %q?'' [AStr s]
      else Msg ''unknown key (it would be ignored)'' [])"

section \<open>Values\<close>

fun object_loop :: "string \<Rightarrow> schemaField list \<Rightarrow> bool \<Rightarrow> (string, string) gomap \<Rightarrow> (string \<times> json) list \<Rightarrow> validator \<Rightarrow> validator" where
  "object_loop path fl ci used [] v = v"
| "object_loop path fl ci used ((key, value) # kvs) v =
     (if has_prefix key ''_'' then object_loop path fl ci used kvs v
      else let keyPath = joinPath path key in
        case matchField fl key value ci of
          None \<Rightarrow> object_loop path fl ci used kvs (add keyPath (unknownKeyMessage key fl ci) v)
        | Some (name, k, check) \<Rightarrow>
            (case map_of used name of
               Some previous \<Rightarrow> object_loop path fl ci used kvs
                 (add keyPath (Msg ''duplicate of %q (key names are not case-sensitive here); keep only one'' [AStr previous]) v)
             | None \<Rightarrow> object_loop path fl ci (AList.update name key used) kvs (check ci keyPath value v)))"

definition sorted_entries :: "(string \<times> json) list \<Rightarrow> (string \<times> json) list" where
  "sorted_entries object = map (\<lambda>k. (k, mget JNull object k)) (sortedKeys object)"

definition checkObject :: "string \<Rightarrow> (string \<times> json) list \<Rightarrow> schemaField list \<Rightarrow> bool \<Rightarrow> validator \<Rightarrow> validator" where
  "checkObject path object fl ci = object_loop path fl ci [] (sorted_entries object)"

text \<open>\<^verbatim>\<open>checkValue\<close>, by the kind of the type.\<close>

definition check_scalar :: checker where
  "check_scalar ci path value v = v"

definition check_struct :: "schemaField list \<Rightarrow> checker" where
  "check_struct fl ci path value v =
     (case value of JObj object \<Rightarrow> checkObject path object fl ci v | _ \<Rightarrow> v)"

definition check_slice :: "checker \<Rightarrow> checker" where
  "check_slice elem ci path value v =
     (case value of JArr js \<Rightarrow> each js (\<lambda>i j. elem ci (indexPath path i) j) v | _ \<Rightarrow> v)"

definition check_map :: "checker \<Rightarrow> checker" where
  "check_map elem ci path value v =
     (case value of
        JObj object \<Rightarrow> each (sorted_entries object) (\<lambda>_ (k, j). elem ci (joinPath path k) j) v
      | _ \<Rightarrow> v)"

definition scalar :: "string \<Rightarrow> schemaField" where "scalar n = (n, KOther, check_scalar)"
definition struct :: "string \<Rightarrow> schemaField list \<Rightarrow> schemaField" where "struct n fs = (n, KStruct, check_struct fs)"
definition slice :: "string \<Rightarrow> checker \<Rightarrow> schemaField" where "slice n c = (n, KSlice, check_slice c)"
definition dict :: "string \<Rightarrow> checker \<Rightarrow> schemaField" where "dict n c = (n, KMap, check_map c)"

section \<open>Structs\<close>

definition LimitConfig_schema :: "schemaField list" where
  "LimitConfig_schema =
     map scalar [''EnableRealtime'', ''SpeedLimit'', ''DeviceLimit'', ''ConnLimit'', ''EnableIpRecorder''] @
     [struct ''IpRecorderConfig''
        ([scalar ''Periodic'', scalar ''Type'',
          struct ''RecorderConfig'' (map scalar [''Url'', ''Token'', ''Timeout'']),
          struct ''RedisConfig'' (map scalar [''Address'', ''Password'', ''Db'', ''Expiry'']),
          scalar ''EnableIpSync'']),
      scalar ''EnableDynamicSpeedLimit'',
      struct ''DynamicSpeedLimitConfig'' (map scalar [''Periodic'', ''Traffic'', ''SpeedLimit'', ''ExpireTime''])]"

definition XrayOptions_schema :: "schemaField list" where
  "XrayOptions_schema =
     map scalar [''EnableProxyProtocol'', ''EnableDNS'', ''DNSType'', ''EnableUot'', ''EnableTFO'', ''DisableIVCheck'',
       ''DisableSniffing'', ''EnableFallback'', ''DecoyFallback''] @
     [slice ''FallBackConfigs'' (check_struct (map scalar [''SNI'', ''Alpn'', ''Path'', ''Dest'', ''ProxyProtocolVer'']))]"

definition SingOptions_schema :: "schemaField list" where
  "SingOptions_schema =
     map scalar [''EnableTFO'', ''EnableSniff'', ''SniffOverrideDestination'', ''EnableDNS'', ''DomainStrategy''] @
     [struct ''FallBackConfigs''
        [struct ''FallBack'' (map scalar [''Server'', ''ServerPort'']),
         dict ''FallBackForALPN'' (check_struct (map scalar [''Server'', ''ServerPort'']))],
      struct ''MultiplexConfig''
        [scalar ''Enable'', scalar ''Padding'', struct ''Brutal'' (map scalar [''Enable'', ''UpMbps'', ''DownMbps''])],
      struct ''ShadowTLSOptions''
        [scalar ''Version'', scalar ''HandshakeServer'', scalar ''HandshakeServerPort'', scalar ''StrictMode'',
         dict ''HandshakeForServerName'' (check_struct (map scalar [''Server'', ''ServerPort''])), scalar ''WildcardSNI''],
      struct ''NaiveOptions'' [scalar ''Network''],
      struct ''HysteriaOptions''
        (slice ''PortHopping'' check_scalar # map scalar [''Masquerade'', ''BrutalDebug'', ''ReceiveWindowConn'',
          ''ReceiveWindowClient'', ''MaxConnClient'', ''DisableMTUDiscovery'']),
      struct ''TuicOptions'' (map scalar [''AuthTimeout'', ''Heartbeat'', ''CongestionControl''])]"

definition certConfigJSON_schema :: "schemaField list" where
  "certConfigJSON_schema =
     map (\<lambda>n. if n = ''DNSEnv'' \<or> n = ''dns_env'' then dict n check_scalar else scalar n) (map fst certConfigJSON_fields)"

definition DDNSConfig_schema :: "schemaField list" where
  "DDNSConfig_schema =
     map scalar [''Enabled'', ''Provider'', ''Domain'', ''ZoneName'', ''RecordType'', ''Interval'', ''TTL'', ''IPURL''] @
     [dict ''DNSEnv'' check_scalar]"

text \<open>\<^verbatim>\<open>optionFields\<close>: the keys of an options block for a core, without those the decoder fills itself.\<close>

definition Options_schema :: "schemaField list" where
  "Options_schema =
     map scalar [''Name'', ''Core'', ''CoreName'', ''ListenIP'', ''SendIP'', ''DeviceOnlineMinTraffic'', ''ReportMinTraffic''] @
     [struct ''LimitConfig'' LimitConfig_schema,
      struct ''ArtXOptions'' (map scalar [''WindowBudgetSharePercent'', ''WindowBudgetReservePercent'']),
      struct ''CertConfig'' certConfigJSON_schema,
      struct ''DDNSConfig'' DDNSConfig_schema]"

definition optionFields :: "string \<Rightarrow> schemaField list" where
  "optionFields core =
     Options_schema @ (if core \<noteq> ''sing'' then XrayOptions_schema else [])
       @ (if core \<noteq> ''xray'' then SingOptions_schema else [])"

definition check_options :: checker where
  "check_options ci path value v =
     (case value of
        JObj object \<Rightarrow> checkObject path object (optionFields (stringKey object ''Core'')) True v
      | _ \<Rightarrow> v)"

definition apiConfigFields :: "schemaField list" where
  "apiConfigFields =
     map scalar [''ApiHost'', ''ApiSendIP'', ''NodeID'', ''ApiKey'', ''NodeType'', ''Timeout'', ''RuleListPath''] @
     [struct ''WebSocket'' (map scalar [''Enabled'', ''URL'', ''Debug''])]"

definition XrayConfig_schema :: "schemaField list" where
  "XrayConfig_schema =
     [struct ''Log'' (map scalar [''Level'', ''AccessPath'', ''ErrorPath'']),
      scalar ''AssetPath'', scalar ''DnsConfigPath'', scalar ''RouteConfigPath'',
      struct ''ConnectionConfig'' (map scalar (map fst XrayConnectionConfig_fields)),
      struct ''XrayConnectionConfig'' (map scalar (map fst XrayConnectionConfig_fields)),
      scalar ''InboundConfigPath'', scalar ''OutboundConfigPath'', scalar ''EnableBTExtraSniffing'']"

definition SingConfig_schema :: "schemaField list" where
  "SingConfig_schema =
     [struct ''Log'' (map scalar [''Disable'', ''Level'', ''Output'', ''Timestamp'']),
      struct ''NTP'' (map scalar [''Enable'', ''Server'', ''ServerPort'']),
      scalar ''OriginalPath'']"

section \<open>Cores, nodes, the file\<close>

definition checkCore :: checker where
  "checkCore ci path value v =
     (case value of
        JObj object \<Rightarrow>
          if stringKey object ''Type'' = ''xray'' then
            checkObject path object (map scalar [''Type'', ''Name''] @ XrayConfig_schema) True v
          else if stringKey object ''Type'' = ''sing'' then
            checkObject path object (map scalar [''Type'', ''Name''] @ SingConfig_schema) True v
          else v
      | _ \<Rightarrow> v)"

definition node_fields :: "(string \<times> json) list \<Rightarrow> schemaField list" where
  "node_fields body =
     [scalar ''Include'', struct ''ApiConfig'' apiConfigFields, (''Options'', KStruct, check_options)]
     @ (if lookupKey body ''ApiConfig'' = None then apiConfigFields else [])
     @ (if lookupKey body ''Options'' = None then optionFields (stringKey body ''Core'') else [])"

definition checkNodeBody :: "string \<Rightarrow> (string \<times> json) list \<Rightarrow> validator \<Rightarrow> validator" where
  "checkNodeBody path body = checkObject path body (node_fields body) True"

definition node_body :: "string \<Rightarrow> (string \<times> json) list \<Rightarrow> validator \<Rightarrow> validator" where
  "node_body path body v =
     checkNodeBody path body (v\<lparr>v_nodeBodies := AList.update path body (v_nodeBodies v)\<rparr>)"

definition checkNode :: "host \<Rightarrow> checker" where
  "checkNode h ci path value v =
     (case value of
        JObj object \<Rightarrow>
          let incl = stringKey object ''Include'' in
          if incl = [] then node_body path object v
          else
            let v1 = each (sortedKeys object) (\<lambda>_ key.
                       report (\<not> has_prefix key ''_'' \<and> to_lower key \<noteq> to_lower ''Include'') (joinPath path key)
                         (Msg ''ignored because Include is set; move it into %s'' [AStr incl])) v;
                includePath = joinPath path ''Include'' in
            (case h_ReadFile h incl of
               None \<Rightarrow> add includePath (Msg ''cannot read include file: %v'' [AErr]) v1
             | Some raw \<Rightarrow>
                 (case parseJSON5 h includePath raw v1 of
                    (None, v2) \<Rightarrow> v2
                  | (Some tree, v2) \<Rightarrow>
                      (case resolveEnv h path tree v2 of
                         (JObj body, v3) \<Rightarrow> node_body path body v3
                       | (_, v3) \<Rightarrow> add includePath (Msg ''include file %s must contain a JSON object'' [AStr incl]) v3)))
      | _ \<Rightarrow> v)"

definition Conf_schema :: "host \<Rightarrow> schemaField list" where
  "Conf_schema h =
     [struct ''Log'' (map scalar [''Level'', ''Output'']),
      slice ''Cores'' checkCore,
      slice ''Nodes'' (checkNode h),
      struct ''Memory'' (map scalar [''SoftLimitPercent'', ''RestartPercent'']),
      struct ''ScheduledRestart'' (map scalar [''Enabled'', ''IntervalDays'', ''StartTime'', ''EndTime'', ''Timezone''])]"

definition checkRoot :: "host \<Rightarrow> json \<Rightarrow> validator \<Rightarrow> validator" where
  "checkRoot h tree v =
     (case tree of
        JObj obj \<Rightarrow> checkObject [] obj (Conf_schema h) False v
      | _ \<Rightarrow> add [] (Msg ''the config file must be a JSON object'' []) v)"

section \<open>The tables name the keys of the decoders\<close>

lemma schema_names:
  "map fst LimitConfig_schema = map fst LimitConfig_fields"
  "map fst XrayOptions_schema = map fst XrayOptions_fields"
  "map fst SingOptions_schema = map fst SingOptions_fields"
  "map fst certConfigJSON_schema = map fst certConfigJSON_fields"
  "map fst DDNSConfig_schema = map fst DDNSConfig_fields"
  "map fst apiConfigFields = map fst ApiConfig_fields"
  "map fst XrayConfig_schema = map fst XrayConfig_fields"
  "map fst SingConfig_schema = map fst SingConfig_fields"
  "map fst Options_schema
     = filter (\<lambda>n. n \<notin> {''RawOptions'', ''XrayOptions'', ''SingOptions''}) (map fst (Options_fields h))"
  by (simp_all add: LimitConfig_schema_def LimitConfig_fields_def XrayOptions_schema_def XrayOptions_fields_def
      SingOptions_schema_def SingOptions_fields_def certConfigJSON_schema_def certConfigJSON_fields_def
      DDNSConfig_schema_def DDNSConfig_fields_def apiConfigFields_def ApiConfig_fields_def XrayConfig_schema_def
      XrayConfig_fields_def SingConfig_schema_def SingConfig_fields_def Options_schema_def Options_fields_def
      scalar_def struct_def slice_def dict_def)

section \<open>The schema check reports by appending\<close>

definition grows :: "validator \<Rightarrow> validator \<Rightarrow> bool" where
  "grows v w \<longleftrightarrow> (\<exists>xs. v_issues w = v_issues v @ xs) \<and> v_CoreTypes w = v_CoreTypes v
     \<and> (env_reported v \<longrightarrow> env_reported w)"

lemma reporter_grows: "reporter f \<longleftrightarrow> (\<forall>v. grows v (f v))"
  by (auto simp: reporter_def grows_def)

lemma grows_refl [simp]: "grows v v"
  by (simp add: grows_def)

lemma grows_trans: "grows u v \<Longrightarrow> grows v w \<Longrightarrow> grows u w"
  unfolding grows_def by (metis append.assoc)

lemma grows_add [simp]: "grows v (add path m v)"
  using add.reporter_axioms by (simp add: reporter_grows)

lemma grows_report [simp]: "grows v (report b path m v)"
  by (simp add: report_def)

lemma grows_body [simp]: "grows v (v_nodeBodies_update f v)"
  by (simp add: grows_def env_reported_def)

lemma grows_issues: "grows v w \<Longrightarrow> v_issues w = [] \<Longrightarrow> env_reported v \<Longrightarrow> v_issues v = [] \<and> v_envPaths v = []"
  by (auto simp: grows_def env_reported_def)

lemma grows_steps: "(\<And>f v. f \<in> set fs \<Longrightarrow> grows v (f v)) \<Longrightarrow> grows v (steps fs v)"
proof (induction fs arbitrary: v)
  case (Cons f fs)
  then have "grows v (f v)" "grows (f v) (steps fs (f v))" by simp_all
  then show ?case using grows_trans by simp
qed simp

lemma grows_each: "(\<And>i x v. x \<in> set xs \<Longrightarrow> grows v (f i x v)) \<Longrightarrow> grows v (each xs f v)"
  unfolding each_def by (rule grows_steps) (auto simp: in_set_enumerate_eq)

lemma grows_env:
  "path \<in> set (v_envPaths v) \<or> v_issues v \<noteq> [] \<Longrightarrow> grows v (v\<lparr>v_envPaths := path # v_envPaths v\<rparr>)"
  by (auto simp: grows_def env_reported_def)

lemma add_reports: "path \<in> set (v_envPaths (add path m v)) \<or> v_issues (add path m v) \<noteq> []"
  by (simp add: add_def addKind_def)

lemma grows_resolve:
  "grows v (snd (resolveEnvValue h path j c v))"
  "grows v (snd (resolve_entries h path kvs c v))"
  "grows v (snd (resolve_elems h path i js c v))"
proof (induction h path j c v and h path kvs c v and h path i js c v
    rule: resolveEnvValue_resolve_entries_resolve_elems.induct)
  case (3 h path s c v)
  have "grows v (let v1 = add path m v in v1\<lparr>v_envPaths := path # v_envPaths v1\<rparr>)" for m
    using grows_trans [OF grows_add grows_env [OF add_reports]] by (simp add: Let_def)
  then show ?case by (auto split: sum.splits)
next
  case (8 h path k j kvs c v)
  then show ?case by (auto split: prod.splits intro: grows_trans)
next
  case (10 h path i j js c v)
  then show ?case by (auto split: prod.splits intro: grows_trans)
qed (auto split: prod.splits)

interpretation resolveEnv: reporter "\<lambda>v. snd (resolveEnv h path tree v)" for h path tree
  by (simp add: reporter_grows resolveEnv_def grows_resolve)

text \<open>A table whose checks append.\<close>

definition reports :: "schemaField list \<Rightarrow> bool" where
  "reports fl \<longleftrightarrow> (\<forall>f \<in> set fl. \<forall>ci p j v. grows v (snd (snd f) ci p j v))"

lemma matchField_in: "matchField fl key j ci = Some f \<Longrightarrow> f \<in> set fl \<and> (fst f = key \<or> ci \<and> to_lower (fst f) = to_lower key)"
proof -
  assume m: "matchField fl key j ci = Some f"
  define cs where "cs = (if filter (\<lambda>f. fst f = key) fl = [] \<and> ci
    then filter (\<lambda>f. to_lower (fst f) = to_lower key) fl else filter (\<lambda>f. fst f = key) fl)"
  have "matchField fl key j ci = (if cs = [] then None
      else case find (\<lambda>f. kindMatches (fst (snd f)) j) cs of Some f \<Rightarrow> Some f | None \<Rightarrow> Some (hd cs))"
    unfolding matchField_def Let_def cs_def by (rule refl)
  with m have "f \<in> set cs" by (auto simp: find_Some_iff split: if_splits option.splits)
  then show ?thesis by (auto simp: cs_def split: if_splits)
qed

lemma grows_object_loop: "reports fl \<Longrightarrow> grows v (object_loop path fl ci used kvs v)"
proof (induction kvs arbitrary: used v)
  case (Cons kv kvs)
  obtain k j where kv: "kv = (k, j)" by (cases kv)
  have IH: "grows w (object_loop path fl ci u kvs w)" for u w by (rule Cons.IH [OF Cons.prems])
  have chk: "grows v (c ci p j v)" if "matchField fl k j ci = Some (n, t, c)" for n t c p
    using matchField_in [OF that] Cons.prems unfolding reports_def by (metis snd_conv)
  show ?case
    using IH chk by (auto simp: kv Let_def split: option.splits intro: grows_trans [OF grows_add IH] grows_trans [OF chk IH])
qed simp

lemma grows_checkObject: "reports fl \<Longrightarrow> grows v (checkObject path obj fl ci v)"
  by (simp add: checkObject_def grows_object_loop)

lemma reports_Nil [simp]: "reports []"
  by (simp add: reports_def)

lemma reports_Cons [simp]: "reports (f # fl) \<longleftrightarrow> (\<forall>ci p j v. grows v (snd (snd f) ci p j v)) \<and> reports fl"
  by (auto simp: reports_def)

lemma reports_append [simp]: "reports (fl @ gl) \<longleftrightarrow> reports fl \<and> reports gl"
  unfolding reports_def set_append ball_Un by (rule refl)

lemma grows_scalar [simp]: "grows v (check_scalar ci p j v)"
  by (simp add: check_scalar_def)

lemma reports_scalars [simp]: "reports (map scalar ns)" "reports (map (scalar \<circ> g) xs)"
  by (auto simp: reports_def scalar_def)

lemma grows_struct [simp]: "reports fl \<Longrightarrow> grows v (check_struct fl ci p j v)"
  by (cases j) (simp_all add: check_struct_def grows_checkObject)

lemma grows_slice [simp]: "(\<And>ci p j v. grows v (c ci p j v)) \<Longrightarrow> grows v (check_slice c ci p j v)"
  by (cases j) (simp_all add: check_slice_def grows_each)

lemma grows_dict [simp]: "(\<And>ci p j v. grows v (c ci p j v)) \<Longrightarrow> grows v (check_map c ci p j v)"
  by (cases j) (auto simp: check_map_def intro!: grows_each split: prod.splits)

lemmas field_checks = scalar_def struct_def slice_def dict_def

lemma reports_tables [simp]:
  "reports LimitConfig_schema" "reports XrayOptions_schema" "reports SingOptions_schema"
  "reports certConfigJSON_schema" "reports DDNSConfig_schema" "reports apiConfigFields"
  "reports XrayConfig_schema" "reports SingConfig_schema"
  by (simp_all add: LimitConfig_schema_def XrayOptions_schema_def SingOptions_schema_def certConfigJSON_schema_def
      certConfigJSON_fields_def DDNSConfig_schema_def apiConfigFields_def XrayConfig_schema_def SingConfig_schema_def
      field_checks)

lemma reports_options [simp]: "reports Options_schema" "reports (optionFields core)"
  by (simp_all add: optionFields_def Options_schema_def field_checks)

lemma grows_options [simp]: "grows v (check_options ci p j v)"
  by (cases j) (simp_all add: check_options_def grows_checkObject)

lemma grows_core [simp]: "grows v (checkCore ci p j v)"
  by (cases j) (simp_all add: checkCore_def grows_checkObject scalar_def)

lemma grows_node_body [simp]: "grows v (node_body path body v)"
proof -
  have "reports (node_fields body)" by (simp add: node_fields_def field_checks)
  then show ?thesis
    using grows_trans [OF grows_body grows_checkObject] by (simp add: node_body_def checkNodeBody_def)
qed

lemma grows_node [simp]: "grows v (checkNode h ci path j v)"
proof (cases "\<exists>obj. j = JObj obj \<and> stringKey obj ''Include'' \<noteq> []")
  case True
  then obtain obj where j: "j = JObj obj" "stringKey obj ''Include'' \<noteq> []" by blast
  let ?incl = "stringKey obj ''Include''" and ?ip = "joinPath path ''Include''"
  define v1 where "v1 = each (sortedKeys obj) (\<lambda>_ key.
    report (\<not> has_prefix key ''_'' \<and> to_lower key \<noteq> to_lower ''Include'') (joinPath path key)
      (Msg ''ignored because Include is set; move it into %s'' [AStr ?incl])) v"
  have g1: "grows v v1" unfolding v1_def by (rule grows_each) simp
  have g2: "grows v v2" if "parseJSON5 h ?ip raw v1 = (r, v2)" for raw r v2
    using grows_trans [OF g1] parseJSON5.reporter_axioms [of h ?ip raw] that unfolding reporter_grows by (metis snd_conv)
  have g3: "grows v v3" if "parseJSON5 h ?ip raw v1 = (r, v2)" "resolveEnv h path tree v2 = (t, v3)" for raw r v2 tree t v3
    using grows_trans [OF g2 [OF that(1)]] resolveEnv.reporter_axioms [of h path tree] that unfolding reporter_grows
    by (metis snd_conv)
  have "checkNode h ci path j v = (case h_ReadFile h ?incl of
       None \<Rightarrow> add ?ip (Msg ''cannot read include file: %v'' [AErr]) v1
     | Some raw \<Rightarrow>
         (case parseJSON5 h ?ip raw v1 of
            (None, v2) \<Rightarrow> v2
          | (Some tree, v2) \<Rightarrow>
              (case resolveEnv h path tree v2 of
                 (JObj body, v3) \<Rightarrow> node_body path body v3
               | (_, v3) \<Rightarrow> add ?ip (Msg ''include file %s must contain a JSON object'' [AStr ?incl]) v3)))"
    unfolding j(1) checkNode_def v1_def Let_def using j(2) by simp
  then show ?thesis
    by (auto split: option.splits prod.splits json.splits intro: g2 grows_trans [OF g1 grows_add]
        grows_trans [OF g3 grows_add] grows_trans [OF g3 grows_node_body])
next
  case False
  then show ?thesis by (cases j) (auto simp: checkNode_def)
qed

interpretation checkRoot: reporter "checkRoot h tree" for h tree
proof -
  have "reports (Conf_schema h)" by (simp add: Conf_schema_def field_checks)
  then show "reporter (checkRoot h tree)"
    unfolding reporter_grows by (cases tree) (simp_all add: checkRoot_def grows_checkObject)
qed

section \<open>No key is ignored\<close>

text \<open>The name a key is matched to; comments are skipped.\<close>

definition matched :: "schemaField list \<Rightarrow> bool \<Rightarrow> string \<times> json \<Rightarrow> string option" where
  "matched fl ci kj = map_option fst (matchField fl (fst kj) (snd kj) ci)"

abbreviation not_comment :: "string \<times> json \<Rightarrow> bool" where
  "not_comment kj \<equiv> \<not> has_prefix (fst kj) ''_''"

lemma object_loop_accepts:
  assumes fl: "reports fl"
  shows "env_reported v \<Longrightarrow> v_issues (object_loop path fl ci used kvs v) = [] \<Longrightarrow>
     list_all (\<lambda>kj. \<exists>n. matched fl ci kj = Some n \<and> map_of used n = None) (filter not_comment kvs)
     \<and> distinct (map (matched fl ci) (filter not_comment kvs))"
proof (induction kvs arbitrary: used v)
  case (Cons kv kvs)
  obtain k j where kv: "kv = (k, j)" by (cases kv)
  show ?case
  proof (cases "has_prefix k ''_''")
    case True
    with Cons kv show ?thesis by simp
  next
    case False
    have lost: False if "v_issues (object_loop path fl ci used kvs (add p m v)) = []" for p m
    proof -
      have "grows v (object_loop path fl ci used kvs (add p m v))"
        using grows_trans [OF grows_add grows_object_loop [OF fl]] .
      with that Cons.prems(1) have "v_envPaths v = []" using grows_issues by blast
      then have "v_issues (add p m v) \<noteq> []" by (simp add: add_def addKind_def)
      with that grows_object_loop [OF fl, of "add p m v" path ci used kvs] show False by (auto simp: grows_def)
    qed
    obtain n t c where m: "matchField fl k j ci = Some (n, t, c)"
      using Cons.prems(2) False lost kv by (cases "matchField fl k j ci") (auto simp: Let_def)
    have u: "map_of used n = None"
      using Cons.prems(2) False lost kv m by (cases "map_of used n") (auto simp: Let_def)
    let ?w = "c ci (joinPath path k) j v" and ?used = "AList.update n k used"
    have rest: "v_issues (object_loop path fl ci ?used kvs ?w) = []"
      using Cons.prems(2) False kv m u by (simp add: Let_def)
    have "grows v ?w" using matchField_in [OF m] fl unfolding reports_def by (metis snd_conv)
    then have "env_reported ?w" using Cons.prems(1) by (simp add: grows_def)
    from Cons.IH [OF this rest] have IH:
      "list_all (\<lambda>kj. \<exists>n'. matched fl ci kj = Some n' \<and> map_of ?used n' = None) (filter not_comment kvs)"
      "distinct (map (matched fl ci) (filter not_comment kvs))" by auto
    have mk: "matched fl ci kv = Some n" using m kv by (simp add: matched_def)
    have "Some n \<notin> matched fl ci ` set (filter not_comment kvs)"
      using IH(1) by (force simp: list_all_iff)
    moreover have "list_all (\<lambda>kj. \<exists>n'. matched fl ci kj = Some n' \<and> map_of used n' = None) (filter not_comment kvs)"
      using IH(1) by (force simp: list_all_iff split: if_splits)
    ultimately show ?thesis using IH(2) mk u kv False by simp
  qed
qed simp

definition reads :: "'s fields \<Rightarrow> string \<Rightarrow> bool" where
  "reads fs k \<longleftrightarrow> field_named (map fst fs) k \<noteq> None"

lemma reads_iff: "reads fs k \<longleftrightarrow> (\<exists>n \<in> fst ` set fs. to_lower n = to_lower k)"
proof -
  have "find (\<lambda>n. to_lower n = to_lower k) (map fst fs) \<noteq> None \<longleftrightarrow> (\<exists>n \<in> fst ` set fs. to_lower n = to_lower k)"
    by (simp add: find_None_iff del: not_None_eq)
  then show ?thesis unfolding reads_def field_named_def by auto
qed

lemma sorted_entries_keys: "(k, j) \<in> set obj \<Longrightarrow> \<exists>j'. (k, j') \<in> set (sorted_entries obj)"
  by (force simp: sorted_entries_def sortedKeys_def)

lemma checkObject_accepts:
  assumes "reports fl" "env_reported v" "v_issues (checkObject path obj fl ci v) = []" "(k, j) \<in> set obj" "\<not> has_prefix k ''_''"
  shows "\<exists>n \<in> fst ` set fl. n = k \<or> ci \<and> to_lower n = to_lower k"
proof -
  obtain j' where j': "(k, j') \<in> set (sorted_entries obj)" using sorted_entries_keys [OF assms(4)] by blast
  obtain n where "matched fl ci (k, j') = Some n"
    using object_loop_accepts [OF assms(1,2), of path ci "[]" "sorted_entries obj"] assms(3,5) j'
    by (auto simp: checkObject_def list_all_iff)
  then obtain f where "matchField fl k j' ci = Some f" "n = fst f" by (auto simp: matched_def)
  with matchField_in [of fl k j' ci f] show ?thesis by blast
qed

lemma in_listed_if: "n \<in> set (if b then xs else []) \<longleftrightarrow> b \<and> n \<in> set xs"
  by simp

lemma reads_of: "n \<in> set (map fst fs) \<Longrightarrow> to_lower n = to_lower k \<Longrightarrow> reads fs k"
  unfolding reads_iff by auto

text \<open>
  No setting of a node is silently dropped: when the schema check accepts a node's block, every key of it that
  is not a comment is read by the decoder of the part it belongs to, the node itself, its API settings or its
  options for a core that may serve it.
\<close>

theorem node_keys_decoded:
  assumes "env_reported v" "v_issues (checkNodeBody path body v) = []" "(k, j) \<in> set body" "\<not> has_prefix k ''_''"
  shows "reads rawNodeConfig_fields k
    \<or> lookupKey body ''ApiConfig'' = None \<and> reads ApiConfig_fields k
    \<or> lookupKey body ''Options'' = None \<and>
       (reads (Options_fields h) k \<or> stringKey body ''Core'' \<noteq> ''sing'' \<and> reads XrayOptions_fields k
        \<or> stringKey body ''Core'' \<noteq> ''xray'' \<and> reads SingOptions_fields k)"
proof -
  have "reports (node_fields body)" by (simp add: node_fields_def field_checks)
  from checkObject_accepts [OF this assms(1) assms(2) [unfolded checkNodeBody_def] assms(3,4)] obtain n
    where n: "n \<in> set (map fst (node_fields body))" "to_lower n = to_lower k"
    by auto
  have opt: "set (map fst Options_schema) \<subseteq> set (map fst (Options_fields h))" by (simp add: schema_names(9) [of h])
  have raw: "map fst rawNodeConfig_fields = [''Include'', ''ApiConfig'', ''Options'']" by (simp add: rawNodeConfig_fields_def)
  have names: "map fst (node_fields body) = map fst rawNodeConfig_fields
      @ (if lookupKey body ''ApiConfig'' = None then map fst ApiConfig_fields else [])
      @ (if lookupKey body ''Options'' = None then map fst Options_schema
          @ (if stringKey body ''Core'' \<noteq> ''sing'' then map fst XrayOptions_fields else [])
          @ (if stringKey body ''Core'' \<noteq> ''xray'' then map fst SingOptions_fields else []) else [])"
    unfolding raw by (simp add: node_fields_def field_checks schema_names optionFields_def)
  from n(1) opt have "n \<in> set (map fst rawNodeConfig_fields)
      \<or> lookupKey body ''ApiConfig'' = None \<and> n \<in> set (map fst ApiConfig_fields)
      \<or> lookupKey body ''Options'' = None \<and>
         (n \<in> set (map fst (Options_fields h)) \<or> stringKey body ''Core'' \<noteq> ''sing'' \<and> n \<in> set (map fst XrayOptions_fields)
          \<or> stringKey body ''Core'' \<noteq> ''xray'' \<and> n \<in> set (map fst SingOptions_fields))"
    unfolding names set_append Un_iff in_listed_if by blast
  then show ?thesis by (blast intro: reads_of [OF _ n(2)])
qed

definition clean_validator :: validator where
  "clean_validator = \<lparr>v_CoreTypes = [], v_issues = [], v_warnings = [], v_envPaths = [], v_nodeBodies = []\<rparr>"

definition small_body :: "(string \<times> json) list" where
  "small_body = [(''NodeID'', JNum ''7''), (''core'', JStr ''sing''), (''EnableSniff'', JBool True)]"

theorem node_keys_decoded_witness:
  "v_issues (checkNodeBody ''Nodes[0]'' small_body clean_validator) = [] \<and> reads SingOptions_fields ''EnableSniff''"
proof -
  have ok: "v_issues (checkNodeBody ''Nodes[0]'' small_body clean_validator) = []" by code_simp
  have "env_reported clean_validator" by (simp add: clean_validator_def env_reported_def)
  from node_keys_decoded [OF this ok, of "''EnableSniff''" "JBool True"]
  have "reads rawNodeConfig_fields ''EnableSniff'' \<or> reads ApiConfig_fields ''EnableSniff''
      \<or> reads (Options_fields h) ''EnableSniff'' \<or> stringKey small_body ''Core'' \<noteq> ''sing'' \<or> reads SingOptions_fields ''EnableSniff''" for h
    by (auto simp: small_body_def has_prefix_def)
  moreover have "\<not> reads rawNodeConfig_fields ''EnableSniff''" "\<not> reads ApiConfig_fields ''EnableSniff''"
    "\<not> reads (Options_fields h) ''EnableSniff''" for h
    by (simp_all add: reads_def field_named_def rawNodeConfig_fields_def ApiConfig_fields_def Options_fields_def to_lower_def lower_char_def)
  moreover have "stringKey small_body ''Core'' = ''sing''" by code_simp
  ultimately show ?thesis using ok by blast
qed

end
