(* ===== verification/Conf_Load.thy ===== *)
theory Conf_Load
  imports Conf_Accept_Nodes Conf_Schema
begin

text \<open>
  \<^verbatim>\<open>LoadValidated\<close> of \<^verbatim>\<open>src/conf/validate.go\<close>: parse, resolve placeholders, check the keys, decode, check the rules.
  What it needs beside the machine is given as arguments: whether the resolved file can be encoded again, where a
  failing decoder reports its error, and the snapshot taken for the reload watcher.
\<close>

section \<open>Loading\<close>

datatype failure = OpenFailed | EncodeFailed | SnapshotFailed | Invalid ValidationError

text \<open>The two results of the Go function: a configuration with its warnings and snapshot, or an error, which Go
  could leave nil.\<close>

datatype 'w outcome = Loaded Conf "Issue list" 'w | NotLoaded "failure option"

record 'w loader =
  ld_host :: host
  ld_encodes :: "json \<Rightarrow> bool"
  ld_locate :: "json \<Rightarrow> decode_error"
  ld_snapshot :: "Conf \<Rightarrow> 'w option"

definition new_validator :: "string list \<Rightarrow> validator" where
  "new_validator built = \<lparr>v_CoreTypes = built, v_issues = [], v_warnings = [], v_envPaths = [], v_nodeBodies = []\<rparr>"

definition LoadValidated :: "'w loader \<Rightarrow> string \<Rightarrow> string list \<Rightarrow> 'w outcome" where
  "LoadValidated ld filePath built =
     (let h = ld_host ld in
      case h_ReadFile h filePath of
        None \<Rightarrow> NotLoaded (Some OpenFailed)
      | Some raw \<Rightarrow>
          (case parseJSON5 h [] raw (new_validator built) of
             (None, v) \<Rightarrow> NotLoaded (map_option Invalid (result v filePath))
           | (Some tree, v) \<Rightarrow>
               let (resolved, v1) = resolveEnv h [] tree v;
                   v2 = checkRoot h resolved v1 in
               if \<not> ld_encodes ld resolved then NotLoaded (Some EncodeFailed)
               else
                 (case Conf_decode h New (Some resolved) (Some resolved) of
                    Inl err \<Rightarrow>
                      let v3 = (if (case err of MissingEnv _ \<Rightarrow> False | _ \<Rightarrow> True) \<or> v_issues v2 = []
                                then addDecodeError (ld_locate ld resolved) v2 else v2)
                      in NotLoaded (map_option Invalid (result v3 filePath))
                  | Inr c \<Rightarrow>
                      let v3 = checkConf h c v2 in
                      if result v3 filePath \<noteq> None then NotLoaded (map_option Invalid (result v3 filePath))
                      else
                        (case ld_snapshot ld c of
                           None \<Rightarrow> NotLoaded (Some SnapshotFailed)
                         | Some w \<Rightarrow> Loaded c (v_warnings v3) w))))"

section \<open>What it promises\<close>

lemma result_None: "result v file = None \<longleftrightarrow> v_issues v = []"
  by (simp add: result_def)

lemma env_reported_new [simp]: "env_reported (new_validator built)"
  by (simp add: new_validator_def env_reported_def)

lemma parseJSON5_fails:
  "parseJSON5 h path raw v = (None, w) \<Longrightarrow> v_envPaths v = [] \<Longrightarrow> v_issues w \<noteq> []"
  using addSyntaxError_issue [of v path raw] by (cases "h_json2 h (prep raw)") (auto simp: parseJSON5_def, metis append_is_Nil_conv not_Cons_self2 validator.select_convs(2) validator.surjective validator.update_convs(2))

lemma parseJSON5_Some: "parseJSON5 h path raw v = (Some t, w) \<Longrightarrow> w = v \<and> h_json2 h (prep raw) = Inr t"
  by (auto simp: parseJSON5_def split: sum.splits)

lemma addDecodeError_reports:
  assumes "env_reported v"
  shows "v_issues (addDecodeError e v) \<noteq> []"
proof (cases "v_envPaths v = []")
  case True
  then show ?thesis by (cases e) (simp_all add: addDecodeError_def add_def addKind_def)
next
  case False
  with assms have "v_issues v \<noteq> []" by (simp add: env_reported_def)
  then show ?thesis using addDecodeError.clean_before by blast
qed

text \<open>The validator after the keys are checked.\<close>

lemma checked_reported:
  "resolveEnv h [] tree (new_validator built) = (resolved, v1) \<Longrightarrow>
     env_reported (checkRoot h resolved v1) \<and> v_CoreTypes (checkRoot h resolved v1) = built"
  using resolveEnv.reported [OF env_reported_new, of h "[]" tree built] resolveEnv.core_types [of h "[]" tree "new_validator built"]
    checkRoot.reported [of v1 h resolved] checkRoot.core_types [of h resolved v1]
  by (simp add: new_validator_def)

lemma load_reports: "LoadValidated ld filePath built \<noteq> NotLoaded None"
proof
  assume l: "LoadValidated ld filePath built = NotLoaded None"
  let ?h = "ld_host ld"
  obtain raw where raw: "h_ReadFile ?h filePath = Some raw"
    using l by (cases "h_ReadFile ?h filePath") (auto simp: LoadValidated_def Let_def)
  obtain t v where tv: "parseJSON5 ?h [] raw (new_validator built) = (t, v)" by fastforce
  show False
  proof (cases t)
    case None
    with parseJSON5_fails tv have "v_issues v \<noteq> []" by (simp add: new_validator_def)
    with l raw tv None show False by (simp add: LoadValidated_def Let_def result_def)
  next
    case (Some tree)
    with tv parseJSON5_Some have v: "v = new_validator built" by blast
    obtain resolved v1 where r: "resolveEnv ?h [] tree (new_validator built) = (resolved, v1)" by fastforce
    let ?v2 = "checkRoot ?h resolved v1"
    have rep: "env_reported ?v2" using checked_reported [OF r] by simp
    from l raw tv Some v r show False
      using addDecodeError_reports [OF rep]
      by (auto simp: LoadValidated_def Let_def result_None split: if_splits sum.splits option.splits load_error.splits)
  qed
qed

text \<open>
  Loading never fails in silence: when no configuration is returned, an error is.
\<close>

theorem LoadValidated_reports: "LoadValidated ld filePath built \<noteq> NotLoaded None"
  by (rule load_reports)

text \<open>How an accepted file was read.\<close>

lemma LoadValidated_Loaded:
  assumes "LoadValidated ld filePath built = Loaded c ws w"
  shows "\<exists>raw tree resolved v1. h_ReadFile (ld_host ld) filePath = Some raw \<and> h_json2 (ld_host ld) (prep raw) = Inr tree
     \<and> resolveEnv (ld_host ld) [] tree (new_validator built) = (resolved, v1)
     \<and> Conf_decode (ld_host ld) New (Some resolved) (Some resolved) = Inr c
     \<and> v_issues (checkConf (ld_host ld) c (checkRoot (ld_host ld) resolved v1)) = []"
proof -
  let ?h = "ld_host ld"
  obtain raw where raw: "h_ReadFile ?h filePath = Some raw"
    using assms by (cases "h_ReadFile ?h filePath") (auto simp: LoadValidated_def Let_def)
  obtain t v where tv: "parseJSON5 ?h [] raw (new_validator built) = (t, v)" by fastforce
  obtain tree where tree: "parseJSON5 ?h [] raw (new_validator built) = (Some tree, new_validator built)"
    using assms raw tv parseJSON5_Some [of ?h "[]" raw "new_validator built"]
    by (cases t) (auto simp: LoadValidated_def Let_def)
  obtain resolved v1 where r: "resolveEnv ?h [] tree (new_validator built) = (resolved, v1)" by fastforce
  have "Conf_decode ?h New (Some resolved) (Some resolved) = Inr c \<and> v_issues (checkConf ?h c (checkRoot ?h resolved v1)) = []"
    using assms raw tree r
    by (auto simp: LoadValidated_def Let_def result_None split: if_splits sum.splits option.splits)
  with raw tree r parseJSON5_Some [OF tree] show ?thesis by auto
qed

text \<open>The snapshot is taken last: another one leads to the same configuration and warnings.\<close>

lemma load_other_snapshot:
  assumes "LoadValidated ld filePath built = Loaded c ws w"
    and "ld_host ld' = ld_host ld" "ld_encodes ld' = ld_encodes ld" "ld_locate ld' = ld_locate ld" "ld_snapshot ld' c = Some w'"
  shows "LoadValidated ld' filePath built = Loaded c ws w'"
proof -
  let ?h = "ld_host ld"
  obtain raw where raw: "h_ReadFile ?h filePath = Some raw"
    using assms(1) by (cases "h_ReadFile ?h filePath") (auto simp: LoadValidated_def Let_def)
  obtain t v where tv: "parseJSON5 ?h [] raw (new_validator built) = (t, v)" by fastforce
  obtain tree where tree: "t = Some tree" using assms(1) raw tv by (cases t) (auto simp: LoadValidated_def Let_def)
  obtain resolved v1 where rs: "resolveEnv ?h [] tree v = (resolved, v1)" by fastforce
  from assms raw tv tree rs show ?thesis
    by (auto simp: LoadValidated_def Let_def split: if_splits sum.splits option.splits)
qed

lemma load_conf_ok:
  assumes "LoadValidated ld filePath built = Loaded c ws w"
  shows "conf_ok (ld_host ld) built c
    \<and> (\<exists>raw tree. h_ReadFile (ld_host ld) filePath = Some raw \<and> h_json2 (ld_host ld) (prep raw) = Inr tree
        \<and> v_envPaths (snd (resolveEnv (ld_host ld) [] tree (new_validator built))) = [])"
proof -
  let ?h = "ld_host ld"
  from LoadValidated_Loaded [OF assms] obtain raw tree resolved v1
    where f: "h_ReadFile ?h filePath = Some raw" "h_json2 ?h (prep raw) = Inr tree"
      and r: "resolveEnv ?h [] tree (new_validator built) = (resolved, v1)"
      and ok: "v_issues (checkConf ?h c (checkRoot ?h resolved v1)) = []"
    by blast
  have rep: "env_reported (checkRoot ?h resolved v1)" and built: "v_CoreTypes (checkRoot ?h resolved v1) = built"
    using checked_reported [OF r] by auto
  from checkConf.accepts [OF rep ok] built have "conf_ok ?h built c" "v_issues (checkRoot ?h resolved v1) = []" by auto
  moreover from this have "v_issues v1 = []" using checkRoot.clean_before by blast
  then have "v_envPaths v1 = []"
    using resolveEnv.reported [OF env_reported_new, of ?h "[]" tree built] r by (simp add: env_reported_def)
  ultimately show ?thesis using f r by auto
qed

text \<open>
  C22. A configuration is only returned when it satisfies every rule: at least one core and one node; core names
  distinct and their types supported; each node's panel address, identity and limits in range, served by a core
  that exists; no panel node listed twice; no certificate file written for two domains. No placeholder was left
  unresolved on the way.
\<close>

theorem LoadValidated_sound:
  assumes "LoadValidated ld filePath built = Loaded c ws w"
  shows "conf_ok (ld_host ld) built c
    \<and> (\<exists>raw tree. h_ReadFile (ld_host ld) filePath = Some raw \<and> h_json2 (ld_host ld) (prep raw) = Inr tree
        \<and> v_envPaths (snd (resolveEnv (ld_host ld) [] tree (new_validator built))) = [])"
  by (rule load_conf_ok [OF assms])

section \<open>A small file\<close>

definition small_conf :: json where
  "small_conf = JObj
     [(''Cores'', JArr [JObj [(''Type'', JStr ''xray'')]]),
      (''Nodes'', JArr [JObj
         [(''ApiConfig'', JObj [(''ApiHost'', JStr ''http://p''), (''NodeID'', JNum ''1''), (''ApiKey'', JStr ''k''),
                              (''NodeType'', JStr ''vless'')]),
          (''Options'', JObj [])]])]"

definition small_host :: host where
  "small_host =
     \<lparr>h_LookupEnv = (\<lambda>_. None), h_ReadFile = (\<lambda>f. if f = ''c.json'' then Some ''{}'' else None), h_IsDir = (\<lambda>_. None),
      h_HttpGet = (\<lambda>_. None), h_json = (\<lambda>_. None), h_json2 = (\<lambda>_. Inr small_conf),
      h_url = (\<lambda>_. Some \<lparr>u_Scheme = ''http'', u_Host = ''p'', u_Hostname = ''p'', u_User = False, u_Fragment = []\<rparr>),
      h_mail = (\<lambda>_. None), h_zone = (\<lambda>_. []), h_letter = (\<lambda>_. False), h_location = (\<lambda>_. True)\<rparr>"

definition small_loader :: "unit loader" where
  "small_loader = \<lparr>ld_host = small_host, ld_encodes = (\<lambda>_. True), ld_locate = (\<lambda>_. NotSemantic), ld_snapshot = (\<lambda>_. Some ())\<rparr>"

lemma small_loaded: "\<exists>c ws. LoadValidated small_loader ''c.json'' [''xray''] = Loaded c ws ()"
proof -
  have "(case LoadValidated small_loader ''c.json'' [''xray''] of Loaded c ws w \<Rightarrow> True | NotLoaded f \<Rightarrow> False)"
    by code_simp
  then show ?thesis by (cases "LoadValidated small_loader ''c.json'' [''xray'']") auto
qed

theorem LoadValidated_sound_witness:
  "\<exists>c ws. LoadValidated small_loader ''c.json'' [''xray''] = Loaded c ws () \<and> conf_ok small_host [''xray''] c"
proof -
  obtain c ws where l: "LoadValidated small_loader ''c.json'' [''xray''] = Loaded c ws ()" using small_loaded by blast
  from LoadValidated_sound [OF l] l show ?thesis by (auto simp: small_loader_def)
qed

end
