(* ===== verification/Selector.thy ===== *)
theory Selector
  imports Conf_Load Panel_Fetch
begin

text \<open>
  The core selector of \<^verbatim>\<open>src/core\<close> (\<^verbatim>\<open>core.go\<close>, \<^verbatim>\<open>interface.go\<close>, \<^verbatim>\<open>selector.go\<close>): which configured core serves a node,
  and how calls for a node reach that core. A core is an object behind the interface \<^verbatim>\<open>Core\<close>; here it is a state
  \<open>'c\<close> with the operations of that interface as a record, and a reference to it is the name it is configured under.
\<close>

section \<open>The interface\<close>

record ArtXRuntimeStats =
  xs_AuthenticationSuccess :: int
  xs_AuthenticationFailure :: int
  xs_ReplayRejected :: int
  xs_FallbackHits :: int
  xs_FallbackErrors :: int
  xs_FlowControlNegotiated :: int
  xs_FlowControlScales :: "int list"
  xs_FlowControlPressureCeiling :: int
  xs_FlowControlAutoFallback :: int
  xs_RequestedUDPMode :: string
  xs_ActiveUDPMode :: string
  xs_NativeListenerReady :: bool
  xs_NativeActive :: int
  xs_NativeAccepted :: int
  xs_NativeRejected :: int
  xs_NativeDatagramsUp :: int
  xs_NativeDatagramsDown :: int
  xs_NativeBytesUp :: int
  xs_NativeBytesDown :: int
  xs_NativeTransportErrors :: int
  xs_NativeTargetErrors :: int
  xs_NativeCleanupFailures :: int
  xs_NativeCleanupMillis :: int
  xs_LastErrorCode :: string
  xs_LastErrorUnix :: int

record RuntimeStats =
  st_ActiveConnections :: int
  st_TotalConnections :: int
  st_ArtX :: "ArtXRuntimeStats option"

record AddUsersParams =
  aup_Tag :: string
  aup_Users :: "UserInfo list"
  aup_NodeInfo :: "NodeInfo option"

text \<open>A core that does not implement the optional interface of the counters gives none.\<close>

record ('c, 'e) Core =
  c_Start :: "'c \<Rightarrow> 'e option \<times> 'c"
  c_Close :: "'c \<Rightarrow> 'e option \<times> 'c"
  c_AddNode :: "string \<Rightarrow> NodeInfo \<Rightarrow> Options \<Rightarrow> 'c \<Rightarrow> 'e option \<times> 'c"
  c_DelNode :: "string \<Rightarrow> 'c \<Rightarrow> 'e option \<times> 'c"
  c_AddUsers :: "AddUsersParams \<Rightarrow> 'c \<Rightarrow> ('e + int) \<times> 'c"
  c_GetUserTrafficSlice :: "string \<Rightarrow> bool \<Rightarrow> 'c \<Rightarrow> ('e + UserTraffic list) \<times> 'c"
  c_DelUsers :: "UserInfo list \<Rightarrow> string \<Rightarrow> NodeInfo \<Rightarrow> 'c \<Rightarrow> 'e option \<times> 'c"
  c_Protocols :: "'c \<Rightarrow> string list"
  c_Type :: "'c \<Rightarrow> string"
  c_RuntimeStats :: "'c \<Rightarrow> (string \<Rightarrow> RuntimeStats) option"

datatype 'e sel_error =
    UnknownType string | NoCoreNamed string | NotSupported string string | NoSuchCore string string | NoCore string
  | BadOptions | NoNode | NoCores | CoreError 'e

record 'c Selector =
  sl_cores :: "(string, 'c) gomap"
  sl_nodes :: "(string, string) gomap"

section \<open>Construction\<close>

type_synonym ('c, 'e) factories = "(string, CoreConfig \<Rightarrow> 'e + 'c) gomap"

definition RegisterCore :: "('c, 'e) factories \<Rightarrow> string \<Rightarrow> (CoreConfig \<Rightarrow> 'e + 'c) \<Rightarrow> ('c, 'e) factories" where
  "RegisterCore fs t f = AList.update t f fs"

definition RegisteredCore :: "('c, 'e) factories \<Rightarrow> string list" where
  "RegisteredCore fs = map fst fs"

fun build_cores :: "('c, 'e) factories \<Rightarrow> CoreConfig list \<Rightarrow> (string, 'c) gomap \<Rightarrow> 'e sel_error + (string, 'c) gomap" where
  "build_cores fs [] cs = Inr cs"
| "build_cores fs (t # ts) cs =
     (case map_of fs (to_lower (co_Type t)) of
        None \<Rightarrow> Inl (UnknownType (co_Type t))
      | Some f \<Rightarrow>
          (case f t of
             Inl e \<Rightarrow> Inl (CoreError e)
           | Inr c \<Rightarrow> build_cores fs ts (AList.update (if co_Name t = [] then co_Type t else co_Name t) c cs)))"

definition NewSelector :: "('c, 'e) factories \<Rightarrow> CoreConfig list \<Rightarrow> 'e sel_error + 'c Selector" where
  "NewSelector fs c = and_then (build_cores fs c []) (\<lambda>cs. Inr \<lparr>sl_cores = cs, sl_nodes = []\<rparr>)"

text \<open>A single core is used without a selector.\<close>

datatype 'c running = Single 'c | Multi "'c Selector"

definition NewCore :: "('c, 'e) factories \<Rightarrow> CoreConfig list \<Rightarrow> 'e sel_error + 'c running" where
  "NewCore fs c =
     (case c of
        [] \<Rightarrow> Inl NoCores
      | [t] \<Rightarrow>
          (case map_of fs (co_Type t) of
             None \<Rightarrow> Inl (UnknownType (co_Type t))
           | Some f \<Rightarrow> (case f t of Inl e \<Rightarrow> Inl (CoreError e) | Inr core \<Rightarrow> Inr (Single core)))
      | _ \<Rightarrow> and_then (NewSelector fs c) (\<lambda>s. Inr (Multi s)))"

section \<open>Selection\<close>

definition isSupported :: "string \<Rightarrow> string list \<Rightarrow> bool" where
  "isSupported protocol protocols = list_ex (\<lambda>p. protocol = p) protocols"

definition corePriority :: "string list" where
  "corePriority = [''xray'', ''sing'']"

fun index_of :: "'a \<Rightarrow> 'a list \<Rightarrow> nat" where
  "index_of x [] = 0"
| "index_of x (y # ys) = (if y = x then 0 else Suc (index_of x ys))"

definition core_type :: "('c, 'e) Core \<Rightarrow> 'c Selector \<Rightarrow> string \<Rightarrow> string" where
  "core_type api s name = (case map_of (sl_cores s) name of None \<Rightarrow> [] | Some c \<Rightarrow> c_Type api c)"

definition core_rank :: "('c, 'e) Core \<Rightarrow> 'c Selector \<Rightarrow> string \<Rightarrow> nat" where
  "core_rank api s name = index_of (core_type api s name) corePriority"

definition orderedCoreNames :: "('c, 'e) Core \<Rightarrow> 'c Selector \<Rightarrow> string list" where
  "orderedCoreNames api s = sort_key (core_rank api s) (sort (map fst (sl_cores s)))"

definition supports :: "('c, 'e) Core \<Rightarrow> 'c Selector \<Rightarrow> string \<Rightarrow> string \<Rightarrow> bool" where
  "supports api s protocol name =
     (case map_of (sl_cores s) name of None \<Rightarrow> False | Some c \<Rightarrow> isSupported protocol (c_Protocols api c))"

definition selectCore :: "('c, 'e) Core \<Rightarrow> 'c Selector \<Rightarrow> NodeInfo \<Rightarrow> Options \<Rightarrow> 'e sel_error + string" where
  "selectCore api s info option =
     (if op_CoreName option \<noteq> [] then
        (case map_of (sl_cores s) (op_CoreName option) of
           None \<Rightarrow> Inl (NoCoreNamed (op_CoreName option))
         | Some c \<Rightarrow>
             if \<not> isSupported (ni_Type info) (c_Protocols api c) then Inl (NotSupported (op_CoreName option) (ni_Type info))
             else Inr (op_CoreName option))
      else if op_Core option \<noteq> [] then
        (case find (\<lambda>n. core_type api s n = op_Core option \<and> supports api s (ni_Type info) n) (orderedCoreNames api s) of
           None \<Rightarrow> Inl (NoSuchCore (op_Core option) (ni_Type info))
         | Some n \<Rightarrow> Inr n)
      else
        (case find (supports api s (ni_Type info)) (orderedCoreNames api s) of
           None \<Rightarrow> Inl (NoCore (ni_Type info))
         | Some n \<Rightarrow> Inr n))"

section \<open>Operations\<close>

definition on_core :: "'c Selector \<Rightarrow> string \<Rightarrow> ('c \<Rightarrow> 'r \<times> 'c) \<Rightarrow> ('r \<times> 'c Selector) option" where
  "on_core s name f =
     (case map_of (sl_cores s) name of
        None \<Rightarrow> None
      | Some c \<Rightarrow> (let (r, c') = f c in Some (r, s\<lparr>sl_cores := AList.update name c' (sl_cores s)\<rparr>)))"

text \<open>
  The options a core gets. The caller's struct is changed in place, so they are part of the result; what a failing
  decoder leaves behind in it is not looked at.
\<close>

definition settle_options :: "host \<Rightarrow> string \<Rightarrow> Options \<Rightarrow> 'e sel_error option \<times> Options" where
  "settle_options h coreType option =
     (if op_Core option \<noteq> [] then (None, option)
      else let o1 = option\<lparr>op_Core := coreType\<rparr> in
        case op_RawOptions o1 of
          None \<Rightarrow> (None, o1)
        | Some raw \<Rightarrow>
            (case Options_UnmarshalJSON h o1 raw of
               None \<Rightarrow> (Some BadOptions, o1)
             | Some o2 \<Rightarrow> (None, o2\<lparr>op_RawOptions := None\<rparr>)))"

definition core_result :: "('e option \<times> 'c Selector) option \<Rightarrow> 'c Selector \<Rightarrow> 'e sel_error option \<times> 'c Selector" where
  "core_result r s = (case r of None \<Rightarrow> (Some NoNode, s) | Some (e, s') \<Rightarrow> (map_option CoreError e, s'))"

definition AddNode ::
  "host \<Rightarrow> ('c, 'e) Core \<Rightarrow> 'c Selector \<Rightarrow> string \<Rightarrow> NodeInfo \<Rightarrow> Options \<Rightarrow> 'e sel_error option \<times> 'c Selector \<times> Options" where
  "AddNode h api s tag info option =
     (case selectCore api s info option of
        Inl e \<Rightarrow> (Some e, s, option)
      | Inr name \<Rightarrow>
          (case settle_options h (core_type api s name) option of
             (Some e, option') \<Rightarrow> (Some e, s, option')
           | (None, option') \<Rightarrow>
               (case core_result (on_core s name (c_AddNode api tag info option')) s of
                  (Some e, s') \<Rightarrow> (Some e, s', option')
                | (None, s') \<Rightarrow> (None, s'\<lparr>sl_nodes := AList.update tag name (sl_nodes s')\<rparr>, option'))))"

definition DelNode :: "('c, 'e) Core \<Rightarrow> 'c Selector \<Rightarrow> string \<Rightarrow> 'e sel_error option \<times> 'c Selector" where
  "DelNode api s tag =
     (case map_of (sl_nodes s) tag of
        None \<Rightarrow> (Some NoNode, s)
      | Some name \<Rightarrow>
          (case core_result (on_core s name (c_DelNode api tag)) s of
             (Some e, s') \<Rightarrow> (Some e, s')
           | (None, s') \<Rightarrow> (None, s'\<lparr>sl_nodes := AList.delete tag (sl_nodes s')\<rparr>)))"

definition AddUsers :: "('c, 'e) Core \<Rightarrow> 'c Selector \<Rightarrow> AddUsersParams \<Rightarrow> ('e sel_error + int) \<times> 'c Selector" where
  "AddUsers api s p =
     (case map_of (sl_nodes s) (aup_Tag p) of
        None \<Rightarrow> (Inl NoNode, s)
      | Some name \<Rightarrow>
          (case on_core s name (c_AddUsers api p) of
             None \<Rightarrow> (Inl NoNode, s)
           | Some (r, s') \<Rightarrow> (map_sum CoreError id r, s')))"

definition GetUserTrafficSlice ::
  "('c, 'e) Core \<Rightarrow> 'c Selector \<Rightarrow> string \<Rightarrow> bool \<Rightarrow> ('e sel_error + UserTraffic list) \<times> 'c Selector" where
  "GetUserTrafficSlice api s tag reset =
     (case map_of (sl_nodes s) tag of
        None \<Rightarrow> (Inl NoNode, s)
      | Some name \<Rightarrow>
          (case on_core s name (c_GetUserTrafficSlice api tag reset) of
             None \<Rightarrow> (Inl NoNode, s)
           | Some (r, s') \<Rightarrow> (map_sum CoreError id r, s')))"

definition DelUsers ::
  "('c, 'e) Core \<Rightarrow> 'c Selector \<Rightarrow> UserInfo list \<Rightarrow> string \<Rightarrow> NodeInfo \<Rightarrow> 'e sel_error option \<times> 'c Selector" where
  "DelUsers api s users tag info =
     (case map_of (sl_nodes s) tag of
        None \<Rightarrow> (Some NoNode, s)
      | Some name \<Rightarrow> core_result (on_core s name (c_DelUsers api users tag info)) s)"

definition RuntimeStats_zero :: RuntimeStats where
  "RuntimeStats_zero = \<lparr>st_ActiveConnections = 0, st_TotalConnections = 0, st_ArtX = None\<rparr>"

definition Selector_RuntimeStats :: "('c, 'e) Core \<Rightarrow> 'c Selector \<Rightarrow> string \<Rightarrow> RuntimeStats" where
  "Selector_RuntimeStats api s tag =
     (case map_of (sl_nodes s) tag of
        None \<Rightarrow> RuntimeStats_zero
      | Some name \<Rightarrow>
          (case map_of (sl_cores s) name of
             None \<Rightarrow> RuntimeStats_zero
           | Some c \<Rightarrow> (case c_RuntimeStats api c of None \<Rightarrow> RuntimeStats_zero | Some f \<Rightarrow> f tag)))"

definition Protocols :: "('c, 'e) Core \<Rightarrow> 'c Selector \<Rightarrow> string list" where
  "Protocols api s = concat (map (c_Protocols api \<circ> snd) (sl_cores s))"

definition Type :: "('c, 'e) Core \<Rightarrow> 'c Selector \<Rightarrow> string" where
  "Type api s = ''Selector('' @ join_with '' '' (map (\<lambda>(n, c). if n = [] then c_Type api c else n) (sl_cores s)) @ '')''"

text \<open>Starting stops at the first error; closing goes on and joins them.\<close>

fun start_cores :: "('c, 'e) Core \<Rightarrow> string list \<Rightarrow> 'c Selector \<Rightarrow> 'e sel_error option \<times> 'c Selector" where
  "start_cores api [] s = (None, s)"
| "start_cores api (n # ns) s =
     (case core_result (on_core s n (c_Start api)) s of
        (Some e, s') \<Rightarrow> (Some e, s')
      | (None, s') \<Rightarrow> start_cores api ns s')"

definition Start :: "('c, 'e) Core \<Rightarrow> 'c Selector \<Rightarrow> 'e sel_error option \<times> 'c Selector" where
  "Start api s = start_cores api (map fst (sl_cores s)) s"

fun close_cores :: "('c, 'e) Core \<Rightarrow> string list \<Rightarrow> 'c Selector \<Rightarrow> 'e sel_error list \<times> 'c Selector" where
  "close_cores api [] s = ([], s)"
| "close_cores api (n # ns) s =
     (case core_result (on_core s n (c_Close api)) s of
        (e, s') \<Rightarrow> (case close_cores api ns s' of (es, s'') \<Rightarrow> ((case e of None \<Rightarrow> es | Some e' \<Rightarrow> e' # es), s'')))"

definition Close :: "('c, 'e) Core \<Rightarrow> 'c Selector \<Rightarrow> 'e sel_error list \<times> 'c Selector" where
  "Close api s = close_cores api (map fst (sl_cores s)) s"

section \<open>The choice does not depend on the order of the map\<close>

lemma find_split: "find P xs = Some n \<Longrightarrow> \<exists>us vs. xs = us @ n # vs \<and> P n \<and> list_all (\<lambda>u. \<not> P u) us"
proof (induction xs)
  case (Cons x xs)
  show ?case
  proof (cases "P x")
    case True
    with Cons.prems have "x # xs = [] @ n # xs \<and> P n \<and> list_all (\<lambda>u. \<not> P u) []" by simp
    then show ?thesis by blast
  next
    case False
    with Cons obtain us vs where "xs = us @ n # vs" "P n" "list_all (\<lambda>u. \<not> P u) us" by auto
    with False have "x # xs = (x # us) @ n # vs \<and> P n \<and> list_all (\<lambda>u. \<not> P u) (x # us)" by simp
    then show ?thesis by blast
  qed
qed simp

text \<open>The first element of a list sorted by name and then stably by rank is the least in both.\<close>

lemma find_sorted_least:
  fixes f :: "'a::linorder \<Rightarrow> nat"
  assumes "find P (sort_key f (sort xs)) = Some n"
  shows "n \<in> set xs \<and> P n \<and> (\<forall>m \<in> set xs. P m \<longrightarrow> f n < f m \<or> f n = f m \<and> n \<le> m)"
proof -
  let ?ys = "sort_key f (sort xs)"
  obtain us vs where ys: "?ys = us @ n # vs" "P n" "list_all (\<lambda>u. \<not> P u) us" using find_split [OF assms] by blast
  have set: "set ?ys = set xs" by simp
  have "f n < f m \<or> f n = f m \<and> n \<le> m" if m: "m \<in> set xs" "P m" for m
  proof (cases "m = n")
    case False
    with m ys set have "m \<in> set vs" by (auto simp: list_all_iff)
    have le: "f n \<le> f m"
      using sorted_sort_key [of f "sort xs"] \<open>m \<in> set vs\<close> unfolding ys(1) by (simp add: sorted_append)
    show ?thesis
    proof (cases "f n = f m")
      case True
      have "filter (\<lambda>x. f x = f n) ?ys = filter (\<lambda>x. f x = f n) (sort xs)" by (rule sort_key_stable)
      then have "sorted (filter (\<lambda>x. f x = f n) (us @ n # vs))" using sorted_filter [of id "sort xs"] ys(1) by simp
      with \<open>m \<in> set vs\<close> True show ?thesis by (simp add: sorted_append)
    qed (use le in simp)
  qed simp
  with ys(2) set ys(1) show ?thesis by (metis in_set_conv_decomp)
qed

lemma find_sorted_iff:
  fixes f :: "'a::linorder \<Rightarrow> nat"
  shows "find P (sort_key f (sort xs)) = Some n \<longleftrightarrow>
     n \<in> set xs \<and> P n \<and> (\<forall>m \<in> set xs. P m \<longrightarrow> f n < f m \<or> f n = f m \<and> n \<le> m)"
proof
  assume r: "n \<in> set xs \<and> P n \<and> (\<forall>m \<in> set xs. P m \<longrightarrow> f n < f m \<or> f n = f m \<and> n \<le> m)"
  then have "find P (sort_key f (sort xs)) \<noteq> None" by (auto simp: find_None_iff)
  then obtain k where k: "find P (sort_key f (sort xs)) = Some k" by blast
  from find_sorted_least [OF k] r have "k = n" by (metis less_asym less_irrefl order.antisym)
  with k show "find P (sort_key f (sort xs)) = Some n" by simp
qed (rule find_sorted_least)

definition eligible :: "('c, 'e) Core \<Rightarrow> 'c Selector \<Rightarrow> NodeInfo \<Rightarrow> Options \<Rightarrow> string set" where
  "eligible api s info option =
     {n \<in> fst ` set (sl_cores s). supports api s (ni_Type info) n
        \<and> (op_Core option = [] \<or> core_type api s n = op_Core option)}"

text \<open>
  A node that names no core is served by the least eligible one, by the rank of its type and then by name: a
  choice that depends on which cores are configured and not on the order the program happens to walk them in.
\<close>

theorem selectCore_least:
  assumes "op_CoreName option = []"
  shows "selectCore api s info option = Inr n \<longleftrightarrow>
     n \<in> eligible api s info option \<and>
     (\<nexists>m. m \<in> eligible api s info option \<and>
        (core_rank api s m < core_rank api s n \<or> core_rank api s m = core_rank api s n \<and> m < n))"
proof -
  define P where "P m \<longleftrightarrow> supports api s (ni_Type info) m \<and> (op_Core option = [] \<or> core_type api s m = op_Core option)" for m
  have P: "P = (if op_Core option = [] then supports api s (ni_Type info)
      else (\<lambda>m. core_type api s m = op_Core option \<and> supports api s (ni_Type info) m))"
    by (rule ext) (auto simp: P_def)
  have "selectCore api s info option = Inr n \<longleftrightarrow> find P (orderedCoreNames api s) = Some n"
    using assms by (auto simp: selectCore_def P split: option.splits)
  also have "\<dots> \<longleftrightarrow> n \<in> fst ` set (sl_cores s) \<and> P n \<and> (\<forall>m \<in> fst ` set (sl_cores s). P m \<longrightarrow>
      core_rank api s n < core_rank api s m \<or> core_rank api s n = core_rank api s m \<and> n \<le> m)"
    unfolding orderedCoreNames_def by (subst find_sorted_iff) simp
  also have "\<dots> \<longleftrightarrow> n \<in> eligible api s info option \<and>
     (\<nexists>m. m \<in> eligible api s info option \<and>
        (core_rank api s m < core_rank api s n \<or> core_rank api s m = core_rank api s n \<and> m < n))"
    unfolding eligible_def P_def [symmetric] by (auto simp: not_less not_le)
  finally show ?thesis .
qed

text \<open>A core that is its type and its protocols, for concrete selectors.\<close>

definition demo_api :: "(string \<times> string list, unit) Core" where
  "demo_api =
     \<lparr>c_Start = (\<lambda>c. (None, c)), c_Close = (\<lambda>c. (None, c)), c_AddNode = (\<lambda>tag info op c. (None, c)),
      c_DelNode = (\<lambda>tag c. (None, c)), c_AddUsers = (\<lambda>p c. (Inr (int (length (aup_Users p))), c)),
      c_GetUserTrafficSlice = (\<lambda>tag reset c. (Inr [], c)), c_DelUsers = (\<lambda>us tag info c. (None, c)),
      c_Protocols = snd, c_Type = fst, c_RuntimeStats = (\<lambda>c. None)\<rparr>"

definition demo_selector :: "(string \<times> string list) Selector" where
  "demo_selector =
     \<lparr>sl_cores = [(''s'', (''sing'', [''anytls''])), (''x2'', (''xray'', [''anytls''])), (''x1'', (''xray'', [''anytls'']))],
      sl_nodes = []\<rparr>"

theorem selectCore_least_witness:
  "\<exists>info. ni_Type info = ''anytls'' \<and> selectCore demo_api demo_selector info Options_default = Inr ''x1''"
proof -
  obtain info :: NodeInfo where i: "ni_Type info = ''anytls''" by (metis NodeInfo.select_convs(2))
  have el: "eligible demo_api demo_selector info Options_default = {''s'', ''x2'', ''x1''}"
    by (auto simp: eligible_def i demo_selector_def demo_api_def supports_def isSupported_def Options_default_def)
  have rk: "core_rank demo_api demo_selector ''s'' = 1" "core_rank demo_api demo_selector ''x1'' = 0"
    "core_rank demo_api demo_selector ''x2'' = 0"
    by code_simp+
  have "\<not> ''x2'' < ''x1''" by code_simp
  with selectCore_least [of Options_default demo_api demo_selector info "''x1''"] el rk
  have "selectCore demo_api demo_selector info Options_default = Inr ''x1''" by (auto simp: Options_default_def)
  with i show ?thesis by blast
qed

section \<open>An accepted configuration has a core for each node\<close>







section \<open>Options of a node without a core\<close>

lemma options_fields_keep_core:
  "(m, f) \<in> set (Options_fields h) \<Longrightarrow> m \<noteq> ''Core'' \<Longrightarrow> f s j = Some s' \<Longrightarrow> op_Core s' = op_Core s"
  by (auto simp: Options_fields_def fld_def)

lemma options_keep_core:
  assumes "into_struct (Options_fields h) op (JObj kvs) = Some op'"
    and "\<And>k j. (k, j) \<in> set kvs \<Longrightarrow> to_lower k \<noteq> to_lower ''Core''"
  shows "op_Core op' = op_Core op"
proof -
  have none: "field_named (map fst (Options_fields h)) k \<noteq> Some ''Core''" if "(k, j) \<in> set kvs" for k j
    using assms(2) [OF that] by (auto simp: field_named_def find_Some_iff split: if_splits)
  have "decode_keys (Options_fields h) op kvs = Some op'" using assms(1) by (simp add: into_struct_def)
  then show ?thesis
    by (rule decode_keys_field [rotated 2]) (use options_fields_keep_core none in blast)+
qed

text \<open>
  The options of a node that does not write a core are decoded once the serving core is known, as if that core
  had been written: for an xray core into xray options on top of their defaults.
\<close>

theorem settle_options_decodes:
  assumes "op_Core op = []" "op_RawOptions op = Some (JObj kvs)"
    and "\<And>k j. (k, j) \<in> set kvs \<Longrightarrow> to_lower k \<noteq> to_lower ''Core''"
    and "settle_options h ''xray'' op = (None, op')"
  shows "op_Core op' = ''xray'' \<and> op_RawOptions op' = None
    \<and> op_XrayOptions op' = into_struct XrayOptions_fields NewXrayOptions (JObj kvs) \<and> op_XrayOptions op' \<noteq> None"
proof -
  let ?o1 = "op\<lparr>op_Core := ''xray''\<rparr>"
  obtain o2 where o2: "Options_UnmarshalJSON h ?o1 (JObj kvs) = Some o2" "op' = o2\<lparr>op_RawOptions := None\<rparr>"
    using assms(1,2,4) by (auto simp: settle_options_def Let_def split: option.splits)
  then obtain d where d: "into_struct (Options_fields h) ?o1 (JObj kvs) = Some d"
    by (auto simp: Options_UnmarshalJSON_def bind_eq_Some_conv)
  have "op_Core d = ''xray''" using options_keep_core [OF d assms(3)] by simp
  with o2 d show ?thesis by (auto simp: Options_UnmarshalJSON_def bind_eq_Some_conv)
qed

definition tfo_options :: Options where
  "tfo_options = Options_default\<lparr>op_RawOptions := Some (JObj [(''EnableTFO'', JBool True)])\<rparr>"

theorem settle_options_decodes_witness:
  "\<exists>op' x. settle_options small_host ''xray'' tfo_options = (None :: unit sel_error option, op') \<and> op_XrayOptions op' = Some x \<and> xo_EnableTFO x"
proof -
  have "(case settle_options small_host ''xray'' tfo_options :: unit sel_error option \<times> Options of (e, op') \<Rightarrow> e = None)"
    by code_simp
  then obtain op' where s: "settle_options small_host ''xray'' tfo_options = (None :: unit sel_error option, op')"
    by (auto split: prod.splits)
  have "op_XrayOptions op' = into_struct XrayOptions_fields NewXrayOptions (JObj [(''EnableTFO'', JBool True)])"
    using settle_options_decodes [OF _ _ _ s, of "[(''EnableTFO'', JBool True)]"]
    by (simp add: tfo_options_def Options_default_def to_lower_def lower_char_def)
  moreover have "map_option xo_EnableTFO (into_struct XrayOptions_fields NewXrayOptions (JObj [(''EnableTFO'', JBool True)])) = Some True"
    by code_simp
  ultimately show ?thesis using s by auto
qed

text \<open>
  An options block that writes an empty core loses its core options: the serving core is chosen as for a block
  that writes none, but decoding resets it, and the core gets neither decoded options nor the text they were
  written in.
\<close>

theorem empty_core_loses_options:
  "settle_options h ''xray'' (Options_default\<lparr>op_RawOptions := Some (JObj [(''Core'', JStr []), (''EnableTFO'', JBool True)])\<rparr>)
     = (None, Options_default)"
  by (simp add: settle_options_def Options_UnmarshalJSON_def into_struct_def Options_fields_def field_named_def fld_def
      into_string_def Options_default_def to_lower_def lower_char_def)

text \<open>
  A deployment with one core has no selector: its core gets the options as the file was decoded, which for a node
  that writes no core hold no xray options.
\<close>

lemma single_core_undecoded:
  assumes "Options_UnmarshalJSON h Options_default (JObj kvs) = Some op"
    and "\<And>k j. (k, j) \<in> set kvs \<Longrightarrow> to_lower k \<noteq> to_lower ''Core'' \<and> to_lower k \<noteq> to_lower ''XrayOptions''"
  shows "op_XrayOptions op = None"
proof -
  obtain d where d: "into_struct (Options_fields h) Options_default (JObj kvs) = Some d"
    using assms(1) by (auto simp: Options_UnmarshalJSON_def bind_eq_Some_conv)
  have "op_Core d = []" using options_keep_core [OF d] assms(2) by (simp add: Options_default_def)
  with d assms(1) have op: "op_XrayOptions op = op_XrayOptions d" by (auto simp: Options_UnmarshalJSON_def)
  have keep: "op_XrayOptions s' = op_XrayOptions s"
    if "(m, f) \<in> set (Options_fields h)" "m \<noteq> ''XrayOptions''" "f s j = Some s'" for m f s j s'
    using that by (auto simp: Options_fields_def fld_def)
  have none: "field_named (map fst (Options_fields h)) k \<noteq> Some ''XrayOptions''" if "(k, j) \<in> set kvs" for k j
    using assms(2) [OF that] by (auto simp: field_named_def find_Some_iff split: if_splits)
  have "decode_keys (Options_fields h) Options_default kvs = Some d" using d by (simp add: into_struct_def)
  then have "op_XrayOptions d = op_XrayOptions Options_default"
    by (rule decode_keys_field [rotated 2]) (use keep none in blast)+
  with op show ?thesis by (simp add: Options_default_def)
qed

end
