(* ===== verification/Jsonutil.thy ===== *)
theory Jsonutil
  imports Conf_Cert
begin

text \<open>
  \<^verbatim>\<open>Canonical\<close> of \<^verbatim>\<open>src/common/jsonutil/canonical.go\<close>, which decides whether two documents say the same, with what it
  uses of \<^verbatim>\<open>encoding/json\<close> for encoding: a decoded object is a Go map, where the last of several equal keys stays,
  and is written with its keys in byte order; a number keeps its text; in a string the quote, the backslash,
  control characters, the three characters HTML treats specially and two line separators are escaped.

  The decoder is the argument \<open>dec\<close>: it gives the first value of a text with what follows it, or an error. A value
  it gives is \<open>decoded\<close>: numbers follow the JSON grammar and strings are valid UTF-8, as the library documents.
\<close>

section \<open>Encoding\<close>

definition hex_digit :: "nat \<Rightarrow> char" where
  "hex_digit n = ''0123456789abcdef'' ! n"

definition safe_byte :: "char \<Rightarrow> bool" where
  "safe_byte c \<longleftrightarrow> 32 \<le> (of_char c :: nat) \<and> c \<notin> set [CHR 0x22, CHR 0x5C, CHR ''<'', CHR ''>'', CHR ''&'']"

definition escape_byte :: "char \<Rightarrow> string" where
  "escape_byte c =
     (if safe_byte c then [c]
      else if c = CHR 0x22 \<or> c = CHR 0x5C then [CHR 0x5C, c]
      else if c = CHR 0x08 then [CHR 0x5C, CHR ''b'']
      else if c = CHR 0x0C then [CHR 0x5C, CHR ''f'']
      else if c = CHR 0x0A then [CHR 0x5C, CHR ''n'']
      else if c = CHR 0x0D then [CHR 0x5C, CHR ''r'']
      else if c = CHR 0x09 then [CHR 0x5C, CHR ''t'']
      else CHR 0x5C # ''u00'' @ [hex_digit (of_char c div 16), hex_digit (of_char c mod 16)])"

definition escape_rune :: "string \<Rightarrow> string" where
  "escape_rune r =
     (case r of
        [c] \<Rightarrow> if (of_char c :: nat) < 128 then escape_byte c else CHR 0x5C # ''ufffd''
      | _ \<Rightarrow> if r = [CHR 0xE2, CHR 0x80, CHR 0xA8] then CHR 0x5C # ''u2028''
             else if r = [CHR 0xE2, CHR 0x80, CHR 0xA9] then CHR 0x5C # ''u2029'' else r)"

definition quote :: "string \<Rightarrow> string" where
  "quote s = CHR 0x22 # concat (map escape_rune (runes s)) @ [CHR 0x22]"

text \<open>The entries that stay when an object is read into a map: for each key the last one.\<close>

fun last_entries :: "(string \<times> 'a) list \<Rightarrow> (string \<times> 'a) list" where
  "last_entries [] = []"
| "last_entries (kv # kvs) = (if fst kv \<in> fst ` set kvs then last_entries kvs else kv # last_entries kvs)"

definition members :: "(string \<times> 'a) list \<Rightarrow> (string \<times> 'a) list" where
  "members kvs = sort_key fst (last_entries kvs)"

fun Marshal :: "json \<Rightarrow> string" where
  "Marshal JNull = ''null''"
| "Marshal (JBool b) = (if b then ''true'' else ''false'')"
| "Marshal (JNum n) = n"
| "Marshal (JStr s) = quote s"
| "Marshal (JArr xs) = CHR ''['' # join_with '','' (map Marshal xs) @ '']''"
| "Marshal (JObj kvs) =
     CHR 0x7B # join_with '','' (map (\<lambda>(k, t). quote k @ CHR '':'' # t) (members (map (\<lambda>kv. (fst kv, Marshal (snd kv))) kvs))) @ [CHR 0x7D]"

definition white :: "char \<Rightarrow> bool" where
  "white c \<longleftrightarrow> c \<in> set [CHR 0x20, CHR 0x09, CHR 0x0A, CHR 0x0D]"

definition Canonical :: "(string \<Rightarrow> (json \<times> string) option) \<Rightarrow> string \<Rightarrow> string option" where
  "Canonical dec data =
     (case dec data of
        None \<Rightarrow> None
      | Some (value, rest) \<Rightarrow> if list_all white rest then Some (Marshal value) else None)"

section \<open>What a decoder gives\<close>

definition valid_rune :: "string \<Rightarrow> bool" where
  "valid_rune r \<longleftrightarrow>
     (case r of [] \<Rightarrow> False | c # cs \<Rightarrow> if cs = [] then (of_char c :: nat) < 128 else length r = rune_width c)"

definition valid_text :: "string \<Rightarrow> bool" where
  "valid_text s \<longleftrightarrow> list_all valid_rune (runes s)"

definition num_char :: "char \<Rightarrow> bool" where
  "num_char c \<longleftrightarrow> is_digit c \<or> c \<in> set ''+-.eE''"

definition num_text :: "string \<Rightarrow> bool" where
  "num_text n \<longleftrightarrow> n \<noteq> [] \<and> list_all num_char n \<and> (is_digit (hd n) \<or> hd n = CHR ''-'')"

fun decoded :: "json \<Rightarrow> bool" where
  "decoded (JNum n) = num_text n"
| "decoded (JStr s) = valid_text s"
| "decoded (JArr xs) = list_all decoded xs"
| "decoded (JObj kvs) = list_all (\<lambda>kv. valid_text (fst kv) \<and> decoded (snd kv)) kvs"
| "decoded _ = True"

text \<open>Two values say the same: objects as maps from keys to values, everything else literally.\<close>

inductive same :: "json \<Rightarrow> json \<Rightarrow> bool" where
  same_null: "same JNull JNull"
| same_bool: "same (JBool b) (JBool b)"
| same_num: "same (JNum n) (JNum n)"
| same_str: "same (JStr s) (JStr s)"
| same_arr: "list_all2 same xs ys \<Longrightarrow> same (JArr xs) (JArr ys)"
| same_obj: "(\<And>k. rel_option same (map_of (rev xs) k) (map_of (rev ys) k)) \<Longrightarrow> same (JObj xs) (JObj ys)"

section \<open>Strings\<close>

lemma concat_runes [simp]: "concat (runes s) = s"
  by (induction s rule: runes.induct) (simp_all add: Let_def)

lemma hex_digit_eq [simp]: "m < 16 \<Longrightarrow> n < 16 \<Longrightarrow> hex_digit m = hex_digit n \<longleftrightarrow> m = n"
  unfolding hex_digit_def by (subst nth_eq_iff_index_eq) simp_all

lemma byte_eqI: "(of_char c :: nat) div 16 = of_char d div 16 \<Longrightarrow> (of_char c :: nat) mod 16 = of_char d mod 16 \<Longrightarrow> c = d"
  by (metis div_mult_mod_eq of_char_eq_iff)

text \<open>What the escape of a byte begins with: the byte itself, or a backslash and a character that tells the escape.\<close>

lemma escape_byte_cases:
  assumes "(of_char c :: nat) < 128"
  obtains (safe) "escape_byte c = [c]" "c \<noteq> CHR 0x22" "c \<noteq> CHR 0x5C"
  | (short) d where "escape_byte c = [CHR 0x5C, d]" "d \<noteq> CHR ''u''"
      "(c, d) \<in> set [(CHR 0x22, CHR 0x22), (CHR 0x5C, CHR 0x5C), (CHR 0x08, CHR ''b''), (CHR 0x0C, CHR ''f''), (CHR 0x0A, CHR ''n''), (CHR 0x0D, CHR ''r''), (CHR 0x09, CHR ''t'')]"
  | (hex) "escape_byte c = CHR 0x5C # ''u00'' @ [hex_digit (of_char c div 16), hex_digit (of_char c mod 16)]"
proof (cases "safe_byte c")
  case True
  then show thesis by (intro safe) (auto simp: escape_byte_def safe_byte_def)
next
  case False
  note f = this
  consider "c = CHR 0x22" | "c = CHR 0x5C" | "c = CHR 0x08" | "c = CHR 0x0C" | "c = CHR 0x0A" | "c = CHR 0x0D" | "c = CHR 0x09"
    | "c \<notin> set [CHR 0x22, CHR 0x5C, CHR 0x08, CHR 0x0C, CHR 0x0A, CHR 0x0D, CHR 0x09]" by auto
  then show thesis
  proof cases
    case 8
    with f show thesis by (intro hex) (simp add: escape_byte_def)
  qed (use f in \<open>auto intro!: short simp: escape_byte_def\<close>)
qed

lemma escape_byte_prefix:
  assumes "(of_char c :: nat) < 128" "(of_char d :: nat) < 128" "escape_byte c @ x = escape_byte d @ y"
  shows "c = d \<and> x = y"
  using assms(1)
proof (cases rule: escape_byte_cases)
  case safe
  note c = this
  from assms(2) show ?thesis by (cases rule: escape_byte_cases) (use assms(3) c in auto)
next
  case (short e)
  note c = this
  from assms(2) show ?thesis by (cases rule: escape_byte_cases) (use assms(3) c in auto)
next
  case hex
  note c = this
  from assms(2) show ?thesis
  proof (cases rule: escape_byte_cases)
    case hex
    with assms c have "(of_char c :: nat) div 16 = of_char d div 16 \<and> (of_char c :: nat) mod 16 = of_char d mod 16 \<and> x = y"
      by simp
    then show ?thesis by (blast intro: byte_eqI)
  qed (use assms(3) c in auto)
qed

text \<open>Encoded runes are a prefix code none of whose words begins with the closing quote.\<close>

lemma valid_rune_cases:
  assumes "valid_rune r"
  obtains (ascii) c where "r = [c]" "(of_char c :: nat) < 128" "escape_rune r = escape_byte c"
  | (line) "r = [CHR 0xE2, CHR 0x80, CHR 0xA8]" "escape_rune r = CHR 0x5C # ''u2028''"
  | (par) "r = [CHR 0xE2, CHR 0x80, CHR 0xA9]" "escape_rune r = CHR 0x5C # ''u2029''"
  | (wide) c cs where "r = c # cs" "length r = rune_width c" "194 \<le> (of_char c :: nat)" "escape_rune r = r"
proof -
  obtain c cs where r: "r = c # cs" using assms by (auto simp: valid_rune_def split: list.splits)
  show thesis
  proof (cases cs)
    case Nil
    with assms r show thesis by (intro ascii) (auto simp: valid_rune_def escape_rune_def)
  next
    case (Cons d ds)
    with assms r have w: "length r = rune_width c" by (simp add: valid_rune_def)
    with Cons r have "194 \<le> (of_char c :: nat)" by (auto simp: rune_width_def Let_def split: if_splits)
    moreover have "escape_rune r = (if r = [CHR 0xE2, CHR 0x80, CHR 0xA8] then CHR 0x5C # ''u2028''
        else if r = [CHR 0xE2, CHR 0x80, CHR 0xA9] then CHR 0x5C # ''u2029'' else r)"
      using r Cons by (simp add: escape_rune_def)
    ultimately show thesis using wide [OF r w] line par by presburger
  qed
qed

lemma escape_byte_head:
  assumes "(of_char c :: nat) < 128"
  obtains b bs where "escape_byte c = b # bs" "b \<noteq> CHR 0x22" "(of_char b :: nat) < 128" "b = CHR 0x5C \<Longrightarrow> (\<exists>d. bs = [d] \<and> d \<noteq> CHR ''u'') \<or> (\<exists>ds. bs = CHR ''u'' # CHR ''0'' # ds)"
  using assms by (cases rule: escape_byte_cases) (use assms in auto)

lemma escape_rune_head:
  assumes "valid_rune r"
  obtains b bs where "escape_rune r = b # bs" "b \<noteq> CHR 0x22"
  using assms
proof (cases rule: valid_rune_cases)
  case (ascii c)
  then show thesis using escape_byte_head [of c] that by metis
next
  case (wide c cs)
  then have "c \<noteq> CHR 0x22" by auto
  with wide that show thesis by metis
qed (use that in auto)

lemma escape_rune_prefix_ascii:
  assumes "(of_char c :: nat) < 128" "valid_rune r" "escape_byte c @ x = escape_rune r @ y"
  shows "r = [c] \<and> x = y"
proof -
  from assms(1) obtain b bs where b: "escape_byte c = b # bs" "(of_char b :: nat) < 128" "b = CHR 0x5C \<Longrightarrow> (\<exists>d. bs = [d] \<and> d \<noteq> CHR ''u'') \<or> (\<exists>ds. bs = CHR ''u'' # CHR ''0'' # ds)"
    by (rule escape_byte_head) blast
  from assms(2) show ?thesis
  proof (cases rule: valid_rune_cases)
    case (ascii d)
    with assms escape_byte_prefix [of c d x y] show ?thesis by simp
  next
    case (wide d ds)
    with assms(3) b show ?thesis by auto
  qed (use assms(3) b in auto)
qed

lemma escape_rune_prefix:
  assumes "valid_rune r" "valid_rune q" "escape_rune r @ x = escape_rune q @ y"
  shows "r = q \<and> x = y"
  using assms(1)
proof (cases rule: valid_rune_cases)
  case (ascii c)
  with escape_rune_prefix_ascii [of c q x y] assms show ?thesis by simp
next
  case (wide c cs)
  note r = this
  from assms(2) show ?thesis
  proof (cases rule: valid_rune_cases)
    case (ascii d)
    with escape_rune_prefix_ascii [of d r y x] assms show ?thesis by simp
  next
    case (wide d ds)
    with r assms(3) have "length r = length q" by simp
    with assms(3) r wide show ?thesis by simp
  qed (use assms(3) r in auto)
next
  case line
  note r = this
  from assms(2) show ?thesis
  proof (cases rule: valid_rune_cases)
    case (ascii d)
    with escape_rune_prefix_ascii [of d r y x] assms show ?thesis by simp
  qed (use assms(3) r in auto)
next
  case par
  note r = this
  from assms(2) show ?thesis
  proof (cases rule: valid_rune_cases)
    case (ascii d)
    with escape_rune_prefix_ascii [of d r y x] assms show ?thesis by simp
  qed (use assms(3) r in auto)
qed

lemma escape_runes_prefix:
  "list_all valid_rune rs \<Longrightarrow> list_all valid_rune qs \<Longrightarrow>
     concat (map escape_rune rs) @ CHR 0x22 # x = concat (map escape_rune qs) @ CHR 0x22 # y \<Longrightarrow> rs = qs \<and> x = y"
proof (induction rs arbitrary: qs)
  case Nil
  then show ?case by (cases qs) (auto elim!: escape_rune_head)
next
  case (Cons r rs)
  show ?case
  proof (cases qs)
    case Nil
    with Cons.prems show ?thesis by (auto elim: escape_rune_head [of r])
  next
    case (Cons q qs')
    with Cons.prems escape_rune_prefix [of r q] Cons.IH [of qs'] show ?thesis by fastforce
  qed
qed

lemma quote_prefix:
  assumes "valid_text s" "valid_text t" "quote s @ x = quote t @ y"
  shows "s = t \<and> x = y"
proof -
  from assms escape_runes_prefix [of "runes s" "runes t" x y] have "runes s = runes t" "x = y"
    by (simp_all add: quote_def valid_text_def)
  then show ?thesis by (metis concat_runes)
qed

section \<open>Objects as maps\<close>

lemma fst_last_entries [simp]: "fst ` set (last_entries kvs) = fst ` set kvs"
  by (induction kvs) (auto intro: rev_image_eqI)

lemma set_last_entries: "set (last_entries kvs) \<subseteq> set kvs"
  by (induction kvs) auto

lemma distinct_last_entries: "distinct (map fst (last_entries kvs))"
  by (induction kvs) simp_all

lemma map_of_last_entries: "map_of (last_entries kvs) k = map_of (rev kvs) k"
proof (induction kvs)
  case (Cons kv kvs)
  show ?case
  proof (cases "map_of (rev kvs) k")
    case None
    then have "k \<notin> fst ` set kvs" by (simp add: map_of_eq_None_iff)
    with Cons None show ?thesis by (auto simp: map_add_def)
  next
    case (Some v)
    then have "k \<in> fst ` set kvs" by (metis map_of_eq_None_iff option.distinct(1) set_rev)
    with Cons Some show ?thesis by (cases "k = fst kv") (simp_all add: map_add_def)
  qed
qed simp

lemma members_sorted: "sorted (map fst (members kvs))" "distinct (map fst (members kvs))"
  using distinct_last_entries [of kvs] by (simp_all add: members_def distinct_map)

lemma set_members: "set (members kvs) \<subseteq> set kvs"
  using set_last_entries by (simp add: members_def)

lemma map_of_members: "map_of (members kvs) k = map_of (rev kvs) k"
proof -
  have "map_of (members kvs) k = map_of (last_entries kvs) k"
  proof -
    have "map_of (members kvs) k = Some v \<longleftrightarrow> map_of (last_entries kvs) k = Some v" for v
      unfolding map_of_eq_Some_iff [OF members_sorted(2)] map_of_eq_Some_iff [OF distinct_last_entries]
      by (simp add: members_def)
    then show ?thesis by (metis option.exhaust)
  qed
  then show ?thesis by (simp add: map_of_last_entries)
qed

lemma members_eqI:
  assumes "\<And>k. map_of (rev xs) k = map_of (rev ys) k"
  shows "members xs = members ys"
proof (rule map_sorted_distinct_set_unique [where f = fst])
  have "(k, v) \<in> set (members xs) \<longleftrightarrow> (k, v) \<in> set (members ys)" for k v
    unfolding map_of_eq_Some_iff [OF members_sorted(2), symmetric] by (simp add: map_of_members assms)
  then show eq: "set (members xs) = set (members ys)" by auto
  show "inj_on fst (set (members xs) \<union> set (members ys))"
    using members_sorted(2) [of xs] eq by (simp add: distinct_map)
qed (rule members_sorted)+

lemma last_entries_map: "last_entries (map (\<lambda>kv. (fst kv, f (snd kv))) kvs) = map (\<lambda>kv. (fst kv, f (snd kv))) (last_entries kvs)"
  by (induction kvs) (auto simp: image_image)

lemma sort_fst_map: "sort_key fst (map (\<lambda>kv. (fst kv, f (snd kv))) xs) = map (\<lambda>kv. (fst kv, f (snd kv))) (sort_key fst xs)"
proof (induction xs)
  case (Cons x xs)
  have "insort_key fst (fst x, f (snd x)) (map (\<lambda>kv. (fst kv, f (snd kv))) ys) = map (\<lambda>kv. (fst kv, f (snd kv))) (insort_key fst x ys)" for ys
    by (induction ys) simp_all
  with Cons show ?case by simp
qed simp

lemma members_map: "members (map (\<lambda>kv. (fst kv, f (snd kv))) kvs) = map (\<lambda>kv. (fst kv, f (snd kv))) (members kvs)"
  unfolding members_def last_entries_map by (rule sort_fst_map)

section \<open>Values\<close>

definition member_text :: "string \<times> json \<Rightarrow> string" where
  "member_text kv = quote (fst kv) @ CHR '':'' # Marshal (snd kv)"

lemma Marshal_obj: "Marshal (JObj kvs) = CHR 0x7B # join_with '','' (map member_text (members kvs)) @ [CHR 0x7D]"
  by (simp add: members_map member_text_def [abs_def] o_def)

definition ends :: "string \<Rightarrow> bool" where
  "ends r \<longleftrightarrow> (case r of [] \<Rightarrow> True | c # _ \<Rightarrow> c \<in> set [CHR '','', CHR '']'', CHR 0x7D])"

lemma ends_simps [simp]: "ends []" "ends (c # cs) \<longleftrightarrow> c \<in> set [CHR '','', CHR '']'', CHR 0x7D]"
  by (simp_all add: ends_def)

lemma num_text_head: "num_text n \<Longrightarrow> \<exists>c cs. n = c # cs \<and> (is_digit c \<or> c = CHR ''-'')"
  by (cases n) (auto simp: num_text_def)

lemma num_text_prefix:
  assumes "num_text m" "num_text n" "ends x" "ends y" "m @ x = n @ y"
  shows "m = n \<and> x = y"
proof -
  have stop: "takeWhile num_char (k @ z) = k" if "num_text k" "ends z" for k z
    using that by (cases z) (auto simp: num_text_def list_all_iff takeWhile_append2 num_char_def is_digit_def)
  with assms show ?thesis by (metis same_append_eq)
qed

text \<open>How an encoded value begins tells what it is.\<close>

fun leads :: "json \<Rightarrow> char \<Rightarrow> bool" where
  "leads JNull c = (c = CHR ''n'')"
| "leads (JBool b) c = (c = (if b then CHR ''t'' else CHR ''f''))"
| "leads (JNum n) c = (is_digit c \<or> c = CHR ''-'')"
| "leads (JStr s) c = (c = CHR 0x22)"
| "leads (JArr xs) c = (c = CHR ''['')"
| "leads (JObj kvs) c = (c = CHR 0x7B)"

lemma Marshal_leads:
  assumes "decoded v"
  obtains c cs where "Marshal v = c # cs" "leads v c"
proof (cases v)
  case (JBool b)
  with that show thesis by (cases b) simp_all
qed (use assms that in \<open>auto simp: quote_def dest: num_text_head\<close>)

lemma join_Cons: "join_with sep (x # xs) = x @ (if xs = [] then [] else sep @ join_with sep xs)"
  by (cases xs) simp_all

lemma join_prefix:
  assumes each: "\<And>a b x y. a \<in> set A \<Longrightarrow> b \<in> set B \<Longrightarrow> ends x \<Longrightarrow> ends y \<Longrightarrow> f a @ x = f b @ y \<Longrightarrow> P a b \<and> x = y"
    and head: "\<And>a. a \<in> set A \<union> set B \<Longrightarrow> \<exists>c cs. f a = c # cs \<and> c \<notin> {CHR '','', CHR '']'', CHR 0x7D}"
    and z: "z \<in> {CHR '']'', CHR 0x7D}"
    and eq: "join_with '','' (map f A) @ z # x = join_with '','' (map f B) @ z # y"
  shows "list_all2 P A B \<and> x = y"
  using each head eq
proof (induction A arbitrary: B)
  case Nil
  show ?case
  proof (cases B)
    case (Cons b bs)
    with Nil.prems(2) [of b] obtain c cs where "f b = c # cs" "c \<notin> {CHR '','', CHR '']'', CHR 0x7D}" by auto
    with Nil.prems(3) Cons z show ?thesis by (auto simp: join_Cons)
  qed (use Nil in simp)
next
  case (Cons a A)
  show ?case
  proof (cases B)
    case Nil
    with Cons.prems(2) [of a] obtain c cs where "f a = c # cs" "c \<notin> {CHR '','', CHR '']'', CHR 0x7D}" by auto
    with Cons.prems(3) Nil z show ?thesis by (auto simp: join_Cons)
  next
    case (Cons b bs)
    define tl' where "tl' l w = (if l = [] then z # w else CHR '','' # join_with '','' (map f l) @ z # w)" for l w
    have e: "ends (tl' l w)" for l w using z by (auto simp: tl'_def)
    have "f a @ tl' A x = f b @ tl' bs y" using Cons.prems(3) Cons by (auto simp: join_Cons tl'_def)
    with Cons.prems(1) [of a b] Cons e have p: "P a b" and t: "tl' A x = tl' bs y" by auto
    have "A = [] \<longleftrightarrow> bs = []" using t z by (auto simp: tl'_def split: if_splits)
    with t have "join_with '','' (map f A) @ z # x = join_with '','' (map f bs) @ z # y" by (auto simp: tl'_def split: if_splits)
    with Cons.IH [of bs] Cons.prems(1,2) Cons have "list_all2 P A bs \<and> x = y" by auto
    with p Cons show ?thesis by simp
  qed
qed

lemma map_of_all2:
  "list_all2 (\<lambda>a b. fst a = fst b \<and> R (snd a) (snd b)) A B \<Longrightarrow> rel_option R (map_of A k) (map_of B k)"
  by (induction A B rule: list_all2_induct) auto

lemma same_objI: "list_all2 (\<lambda>a b. fst a = fst b \<and> same (snd a) (snd b)) (members xs) (members ys) \<Longrightarrow> same (JObj xs) (JObj ys)"
  using map_of_all2 [of same "members xs" "members ys"] by (intro same_obj) (simp add: map_of_members)

lemma Marshal_prefix:
  "decoded u \<Longrightarrow> decoded v \<Longrightarrow> ends x \<Longrightarrow> ends y \<Longrightarrow> Marshal u @ x = Marshal v @ y \<Longrightarrow> same u v \<and> x = y"
proof (induction u arbitrary: v x y)
  case JNull
  then show ?case by (cases v) (auto simp: quote_def is_digit_def intro: same.intros dest!: num_text_head split: if_splits)
next
  case (JBool b)
  then show ?case by (cases v) (auto simp: quote_def is_digit_def intro: same.intros dest!: num_text_head split: if_splits)
next
  case (JNum n)
  show ?case
  proof (cases v)
    case (JNum m)
    with JNum.prems num_text_prefix [of n m x y] show ?thesis by (auto intro: same.intros)
  qed (use JNum num_text_head [of n] in \<open>auto simp: quote_def is_digit_def split: if_splits\<close>)
next
  case (JStr s)
  show ?case
  proof (cases v)
    case (JStr t)
    with JStr.prems quote_prefix [of s t x y] show ?thesis by (auto intro: same.intros)
  qed (use JStr in \<open>auto simp: quote_def is_digit_def dest!: num_text_head split: if_splits\<close>)
next
  case (JArr us)
  show ?case
  proof (cases v)
    case (JArr vs)
    have "list_all2 same us vs \<and> x = y"
    proof (rule join_prefix [where f = Marshal])
      show "\<exists>c cs. Marshal a = c # cs \<and> c \<notin> {CHR '','', CHR '']'', CHR 0x7D}" if "a \<in> set us \<union> set vs" for a
      proof -
        have "decoded a" using that JArr.prems JArr by (auto simp: list_all_iff)
        then obtain c cs where "Marshal a = c # cs" "leads a c" by (rule Marshal_leads)
        then show ?thesis by (cases a) (auto simp: is_digit_def)
      qed
    qed (use JArr.IH JArr.prems JArr in \<open>auto simp: list_all_iff\<close>)
    with JArr show ?thesis by (simp add: same_arr)
  qed (use JArr in \<open>auto simp: quote_def is_digit_def dest!: num_text_head split: if_splits\<close>)
next
  case (JObj us)
  show ?case
  proof (cases v)
    case (JObj vs)
    have sub: "set (members us) \<subseteq> set us" "set (members vs) \<subseteq> set vs" by (rule set_members)+
    have "list_all2 (\<lambda>a b. fst a = fst b \<and> same (snd a) (snd b)) (members us) (members vs) \<and> x = y"
    proof (rule join_prefix [where f = member_text])
      fix a b p q
      assume a: "a \<in> set (members us)" and b: "b \<in> set (members vs)" and e: "ends p" "ends q" "member_text a @ p = member_text b @ q"
      have d: "valid_text (fst a)" "decoded (snd a)" "valid_text (fst b)" "decoded (snd b)"
        using a b sub JObj.prems JObj by (auto simp: list_all_iff)
      with e quote_prefix [of "fst a" "fst b" "CHR '':'' # Marshal (snd a) @ p" "CHR '':'' # Marshal (snd b) @ q"]
      have "fst a = fst b" "Marshal (snd a) @ p = Marshal (snd b) @ q" by (auto simp: member_text_def)
      with JObj.IH [of a "snd a" "snd b" p q] a sub d e show "(fst a = fst b \<and> same (snd a) (snd b)) \<and> p = q"
        by (auto simp: snds.simps)
    next
      show "join_with '','' (map member_text (members us)) @ CHR 0x7D # x = join_with '','' (map member_text (members vs)) @ CHR 0x7D # y"
        using JObj.prems(5) JObj unfolding Marshal_obj by (simp add: Marshal_obj del: Marshal.simps)
    qed (simp_all add: member_text_def quote_def)
    with JObj show ?thesis by (simp add: same_objI)
  qed (use JObj in \<open>auto simp: quote_def is_digit_def dest!: num_text_head split: if_splits\<close>)
qed

lemma Marshal_same: "same u v \<Longrightarrow> Marshal u = Marshal v"
proof (induction rule: same.induct)
  case (same_arr us vs)
  then have "map Marshal us = map Marshal vs" by (induction us vs rule: list_all2_induct) auto
  then show ?case by (simp only: Marshal.simps)
next
  case (same_obj us vs)
  have "members (map (\<lambda>kv. (fst kv, Marshal (snd kv))) us) = members (map (\<lambda>kv. (fst kv, Marshal (snd kv))) vs)"
  proof (rule members_eqI)
    fix k :: string
    have m: "map_of (rev (map (\<lambda>kv. (fst kv, Marshal (snd kv))) kvs)) k = map_option Marshal (map_of (rev kvs) k)" for kvs :: "(string \<times> json) list"
      using map_of_map_value [of "\<lambda>_. Marshal" "rev kvs" k] by (simp add: rev_map case_prod_unfold)
    from same_obj [of k] show "map_of (rev (map (\<lambda>kv. (fst kv, Marshal (snd kv))) us)) k = map_of (rev (map (\<lambda>kv. (fst kv, Marshal (snd kv))) vs)) k"
      unfolding m by (auto elim!: option.rel_cases)
  qed
  then show ?case by (simp only: Marshal.simps)
qed simp_all

section \<open>The canonical form\<close>

text \<open>
  C31. The canonical form decides sameness: two readable documents have the same canonical bytes exactly when they
  say the same, that is when they differ in layout, in the order of the keys of an object, or in entries a later
  equal key overrides, and in nothing else.
\<close>

theorem Canonical_exact:
  assumes "dec a = Some (u, rest)" "dec b = Some (v, rest')" "decoded u" "decoded v" "list_all white rest" "list_all white rest'"
  shows "Canonical dec a = Canonical dec b \<longleftrightarrow> same u v"
  using assms Marshal_prefix [of u v "[]" "[]"] Marshal_same [of u v] by (auto simp: Canonical_def)

text \<open>Two objects with their keys in another order and one entry overridden.\<close>

definition demo_dec :: "string \<Rightarrow> (json \<times> string) option" where
  "demo_dec t =
     (if t = ''p'' then Some (JObj [(''a'', JNum ''1''), (''b'', JArr [JNull])], [])
      else if t = ''q'' then Some (JObj [(''b'', JNull), (''b'', JArr [JNull]), (''a'', JNum ''1'')], [CHR 0x0A]) else None)"

theorem Canonical_exact_witness:
  "Canonical demo_dec ''p'' = Canonical demo_dec ''q''
   \<and> same (JObj [(''a'', JNum ''1''), (''b'', JArr [JNull])]) (JObj [(''b'', JNull), (''b'', JArr [JNull]), (''a'', JNum ''1'')])"
proof -
  have "Canonical demo_dec ''p'' = Canonical demo_dec ''q''" by code_simp
  moreover have "Canonical demo_dec ''p'' = Canonical demo_dec ''q''
     \<longleftrightarrow> same (JObj [(''a'', JNum ''1''), (''b'', JArr [JNull])]) (JObj [(''b'', JNull), (''b'', JArr [JNull]), (''a'', JNum ''1'')])"
  proof (rule Canonical_exact)
    show "decoded (JObj [(''a'', JNum ''1''), (''b'', JArr [JNull])])" by code_simp
    show "decoded (JObj [(''b'', JNull), (''b'', JArr [JNull]), (''a'', JNum ''1'')])" by code_simp
  qed (simp_all add: demo_dec_def, simp_all add: white_def)
  ultimately show ?thesis by simp
qed

end
