(* ===== verification/Watch.thy ===== *)
theory Watch
  imports Conf_Load Jsonutil
begin

text \<open>
  The reload path of \<^verbatim>\<open>src/conf/watch.go\<close> and \<^verbatim>\<open>src/conf/watch_state.go\<close>: the snapshot of what is running, the decision
  whether an edit is applied, and the loop that waits for edits to settle.

  What the program reads at one moment is a record \<open>machine\<close>. Times are nanoseconds; 0 is the zero value of
  \<^verbatim>\<open>time.Time\<close>. The loop is a step relation whose labels are what its \<^verbatim>\<open>select\<close> can receive, with the clock at that
  moment, and the run of the goroutine that reloads, with the machine it finds and whether the callback succeeded.
  A timer is the time it fires at, or none when nothing can be received from it.
\<close>

section \<open>Snapshots\<close>

record watchFileState =
  wf_data :: string
  wf_err :: string

record watchState =
  ws_config :: string
  ws_files :: "(string, watchFileState) gomap"
  ws_retry :: bool

record machine =
  mc_host :: host
  mc_encodes :: "json \<Rightarrow> bool"
  mc_locate :: "json \<Rightarrow> decode_error"
  mc_ReadFile :: "string \<Rightarrow> string \<times> string option"
  mc_Marshal :: "Conf \<Rightarrow> string option"
  mc_decoder :: "string \<Rightarrow> (json \<times> string) option"

definition addFile :: "machine \<Rightarrow> string \<Rightarrow> watchState \<Rightarrow> watchState" where
  "addFile m path s =
     (if path = [] \<or> map_of (ws_files s) path \<noteq> None then s
      else
        let (data, err) = mc_ReadFile m path;
            entry = (case err of
                Some e \<Rightarrow> \<lparr>wf_data = data, wf_err = e\<rparr>
              | None \<Rightarrow>
                  (case Canonical (mc_decoder m) data of
                     Some canonical \<Rightarrow> \<lparr>wf_data = canonical, wf_err = []\<rparr>
                   | None \<Rightarrow> \<lparr>wf_data = data, wf_err = []\<rparr>))
        in s\<lparr>ws_files := AList.update path entry (ws_files s)\<rparr>)"

definition core_files :: "CoreConfig \<Rightarrow> string list" where
  "core_files core =
     (case co_XrayConfig core of
        Some x \<Rightarrow> [xr_DnsConfigPath x, xr_RouteConfigPath x, xr_InboundConfigPath x, xr_OutboundConfigPath x] | None \<Rightarrow> [])
     @ (case co_SingConfig core of Some s \<Rightarrow> [sc_OriginalPath s] | None \<Rightarrow> [])"

definition snapshotWatchState :: "machine \<Rightarrow> Conf \<Rightarrow> string \<Rightarrow> watchState option" where
  "snapshotWatchState m c dnsPath =
     (case mc_Marshal m c of
        None \<Rightarrow> None
      | Some raw \<Rightarrow>
          (case Canonical (mc_decoder m) raw of
             None \<Rightarrow> None
           | Some config \<Rightarrow>
               let state = addFile m dnsPath \<lparr>ws_config = config, ws_files = [], ws_retry = False\<rparr>
               in Some (fold (addFile m) (concat (map core_files (cf_CoresConfig c))) state)))"

definition equal_state :: "watchState \<Rightarrow> watchState \<Rightarrow> bool" where
  "equal_state s other \<longleftrightarrow>
     ws_config s = ws_config other \<and> length (ws_files s) = length (ws_files other)
     \<and> list_all (\<lambda>(path, entry).
         case map_of (ws_files other) path of
           None \<Rightarrow> False
         | Some otherFile \<Rightarrow> wf_err entry = wf_err otherFile \<and> wf_data entry = wf_data otherFile) (ws_files s)"

section \<open>One reload\<close>

text \<open>A \<^verbatim>\<open>Conf\<close> as loading leaves it: the decoded part, the warnings and the snapshot.\<close>

record running =
  rn_conf :: Conf
  rn_warnings :: "Issue list"
  rn_loaded :: "watchState option"

definition machine_loader :: "machine \<Rightarrow> watchState loader" where
  "machine_loader m =
     \<lparr>ld_host = mc_host m, ld_encodes = mc_encodes m, ld_locate = mc_locate m, ld_snapshot = (\<lambda>c. snapshotWatchState m c [])\<rparr>"

datatype reject_error = LoadError failure | NewWarnings ValidationError | SnapshotError

datatype reload_result = Stopped | Panicked | Rejected reject_error | Unchanged | ReloadFailed | Succeeded

definition reloadChanged ::
  "machine \<Rightarrow> bool \<Rightarrow> string \<Rightarrow> string \<Rightarrow> string list \<Rightarrow> bool \<Rightarrow> running \<times> watchState \<Rightarrow> reload_result \<times> running \<times> watchState" where
  "reloadChanged m stopping filePath xDnsPath built reload_ok ps =
     (let (p, state) = ps in
      if stopping then (Stopped, p, state)
      else
        case LoadValidated (machine_loader m) filePath built of
          NotLoaded None \<Rightarrow> (Panicked, p, state)
        | NotLoaded (Some err) \<Rightarrow> (Rejected (LoadError err), p, state)
        | Loaded c warnings loaded \<Rightarrow>
            let added = newWarnings (rn_warnings p) warnings in
            if added \<noteq> [] then (Rejected (NewWarnings \<lparr>ve_File = filePath, ve_Issues = added, ve_Warnings = []\<rparr>), p, state)
            else
              (case snapshotWatchState m c xDnsPath of
                 None \<Rightarrow> (Rejected SnapshotError, p, state)
               | Some nextState \<Rightarrow>
                   if \<not> ws_retry state \<and> equal_state state nextState then (Unchanged, p, state)
                   else
                     let next = \<lparr>rn_conf = c, rn_warnings = warnings, rn_loaded = Some loaded\<rparr> in
                     if \<not> reload_ok then (ReloadFailed, next, state\<lparr>ws_retry := True\<rparr>)
                     else (Succeeded, next, nextState)))"

text \<open>Whether the callback that rebuilds the server was called.\<close>

definition reload_called :: "reload_result \<Rightarrow> bool" where
  "reload_called r \<longleftrightarrow> r = ReloadFailed \<or> r = Succeeded"

section \<open>The loop\<close>

definition isOtherFileIn :: "string \<Rightarrow> string \<Rightarrow> string list \<Rightarrow> bool" where
  "isOtherFileIn dir name watched =
     (let name = filepath_Clean (trim_suffix name ''~'') in
      filepath_Dir name = filepath_Clean dir \<and> \<not> list_ex (\<lambda>path. name = filepath_Clean path) watched)"

record watch_params =
  wp_filePath :: string
  wp_xDnsPath :: string
  wp_dnsDir :: string
  wp_built :: "string list"
  wp_debounce :: int
  wp_settle :: int

datatype goroutine = Idle | Begun string | Ended

record loop =
  lp_running :: running
  lp_state :: watchState
  lp_now :: int
  lp_timer :: "int option"
  lp_previous :: int
  lp_lastEvent :: int
  lp_changed :: string
  lp_pending :: bool
  lp_active :: bool
  lp_reload :: goroutine
  lp_done :: bool
  lp_exited :: bool

definition deadline :: "watch_params \<Rightarrow> loop \<Rightarrow> int" where
  "deadline w lp = (let d = lp_lastEvent lp + wp_settle w; earliest = lp_previous lp + wp_debounce w in if earliest > d then earliest else d)"

definition schedule :: "watch_params \<Rightarrow> loop \<Rightarrow> loop" where
  "schedule w lp =
     (let delay = deadline w lp - lp_now lp in lp\<lparr>lp_timer := Some (lp_now lp + (if delay < 0 then 0 else delay))\<rparr>)"

definition on_event :: "watch_params \<Rightarrow> string \<Rightarrow> bool \<Rightarrow> loop \<Rightarrow> loop" where
  "on_event w name chmod lp =
     (if chmod then lp
      else if wp_dnsDir w \<noteq> [] \<and> isOtherFileIn (wp_dnsDir w) name [wp_filePath w, wp_xDnsPath w] then lp
      else schedule w (lp\<lparr>lp_changed := name, lp_lastEvent := lp_now lp, lp_pending := True\<rparr>))"

definition on_timer :: "loop \<Rightarrow> loop" where
  "on_timer lp =
     (let lp = lp\<lparr>lp_timer := None\<rparr> in
      if \<not> lp_pending lp \<or> lp_active lp then lp
      else lp\<lparr>lp_pending := False, lp_active := True, lp_previous := lp_now lp, lp_reload := Begun (lp_changed lp)\<rparr>)"

definition run_reload :: "watch_params \<Rightarrow> machine \<Rightarrow> bool \<Rightarrow> loop \<Rightarrow> loop" where
  "run_reload w m reload_ok lp =
     (let (r, p, state) = reloadChanged m (lp_done lp) (wp_filePath w) (wp_xDnsPath w) (wp_built w) reload_ok (lp_running lp, lp_state lp)
      in lp\<lparr>lp_running := p, lp_state := state, lp_reload := Ended\<rparr>)"

definition on_finished :: "watch_params \<Rightarrow> loop \<Rightarrow> loop" where
  "on_finished w lp =
     (let lp = lp\<lparr>lp_active := False, lp_reload := Idle\<rparr> in if lp_pending lp then schedule w lp else lp)"

datatype watch_label = Event string bool int | Timer int | Reload machine bool | Finished int | WatcherError int | Stop | Exit | ChannelClosed

inductive watch_step :: "watch_params \<Rightarrow> loop \<Rightarrow> watch_label \<Rightarrow> loop \<Rightarrow> bool" for w :: watch_params where
  step_event: "\<not> lp_exited lp \<Longrightarrow> lp_now lp \<le> t \<Longrightarrow> watch_step w lp (Event name chmod t) (on_event w name chmod (lp\<lparr>lp_now := t\<rparr>))"
| step_timer: "\<not> lp_exited lp \<Longrightarrow> lp_now lp \<le> t \<Longrightarrow> lp_timer lp = Some d \<Longrightarrow> d \<le> t \<Longrightarrow> watch_step w lp (Timer t) (on_timer (lp\<lparr>lp_now := t\<rparr>))"
| step_reload: "lp_reload lp = Begun name \<Longrightarrow> watch_step w lp (Reload m reload_ok) (run_reload w m reload_ok lp)"
| step_finished: "\<not> lp_exited lp \<Longrightarrow> lp_now lp \<le> t \<Longrightarrow> lp_reload lp = Ended \<Longrightarrow> watch_step w lp (Finished t) (on_finished w (lp\<lparr>lp_now := t\<rparr>))"
| step_error: "\<not> lp_exited lp \<Longrightarrow> lp_now lp \<le> t \<Longrightarrow> watch_step w lp (WatcherError t) (lp\<lparr>lp_now := t\<rparr>)"
| step_stop: "watch_step w lp Stop (lp\<lparr>lp_done := True\<rparr>)"
| step_exit: "lp_done lp \<Longrightarrow> watch_step w lp Exit (lp\<lparr>lp_exited := True\<rparr>)"
| step_closed: "watch_step w lp ChannelClosed (lp\<lparr>lp_exited := True\<rparr>)"


text \<open>\<^verbatim>\<open>stop\<close> returns once the loop has left and the reload it started, if any, has run.\<close>

definition stop_returns :: "loop \<Rightarrow> bool" where
  "stop_returns lp \<longleftrightarrow> lp_exited lp \<and> (case lp_reload lp of Begun _ \<Rightarrow> False | _ \<Rightarrow> True)"

record notifier =
  nt_new :: bool
  nt_Add :: "string \<Rightarrow> bool"
  nt_missing :: "string \<Rightarrow> bool"

datatype watch_error = NewWatcherError | WatchFileError | WatchDnsError | SnapshotConfigError

definition start_loop :: "running \<Rightarrow> watchState \<Rightarrow> int \<Rightarrow> loop" where
  "start_loop p state t =
     \<lparr>lp_running = p, lp_state = state, lp_now = t, lp_timer = None, lp_previous = 0, lp_lastEvent = 0, lp_changed = [],
      lp_pending = False, lp_active = False, lp_reload = Idle, lp_done = False, lp_exited = False\<rparr>"

definition WatchWithError ::
  "machine \<Rightarrow> notifier \<Rightarrow> int \<Rightarrow> int \<Rightarrow> int \<Rightarrow> running \<Rightarrow> string \<Rightarrow> string \<Rightarrow> string list \<Rightarrow> watch_error + watch_params \<times> loop" where
  "WatchWithError m nt t debounce settle p filePath xDnsPath built =
     (if \<not> nt_new nt then Inl NewWatcherError
      else if \<not> nt_Add nt filePath then Inl WatchFileError
      else
        let dnsDir = (if xDnsPath \<noteq> [] \<and> nt_missing nt xDnsPath then filepath_Dir xDnsPath else []);
            target = (if dnsDir \<noteq> [] then dnsDir else xDnsPath);
            w = \<lparr>wp_filePath = filePath, wp_xDnsPath = xDnsPath, wp_dnsDir = dnsDir, wp_built = built,
                 wp_debounce = debounce, wp_settle = settle\<rparr> in
        if xDnsPath \<noteq> [] \<and> \<not> nt_Add nt target then Inl WatchDnsError
        else
          case rn_loaded p of
            Some state \<Rightarrow> Inr (w, start_loop p (addFile m xDnsPath state) t)
          | None \<Rightarrow>
              (case LoadValidated (machine_loader m) filePath built of
                 NotLoaded _ \<Rightarrow> Inl SnapshotConfigError
               | Loaded c _ _ \<Rightarrow>
                   (case snapshotWatchState m c xDnsPath of
                      None \<Rightarrow> Inl SnapshotConfigError
                    | Some state \<Rightarrow> Inr (w, start_loop p state t))))"

section \<open>Comparing snapshots\<close>

lemma keys_addFile [simp]: "keys_distinct (ws_files s) \<Longrightarrow> keys_distinct (ws_files (addFile m path s))"
  by (simp add: addFile_def Let_def case_prod_unfold)

lemma keys_addFiles [simp]: "keys_distinct (ws_files s) \<Longrightarrow> keys_distinct (ws_files (fold (addFile m) paths s))"
  by (induction paths arbitrary: s) simp_all

lemma keys_snapshot: "snapshotWatchState m c dns = Some s \<Longrightarrow> keys_distinct (ws_files s)"
  by (auto simp: snapshotWatchState_def Let_def split: option.splits)

lemma map_of_le_eq:
  assumes "keys_distinct m" "keys_distinct n" "length m = length n" "\<And>k v. map_of m k = Some v \<Longrightarrow> map_of n k = Some v"
  shows "map_of m = map_of n"
proof -
  have "set m \<subseteq> set n" using assms(1,4) map_of_SomeD [of n] by (auto dest: map_of_is_SomeI)
  moreover have "card (set m) = card (set n)" using assms(1-3) by (simp add: distinct_card distinct_map)
  ultimately have "set m = set n" by (simp add: card_subset_eq)
  then have "map_of m k = Some v \<longleftrightarrow> map_of n k = Some v" for k v using assms(1,2) by (simp add: map_of_eq_Some_iff)
  then show ?thesis by (intro ext) (metis option.exhaust)
qed

lemma equal_state_iff:
  assumes "keys_distinct (ws_files s)" "keys_distinct (ws_files t)"
  shows "equal_state s t \<longleftrightarrow> ws_config s = ws_config t \<and> map_of (ws_files s) = map_of (ws_files t)"
proof (intro iffI conjI)
  assume e: "equal_state s t"
  then show "ws_config s = ws_config t" by (simp add: equal_state_def)
  show "map_of (ws_files s) = map_of (ws_files t)"
  proof (rule map_of_le_eq)
    show "map_of (ws_files t) k = Some v" if "map_of (ws_files s) k = Some v" for k v
      using e map_of_SomeD [OF that] by (cases v) (auto simp: equal_state_def list_all_iff split: option.splits)
  qed (use assms e in \<open>simp_all add: equal_state_def\<close>)
next
  assume eq: "ws_config s = ws_config t \<and> map_of (ws_files s) = map_of (ws_files t)"
  then have "dom (map_of (ws_files s)) = dom (map_of (ws_files t))" by simp
  then have "card (set (map fst (ws_files s))) = card (set (map fst (ws_files t)))" by (simp add: dom_map_of_conv_image_fst)
  with assms have "length (ws_files s) = length (ws_files t)" by (metis distinct_card length_map)
  then show "equal_state s t"
    using eq map_of_is_SomeI [OF assms(1)] by (fastforce simp: equal_state_def list_all_iff)
qed

lemma newWarnings_Nil: "newWarnings running later = [] \<longleftrightarrow> is_Path ` set later \<subseteq> is_Path ` set running"
  by (induction later) (auto simp: list_ex_iff intro: rev_image_eqI)

section \<open>What a reload decides\<close>

text \<open>When the configuration found on the machine would be taken over.\<close>

definition acceptable :: "machine \<Rightarrow> string \<Rightarrow> string \<Rightarrow> string list \<Rightarrow> running \<Rightarrow> running \<Rightarrow> watchState \<Rightarrow> bool" where
  "acceptable m filePath xDnsPath built p next st \<longleftrightarrow>
     (\<exists>c ws l. LoadValidated (machine_loader m) filePath built = Loaded c ws l \<and> next = \<lparr>rn_conf = c, rn_warnings = ws, rn_loaded = Some l\<rparr>
        \<and> is_Path ` set ws \<subseteq> is_Path ` set (rn_warnings p) \<and> snapshotWatchState m c xDnsPath = Some st)"

lemma acceptable_unique: "acceptable m f d b p n st \<Longrightarrow> acceptable m f d b p n' st' \<Longrightarrow> n' = n \<and> st' = st"
  by (auto simp: acceptable_def)

lemma reload_acceptable:
  assumes "acceptable m filePath xDnsPath built p next st"
  shows "reloadChanged m False filePath xDnsPath built reload_ok (p, state) =
    (if \<not> ws_retry state \<and> equal_state state st then (Unchanged, p, state)
     else if reload_ok then (Succeeded, next, st) else (ReloadFailed, next, state\<lparr>ws_retry := True\<rparr>))"
proof -
  from assms obtain c ws l where l: "LoadValidated (machine_loader m) filePath built = Loaded c ws l"
      "next = \<lparr>rn_conf = c, rn_warnings = ws, rn_loaded = Some l\<rparr>" "snapshotWatchState m c xDnsPath = Some st"
    and n: "newWarnings (rn_warnings p) ws = []"
    by (auto simp: acceptable_def newWarnings_Nil)
  show ?thesis unfolding reloadChanged_def by (simp add: l n Let_def)
qed

lemma reload_not_acceptable:
  assumes "stopping \<or> (\<nexists>next st. acceptable m filePath xDnsPath built p next st)"
  shows "\<exists>r. \<not> reload_called r \<and> r \<noteq> Panicked \<and> reloadChanged m stopping filePath xDnsPath built reload_ok (p, state) = (r, p, state)"
proof (cases stopping)
  case True
  then show ?thesis by (simp add: reloadChanged_def reload_called_def)
next
  case False
  note go = this
  with assms have none: "\<not> acceptable m filePath xDnsPath built p next st" for "next" st by blast
  show ?thesis
  proof (cases "LoadValidated (machine_loader m) filePath built")
    case (Loaded c ws l)
    show ?thesis
    proof (cases "newWarnings (rn_warnings p) ws = []")
      case True
      with none [of "\<lparr>rn_conf = c, rn_warnings = ws, rn_loaded = Some l\<rparr>"] Loaded have "snapshotWatchState m c xDnsPath = None"
        by (auto simp: acceptable_def newWarnings_Nil)
      with Loaded True go show ?thesis by (simp add: reloadChanged_def reload_called_def)
    next
      case False
      with Loaded go show ?thesis by (simp add: reloadChanged_def reload_called_def Let_def)
    qed
  next
    case (NotLoaded f)
    with load_reports [of "machine_loader m" filePath built] obtain e where "f = Some e" by (cases f) auto
    with NotLoaded go show ?thesis by (simp add: reloadChanged_def reload_called_def)
  qed
qed

text \<open>
  C26. A reload rebuilds the server exactly when the watcher is not stopping, the file is accepted without a
  warning at a path the running configuration has none at, and either the last rebuild failed or the settings or
  some referenced file differ from the snapshot. Otherwise nothing changes: the running configuration and the
  snapshot stay. A failed rebuild leaves a mark for the next one.
\<close>

theorem reloadChanged_exact:
  assumes "keys_distinct (ws_files state)"
    and "reloadChanged m stopping filePath xDnsPath built reload_ok (p, state) = (r, p', state')"
  shows "(reload_called r \<longleftrightarrow>
       \<not> stopping \<and> (\<exists>next st. acceptable m filePath xDnsPath built p next st
          \<and> (ws_retry state \<or> ws_config state \<noteq> ws_config st \<or> map_of (ws_files state) \<noteq> map_of (ws_files st))))
    \<and> (\<not> reload_called r \<longrightarrow> p' = p \<and> state' = state)
    \<and> (r = ReloadFailed \<longrightarrow> ws_retry state') \<and> r \<noteq> Panicked"
proof (cases "stopping \<or> (\<nexists>next st. acceptable m filePath xDnsPath built p next st)")
  case True
  with reload_not_acceptable [OF True, of reload_ok state] assms(2) show ?thesis by (auto simp: reload_called_def)
next
  case False
  then obtain "next" st where a: "acceptable m filePath xDnsPath built p next st" and go: "\<not> stopping" by blast
  then have "keys_distinct (ws_files st)" by (auto simp: acceptable_def intro: keys_snapshot)
  with assms(1) have eq: "equal_state state st \<longleftrightarrow> ws_config state = ws_config st \<and> map_of (ws_files state) = map_of (ws_files st)"
    by (intro equal_state_iff)
  from a go eq reload_acceptable [OF a, of reload_ok state] assms(2) show ?thesis
    by (auto simp: reload_called_def split: if_splits dest: acceptable_unique)
qed

section \<open>The loop keeps its promises\<close>

text \<open>The timer is set for the deadline, which asks for the settling time since the last event and the pause since the
  last reload; an edit is waiting for it, or for the reload under way, or a reload began once it had settled.\<close>

definition watch_inv :: "watch_params \<Rightarrow> loop \<Rightarrow> bool" where
  "watch_inv w lp \<longleftrightarrow>
     (\<forall>d. lp_timer lp = Some d \<longrightarrow> deadline w lp \<le> d \<and> d \<le> max (deadline w lp) (lp_now lp))
     \<and> (lp_pending lp \<and> \<not> lp_active lp \<longrightarrow> lp_timer lp \<noteq> None)
     \<and> (\<not> lp_pending lp \<longrightarrow> lp_lastEvent lp = 0 \<or> lp_lastEvent lp + wp_settle w \<le> lp_previous lp)
     \<and> (lp_active lp \<longleftrightarrow> lp_reload lp \<noteq> Idle)"

lemma deadline_ge: "lp_lastEvent lp + wp_settle w \<le> deadline w lp" "lp_previous lp + wp_debounce w \<le> deadline w lp"
  by (simp_all add: deadline_def Let_def)

lemma deadline_cong [simp]:
  "deadline w (lp\<lparr>lp_now := t\<rparr>) = deadline w lp" "deadline w (lp\<lparr>lp_timer := x\<rparr>) = deadline w lp"
  "deadline w (lp\<lparr>lp_active := b, lp_reload := g\<rparr>) = deadline w lp"
  "deadline w (lp\<lparr>lp_running := p, lp_state := s, lp_reload := g\<rparr>) = deadline w lp"
  "deadline w (lp\<lparr>lp_done := b\<rparr>) = deadline w lp" "deadline w (lp\<lparr>lp_exited := b\<rparr>) = deadline w lp"
  by (simp_all add: deadline_def)

lemma schedule_timer: "schedule w lp = lp\<lparr>lp_timer := Some (max (deadline w lp) (lp_now lp))\<rparr>"
  by (simp add: schedule_def Let_def max_def)

lemma inv_tick: "watch_inv w lp \<Longrightarrow> lp_now lp \<le> t \<Longrightarrow> watch_inv w (lp\<lparr>lp_now := t\<rparr>)"
  by (fastforce simp: watch_inv_def le_max_iff_disj)

lemma inv_event: "watch_inv w lp \<Longrightarrow> watch_inv w (on_event w name chmod lp)"
  by (simp add: on_event_def schedule_timer watch_inv_def)

lemma inv_timer:
  assumes "watch_inv w lp" "lp_timer lp = Some d" "d \<le> lp_now lp"
  shows "watch_inv w (on_timer lp)"
proof -
  have "lp_lastEvent lp + wp_settle w \<le> lp_now lp"
    using assms deadline_ge(1) [of lp w] by (fastforce simp: watch_inv_def)
  with assms show ?thesis by (auto simp: on_timer_def watch_inv_def Let_def)
qed

lemma inv_reload: "watch_inv w lp \<Longrightarrow> lp_reload lp = Begun n \<Longrightarrow> watch_inv w (run_reload w m ok lp)"
  by (simp add: run_reload_def Let_def case_prod_unfold watch_inv_def)

lemma inv_finished: "watch_inv w lp \<Longrightarrow> watch_inv w (on_finished w lp)"
  by (simp add: on_finished_def schedule_timer Let_def watch_inv_def)

lemma inv_flags: "watch_inv w lp \<Longrightarrow> watch_inv w (lp\<lparr>lp_done := b\<rparr>) \<and> watch_inv w (lp\<lparr>lp_exited := b\<rparr>)"
  by (simp add: watch_inv_def)

lemma watch_step_inv: "watch_step w lp e lp' \<Longrightarrow> watch_inv w lp \<Longrightarrow> watch_inv w lp'"
proof (induction rule: watch_step.induct)
  case (step_timer lp t d)
  then show ?case by (intro inv_timer [where d = d] inv_tick) auto
qed (auto intro: inv_event inv_tick inv_reload inv_finished simp: inv_flags)

lemma start_inv: "watch_inv w (start_loop p s t)"
  by (simp add: watch_inv_def start_loop_def)

interpretation watch: component "\<lambda>lp. \<exists>p s t. lp = start_loop p s t" "watch_step w" "watch_inv w" for w
  by unfold_locales (auto simp: start_inv intro: watch_step_inv)

lemma WatchWithError_start: "WatchWithError m nt t db st p filePath dns built = Inr (w, lp) \<Longrightarrow> \<exists>s. lp = start_loop p s t"
  by (auto simp: WatchWithError_def Let_def split: if_splits option.splits outcome.splits)

lemma reachable_mono: "reachable P step s \<Longrightarrow> (\<And>s. P s \<Longrightarrow> Q s) \<Longrightarrow> reachable Q step s"
  by (induction rule: reachable.induct) (auto intro: reachable.intros)

lemma watch_reachable_inv:
  assumes "WatchWithError m nt t0 db st p filePath dns built = Inr (w, lp0)" "reachable (\<lambda>lp. lp = lp0) (watch_step w) lp"
  shows "watch_inv w lp"
proof -
  from WatchWithError_start [OF assms(1)] obtain s where s: "lp0 = start_loop p s t0" by blast
  show ?thesis by (rule watch.reachable_inv, rule reachable_mono [OF assms(2)]) (use s in blast)
qed

text \<open>A reload begins only at the deadline and when none is under way.\<close>

lemma begin_at_deadline:
  assumes "watch_inv w lp" "watch_step w lp e lp'" "lp_reload lp' = Begun n" "lp_reload lp \<noteq> Begun n"
  shows "lp_reload lp = Idle \<and> deadline w lp \<le> lp_previous lp' \<and> e = Timer (lp_previous lp')"
  using assms(2)
proof (cases rule: watch_step.cases)
  case (step_timer t d)
  with assms show ?thesis by (auto simp: on_timer_def Let_def watch_inv_def split: if_splits)
qed (use assms in \<open>auto simp: on_event_def schedule_timer run_reload_def on_finished_def Let_def case_prod_unfold split: if_splits\<close>)

lemma pending_fires:
  assumes "watch_inv w lp" "lp_pending lp" "\<not> lp_active lp" "\<not> lp_exited lp" "max (deadline w lp) (lp_now lp) \<le> t"
  shows "\<exists>lp'. watch_step w lp (Timer t) lp' \<and> lp_reload lp' = Begun (lp_changed lp) \<and> lp_previous lp' = t"
proof -
  from assms obtain d where d: "lp_timer lp = Some d" "d \<le> t" by (auto simp: watch_inv_def)
  with assms have "watch_step w lp (Timer t) (on_timer (lp\<lparr>lp_now := t\<rparr>))" by (intro step_timer) auto
  with assms show ?thesis by (intro exI conjI) (assumption, simp_all add: on_timer_def Let_def)
qed

text \<open>
  C23. No edit is lost and reloads are paced. In every state the watcher can be brought to: an edit not yet picked up,
  with no reload under way, is picked up by the timer at any time from its deadline on; an edit no longer waiting
  was picked up by a reload that began after it and after the settling time; and a reload only begins when none is
  under way, at least the settling time after the last edit and the pause after the previous reload.
\<close>

theorem watch_no_edit_lost:
  assumes "WatchWithError m nt t0 debounce settle p filePath dns built = Inr (w, lp0)"
    and "reachable (\<lambda>lp. lp = lp0) (watch_step w) lp"
  shows "(lp_pending lp \<and> \<not> lp_active lp \<and> \<not> lp_exited lp \<longrightarrow>
       (\<forall>t. max (max (lp_lastEvent lp + settle) (lp_previous lp + debounce)) (lp_now lp) \<le> t \<longrightarrow>
          (\<exists>lp'. watch_step w lp (Timer t) lp' \<and> lp_reload lp' = Begun (lp_changed lp) \<and> lp_previous lp' = t)))
    \<and> (\<not> lp_pending lp \<and> lp_lastEvent lp \<noteq> 0 \<longrightarrow> lp_lastEvent lp + settle \<le> lp_previous lp)
    \<and> (\<forall>e lp' n. watch_step w lp e lp' \<and> lp_reload lp' = Begun n \<and> lp_reload lp \<noteq> Begun n \<longrightarrow>
         \<not> lp_active lp \<and> lp_lastEvent lp + settle \<le> lp_previous lp' \<and> lp_previous lp + debounce \<le> lp_previous lp')"
proof -
  have inv: "watch_inv w lp" by (rule watch_reachable_inv [OF assms])
  have w: "wp_settle w = settle" "wp_debounce w = debounce"
    using assms(1) by (auto simp: WatchWithError_def Let_def split: if_splits option.splits outcome.splits)
  have dl: "deadline w lp = max (lp_lastEvent lp + settle) (lp_previous lp + debounce)"
    by (simp add: deadline_def Let_def w max_def)
  show ?thesis
  proof (intro conjI allI impI)
    fix t
    assume "lp_pending lp \<and> \<not> lp_active lp \<and> \<not> lp_exited lp"
      and "max (max (lp_lastEvent lp + settle) (lp_previous lp + debounce)) (lp_now lp) \<le> t"
    then show "\<exists>lp'. watch_step w lp (Timer t) lp' \<and> lp_reload lp' = Begun (lp_changed lp) \<and> lp_previous lp' = t"
      using pending_fires [OF inv, of t] by (simp add: dl)
  next
    assume "\<not> lp_pending lp \<and> lp_lastEvent lp \<noteq> 0"
    with inv show "lp_lastEvent lp + settle \<le> lp_previous lp" by (simp add: watch_inv_def w)
  next
    fix e lp' n
    assume "watch_step w lp e lp' \<and> lp_reload lp' = Begun n \<and> lp_reload lp \<noteq> Begun n"
    with begin_at_deadline [OF inv, of e lp' n] have "lp_reload lp = Idle" "deadline w lp \<le> lp_previous lp'" by auto
    with inv show "\<not> lp_active lp" "lp_lastEvent lp + settle \<le> lp_previous lp'" "lp_previous lp + debounce \<le> lp_previous lp'"
      by (simp_all add: dl watch_inv_def)
  qed
qed

section \<open>Examples\<close>

definition demo_machine :: machine where
  "demo_machine =
     \<lparr>mc_host = small_host, mc_encodes = (\<lambda>_. True), mc_locate = (\<lambda>_. NotSemantic), mc_ReadFile = (\<lambda>_. ([], Some ''missing'')),
      mc_Marshal = (\<lambda>_. Some ''null''), mc_decoder = (\<lambda>_. Some (JNull, []))\<rparr>"

definition demo_state :: watchState where
  "demo_state = \<lparr>ws_config = ''[]'', ws_files = [], ws_retry = False\<rparr>"

definition demo_running :: running where
  "demo_running = \<lparr>rn_conf = New, rn_warnings = [], rn_loaded = Some demo_state\<rparr>"

definition demo_notifier :: notifier where
  "demo_notifier = \<lparr>nt_new = True, nt_Add = (\<lambda>_. True), nt_missing = (\<lambda>_. False)\<rparr>"

definition demo_params :: watch_params where
  "demo_params = \<lparr>wp_filePath = ''c.json'', wp_xDnsPath = [], wp_dnsDir = [], wp_built = [''xray''], wp_debounce = 10, wp_settle = 5\<rparr>"

lemma demo_watch:
  "WatchWithError demo_machine demo_notifier 20 10 5 demo_running ''c.json'' [] [''xray'']
     = Inr (demo_params, start_loop demo_running demo_state 20)"
  by (simp add: WatchWithError_def demo_notifier_def demo_running_def demo_params_def addFile_def Let_def)

text \<open>An edit at time 30 is picked up at time 35.\<close>

theorem watch_no_edit_lost_witness:
  "\<exists>lp lp'. watch_step demo_params (start_loop demo_running demo_state 20) (Event ''c.json'' False 30) lp
     \<and> watch_step demo_params lp (Timer 35) lp' \<and> lp_reload lp' = Begun ''c.json''"
proof -
  let ?start = "start_loop demo_running demo_state 20"
  let ?lp = "on_event demo_params ''c.json'' False (?start\<lparr>lp_now := 30\<rparr>)"
  have s: "watch_step demo_params ?start (Event ''c.json'' False 30) ?lp"
    by (rule step_event) (simp_all add: start_loop_def)
  have "reachable (\<lambda>lp. lp = ?start) (watch_step demo_params) ?start" by (rule reach_start) simp
  then have r: "reachable (\<lambda>lp. lp = ?start) (watch_step demo_params) ?lp" using s by (rule reach_step)
  have "lp_pending ?lp \<and> \<not> lp_active ?lp \<and> \<not> lp_exited ?lp \<and> lp_changed ?lp = ''c.json''
     \<and> lp_lastEvent ?lp = 30 \<and> lp_previous ?lp = 0 \<and> lp_now ?lp = 30"
    by (simp add: on_event_def schedule_timer start_loop_def demo_params_def)
  with watch_no_edit_lost [OF demo_watch r] obtain lp' where
      "watch_step demo_params ?lp (Timer 35) lp'" "lp_reload lp' = Begun ''c.json''"
    by auto
  with s show ?thesis by blast
qed

lemma demo_snapshot: "\<exists>st. snapshotWatchState demo_machine c [] = Some st \<and> ws_config st = ''null''"
proof -
  have "ws_config (fold (addFile demo_machine) paths s) = ws_config s" for paths s
    by (induction paths arbitrary: s) (simp_all add: addFile_def Let_def case_prod_unfold)
  moreover have "ws_config (addFile demo_machine [] s) = ws_config s" for s by (simp add: addFile_def)
  ultimately show ?thesis by (simp add: snapshotWatchState_def Canonical_def demo_machine_def [THEN arg_cong, of mc_Marshal] demo_machine_def [THEN arg_cong, of mc_decoder])
qed

text \<open>The small configuration replaces a running one whose settings differ.\<close>

theorem reloadChanged_exact_witness:
  "\<exists>ws. reload_called (fst (reloadChanged demo_machine False ''c.json'' [] [''xray''] True
      (\<lparr>rn_conf = New, rn_warnings = ws, rn_loaded = None\<rparr>, demo_state)))"
proof -
  obtain c ws where l: "LoadValidated small_loader ''c.json'' [''xray''] = Loaded c ws ()" using small_loaded by blast
  obtain w where w: "ld_snapshot (machine_loader demo_machine) c = Some w"
    using demo_snapshot [of c] by (auto simp: machine_loader_def)
  have "LoadValidated (machine_loader demo_machine) ''c.json'' [''xray''] = Loaded c ws w"
    by (rule load_other_snapshot [OF l]) (use w in \<open>simp_all add: machine_loader_def small_loader_def demo_machine_def\<close>)
  moreover obtain st where "snapshotWatchState demo_machine c [] = Some st" "ws_config st = ''null''" using demo_snapshot by blast
  ultimately have "\<exists>next st. acceptable demo_machine ''c.json'' [] [''xray''] \<lparr>rn_conf = New, rn_warnings = ws, rn_loaded = None\<rparr> next st
      \<and> ws_config demo_state \<noteq> ws_config st"
    by (auto simp: acceptable_def demo_state_def)
  then show ?thesis
    using reloadChanged_exact [of demo_state demo_machine False "''c.json''" "[]" "[''xray'']" True
        "\<lparr>rn_conf = New, rn_warnings = ws, rn_loaded = None\<rparr>"]
    by (metis (no_types, lifting) demo_state_def distinct.simps(1) list.simps(8) prod.collapse watchState.select_convs(2))
qed

end
