(* ===== verification/Clock.thy ===== *)
theory Clock
  imports Prelude
begin

text \<open>
  What the components use of Go's package \<^verbatim>\<open>time\<close>: an instant and a duration are a number of nanoseconds.
\<close>

definition second :: int where "second = 10 ^ 9"
definition minute :: int where "minute = 60 * second"
definition hour :: int where "hour = 60 * minute"

lemmas clock_units = second_def minute_def hour_def

lemma minute_pos [simp]: "0 < minute" "minute \<noteq> 0"
  by (simp_all add: clock_units)

lemma minutes_nonneg [simp]: "0 \<le> int k * minute"
  by (simp add: clock_units)

text \<open>\<^verbatim>\<open>Time.Sub\<close> is limited to what a duration can hold; \<^verbatim>\<open>Time.Truncate\<close> rounds down to a multiple.\<close>

definition time_sub :: "int \<Rightarrow> int \<Rightarrow> int" where
  "time_sub a b = max (- (2 ^ 63)) (min (2 ^ 63 - 1) (a - b))"

definition round_down :: "int \<Rightarrow> int \<Rightarrow> int" where
  "round_down t d = t - t mod d"

lemma round_down_le: "0 < d \<Longrightarrow> round_down t d \<le> t" "0 < d \<Longrightarrow> t < round_down t d + d"
  using pos_mod_bound [of d t] pos_mod_sign [of d t] by (auto simp: round_down_def)

end
