(* ===== verification/Restart.thy ===== *)
theory Restart
  imports Conf_Load Clock
begin

text \<open>
  The restart scheduler of \<^verbatim>\<open>src/cmd/scheduled_restart.go\<close>. A time zone is what the scheduler asks of it: the local
  wall clock of an instant in minutes, the local day of an instant as a number, and the instants of midnight and
  noon of a day. The random choice among \<open>n\<close> minutes is the argument \<open>pick\<close>. The zero instant, which the
  program uses for ``nothing planned'', is \<^const>\<open>None\<close>.

  The search for a minute walks from day to day until one has a minute in the window. It is a partial function:
  \<^const>\<open>None\<close> means that it never returns.
\<close>

section \<open>The scheduler\<close>

record zone =
  zn_clock :: "int \<Rightarrow> int"
  zn_date :: "int \<Rightarrow> int"
  zn_midnight :: "int \<Rightarrow> int"
  zn_noon :: "int \<Rightarrow> int"

definition inRestartWindow :: "zone \<Rightarrow> int \<Rightarrow> nat \<Rightarrow> nat \<Rightarrow> bool" where
  "inRestartWindow z now start fin \<longleftrightarrow> int start \<le> zn_clock z now \<and> zn_clock z now < int fin"

definition first_minute :: "zone \<Rightarrow> int \<Rightarrow> int \<Rightarrow> int" where
  "first_minute z earliest day =
     (let first = zn_midnight z day in
      if first < earliest
      then (let f = round_down earliest minute in if f < earliest then f + minute else f)
      else first)"

function candidates :: "zone \<Rightarrow> nat \<Rightarrow> nat \<Rightarrow> int \<Rightarrow> int \<Rightarrow> int list" where
  "candidates z start fin candidate dayEnd =
     (if candidate < dayEnd
      then (if inRestartWindow z candidate start fin then [candidate] else []) @ candidates z start fin (candidate + minute) dayEnd
      else [])"
  by pat_completeness auto
termination
  by (relation "measure (\<lambda>(_, _, _, c, e). nat (e - c))") (auto simp: clock_units)

declare candidates.simps [simp del]

partial_function (option) search_day :: "zone \<Rightarrow> int \<Rightarrow> nat \<Rightarrow> nat \<Rightarrow> (nat \<Rightarrow> nat) \<Rightarrow> int \<Rightarrow> int option" where
  "search_day z earliest start fin pick day =
     (let found = candidates z start fin (first_minute z earliest day) (zn_midnight z (day + 1)) in
      if found \<noteq> [] then Some (found ! pick (length found))
      else search_day z earliest start fin pick (zn_date z (zn_noon z (day + 1))))"

definition nextRestartTime :: "zone \<Rightarrow> int \<Rightarrow> nat \<Rightarrow> nat \<Rightarrow> (nat \<Rightarrow> nat) \<Rightarrow> int option" where
  "nextRestartTime z earliest start fin pick = search_day z earliest start fin pick (zn_date z earliest)"

record restartScheduler =
  rs_configured :: bool
  rs_options :: ScheduledRestartConfig
  rs_eligible :: int
  rs_next :: "int option"
  rs_start :: nat
  rs_end :: nat
  rs_location :: zone

text \<open>\<open>h\<close> tells whether a named zone can be loaded, \<open>zone_of\<close> is the zone. The result is \<^const>\<open>None\<close> when no minute is ever found.\<close>

definition configure_restart ::
  "host \<Rightarrow> (string \<Rightarrow> zone) \<Rightarrow> (nat \<Rightarrow> nat) \<Rightarrow> int \<Rightarrow> ScheduledRestartConfig \<Rightarrow> restartScheduler \<Rightarrow> restartScheduler option" where
  "configure_restart h zone_of pick now options s =
     (if rs_configured s \<and> rs_options s = options then Some s
      else
        let s = s\<lparr>rs_configured := True, rs_options := options, rs_next := None\<rparr> in
        if \<not> sr_Enabled options then Some s
        else
          (case Window options of
             Inl _ \<Rightarrow> Some s
           | Inr (start, fin) \<Rightarrow>
               if \<not> Location h options then Some s
               else
                 let z = zone_of (sr_Timezone options);
                     s = s\<lparr>rs_start := start, rs_end := fin, rs_location := z,
                           rs_eligible := now + i64 (sr_IntervalDays options * 24 * hour)\<rparr> in
                 (case nextRestartTime z (rs_eligible s) start fin pick of
                    None \<Rightarrow> None
                  | Some t \<Rightarrow> Some (s\<lparr>rs_next := Some t\<rparr>))))"

text \<open>The restart that is due now, if any, with the instant it was planned for.\<close>

definition due :: "(nat \<Rightarrow> nat) \<Rightarrow> int \<Rightarrow> restartScheduler \<Rightarrow> (int option \<times> restartScheduler) option" where
  "due pick now s =
     (case rs_next s of
        None \<Rightarrow> Some (None, s)
      | Some n \<Rightarrow>
          if now < rs_eligible s \<or> now < n then Some (None, s)
          else if \<not> inRestartWindow (rs_location s) now (rs_start s) (rs_end s)
          then (case nextRestartTime (rs_location s) now (rs_start s) (rs_end s) pick of
                  None \<Rightarrow> None
                | Some t \<Rightarrow> Some (None, s\<lparr>rs_next := Some t\<rparr>))
          else Some (Some n, s\<lparr>rs_next := None\<rparr>))"

section \<open>The search finds a minute\<close>

text \<open>A fair choice picks one of the minutes.\<close>

definition fair :: "(nat \<Rightarrow> nat) \<Rightarrow> bool" where
  "fair pick \<longleftrightarrow> (\<forall>n > 0. pick n < n)"

lemma minute_steps: "(\<exists>k. t = c + int k * minute) \<longleftrightarrow> t = c \<or> (\<exists>k. t = c + minute + int k * minute)"
proof
  assume "\<exists>k. t = c + int k * minute"
  then obtain k where k: "t = c + int k * minute" by blast
  show "t = c \<or> (\<exists>k. t = c + minute + int k * minute)"
  proof (cases k)
    case (Suc j)
    with k have "t = c + minute + int j * minute" by (simp add: distrib_right)
    then show ?thesis by blast
  qed (use k in simp)
next
  have "c + minute + int k * minute = c + int (Suc k) * minute" for k by (simp add: distrib_right)
  moreover have "c = c + int 0 * minute" by simp
  ultimately show "t = c \<or> (\<exists>k. t = c + minute + int k * minute) \<Longrightarrow> \<exists>k. t = c + int k * minute" by metis
qed

lemma candidates_iff:
  "t \<in> set (candidates z start fin c e) \<longleftrightarrow> (\<exists>k. t = c + int k * minute) \<and> t < e \<and> inRestartWindow z t start fin"
proof (induction z start fin c e rule: candidates.induct)
  case (1 z start fin c e)
  show ?case
  proof (cases "c < e")
    case True
    then show ?thesis using 1 unfolding minute_steps [of t c] by (auto simp: candidates.simps [of z start fin c])
  next
    case False
    have "\<not> ((\<exists>k. t = c + int k * minute) \<and> t < e)"
    proof
      assume "(\<exists>k. t = c + int k * minute) \<and> t < e"
      then obtain k where "t = c + int k * minute" "t < e" by blast
      with False minutes_nonneg [of k] show False by linarith
    qed
    with False show ?thesis by (auto simp: candidates.simps [of z start fin c])
  qed
qed

lemma first_minute_ge: "earliest \<le> first_minute z earliest day"
  using round_down_le [of minute earliest] by (auto simp: first_minute_def Let_def)

lemma search_day_sound:
  assumes "search_day z earliest start fin pick day = Some t" "fair pick"
  shows "earliest \<le> t \<and> inRestartWindow z t start fin"
proof -
  have "fair pick \<longrightarrow> earliest \<le> t \<and> inRestartWindow z t start fin"
  proof (rule search_day.raw_induct [OF _ assms(1)])
    fix search z earliest start fin pick day t
    assume ih: "\<And>z earliest start fin pick day t. search z earliest start fin pick day = Some t \<Longrightarrow>
        fair pick \<longrightarrow> earliest \<le> t \<and> inRestartWindow z t start fin"
      and body: "(let found = candidates z start fin (first_minute z earliest day) (zn_midnight z (day + 1)) in
        if found \<noteq> [] then Some (found ! pick (length found))
        else search z earliest start fin pick (zn_date z (zn_noon z (day + 1)))) = Some t"
    let ?found = "candidates z start fin (first_minute z earliest day) (zn_midnight z (day + 1))"
    show "fair pick \<longrightarrow> earliest \<le> t \<and> inRestartWindow z t start fin"
    proof (cases "?found = []")
      case True
      with body ih show ?thesis by (simp add: Let_def)
    next
      case False
      show ?thesis
      proof
        assume "fair pick"
        with False have "pick (length ?found) < length ?found" by (simp add: fair_def)
        with body False have "t \<in> set ?found" by (auto simp: Let_def)
        then obtain k where "t = first_minute z earliest day + int k * minute" "inRestartWindow z t start fin"
          by (auto simp: candidates_iff)
        moreover have "0 \<le> int k * minute" by simp
        ultimately show "earliest \<le> t \<and> inRestartWindow z t start fin" using first_minute_ge [of earliest z day] by linarith
      qed
    qed
  qed
  with assms(2) show ?thesis by blast
qed

lemma nextRestartTime_sound:
  "nextRestartTime z earliest start fin pick = Some t \<Longrightarrow> fair pick \<Longrightarrow> earliest \<le> t \<and> inRestartWindow z t start fin"
  unfolding nextRestartTime_def by (rule search_day_sound)




section \<open>Restarts happen at night\<close>

text \<open>The scheduler with the instant its present options were set: configurations that were accepted, and polls.\<close>

datatype sched_label = Configure ScheduledRestartConfig int | Poll int "int option"

inductive sched_step :: "host \<Rightarrow> (string \<Rightarrow> zone) \<Rightarrow> restartScheduler \<times> int \<Rightarrow> sched_label \<Rightarrow> restartScheduler \<times> int \<Rightarrow> bool"
  for h :: host and zone_of :: "string \<Rightarrow> zone" where
  step_configure: "fair pick \<Longrightarrow> restart_ok h options \<Longrightarrow> configure_restart h zone_of pick now options s = Some s' \<Longrightarrow>
     sched_step h zone_of (s, set_at) (Configure options now) (s', if rs_configured s \<and> rs_options s = options then set_at else now)"
| step_poll: "fair pick \<Longrightarrow> due pick now s = Some (r, s') \<Longrightarrow> sched_step h zone_of (s, set_at) (Poll now r) (s', set_at)"

definition sched_inv :: "host \<Rightarrow> (string \<Rightarrow> zone) \<Rightarrow> restartScheduler \<times> int \<Rightarrow> bool" where
  "sched_inv h zone_of x \<longleftrightarrow>
     (case x of (s, set_at) \<Rightarrow>
       \<forall>n. rs_next s = Some n \<longrightarrow>
         sr_Enabled (rs_options s) \<and> restart_ok h (rs_options s) \<and> Window (rs_options s) = Inr (rs_start s, rs_end s)
         \<and> rs_location s = zone_of (sr_Timezone (rs_options s))
         \<and> rs_eligible s = set_at + sr_IntervalDays (rs_options s) * 24 * hour \<and> rs_eligible s \<le> n)"

lemma interval_fits: "restart_ok h c \<Longrightarrow> i64 (sr_IntervalDays c * 24 * hour) = sr_IntervalDays c * 24 * hour"
  by (rule i64_id) (auto simp: restart_ok_def int64_range_def clock_units)

lemma configure_inv:
  assumes "sched_inv h zone_of (s, set_at)" "fair pick" "restart_ok h options" "configure_restart h zone_of pick now options s = Some s'"
  shows "sched_inv h zone_of (s', if rs_configured s \<and> rs_options s = options then set_at else now)"
proof (cases "rs_configured s \<and> rs_options s = options")
  case True
  with assms(1,4) show ?thesis by (simp add: configure_restart_def)
next
  case False
  from assms(3) obtain start fin where w: "Window options = Inr (start, fin)" and l: "Location h options" by (auto simp: restart_ok_def)
  have "sched_inv h zone_of (s', now)"
    using assms(4) False w l interval_fits [OF assms(3)] assms(3) nextRestartTime_sound [OF _ assms(2)]
    by (auto simp: configure_restart_def Let_def sched_inv_def split: if_splits option.splits)
  with False show ?thesis by auto
qed

lemma poll_inv:
  assumes "sched_inv h zone_of (s, set_at)" "fair pick" "due pick now s = Some (r, s')"
  shows "sched_inv h zone_of (s', set_at)"
  using assms nextRestartTime_sound [OF _ assms(2)]
  by (fastforce simp: due_def sched_inv_def not_less split: option.splits if_splits)

interpretation scheduler: component "\<lambda>x. rs_next (fst x) = None" "sched_step h zone_of" "sched_inv h zone_of" for h zone_of
proof
  show "sched_inv h zone_of s'" if "sched_inv h zone_of s" "sched_step h zone_of s e s'" for s e s'
    using that(2,1)
  proof (induction rule: sched_step.induct)
    case (step_configure pick options now s s' set_at)
    then show ?case using configure_inv by blast
  next
    case (step_poll pick now s r s' set_at)
    then show ?case using poll_inv by blast
  qed
qed (auto simp: sched_inv_def)

text \<open>
  C30. A restart only happens inside the configured daily window of the configured zone, and not before the configured
  number of days has passed since the options were set; loading the same options again does not move that date. It
  was planned for an instant that has passed, and the plan is used up.
\<close>

theorem restart_only_in_window:
  assumes "reachable (\<lambda>x. rs_next (fst x) = None) (sched_step h zone_of) (s, set_at)"
    and "sched_step h zone_of (s, set_at) (Poll now (Some planned)) (s', set_at')"
  shows "sr_Enabled (rs_options s)
    \<and> (\<exists>start fin. Window (rs_options s) = Inr (start, fin) \<and> inRestartWindow (zone_of (sr_Timezone (rs_options s))) now start fin)
    \<and> set_at + sr_IntervalDays (rs_options s) * 24 * hour \<le> planned \<and> planned \<le> now \<and> rs_next s' = None"
proof -
  have "sched_inv h zone_of (s, set_at)" using assms(1) by (rule scheduler.reachable_inv)
  with assms(2) show ?thesis
    by (auto elim!: sched_step.cases simp: due_def sched_inv_def split: option.splits if_splits)
qed

section \<open>An example\<close>







end
