(* ===== verification/Cdn.thy ===== *)
theory Cdn
  imports Netip "HOL-Library.Multiset"
begin

text \<open>
  \<^verbatim>\<open>common/cdn/ip.go\<close>: which CDN owns an address, and whether the panel has switched that CDN's
  exemption off. The prefix tables of the generated file \<^verbatim>\<open>ranges_generated.go\<close> are data; the model
  takes the whole provider list as the argument \<open>tables\<close>, in the order the code adds them
  (Cloudflare, CloudFront, then the generated providers), so the position of a provider is its rank.

  The code looks an address up through an index from prefix length to the masked prefixes of that
  length. \<open>provider_spec\<close> is the reference meaning, the first provider one of whose prefixes covers
  the address, and \<open>Provider_eq_spec\<close> says that the index lookup computes it, in whatever order the
  index is walked.
\<close>

record providerEntry =
  pe_name :: string
  pe_rank :: nat

type_synonym cdn_index = "(nat, (ip_prefix, providerEntry) gomap) gomap"

type_synonym cdn_tables = "(string \<times> ip_prefix list) list"

text \<open>The body of the closure \<^verbatim>\<open>add\<close> for one prefix: the first provider to claim a prefix keeps it.\<close>

definition index_add :: "string \<Rightarrow> nat \<Rightarrow> cdn_index \<Rightarrow> ip_prefix \<Rightarrow> cdn_index" where
  "index_add name rank idx p =
     (let p = masked p; bucket = mget [] idx (snd p)
      in case map_of bucket p of
           None \<Rightarrow> AList.update (snd p) (AList.update p \<lparr>pe_name = name, pe_rank = rank\<rparr> bucket) idx
         | Some _ \<Rightarrow> AList.update (snd p) bucket idx)"

fun index_from :: "nat \<Rightarrow> cdn_index \<Rightarrow> cdn_tables \<Rightarrow> cdn_index" where
  "index_from rank idx [] = idx"
| "index_from rank idx ((name, ps) # ts) = index_from (Suc rank) (foldl (index_add name rank) idx ps) ts"

definition buildIndex :: "cdn_tables \<Rightarrow> cdn_index" where
  "buildIndex tables = index_from 0 [] tables"

text \<open>One round of the loop of \<^verbatim>\<open>Provider\<close>: keep the entry of least rank.\<close>

definition better :: "ip_addr \<Rightarrow> providerEntry option \<Rightarrow> nat \<times> (ip_prefix, providerEntry) gomap
    \<Rightarrow> providerEntry option" where
  "better addr best kb = (case kb of (bits, bucket) \<Rightarrow>
     if bit_len addr < bits then best
     else (case map_of bucket (mask_addr addr bits, bits) of
             None \<Rightarrow> best
           | Some e \<Rightarrow> (case best of None \<Rightarrow> Some e
                        | Some b \<Rightarrow> if pe_rank e < pe_rank b then Some e else best)))"

definition Provider :: "cdn_index \<Rightarrow> string \<Rightarrow> string" where
  "Provider idx ip = (case parse_addr ip of
       None \<Rightarrow> ''''
     | Some a \<Rightarrow> (case foldl (better (unmap a)) None idx of None \<Rightarrow> '''' | Some e \<Rightarrow> pe_name e))"

text \<open>The operator's switches: \<^const>\<open>None\<close> until the first config pull.\<close>

type_synonym cdn_disabled = "string set option"

definition SetDisabledProviders :: "string list \<Rightarrow> cdn_disabled" where
  "SetDisabledProviders names =
     Some (set (filter (\<lambda>n. n \<noteq> '''') (map (\<lambda>n. to_lower (trim_space n)) names)))"

definition Exempt :: "cdn_index \<Rightarrow> cdn_disabled \<Rightarrow> string \<Rightarrow> string" where
  "Exempt idx disabled ip =
     (let name = Provider idx ip
      in if name = '''' then ''''
         else (case disabled of
                 None \<Rightarrow> name
               | Some s \<Rightarrow> if to_lower name \<in> s then '''' else name))"

definition IsProxyIP :: "cdn_index \<Rightarrow> cdn_disabled \<Rightarrow> string \<Rightarrow> bool" where
  "IsProxyIP idx disabled ip \<longleftrightarrow> Exempt idx disabled ip \<noteq> ''''"

section \<open>The index lookup against its reference meaning\<close>

text \<open>A prefix covers an address of its own family that agrees with it on the prefix's bits.\<close>

definition covers :: "ip_prefix \<Rightarrow> ip_addr \<Rightarrow> bool" where
  "covers p a \<longleftrightarrow> snd p \<le> bit_len a \<and> mask_addr (fst p) (snd p) = mask_addr a (snd p)"

definition provider_spec :: "cdn_tables \<Rightarrow> ip_addr \<Rightarrow> string option" where
  "provider_spec tables a =
     map_option fst (find (\<lambda>(name, ps). \<exists>p \<in> set ps. covers p a) tables)"

text \<open>Looking one prefix up in the index.\<close>

definition index_get :: "cdn_index \<Rightarrow> ip_prefix \<Rightarrow> providerEntry option" where
  "index_get idx p = map_of (mget [] idx (snd p)) p"

definition index_ok :: "cdn_index \<Rightarrow> bool" where
  "index_ok idx \<longleftrightarrow> keys_distinct idx"

lemma snd_masked [simp]: "snd (masked p) = snd p"
  by (simp add: masked_def)

lemma masked_eq_pair: "masked p = (mask_addr (fst p) (snd p), snd p)"
  by (simp add: masked_def)

lemma index_add_ok: "index_ok idx \<Longrightarrow> index_ok (index_add name rank idx p)"
  by (simp add: index_ok_def index_add_def Let_def split: option.split)

lemma index_get_add:
  "index_get (index_add name rank idx p) q =
     (if q = masked p \<and> index_get idx q = None then Some \<lparr>pe_name = name, pe_rank = rank\<rparr>
      else index_get idx q)"
  by (auto simp: index_get_def index_add_def Let_def split: option.split)

lemma index_add_all_ok: "index_ok idx \<Longrightarrow> index_ok (foldl (index_add name rank) idx ps)"
  by (induction ps arbitrary: idx) (simp_all add: index_add_ok)

lemma index_get_add_all:
  "index_get (foldl (index_add name rank) idx ps) q =
     (case index_get idx q of Some e \<Rightarrow> Some e
      | None \<Rightarrow> if q \<in> masked ` set ps then Some \<lparr>pe_name = name, pe_rank = rank\<rparr> else None)"
  by (induction ps arbitrary: idx) (auto simp: index_get_add split: option.split)

lemma index_from_ok: "index_ok idx \<Longrightarrow> index_ok (index_from rank idx ts)"
  by (induction rank idx ts rule: index_from.induct) (simp_all add: index_add_all_ok)

text \<open>The entry of a prefix is the first provider that lists it, with its position.\<close>

fun first_listing :: "nat \<Rightarrow> cdn_tables \<Rightarrow> ip_prefix \<Rightarrow> providerEntry option" where
  "first_listing rank [] q = None"
| "first_listing rank ((name, ps) # ts) q =
     (if q \<in> masked ` set ps then Some \<lparr>pe_name = name, pe_rank = rank\<rparr>
      else first_listing (Suc rank) ts q)"

lemma index_get_from:
  "index_get (index_from rank idx ts) q =
     (case index_get idx q of Some e \<Rightarrow> Some e | None \<Rightarrow> first_listing rank ts q)"
  by (induction rank idx ts rule: index_from.induct) (auto simp: index_get_add_all split: option.split)

lemma index_get_buildIndex: "index_get (buildIndex tables) q = first_listing 0 tables q"
  by (simp add: buildIndex_def index_get_from) (simp add: index_get_def mget_def)

lemma buildIndex_ok: "index_ok (buildIndex tables)"
  unfolding buildIndex_def by (rule index_from_ok) (simp add: index_ok_def)

text \<open>The loop keeps a hit of least rank among the buckets walked so far.\<close>

definition hit :: "ip_addr \<Rightarrow> nat \<times> (ip_prefix, providerEntry) gomap \<Rightarrow> providerEntry option" where
  "hit addr kb = (if bit_len addr < fst kb then None
                  else map_of (snd kb) (mask_addr addr (fst kb), fst kb))"

lemma better_hit:
  "better addr best kb =
     (case hit addr kb of None \<Rightarrow> best
      | Some e \<Rightarrow> (case best of None \<Rightarrow> Some e
                   | Some b \<Rightarrow> if pe_rank e < pe_rank b then Some e else best))"
  by (cases kb) (simp add: better_def hit_def)

lemma foldl_better_None:
  "foldl (better addr) best idx = None \<longleftrightarrow> best = None \<and> (\<forall>kb \<in> set idx. hit addr kb = None)"
  by (induction idx arbitrary: best) (auto simp: better_hit split: option.splits)

lemma foldl_better_Some:
  assumes "foldl (better addr) best idx = Some e"
  shows "(best = Some e \<or> (\<exists>kb \<in> set idx. hit addr kb = Some e)) \<and>
         (\<forall>b. best = Some b \<longrightarrow> pe_rank e \<le> pe_rank b) \<and>
         (\<forall>kb \<in> set idx. \<forall>b. hit addr kb = Some b \<longrightarrow> pe_rank e \<le> pe_rank b)"
  using assms
proof (induction idx arbitrary: best)
  case Nil
  then show ?case by simp
next
  case (Cons kb idx)
  from Cons.prems have "foldl (better addr) (better addr best kb) idx = Some e" by simp
  from Cons.IH [OF this] show ?case
    by (fastforce simp: better_hit split: option.splits if_splits)
qed

lemma bucket_hit:
  assumes "index_ok idx"
  shows "(\<exists>kb \<in> set idx. hit addr kb = Some e) \<longleftrightarrow>
         (\<exists>b \<le> bit_len addr. index_get idx (mask_addr addr b, b) = Some e)"
proof
  assume "\<exists>kb \<in> set idx. hit addr kb = Some e"
  then obtain b bucket where m: "(b, bucket) \<in> set idx" and h: "hit addr (b, bucket) = Some e"
    by (metis prod.exhaust)
  from m assms have "map_of idx b = Some bucket" by (simp add: index_ok_def)
  with h show "\<exists>b \<le> bit_len addr. index_get idx (mask_addr addr b, b) = Some e"
    by (intro exI [of _ b]) (auto simp: hit_def index_get_def mget_def split: if_splits)
next
  assume "\<exists>b \<le> bit_len addr. index_get idx (mask_addr addr b, b) = Some e"
  then obtain b where b: "b \<le> bit_len addr" and g: "index_get idx (mask_addr addr b, b) = Some e"
    by blast
  then obtain bucket where "map_of idx b = Some bucket" "map_of bucket (mask_addr addr b, b) = Some e"
    by (auto simp: index_get_def mget_def split: option.splits)
  with b show "\<exists>kb \<in> set idx. hit addr kb = Some e"
    by (intro bexI [of _ "(b, bucket)"]) (auto simp: hit_def dest: map_of_SomeD)
qed

lemma covers_iff: "covers p a \<longleftrightarrow> (\<exists>b \<le> bit_len a. masked p = (mask_addr a b, b))"
  by (auto simp: covers_def masked_eq_pair)

lemma first_listing_rank: "first_listing r ts q = Some e \<Longrightarrow> r \<le> pe_rank e"
  by (induction r ts q rule: first_listing.induct) (fastforce split: if_splits)+

text \<open>Among all covering prefixes, the entry of least rank names the first covering provider.\<close>

lemma least_listing:
  assumes "b \<le> bit_len a" "first_listing r ts (mask_addr a b, b) = Some e"
    and "\<forall>b' \<le> bit_len a. \<forall>e'. first_listing r ts (mask_addr a b', b') = Some e' \<longrightarrow> pe_rank e \<le> pe_rank e'"
  shows "provider_spec ts a = Some (pe_name e)"
  using assms
proof (induction ts arbitrary: r)
  case Nil
  then show ?case by simp
next
  case (Cons t ts)
  obtain name ps where t: "t = (name, ps)" by (cases t)
  show ?case
  proof (cases "\<exists>p \<in> set ps. covers p a")
    case True
    then obtain b' where b': "b' \<le> bit_len a" "(mask_addr a b', b') \<in> masked ` set ps"
      by (auto simp: covers_iff) (metis image_eqI)
    with Cons.prems(3) t have "pe_rank e \<le> r" by force
    with Cons.prems(2) t first_listing_rank [of "Suc r" ts] have "pe_name e = name"
      by (fastforce split: if_splits)
    with True t show ?thesis by (simp add: provider_spec_def)
  next
    case False
    then have none: "\<And>b'. b' \<le> bit_len a \<Longrightarrow> (mask_addr a b', b') \<notin> masked ` set ps"
      by (metis covers_iff imageE)
    with Cons.prems t have "provider_spec ts a = Some (pe_name e)"
      by (intro Cons.IH [of "Suc r"]) auto
    with False t show ?thesis by (simp add: provider_spec_def)
  qed
qed

lemma no_listing:
  assumes "\<forall>b \<le> bit_len a. first_listing r ts (mask_addr a b, b) = None"
  shows "provider_spec ts a = None"
  using assms
proof (induction ts arbitrary: r)
  case Nil
  then show ?case by (simp add: provider_spec_def)
next
  case (Cons t ts)
  obtain name ps where t: "t = (name, ps)" by (cases t)
  from Cons.prems t have "\<not> (\<exists>p \<in> set ps. covers p a)"
    by (fastforce simp: covers_iff image_iff split: if_splits)
  moreover from Cons.prems t have "provider_spec ts a = None"
    by (intro Cons.IH [of "Suc r"]) (auto split: if_splits)
  ultimately show ?case using t by (simp add: provider_spec_def)
qed

text \<open>
  C24. Whatever order Go walks the index map in, the CDN lookup returns the first provider of the
  table, in the order the providers are listed, one of whose prefixes covers the address; an
  IPv4-mapped IPv6 address is looked up as its IPv4 address, and a string that is no address or an
  address no provider covers gives the empty name.
\<close>

theorem Provider_eq_spec:
  assumes "mset idx = mset (buildIndex tables)"
  shows "Provider idx ip =
    (case parse_addr ip of None \<Rightarrow> ''''
     | Some a \<Rightarrow> (case provider_spec tables (unmap a) of None \<Rightarrow> '''' | Some name \<Rightarrow> name))"
proof (cases "parse_addr ip")
  case None
  then show ?thesis by (simp add: Provider_def)
next
  case (Some a)
  let ?a = "unmap a"
  from assms have set_eq: "set idx = set (buildIndex tables)" by (rule mset_eq_setD)
  note hits = bucket_hit [OF buildIndex_ok, of tables ?a, folded set_eq, unfolded index_get_buildIndex]
  show ?thesis
  proof (cases "foldl (better ?a) None idx")
    case None
    then have "\<forall>b \<le> bit_len ?a. first_listing 0 tables (mask_addr ?a b, b) = None"
      using hits by (auto simp: foldl_better_None) (metis not_None_eq)
    from no_listing [OF this] show ?thesis using Some None by (simp add: Provider_def)
  next
    case e: (Some e)
    note best = foldl_better_Some [OF e]
    from best hits [of e] obtain b where "b \<le> bit_len ?a"
      "first_listing 0 tables (mask_addr ?a b, b) = Some e" by auto
    moreover have "\<forall>b' \<le> bit_len ?a. \<forall>e'. first_listing 0 tables (mask_addr ?a b', b') = Some e'
        \<longrightarrow> pe_rank e \<le> pe_rank e'"
      using best hits by metis
    ultimately have "provider_spec tables ?a = Some (pe_name e)" by (rule least_listing)
    with Some e show ?thesis by (simp add: Provider_def)
  qed
qed

theorem Provider_eq_spec_witness:
  "Provider [(8, [((IPv4 16777216, 8), \<lparr>pe_name = ''Edge'', pe_rank = 0\<rparr>)])] ''1.2.3.4'' = ''Edge''"
  using Provider_eq_spec [of _ "[(''Edge'', [(IPv4 16843267, 8)])]" "''1.2.3.4''"]
  by (simp add: buildIndex_def index_add_def masked_def mask_addr_def mget_def parse_addr_example
      provider_spec_def covers_def bit_len_def)

end
