(* ===== verification/Panel_Devices.thy ===== *)
theory Panel_Devices
  imports Cdn Panel_Node
begin

text \<open>
  The device counts a panel sends, \<^verbatim>\<open>src/api/panel/devices.go\<close>, and what the client does with them and with kicks and
  traffic reports (\<^verbatim>\<open>src/api/panel/panel.go\<close>, \<^verbatim>\<open>src/api/panel/user.go\<close>). A hook the controller has installed is a flag;
  calling it is the value handed to it.
\<close>

section \<open>Host and port\<close>

text \<open>\<^verbatim>\<open>net.SplitHostPort\<close>.\<close>

definition last_colon :: "string \<Rightarrow> (string \<times> string) option" where
  "last_colon s =
     (if CHR '':'' \<in> set s
      then Some (rev (tl (dropWhile (\<lambda>c. c \<noteq> CHR '':'') (rev s))), rev (takeWhile (\<lambda>c. c \<noteq> CHR '':'') (rev s)))
      else None)"

definition split_host_port :: "string \<Rightarrow> (string \<times> string) option" where
  "split_host_port s =
     (case last_colon s of
        None \<Rightarrow> None
      | Some (before, port) \<Rightarrow>
          if before \<noteq> [] \<and> hd before = CHR ''[''
          then (if last before = CHR '']'' \<and> length before \<ge> 2 \<and> CHR '']'' \<notin> set (butlast (tl before))
                   \<and> CHR ''['' \<notin> set (tl before) \<and> CHR ''['' \<notin> set port \<and> CHR '']'' \<notin> set port
                then Some (butlast (tl before), port) else None)
          else if CHR '':'' \<in> set before \<or> CHR ''['' \<in> set s \<or> CHR '']'' \<in> set s then None
          else Some (before, port))"

definition normalizeDeviceIP :: "string \<Rightarrow> string" where
  "normalizeDeviceIP ip =
     (case split_host_port ip of
        None \<Rightarrow> ip
      | Some (host, port) \<Rightarrow> if atoi port = None then ip else host)"

section \<open>Counting devices\<close>

text \<open>The state of the CDN package: its index and the providers switched off. A set of addresses is a list without repetitions.\<close>

type_synonym cdn_state = "cdn_index \<times> cdn_disabled"

definition addDeviceIP :: "cdn_state \<Rightarrow> string \<Rightarrow> string list \<Rightarrow> string list" where
  "addDeviceIP cdn ip0 ips =
     (let ip1 = trim_space ip0 in
      if ip1 = [] then ips
      else let ip = normalizeDeviceIP ip1 in
      if IsProxyIP (fst cdn) (snd cdn) ip then ips else List.insert ip ips)"

definition appendDeviceIPsFromArray :: "cdn_state \<Rightarrow> json \<Rightarrow> string list \<Rightarrow> string list option" where
  "appendDeviceIPsFromArray cdn raw ips =
     (case into_list [] into_string [] raw of
        None \<Rightarrow> None
      | Some vals \<Rightarrow> Some (fold (addDeviceIP cdn) vals ips))"

definition appendDeviceIPsFromObject :: "cdn_state \<Rightarrow> json \<Rightarrow> string list \<Rightarrow> string list option" where
  "appendDeviceIPsFromObject cdn raw ips =
     (case into_map Some [] into_string [] raw of
        None \<Rightarrow> None
      | Some vals \<Rightarrow> Some (fold (addDeviceIP cdn) (map snd vals) ips))"

definition countDeviceIPs :: "cdn_state \<Rightarrow> json \<Rightarrow> int option" where
  "countDeviceIPs cdn raw =
     (case into_int 0 raw of
        Some n \<Rightarrow> if n < 0 then Some 0 else Some n
      | None \<Rightarrow>
          (case appendDeviceIPsFromArray cdn raw [] of
             Some ips \<Rightarrow> Some (int (length ips))
           | None \<Rightarrow>
               (case appendDeviceIPsFromObject cdn raw [] of
                  Some ips \<Rightarrow> Some (int (length ips))
                | None \<Rightarrow> None)))"

definition into_raw_value :: "json \<Rightarrow> json \<Rightarrow> json option" where
  "into_raw_value old j = Some j"

definition extractDeviceUsers :: "json \<Rightarrow> json option" where
  "extractDeviceUsers raw =
     (case into_map Some JNull into_raw_value [] raw of
        None \<Rightarrow> None
      | Some envelope \<Rightarrow>
          (case map_of envelope ''users'' of
             Some users \<Rightarrow> Some users
           | None \<Rightarrow>
               (case map_of envelope ''devices'' of
                  Some devices \<Rightarrow> Some devices
                | None \<Rightarrow> Some raw)))"

definition count_user :: "cdn_state \<Rightarrow> string \<times> json \<Rightarrow> (int, int) gomap \<Rightarrow> (int, int) gomap" where
  "count_user cdn entry alive =
     (case entry of (rawUID, rawIPs) \<Rightarrow>
        case atoi rawUID of
          None \<Rightarrow> alive
        | Some uid \<Rightarrow>
            if uid \<le> 0 then alive
            else case countDeviceIPs cdn rawIPs of
              None \<Rightarrow> alive
            | Some n \<Rightarrow> if 0 < n then AList.update uid n alive else alive)"

text \<open>\<^const>\<open>None\<close> is a message of no bytes.\<close>

definition decodeDeviceAliveMap :: "cdn_state \<Rightarrow> json option \<Rightarrow> (int, int) gomap option" where
  "decodeDeviceAliveMap cdn raw0 =
     (case raw0 of
        None \<Rightarrow> Some []
      | Some raw \<Rightarrow>
          if raw = JNull then Some []
          else case extractDeviceUsers raw of
            None \<Rightarrow> None
          | Some devicesRaw \<Rightarrow>
              (case into_map Some JNull into_raw_value [] devicesRaw of
                 None \<Rightarrow> None
               | Some devices \<Rightarrow> Some (fold (count_user cdn) devices [])))"

definition copyAliveMap :: "(int, int) gomap \<Rightarrow> (int, int) gomap" where
  "copyAliveMap alive = filter (\<lambda>(uid, n). 0 < uid \<and> 0 < n) alive"

section \<open>The client\<close>

record AliveMap =
  am_Alive :: "(int, int) gomap"
  am_Kicked :: "(int, (string, int) gomap) gomap"

record AliveClient =
  ac_AliveMap :: "AliveMap option"
  ac_aliveUpdate :: bool
  ac_kickedUpdate :: bool

datatype hook_call = AliveHook "(int, int) gomap" | KickedHook "(int, (string, int) gomap) gomap"

definition SetAliveUpdateHook :: "bool \<Rightarrow> AliveClient \<Rightarrow> AliveClient" where
  "SetAliveUpdateHook hook c = c\<lparr>ac_aliveUpdate := hook\<rparr>"

definition SetKickedUpdateHook :: "bool \<Rightarrow> AliveClient \<Rightarrow> AliveClient" where
  "SetKickedUpdateHook hook c = c\<lparr>ac_kickedUpdate := hook\<rparr>"

definition applyAliveMap :: "(int, int) gomap \<Rightarrow> AliveClient \<Rightarrow> AliveClient \<times> hook_call list" where
  "applyAliveMap alive c =
     (let snapshot = copyAliveMap alive;
          am = (case ac_AliveMap c of None \<Rightarrow> \<lparr>am_Alive = [], am_Kicked = []\<rparr> | Some a \<Rightarrow> a);
          c' = c\<lparr>ac_AliveMap := Some (am\<lparr>am_Alive := snapshot\<rparr>)\<rparr>
      in (c', if ac_aliveUpdate c' then [AliveHook (copyAliveMap snapshot)] else []))"

definition applyKickedMap :: "(int, (string, int) gomap) gomap \<Rightarrow> AliveClient \<Rightarrow> hook_call list" where
  "applyKickedMap kicked c = (if kicked = [] then [] else if ac_kickedUpdate c then [KickedHook kicked] else [])"

definition cachedAliveMap :: "AliveClient \<Rightarrow> (int, int) gomap" where
  "cachedAliveMap c = (case ac_AliveMap c of None \<Rightarrow> [] | Some a \<Rightarrow> copyAliveMap (am_Alive a))"

definition into_kicked :: "(int, (string, int) gomap) gomap \<Rightarrow> json \<Rightarrow> (int, (string, int) gomap) gomap option" where
  "into_kicked = into_map atoi [] (into_map Some 0 into_int)"

definition decodeKickedEnvelope :: "json option \<Rightarrow> (int, (string, int) gomap) gomap" where
  "decodeKickedEnvelope raw =
     (case Option.bind raw (into_struct [(''kicked'', into_kicked)] []) of None \<Rightarrow> [] | Some k \<Rightarrow> k)"

definition onSyncDevices :: "cdn_state \<Rightarrow> json option \<Rightarrow> AliveClient \<Rightarrow> AliveClient \<times> hook_call list" where
  "onSyncDevices cdn raw c =
     (case decodeDeviceAliveMap cdn raw of
        None \<Rightarrow> (c, [])
      | Some alive \<Rightarrow>
          (case applyAliveMap alive c of
             (c', calls) \<Rightarrow> (c', calls @ applyKickedMap (decodeKickedEnvelope raw) c')))"

definition onSyncKick :: "json option \<Rightarrow> AliveClient \<Rightarrow> hook_call list" where
  "onSyncKick raw c =
     (let kicked = decodeKickedEnvelope raw in if kicked = [] then [] else applyKickedMap kicked c)"

definition AliveMap_fields :: "AliveMap fields" where
  "AliveMap_fields =
     [(''alive'', fld am_Alive am_Alive_update (into_map atoi 0 into_int)),
      (''kicked'', fld am_Kicked am_Kicked_update into_kicked)]"

text \<open>\<open>res\<close> is the response to the poll: none when the request failed, else its status and body.\<close>

definition GetUserAlive ::
  "(int \<times> json option) option \<Rightarrow> AliveClient \<Rightarrow> AliveClient \<times> hook_call list \<times> (int, int) gomap" where
  "GetUserAlive res c =
     (case res of
        None \<Rightarrow> (c, [], cachedAliveMap c)
      | Some (status, body) \<Rightarrow>
          if 399 \<le> status then (c, [], cachedAliveMap c)
          else case Option.bind body (into_struct AliveMap_fields \<lparr>am_Alive = [], am_Kicked = []\<rparr>) of
            None \<Rightarrow> (c, [], cachedAliveMap c)
          | Some am \<Rightarrow>
              (case applyAliveMap (am_Alive am) c of
                 (c', calls) \<Rightarrow> (c', calls @ applyKickedMap (am_Kicked am) c', cachedAliveMap c')))"

definition traffic_body :: "UserTraffic list \<Rightarrow> (int, int list) gomap" where
  "traffic_body userTraffic =
     fold (\<lambda>t. AList.update (t_UID t) [t_Upload t, t_Download t]) userTraffic []"

section \<open>Device counts\<close>

lemma set_fold_addDeviceIP:
  "set (fold (addDeviceIP cdn) vals ips) =
     set ips \<union> {normalizeDeviceIP (trim_space v) | v. v \<in> set vals \<and> trim_space v \<noteq> [] \<and>
       \<not> IsProxyIP (fst cdn) (snd cdn) (normalizeDeviceIP (trim_space v))}"
  by (induction vals arbitrary: ips) (auto simp: addDeviceIP_def Let_def)

lemma distinct_fold_addDeviceIP: "distinct ips \<Longrightarrow> distinct (fold (addDeviceIP cdn) vals ips)"
  by (induction vals arbitrary: ips) (auto simp: addDeviceIP_def Let_def)

lemma into_elems_strings: "into_elems [] into_string (map JStr vals) = Some vals"
  by (induction vals) (simp_all add: into_string_def)

text \<open>
  A list of addresses counts the devices behind it: the number of different addresses left after blanks are
  trimmed, ports cut off, empty entries dropped and CDN edges not counted.
\<close>

theorem countDeviceIPs_array:
  "countDeviceIPs cdn (JArr (map JStr vals)) =
     Some (int (card {normalizeDeviceIP (trim_space v) | v. v \<in> set vals \<and> trim_space v \<noteq> [] \<and>
       \<not> IsProxyIP (fst cdn) (snd cdn) (normalizeDeviceIP (trim_space v))}))"
proof -
  let ?ips = "fold (addDeviceIP cdn) vals []"
  have "length ?ips = card (set ?ips)" by (simp add: distinct_card distinct_fold_addDeviceIP)
  then show ?thesis
    by (simp add: countDeviceIPs_def into_int_def appendDeviceIPsFromArray_def into_list_def into_elems_strings
        set_fold_addDeviceIP)
qed

lemma count_user_fold:
  assumes "(uid, n) \<in> set (fold (count_user cdn) ds alive)"
  shows "(uid, n) \<in> set alive \<or>
    (\<exists>k j. (k, j) \<in> set ds \<and> atoi k = Some uid \<and> 0 < uid \<and> countDeviceIPs cdn j = Some n \<and> 0 < n)"
  using assms
proof (induction ds arbitrary: alive)
  case (Cons d ds)
  obtain k j where d: "d = (k, j)" by (cases d)
  from Cons.IH [of "count_user cdn d alive"] Cons.prems
  consider "(uid, n) \<in> set (count_user cdn d alive)"
    | "\<exists>k j. (k, j) \<in> set ds \<and> atoi k = Some uid \<and> 0 < uid \<and> countDeviceIPs cdn j = Some n \<and> 0 < n"
    by auto
  then show ?case
  proof cases
    case 1
    then have "(uid, n) \<in> set alive \<or> (atoi k = Some uid \<and> 0 < uid \<and> countDeviceIPs cdn j = Some n \<and> 0 < n)"
      using d by (auto simp: count_user_def split: option.splits if_splits dest!: in_set_update)
    then show ?thesis using d by auto
  next
    case 2
    then show ?thesis by auto
  qed
qed simp

lemma count_user_keeps: "map_of alive uid \<noteq> None \<Longrightarrow> map_of (fold (count_user cdn) ds alive) uid \<noteq> None"
proof (induction ds arbitrary: alive)
  case (Cons d ds)
  have "map_of (count_user cdn d alive) uid \<noteq> None"
    using Cons.prems by (cases d) (auto simp: count_user_def split: option.splits)
  with Cons.IH show ?case by simp
qed simp

lemma count_user_complete:
  "(k, j) \<in> set ds \<Longrightarrow> atoi k = Some uid \<Longrightarrow> 0 < uid \<Longrightarrow> countDeviceIPs cdn j = Some n \<Longrightarrow> 0 < n \<Longrightarrow>
     map_of (fold (count_user cdn) ds alive) uid \<noteq> None"
proof (induction ds arbitrary: alive)
  case (Cons d ds)
  show ?case
  proof (cases "d = (k, j)")
    case True
    with Cons.prems have "map_of (count_user cdn d alive) uid \<noteq> None" by (simp add: count_user_def)
    then show ?thesis using count_user_keeps [of "count_user cdn d alive" uid cdn ds] by simp
  next
    case False
    with Cons show ?thesis by simp
  qed
qed simp

lemma count_user_distinct: "keys_distinct alive \<Longrightarrow> keys_distinct (fold (count_user cdn) ds alive)"
proof (induction ds arbitrary: alive)
  case (Cons d ds)
  have "keys_distinct (count_user cdn d alive)"
    using Cons.prems by (cases d) (auto simp: count_user_def split: option.splits)
  with Cons.IH show ?case by simp
qed simp

text \<open>
  Decoding a snapshot of devices is exact: the result has positive user ids and counts only, every count is that
  of an entry of the message whose key reads as the user id, and every entry with a positive id and a positive count
  gives its user a count; entries that do not decode are skipped without failing the others.
\<close>

theorem decodeDeviceAliveMap_exact:
  assumes "extractDeviceUsers raw = Some devicesRaw" "raw \<noteq> JNull"
    and "into_map Some JNull into_raw_value [] devicesRaw = Some devices"
  shows "\<exists>alive. decodeDeviceAliveMap cdn (Some raw) = Some alive \<and> keys_distinct alive \<and>
    (\<forall>uid n. map_of alive uid = Some n \<longrightarrow> 0 < uid \<and> 0 < n \<and>
      (\<exists>k j. (k, j) \<in> set devices \<and> atoi k = Some uid \<and> countDeviceIPs cdn j = Some n)) \<and>
    (\<forall>k j uid n. (k, j) \<in> set devices \<and> atoi k = Some uid \<and> 0 < uid \<and> countDeviceIPs cdn j = Some n \<and> 0 < n \<longrightarrow>
      map_of alive uid \<noteq> None)"
proof -
  let ?alive = "fold (count_user cdn) devices []"
  have "decodeDeviceAliveMap cdn (Some raw) = Some ?alive"
    using assms by (simp add: decodeDeviceAliveMap_def)
  moreover have "0 < uid \<and> 0 < n \<and> (\<exists>k j. (k, j) \<in> set devices \<and> atoi k = Some uid \<and> countDeviceIPs cdn j = Some n)"
    if "map_of ?alive uid = Some n" for uid n
    using count_user_fold [of uid n cdn devices "[]"] map_of_SomeD [OF that] by auto
  ultimately show ?thesis
    using count_user_distinct [of "[]" cdn devices] count_user_complete [of _ _ devices _ cdn _ "[]"]
    by (intro exI [of _ ?alive]) (simp, blast)
qed

theorem decodeDeviceAliveMap_exact_witness:
  "\<exists>alive. decodeDeviceAliveMap ([], None) (Some (JObj [(''users'', JObj [(''7'', JNum ''2'')])])) = Some alive \<and>
     keys_distinct alive"
proof -
  have "extractDeviceUsers (JObj [(''users'', JObj [(''7'', JNum ''2'')])]) = Some (JObj [(''7'', JNum ''2'')])"
    by (simp add: extractDeviceUsers_def into_map_def into_raw_value_def)
  moreover have "into_map Some JNull into_raw_value [] (JObj [(''7'', JNum ''2'')]) = Some [(''7'', JNum ''2'')]"
    by (simp add: into_map_def into_raw_value_def)
  ultimately show ?thesis
    using decodeDeviceAliveMap_exact [of "JObj [(''users'', JObj [(''7'', JNum ''2'')])]" "JObj [(''7'', JNum ''2'')]"
        "[(''7'', JNum ''2'')]" "([], None)"] by blast
qed

section \<open>The alive list the limiter sees\<close>

lemma copyAliveMap_idem [simp]: "copyAliveMap (copyAliveMap m) = copyAliveMap m"
  by (simp add: copyAliveMap_def)

definition alive_calls :: "hook_call list \<Rightarrow> hook_call list" where
  "alive_calls calls = filter (\<lambda>h. case h of AliveHook m \<Rightarrow> True | KickedHook k \<Rightarrow> False) calls"

text \<open>
  One snapshot for all readers: after a poll applied a device list, the cached list, the list handed to the
  limiter's hook and what the poll returns are the same; a poll that fails or does not decode leaves the cache and
  the limiter alone and returns the cached list.
\<close>

theorem GetUserAlive_consistent:
  "(case GetUserAlive res c of (c', calls, result) \<Rightarrow>
      result = cachedAliveMap c' \<and>
      (c' = c \<and> calls = [] \<or>
       alive_calls calls = (if ac_aliveUpdate c then [AliveHook result] else [])))"
proof -
  have "alive_calls (applyKickedMap k d) = []" for k d
    by (simp add: applyKickedMap_def alive_calls_def)
  then show ?thesis
    by (auto simp: GetUserAlive_def applyAliveMap_def cachedAliveMap_def Let_def alive_calls_def
        split: option.splits prod.splits)
qed

end
