(* ===== verification/Panel_Users.thy ===== *)
theory Panel_Users
  imports Panel_Devices Panel_Fetch Conf_Node
begin

text \<open>
  \<^verbatim>\<open>Client.GetUserList\<close> (\<^verbatim>\<open>src/api/panel/user.go\<close>) and the part of \<^verbatim>\<open>Client\<close> (\<^verbatim>\<open>src/api/panel/panel.go\<close>) the node controller
  works with: the cache of the node info, the ETag of the user list and the alive map.

  The JSON form of the list is read token by token, so a body that breaks off behind the array of users is accepted.
  The stream \<open>jtok\<close> is what \<^verbatim>\<open>jsontext.Decoder\<close> hands out until it fails: a string, the start of an array with the values
  that can be read from it and whether its end is reached, or any other token. The MessagePack form is decoded by a
  library; \<open>ur_Packed\<close> is its result, without a list for an error.
\<close>

section \<open>The list of users\<close>

datatype jtok = TStr string | TArr "json list" bool | TOther

record user_response =
  ur_Status :: int
  ur_ETag :: string
  ur_Msgpack :: bool
  ur_Packed :: "UserInfo list option"
  ur_Stream :: "jtok list"

definition UserInfo_zero :: UserInfo where
  "UserInfo_zero = \<lparr>u_Id = 0, u_Uuid = [], u_SpeedLimit = 0, u_DeviceLimit = 0\<rparr>"

definition UserInfo_fields :: "UserInfo fields" where
  "UserInfo_fields =
     [(''id'', fld u_Id u_Id_update into_int),
      (''uuid'', fld u_Uuid u_Uuid_update into_string),
      (''speed_limit'', fld u_SpeedLimit u_SpeedLimit_update into_int),
      (''device_limit'', fld u_DeviceLimit u_DeviceLimit_update into_int)]"

definition decode_user :: "json \<Rightarrow> UserInfo option" where
  "decode_user v = into_struct UserInfo_fields UserInfo_zero v"

fun read_users :: "jtok list \<Rightarrow> UserInfo list option" where
  "read_users [] = None"
| "read_users (tok # toks) =
     (if tok = TStr ''users''
      then (case toks of
              TArr vals ended # _ \<Rightarrow> if ended then those (map decode_user vals) else None
            | _ \<Rightarrow> None)
      else read_users toks)"

datatype users_error = NoResponse | BadResponse node_error | DecodeError

text \<open>
  \<open>res\<close> is the response, if there is one, and the transport error beside it. The result is the list, none for a list
  that has not changed; the second component is the new ETag.
\<close>

definition GetUserList ::
  "(user_response \<times> string option) option \<Rightarrow> string \<Rightarrow> (users_error + UserInfo list option) \<times> string" where
  "GetUserList res etag =
     (case res of
        None \<Rightarrow> (Inl NoResponse, etag)
      | Some (r, err) \<Rightarrow>
          if ur_Status r = 304 then (Inr None, etag)
          else if err \<noteq> None then (Inl (BadResponse (RequestFailed (the err))), etag)
          else if 400 \<le> ur_Status r then (Inl (BadResponse (RequestFailed ''status'')), etag)
          else (case (if ur_Msgpack r then ur_Packed r else read_users (ur_Stream r)) of
                  None \<Rightarrow> (Inl DecodeError, etag)
                | Some users \<Rightarrow> (Inr (Some users), ur_ETag r)))"

text \<open>The token stream of a whole value.\<close>

fun tokens_of :: "json \<Rightarrow> jtok list"
  and tokens_of_list :: "json list \<Rightarrow> jtok list"
  and tokens_of_members :: "(string \<times> json) list \<Rightarrow> jtok list" where
  "tokens_of (JStr s) = [TStr s]"
| "tokens_of (JArr xs) = TArr xs True # tokens_of_list xs @ [TOther]"
| "tokens_of (JObj ms) = TOther # tokens_of_members ms @ [TOther]"
| "tokens_of v = [TOther]"
| "tokens_of_list [] = []"
| "tokens_of_list (x # xs) = tokens_of x @ tokens_of_list xs"
| "tokens_of_members [] = []"
| "tokens_of_members ((k, v) # ms) = TStr k # tokens_of v @ tokens_of_members ms"

lemma read_users_skip: "TStr ''users'' \<notin> set pre \<Longrightarrow> read_users (pre @ toks) = read_users toks"
  by (induction pre) auto

text \<open>
  An object without an earlier string \<^verbatim>\<open>users\<close>, neither as a key nor inside a value, is read like a struct with that
  field; an earlier one is taken for the key.
\<close>

lemma read_users_member:
  assumes "TStr ''users'' \<notin> set (tokens_of_members ms)"
  shows "read_users (tokens_of (JObj (ms @ (''users'', JArr vs) # ms'))) = those (map decode_user vs)"
proof -
  have split: "tokens_of_members (xs @ ys) = tokens_of_members xs @ tokens_of_members ys" for xs ys
    by (induction xs) auto
  show ?thesis using assms by (simp add: split read_users_skip)
qed

lemma read_users_misled:
  "read_users (tokens_of (JObj ((''note'', JStr ''users'') # (''users'', JArr vs) # ms))) = None"
  by simp

section \<open>The client\<close>

record Client =
  cl_APIHost :: string
  cl_NodeId :: int
  cl_NodeType :: string
  cl_node :: NodeCache
  cl_userEtag :: string
  cl_alive :: AliveClient

definition panel_types :: "string list" where
  "panel_types = [''anytls'', ''artx'', ''vmess'', ''trojan'', ''shadowsocks'', ''vless'', ''hysteria'', ''hysteria2'', ''tuic'',
     ''shadowtls'', ''naive'']"

text \<open>A new client, with the timeout of its requests in seconds; the error is the type that is not supported.\<close>

definition panel_New :: "ApiConfig \<Rightarrow> string + Client \<times> int" where
  "panel_New c =
     (let timeout = (if 0 < ap_Timeout c then ap_Timeout c else 5);
          nodeType = to_lower (ap_NodeType c);
          client = (\<lambda>t. \<lparr>cl_APIHost = ap_APIHost c, cl_NodeId = ap_NodeID c, cl_NodeType = t,
                        cl_node = \<lparr>nodeEtag = [], nodeConfigHash = [], nodeCacheVersion = 0, nodeRetryVersion = 0\<rparr>,
                        cl_userEtag = [],
                        cl_alive = \<lparr>ac_AliveMap = Some \<lparr>am_Alive = [], am_Kicked = []\<rparr>, ac_aliveUpdate = False, ac_kickedUpdate = False\<rparr>\<rparr>)
      in if nodeType = ''v2ray'' then Inr (client ''vmess'', timeout)
         else if nodeType \<in> set panel_types then Inr (client nodeType, timeout)
         else Inl nodeType)"

text \<open>What the counters of the metrics say of one response: a success or a failure.\<close>

definition api_outcome :: "int \<Rightarrow> int \<times> int \<Rightarrow> int \<times> int" where
  "api_outcome status = (\<lambda>(success, failure).
     if 200 \<le> status \<and> status < 400 then (success + 1, failure) else (success, failure + 1))"

definition invalidateUserListCache :: "Client \<Rightarrow> Client" where
  "invalidateUserListCache p = p\<lparr>cl_userEtag := []\<rparr>"

text \<open>A node fetch during which nothing invalidates the cache.\<close>

definition GetNodeInfo ::
  "(string \<Rightarrow> bool) \<Rightarrow> (NodeInfo \<Rightarrow> string) \<Rightarrow> string + http_response option \<Rightarrow> Client \<Rightarrow> Client \<times> (node_error + NodeInfo option)" where
  "GetNodeInfo uni hash res p =
     (case node_response uni hash (cl_NodeId p) (cl_NodeType p) (node_request (cl_node p)) res (cl_node p) of
        (cache, r) \<Rightarrow> (p\<lparr>cl_node := cache\<rparr>, r))"

definition fetch_users :: "(user_response \<times> string option) option \<Rightarrow> Client \<Rightarrow> Client \<times> (users_error + UserInfo list option)" where
  "fetch_users res p = (case GetUserList res (cl_userEtag p) of (r, etag) \<Rightarrow> (p\<lparr>cl_userEtag := etag\<rparr>, r))"

definition fetch_alive ::
  "(int \<times> json option) option \<Rightarrow> Client \<Rightarrow> Client \<times> hook_call list \<times> (int, int) gomap" where
  "fetch_alive res p = (case GetUserAlive res (cl_alive p) of (a, calls, m) \<Rightarrow> (p\<lparr>cl_alive := a\<rparr>, calls, m))"

lemma GetNodeInfo_frame [simp]:
  "cl_alive (fst (GetNodeInfo uni hash res p)) = cl_alive p"
  "cl_userEtag (fst (GetNodeInfo uni hash res p)) = cl_userEtag p"
  "cl_APIHost (fst (GetNodeInfo uni hash res p)) = cl_APIHost p"
  "cl_NodeId (fst (GetNodeInfo uni hash res p)) = cl_NodeId p"
  "cl_NodeType (fst (GetNodeInfo uni hash res p)) = cl_NodeType p"
  by (simp_all add: GetNodeInfo_def split: prod.split)

lemma fetch_users_frame [simp]:
  "cl_alive (fst (fetch_users res p)) = cl_alive p" "cl_node (fst (fetch_users res p)) = cl_node p"
  "cl_APIHost (fst (fetch_users res p)) = cl_APIHost p" "cl_NodeId (fst (fetch_users res p)) = cl_NodeId p"
  "cl_NodeType (fst (fetch_users res p)) = cl_NodeType p"
  by (simp_all add: fetch_users_def split: prod.split)

lemma fetch_alive_frame [simp]:
  "cl_node (fst (fetch_alive res p)) = cl_node p" "cl_userEtag (fst (fetch_alive res p)) = cl_userEtag p"
  "cl_APIHost (fst (fetch_alive res p)) = cl_APIHost p" "cl_NodeId (fst (fetch_alive res p)) = cl_NodeId p"
  "cl_NodeType (fst (fetch_alive res p)) = cl_NodeType p"
  by (simp_all add: fetch_alive_def split: prod.split)

end
