(* ===== verification/Limiter.thy ===== *)
theory Limiter
  imports Cdn Panel_Types
begin

text \<open>
  The package \<^verbatim>\<open>limiter\<close>: the device and speed limits of one node (\<^verbatim>\<open>limiter.go\<close>), the registry of live
  connections (\<^verbatim>\<open>online.go\<close>), dynamic speed limits (\<^verbatim>\<open>dynamic.go\<close>) and the blocking rules
  (\<^verbatim>\<open>rule.go\<close>). The record \<open>Limiter\<close> has the fields of the Go struct without its locks: every operation
  below is one critical section (or a sequence of reads) of the code, and interleavings are sequences of
  operations. \<^verbatim>\<open>time.Now().Unix()\<close> is the argument \<open>now\<close>.

  The live registrations are Go objects compared by pointer, so they live in a store: \<open>onlineUsers\<close>
  maps a user to an address, \<open>onlineHeap\<close> an address to the object, and a close callback
  remembers the address it was created with. A compiled regular expression is its match function; the
  compiler (\<^verbatim>\<open>regexp.MustCompile\<close>, which panics on a malformed expression) is the argument \<open>compile\<close>.
  A rate limiting bucket of \<^verbatim>\<open>juju/ratelimit\<close> is the pair of numbers it was created with.
\<close>

section \<open>State\<close>

record UserLimitInfo =
  li_UID :: int
  li_SpeedLimit :: int
  li_DeviceLimit :: int
  li_DynamicSpeedLimit :: int
  li_ExpireTime :: int
  li_OverLimit :: bool

record onlineUser =
  uid :: int
  ips :: "(string, int) gomap"

datatype Bucket = NewBucketWithQuantum (capacity: int) (quantum: int)

record Limiter =
  DomainRules :: "(string \<Rightarrow> bool) list"
  ProtocolRules :: "string list"
  SpeedLimit :: int
  UserOnlineIP :: "(string, (string, int) gomap) gomap"
  OldUserOnline :: "(string, int) gomap"
  UUIDtoUID :: "(string, int) gomap"
  UserLimits :: "(string, UserLimitInfo) gomap"
  SpeedLimiter :: "(string, Bucket) gomap"
  AliveList :: "(int, int) gomap"
  onlineUsers :: "(string, nat) gomap"
  onlineHeap :: "nat \<Rightarrow> onlineUser"
  onlineNext :: nat
  KickedIPs :: "(int, (string, int) gomap) gomap"
  deviceTolerance :: int
  ignoredPrefixes :: "ip_prefix list option"

section \<open>Creating a limiter, and the table of limiters\<close>

definition cloneAliveList :: "(int, int) gomap \<Rightarrow> (int, int) gomap" where
  "cloneAliveList alive = filter (\<lambda>(_, count). 0 < count) alive"

definition new_user_limit :: "UserInfo \<Rightarrow> UserLimitInfo" where
  "new_user_limit u =
     \<lparr>li_UID = u_Id u, li_SpeedLimit = u_SpeedLimit u, li_DeviceLimit = u_DeviceLimit u,
      li_DynamicSpeedLimit = 0, li_ExpireTime = 0, li_OverLimit = False\<rparr>"

text \<open>The loop of \<^verbatim>\<open>AddLimiter\<close> and the second loop of \<^verbatim>\<open>UpdateUser\<close> store a user's limits this way.\<close>

definition store_user :: "string \<Rightarrow> UserInfo \<Rightarrow> Limiter \<Rightarrow> Limiter" where
  "store_user tag u l =
     l\<lparr>UserLimits := AList.update (UserTag tag (u_Uuid u)) (new_user_limit u) (UserLimits l),
       UUIDtoUID := AList.update (u_Uuid u) (u_Id u) (UUIDtoUID l)\<rparr>"

definition AddLimiter :: "string \<Rightarrow> int \<Rightarrow> UserInfo list \<Rightarrow> (int, int) gomap \<Rightarrow> Limiter" where
  "AddLimiter tag nodeSpeedLimit users aliveList =
     fold (store_user tag) users
       \<lparr>DomainRules = [], ProtocolRules = [], SpeedLimit = nodeSpeedLimit, UserOnlineIP = [],
        OldUserOnline = [], UUIDtoUID = [], UserLimits = [], SpeedLimiter = [],
        AliveList = cloneAliveList aliveList, onlineUsers = [],
        onlineHeap = (\<lambda>_. \<lparr>uid = 0, ips = []\<rparr>), onlineNext = 0, KickedIPs = [],
        deviceTolerance = 1, ignoredPrefixes = None\<rparr>"

type_synonym limiters = "(string, Limiter) gomap"

definition RegisterLimiter :: "string \<Rightarrow> int \<Rightarrow> UserInfo list \<Rightarrow> (int, int) gomap \<Rightarrow> limiters \<Rightarrow> limiters" where
  "RegisterLimiter tag nodeSpeedLimit users aliveList ls =
     AList.update tag (AddLimiter tag nodeSpeedLimit users aliveList) ls"

definition GetLimiter :: "limiters \<Rightarrow> string \<Rightarrow> string + Limiter" where
  "GetLimiter ls tag = (case map_of ls tag of None \<Rightarrow> Inl ''not found'' | Some l \<Rightarrow> Inr l)"

definition DeleteLimiter :: "string \<Rightarrow> limiters \<Rightarrow> limiters" where
  "DeleteLimiter tag ls = AList.delete tag ls"

section \<open>Updating the users\<close>

definition deleteAlive :: "int \<Rightarrow> Limiter \<Rightarrow> Limiter" where
  "deleteAlive u l = l\<lparr>AliveList := AList.delete u (AliveList l)\<rparr>"

definition retained_users :: "string \<Rightarrow> UserInfo list \<Rightarrow> (string, int) gomap" where
  "retained_users tag added = fold (\<lambda>u. AList.update (UserTag tag (u_Uuid u)) (u_Id u)) added []"

definition remove_user :: "string \<Rightarrow> (string, int) gomap \<Rightarrow> UserInfo \<Rightarrow> Limiter \<Rightarrow> Limiter" where
  "remove_user tag retained u l =
     (let tagUUID = UserTag tag (u_Uuid u);
          l = (if map_of retained tagUUID = Some (u_Id u) then l
               else l\<lparr>onlineUsers := AList.delete tagUUID (onlineUsers l)\<rparr>)
      in deleteAlive (u_Id u)
           (l\<lparr>UserLimits := AList.delete tagUUID (UserLimits l),
              UserOnlineIP := AList.delete tagUUID (UserOnlineIP l),
              SpeedLimiter := AList.delete tagUUID (SpeedLimiter l),
              UUIDtoUID := AList.delete (u_Uuid u) (UUIDtoUID l)\<rparr>))"

definition add_user :: "string \<Rightarrow> UserInfo \<Rightarrow> Limiter \<Rightarrow> Limiter" where
  "add_user tag u l =
     (let tagUUID = UserTag tag (u_Uuid u)
      in store_user tag u
           (case map_of (onlineUsers l) tagUUID of
              None \<Rightarrow> l
            | Some a \<Rightarrow>
                if uid (onlineHeap l a) \<noteq> u_Id u
                then l\<lparr>onlineUsers := AList.delete tagUUID (onlineUsers l)\<rparr> else l))"

definition UpdateUser :: "string \<Rightarrow> UserInfo list \<Rightarrow> UserInfo list \<Rightarrow> Limiter \<Rightarrow> Limiter" where
  "UpdateUser tag added deleted l =
     fold (add_user tag) added (fold (remove_user tag (retained_users tag added)) deleted l)"

section \<open>Speed limits\<close>

definition UpdateDynamicSpeedLimit :: "string \<Rightarrow> string \<Rightarrow> int \<Rightarrow> int \<Rightarrow> Limiter \<Rightarrow> string + Limiter" where
  "UpdateDynamicSpeedLimit tag uuid limit expire l =
     (case map_of (UserLimits l) (UserTag tag uuid) of
        None \<Rightarrow> Inl ''not found''
      | Some info \<Rightarrow>
          Inr (l\<lparr>UserLimits := AList.update (UserTag tag uuid)
                   (info\<lparr>li_DynamicSpeedLimit := limit, li_ExpireTime := expire\<rparr>) (UserLimits l)\<rparr>))"

definition AddDynamicSpeedLimit :: "string \<Rightarrow> UserInfo \<Rightarrow> int \<Rightarrow> int \<Rightarrow> int \<Rightarrow> Limiter \<Rightarrow> Limiter" where
  "AddDynamicSpeedLimit tag u limitNum expire now l =
     l\<lparr>UserLimits := AList.update (UserTag tag (u_Uuid u))
         \<lparr>li_UID = 0, li_SpeedLimit = 0, li_DeviceLimit = 0, li_DynamicSpeedLimit = limitNum,
          li_ExpireTime = now + i64 (expire * 1000000000) div 1000000000, li_OverLimit = False\<rparr> (UserLimits l)\<rparr>"

definition determineSpeedLimit :: "int \<Rightarrow> int \<Rightarrow> int" where
  "determineSpeedLimit limit1 limit2 =
     (if limit1 = 0 \<or> limit2 = 0 then
        (if limit2 < limit1 then limit1 else if limit1 < limit2 then limit2 else 0)
      else
        (if limit2 < limit1 then limit2 else if limit1 < limit2 then limit1 else limit1))"

definition LimitedUserCount :: "int \<Rightarrow> Limiter \<Rightarrow> nat" where
  "LimitedUserCount now l =
     length (filter (\<lambda>(_, u). 0 < li_SpeedLimit u \<or>
        (0 < li_DynamicSpeedLimit u \<and> (li_ExpireTime u = 0 \<or> now < li_ExpireTime u))) (UserLimits l))"

section \<open>Exempt addresses and device tolerance\<close>

definition SetDeviceTolerance :: "int \<Rightarrow> Limiter \<Rightarrow> Limiter" where
  "SetDeviceTolerance tolerance l = l\<lparr>deviceTolerance := i32 (if tolerance < 0 then 0 else tolerance)\<rparr>"

definition ignored_entry :: "string \<Rightarrow> ip_prefix list" where
  "ignored_entry entry =
     (let entry = trim_space entry
      in if entry = '''' then []
         else (case parse_prefix entry of
                 Some p \<Rightarrow> [masked p]
               | None \<Rightarrow> (case parse_addr entry of
                            Some a \<Rightarrow> [(unmap a, bit_len (unmap a))]
                          | None \<Rightarrow> [])))"

definition SetIgnoredPrefixes :: "string list \<Rightarrow> Limiter \<Rightarrow> Limiter" where
  "SetIgnoredPrefixes entries l = l\<lparr>ignoredPrefixes := Some (concat (map ignored_entry entries))\<rparr>"

type_synonym cdn = "cdn_index \<times> cdn_disabled"

definition isExempt :: "cdn \<Rightarrow> Limiter \<Rightarrow> string \<Rightarrow> bool" where
  "isExempt cdn l ip =
     (IsProxyIP (fst cdn) (snd cdn) ip \<or>
      (case ignoredPrefixes l of
         None \<Rightarrow> False
       | Some ps \<Rightarrow>
           (case parse_addr ip of
              None \<Rightarrow> False
            | Some a \<Rightarrow> list_ex (\<lambda>p. prefix_contains p (unmap a)) ps)))"

section \<open>Kicked addresses\<close>

definition merge_kick :: "int \<Rightarrow> int \<Rightarrow> string \<times> int
    \<Rightarrow> (int, (string, int) gomap) gomap \<Rightarrow> (int, (string, int) gomap) gomap" where
  "merge_kick now user ip_ttl k = (case ip_ttl of (ip, ttl) \<Rightarrow>
     if ttl \<le> 0 then k
     else (let old = mget [] k user; expiry = i64 (now + ttl)
           in if mget 0 old ip < expiry then AList.update user (AList.update ip expiry old) k
              else AList.update user old k))"

definition prune_kicked :: "int \<Rightarrow> (int, (string, int) gomap) gomap \<Rightarrow> (int, (string, int) gomap) gomap" where
  "prune_kicked now k =
     filter (\<lambda>(_, m). m \<noteq> []) (map (\<lambda>(user, m). (user, filter (\<lambda>(_, expiry). now < expiry) m)) k)"

definition MergeKickedList :: "int \<Rightarrow> (int, (string, int) gomap) gomap \<Rightarrow> Limiter \<Rightarrow> Limiter" where
  "MergeKickedList now kicked l =
     (if kicked = [] then l
      else l\<lparr>KickedIPs :=
        prune_kicked now (fold (\<lambda>(user, m). fold (merge_kick now user) m) kicked (KickedIPs l))\<rparr>)"

definition isKicked :: "int \<Rightarrow> Limiter \<Rightarrow> int \<Rightarrow> string \<Rightarrow> bool" where
  "isKicked now l user ip =
     (case map_of (mget [] (KickedIPs l) user) ip of None \<Rightarrow> False | Some expiry \<Rightarrow> now < expiry)"

section \<open>Admission\<close>

text \<open>Mapped IPv4 addresses and other spellings of an address share one key.\<close>

definition canonical_ip :: "string \<Rightarrow> string" where
  "canonical_ip ip = (case parse_addr ip of None \<Rightarrow> ip | Some a \<Rightarrow> show_addr (unmap a))"

text \<open>The user's own speed limit, after an expired dynamic limit was dropped.\<close>

definition resolve_user :: "int \<Rightarrow> string \<Rightarrow> UserLimitInfo \<Rightarrow> Limiter \<Rightarrow> Limiter \<times> int" where
  "resolve_user now taguuid u l =
     (if li_ExpireTime u < now \<and> li_ExpireTime u \<noteq> 0 then
        (if li_SpeedLimit u \<noteq> 0 then
           (l\<lparr>UserLimits := AList.update taguuid
                (u\<lparr>li_DynamicSpeedLimit := 0, li_ExpireTime := 0\<rparr>) (UserLimits l)\<rparr>, li_SpeedLimit u)
         else (l\<lparr>UserLimits := AList.delete taguuid (UserLimits l)\<rparr>, 0))
      else (l, determineSpeedLimit (li_SpeedLimit u) (li_DynamicSpeedLimit u)))"

definition aliveCount :: "Limiter \<Rightarrow> int \<Rightarrow> int" where
  "aliveCount l u = mget 0 (AliveList l) u"

text \<open>
  The block guarded by \<^verbatim>\<open>noSSUDP\<close>: the address enters the online table, and a new address that the last
  cycle did not know is taken out again and rejected when the user has no device slot left.
\<close>

definition admit_device :: "string \<Rightarrow> string \<Rightarrow> int \<Rightarrow> int \<Rightarrow> bool \<Rightarrow> Limiter \<Rightarrow> Limiter \<times> bool" where
  "admit_device taguuid ip user deviceLimit isCdn l =
     (let effectiveLimit = i64 (deviceLimit + deviceTolerance l);
          aliveIp = aliveCount l user;
          full = (0 < deviceLimit \<and> \<not> isCdn \<and> effectiveLimit \<le> aliveIp);
          recall = (\<lambda>l v. if v = user then l\<lparr>OldUserOnline := AList.delete ip (OldUserOnline l)\<rparr> else l)
      in case map_of (UserOnlineIP l) taguuid of
           Some oldipMap \<Rightarrow>
             (case map_of oldipMap ip of
                Some _ \<Rightarrow> (l, False)
              | None \<Rightarrow>
                  (let stored = l\<lparr>UserOnlineIP :=
                         AList.update taguuid (AList.update ip user oldipMap) (UserOnlineIP l)\<rparr>
                   in case map_of (OldUserOnline l) ip of
                        Some v \<Rightarrow> (recall stored v, False)
                      | None \<Rightarrow>
                          if full then
                            (stored\<lparr>UserOnlineIP := AList.update taguuid
                               (AList.delete ip (AList.update ip user oldipMap)) (UserOnlineIP stored)\<rparr>, True)
                          else (stored, False)))
         | None \<Rightarrow>
             (let stored = l\<lparr>UserOnlineIP := AList.update taguuid [(ip, user)] (UserOnlineIP l)\<rparr>
              in case map_of (OldUserOnline l) ip of
                   Some v \<Rightarrow> (recall stored v, False)
                 | None \<Rightarrow>
                     if full then
                       (stored\<lparr>UserOnlineIP := AList.delete taguuid (UserOnlineIP stored)\<rparr>, True)
                     else (stored, False)))"

definition speed_bucket :: "string \<Rightarrow> int \<Rightarrow> Limiter \<Rightarrow> Limiter \<times> Bucket option" where
  "speed_bucket taguuid userLimit l =
     (let limit = go_div (i64 (determineSpeedLimit (SpeedLimit l) userLimit * 1000000)) 8
      in if 0 < limit then
           (case map_of (SpeedLimiter l) taguuid of
              Some b \<Rightarrow> (l, Some b)
            | None \<Rightarrow> (let b = NewBucketWithQuantum limit limit
                      in (l\<lparr>SpeedLimiter := AList.update taguuid b (SpeedLimiter l)\<rparr>, Some b)))
         else (l, None))"

definition CheckLimit :: "cdn \<Rightarrow> int \<Rightarrow> string \<Rightarrow> string \<Rightarrow> bool \<Rightarrow> bool \<Rightarrow> Limiter
    \<Rightarrow> Limiter \<times> Bucket option \<times> bool" where
  "CheckLimit cdn now taguuid rawip isTcp noSSUDP l =
     (let ip = canonical_ip rawip; isCdn = isExempt cdn l ip
      in case map_of (UserLimits l) taguuid of
           None \<Rightarrow> (l, None, True)
         | Some u \<Rightarrow>
             (case resolve_user now taguuid u l of (l, userLimit) \<Rightarrow>
                if isKicked now l (li_UID u) ip then (l, None, True)
                else
                  (case (if noSSUDP then admit_device taguuid ip (li_UID u) (li_DeviceLimit u) isCdn l
                         else (l, False)) of
                     (l, True) \<Rightarrow> (l, None, True)
                   | (l, False) \<Rightarrow> (case speed_bucket taguuid userLimit l of (l, b) \<Rightarrow> (l, b, False)))))"

definition UpdateAliveList :: "(int, int) gomap \<Rightarrow> Limiter \<Rightarrow> Limiter" where
  "UpdateAliveList aliveList l = l\<lparr>AliveList := cloneAliveList aliveList\<rparr>"

section \<open>Live connections\<close>

text \<open>A close callback: what the Go closure captures. \<^const>\<open>None\<close> stands for the empty callback.\<close>

record trackHandle =
  h_tagUUID :: string
  h_ip :: string
  h_user :: nat

definition TrackConnection :: "string \<Rightarrow> string \<Rightarrow> Limiter \<Rightarrow> Limiter \<times> trackHandle option" where
  "TrackConnection tagUUID rawip l =
     (case parse_addr rawip of
        None \<Rightarrow> (l, None)
      | Some addr \<Rightarrow>
          (let ip = show_addr (unmap addr)
           in case map_of (UserLimits l) tagUUID of
                None \<Rightarrow> (l, None)
              | Some info \<Rightarrow>
                  (let fresh = (l\<lparr>onlineHeap := (onlineHeap l)(onlineNext l := \<lparr>uid = li_UID info, ips = []\<rparr>),
                                  onlineNext := Suc (onlineNext l),
                                  onlineUsers := AList.update tagUUID (onlineNext l) (onlineUsers l)\<rparr>,
                                onlineNext l);
                       (l, user) = (case map_of (onlineUsers l) tagUUID of
                                      None \<Rightarrow> fresh
                                    | Some a \<Rightarrow> if uid (onlineHeap l a) \<noteq> li_UID info then fresh else (l, a));
                       obj = onlineHeap l user
                   in (l\<lparr>onlineHeap := (onlineHeap l)(user :=
                           obj\<lparr>ips := AList.update ip (mget 0 (ips obj) ip + 1) (ips obj)\<rparr>)\<rparr>,
                       Some \<lparr>h_tagUUID = tagUUID, h_ip = ip, h_user = user\<rparr>))))"

text \<open>The callback itself; \<^verbatim>\<open>sync.OnceFunc\<close> runs it once.\<close>

definition CloseTracked :: "trackHandle \<Rightarrow> Limiter \<Rightarrow> Limiter" where
  "CloseTracked h l =
     (if map_of (onlineUsers l) (h_tagUUID h) \<noteq> Some (h_user h) then l
      else
        (let obj = onlineHeap l (h_user h);
             n = mget 0 (ips obj) (h_ip h) - 1;
             m = AList.update (h_ip h) n (ips obj);
             m = (if n = 0 then AList.delete (h_ip h) m else m);
             l = l\<lparr>onlineHeap := (onlineHeap l)(h_user h := obj\<lparr>ips := m\<rparr>)\<rparr>
         in if m = [] then l\<lparr>onlineUsers := AList.delete (h_tagUUID h) (onlineUsers l)\<rparr> else l))"

definition onlineDevicesLocked :: "Limiter \<Rightarrow> OnlineUser list" where
  "onlineDevicesLocked l =
     fold (\<lambda>d ds. if d \<in> set ds then ds else ds @ [d])
       (concat (map (\<lambda>(_, a). map (\<lambda>(ip, _). \<lparr>on_UID = uid (onlineHeap l a), on_IP = ip\<rparr>)
                                (ips (onlineHeap l a))) (onlineUsers l))) []"

definition GetOnlineDevice :: "Limiter \<Rightarrow> Limiter \<times> OnlineUser list" where
  "GetOnlineDevice l =
     (l\<lparr>OldUserOnline := fold (\<lambda>(_, m). fold (\<lambda>(ip, user). AList.update ip user) m) (UserOnlineIP l) [],
        UserOnlineIP := []\<rparr>,
      onlineDevicesLocked l)"

definition CountOnlineIP :: "cdn \<Rightarrow> Limiter \<Rightarrow> nat" where
  "CountOnlineIP cdn l = length (filter (\<lambda>d. \<not> isExempt cdn l (on_IP d)) (onlineDevicesLocked l))"

section \<open>Blocking rules\<close>

definition CheckDomainRule :: "Limiter \<Rightarrow> string \<Rightarrow> bool" where
  "CheckDomainRule l destination = list_ex (\<lambda>r. r destination) (DomainRules l)"

definition CheckProtocolRule :: "Limiter \<Rightarrow> string \<Rightarrow> bool" where
  "CheckProtocolRule l protocol = list_ex (\<lambda>r. r = protocol) (ProtocolRules l)"

text \<open>\<^const>\<open>None\<close> is the panic of \<^verbatim>\<open>MustCompile\<close>.\<close>

definition UpdateRule :: "(string \<Rightarrow> (string \<Rightarrow> bool) option) \<Rightarrow> Rules \<Rightarrow> Limiter \<Rightarrow> Limiter option" where
  "UpdateRule compile rule l =
     (let rs = map compile (r_Regexp rule)
      in if list_all (\<lambda>r. r \<noteq> None) rs
         then Some (l\<lparr>DomainRules := map the rs, ProtocolRules := r_Protocol rule\<rparr>) else None)"


section \<open>Lemmas on admission\<close>

lemma determineSpeedLimit_nonneg:
  "0 \<le> a \<Longrightarrow> 0 \<le> b \<Longrightarrow>
     determineSpeedLimit a b = (if a = 0 then b else if b = 0 then a else min a b)"
  by (auto simp: determineSpeedLimit_def)

lemma resolve_user_frame:
  "fst (resolve_user now t u l) = l\<lparr>UserLimits := UserLimits (fst (resolve_user now t u l))\<rparr>"
  by (simp add: resolve_user_def)

lemma isKicked_frame [simp]: "isKicked now (l\<lparr>UserLimits := x\<rparr>) = isKicked now l"
  by (simp add: isKicked_def fun_eq_iff)

lemma speed_bucket_frame:
  "fst (speed_bucket t x l) = l\<lparr>SpeedLimiter := SpeedLimiter (fst (speed_bucket t x l))\<rparr>"
  by (simp add: speed_bucket_def Let_def split: option.split)

text \<open>Whether the device block turns the address away.\<close>

definition no_slot :: "string \<Rightarrow> string \<Rightarrow> int \<Rightarrow> int \<Rightarrow> bool \<Rightarrow> Limiter \<Rightarrow> bool" where
  "no_slot t ip user deviceLimit isCdn l \<longleftrightarrow>
     0 < deviceLimit \<and> \<not> isCdn \<and> i64 (deviceLimit + deviceTolerance l) \<le> aliveCount l user \<and>
     map_of (mget [] (UserOnlineIP l) t) ip = None \<and> map_of (OldUserOnline l) ip = None"

lemma admit_device_reject: "snd (admit_device t ip user dl cdn l) \<longleftrightarrow> no_slot t ip user dl cdn l"
  by (auto simp: admit_device_def no_slot_def Let_def mget_def split: option.splits)

text \<open>A rejected address leaves the limiter exactly as it was.\<close>

lemma admit_device_rejected_state: "no_slot t ip user dl cdn l \<Longrightarrow> fst (admit_device t ip user dl cdn l) = l"
  by (auto simp: admit_device_def no_slot_def Let_def mget_def delete_update_absent update_same
      split: option.splits)

lemma admit_device_online:
  "\<not> no_slot t ip user dl cdn l \<Longrightarrow>
     map_of (mget [] (UserOnlineIP (fst (admit_device t ip user dl cdn l))) t) ip \<noteq> None"
proof (cases "map_of (UserOnlineIP l) t")
  case None
  then show "\<not> no_slot t ip user dl cdn l \<Longrightarrow> ?thesis"
    by (cases "map_of (OldUserOnline l) ip") (simp_all add: admit_device_def no_slot_def Let_def mget_def)
next
  case (Some m)
  then show "\<not> no_slot t ip user dl cdn l \<Longrightarrow> ?thesis"
    by (cases "map_of m ip"; cases "map_of (OldUserOnline l) ip")
       (simp_all add: admit_device_def no_slot_def Let_def mget_def)
qed

lemma CheckLimit_cases:
  "CheckLimit cdn now t ip tcp udp l =
     (case map_of (UserLimits l) t of
        None \<Rightarrow> (l, None, True)
      | Some u \<Rightarrow>
          (let l1 = fst (resolve_user now t u l); c = canonical_ip ip
           in if isKicked now l (li_UID u) c \<or>
                 (udp \<and> no_slot t c (li_UID u) (li_DeviceLimit u) (isExempt cdn l c) l)
              then (l1, None, True)
              else (let l2 = (if udp then fst (admit_device t c (li_UID u) (li_DeviceLimit u) (isExempt cdn l c) l1)
                              else l1);
                        (l3, b) = speed_bucket t (snd (resolve_user now t u l)) l2
                    in (l3, b, False))))"
proof (cases "map_of (UserLimits l) t")
  case None
  then show ?thesis by (simp add: CheckLimit_def Let_def)
next
  case (Some u)
  obtain l1 x where r: "resolve_user now t u l = (l1, x)" by (cases "resolve_user now t u l")
  then have l1: "l1 = l\<lparr>UserLimits := UserLimits l1\<rparr>" by (metis fst_conv resolve_user_frame)
  have slot: "no_slot t c i d e l1 = no_slot t c i d e l" for c i d e
    by (subst l1) (simp add: no_slot_def aliveCount_def)
  have kick: "isKicked now l1 = isKicked now l" by (subst l1) simp
  let ?c = "canonical_ip ip"
  let ?slot = "no_slot t ?c (li_UID u) (li_DeviceLimit u) (isExempt cdn l ?c) l"
  obtain l2 rej where a: "admit_device t ?c (li_UID u) (li_DeviceLimit u) (isExempt cdn l ?c) l1 = (l2, rej)"
    by (meson surj_pair)
  then have rej: "rej = ?slot"
    using admit_device_reject [of t ?c "li_UID u" "li_DeviceLimit u" "isExempt cdn l ?c" l1] slot by simp
  have "?slot \<Longrightarrow> l2 = l1"
    using admit_device_rejected_state [of t ?c "li_UID u" "li_DeviceLimit u" "isExempt cdn l ?c" l1] slot a
    by simp
  with Some r a rej show ?thesis
    by (cases udp; cases rej) (simp_all add: CheckLimit_def Let_def kick)
qed

lemma CheckLimit_accepted:
  assumes "CheckLimit cdn now t ip tcp udp l = (l', b, False)" "map_of (UserLimits l) t = Some u"
  shows "speed_bucket t (snd (resolve_user now t u l))
    (if udp then fst (admit_device t (canonical_ip ip) (li_UID u) (li_DeviceLimit u)
                        (isExempt cdn l (canonical_ip ip)) (fst (resolve_user now t u l)))
     else fst (resolve_user now t u l)) = (l', b)"
proof (cases "isKicked now l (li_UID u) (canonical_ip ip) \<or>
    (udp \<and> no_slot t (canonical_ip ip) (li_UID u) (li_DeviceLimit u) (isExempt cdn l (canonical_ip ip)) l)")
  case True
  then show ?thesis using assms by (simp only: CheckLimit_cases option.case Let_def if_True) simp
next
  case False
  then show ?thesis
    using assms by (simp only: CheckLimit_cases option.case Let_def if_False case_prod_unfold) (simp add: prod_eq_iff)
qed

lemma CheckLimit_UserLimits:
  assumes "map_of (UserLimits l) t = Some u"
  shows "UserLimits (fst (CheckLimit cdn now t ip tcp udp l)) = UserLimits (fst (resolve_user now t u l))"
proof (cases "isKicked now l (li_UID u) (canonical_ip ip) \<or>
    (udp \<and> no_slot t (canonical_ip ip) (li_UID u) (li_DeviceLimit u) (isExempt cdn l (canonical_ip ip)) l)")
  case True
  then show ?thesis using assms by (simp only: CheckLimit_cases option.case Let_def if_True) simp
next
  case False
  have "UserLimits (fst (speed_bucket t' x l0)) = UserLimits l0" for t' x l0
    by (simp add: speed_bucket_def Let_def split: option.split)
  moreover have "UserLimits (fst (admit_device t' c i d e l0)) = UserLimits l0" for t' c i d e l0
    by (simp add: admit_device_def Let_def split: option.split)
  ultimately show ?thesis
    using assms False by (simp only: CheckLimit_cases option.case Let_def if_False case_prod_unfold) simp
qed

text \<open>A node with one user, limited to one device, of whom the panel counts two devices alive.\<close>

definition ex_limiter :: Limiter where
  "ex_limiter = AddLimiter ''n'' 0
     [\<lparr>u_Id = 7, u_Uuid = ''u'', u_SpeedLimit = 0, u_DeviceLimit = 1\<rparr>] [(7, 2)]"

lemma canonical_ip_example: "canonical_ip ''1.2.3.4'' = ''1.2.3.4''"
  by (simp add: canonical_ip_def parse_addr_example show_addr_example)

lemma not_exempt_example: "ignoredPrefixes l = None \<Longrightarrow> \<not> isExempt ([], None) l ip"
  by (simp add: isExempt_def IsProxyIP_def Exempt_def Provider_def split: option.split)

lemmas ex_limiter_simps = ex_limiter_def AddLimiter_def store_user_def new_user_limit_def cloneAliveList_def
  UserTag_def canonical_ip_example not_exempt_example

text \<open>
  C3. Admission, on every branch: a connection is rejected exactly when its user is unknown, or the
  panel has kicked the (normalised) address for that user, or the user's devices are tracked and
  limited, the address is not exempt, the panel counts at least the limit plus the tolerance alive,
  and the address is in neither the current nor the previous cycle's online table.
\<close>

theorem CheckLimit_rejects_iff:
  "snd (snd (CheckLimit cdn now taguuid rawip isTcp noSSUDP l)) \<longleftrightarrow>
     (case map_of (UserLimits l) taguuid of
        None \<Rightarrow> True
      | Some u \<Rightarrow>
          isKicked now l (li_UID u) (canonical_ip rawip) \<or>
          (noSSUDP \<and> 0 < li_DeviceLimit u \<and> \<not> isExempt cdn l (canonical_ip rawip) \<and>
           i64 (li_DeviceLimit u + deviceTolerance l) \<le> aliveCount l (li_UID u) \<and>
           map_of (mget [] (UserOnlineIP l) taguuid) (canonical_ip rawip) = None \<and>
           map_of (OldUserOnline l) (canonical_ip rawip) = None))"
  by (auto simp: CheckLimit_cases no_slot_def Let_def split: option.split prod.split)

text \<open>
  A rejected connection leaves no trace: no online entry, no previous-cycle entry and no bucket is
  added or removed, so it can neither occupy a device slot nor free one. Only the user's own expired
  dynamic speed limit may have been cleaned up.
\<close>

theorem CheckLimit_rejected_frame:
  assumes "CheckLimit cdn now taguuid rawip isTcp noSSUDP l = (l', b, True)"
  shows "l' = l\<lparr>UserLimits := UserLimits l'\<rparr> \<and> b = None \<and>
    (\<forall>t. t \<noteq> taguuid \<longrightarrow> map_of (UserLimits l') t = map_of (UserLimits l) t)"
proof -
  have "\<forall>t. t \<noteq> taguuid \<longrightarrow>
      map_of (UserLimits (fst (resolve_user now taguuid u l))) t = map_of (UserLimits l) t" for u
    by (simp add: resolve_user_def)
  moreover from assms obtain u where "l' = fst (resolve_user now taguuid u l) \<or> l' = l" and "b = None"
    by (auto simp: CheckLimit_cases Let_def split: option.splits if_splits prod.splits)
  ultimately show ?thesis
    using resolve_user_frame [of now taguuid u l] by auto
qed

theorem CheckLimit_rejected_frame_witness:
  "CheckLimit ([], None) 100 ''n|u'' ''1.2.3.4'' True True ex_limiter = (ex_limiter, None, True) \<and>
   ex_limiter = ex_limiter\<lparr>UserLimits := UserLimits ex_limiter\<rparr>"
proof -
  have h: "CheckLimit ([], None) 100 ''n|u'' ''1.2.3.4'' True True ex_limiter = (ex_limiter, None, True)"
    by (simp add: CheckLimit_cases ex_limiter_simps resolve_user_def isKicked_def mget_def no_slot_def
        aliveCount_def Let_def i64_def)
  show ?thesis using h CheckLimit_rejected_frame [OF h] by blast
qed

end
