(* ===== verification/Online.thy ===== *)
theory Online
  imports Limiter
begin

text \<open>
  The registry of live connections (\<^verbatim>\<open>limiter/online.go\<close>) under every interleaving of the limiter's
  operations. A state is a limiter with the close callbacks that have not run yet; a step is one
  operation of the package. The invariant \<open>online_inv\<close> says that the reference count of a device is
  the number of callbacks still open for it, whatever policy updates replaced its user object in between.
\<close>

section \<open>The operations as steps\<close>

datatype limiter_op =
    OpTrack string string
  | OpClose trackHandle
  | OpUpdateUser string "UserInfo list" "UserInfo list"
  | OpCheckLimit cdn int string string bool bool
  | OpGetOnlineDevice
  | OpSetDeviceTolerance int
  | OpSetIgnoredPrefixes "string list"
  | OpMergeKickedList int "(int, (string, int) gomap) gomap"
  | OpUpdateAliveList "(int, int) gomap"
  | OpUpdateDynamic string string int int
  | OpAddDynamic string UserInfo int int int
  | OpUpdateRule "string \<Rightarrow> (string \<Rightarrow> bool) option" Rules

type_synonym lstate = "Limiter \<times> trackHandle list"

inductive limiter_step :: "lstate \<Rightarrow> limiter_op \<Rightarrow> lstate \<Rightarrow> bool" where
  track_live: "TrackConnection t ip l = (l', Some h) \<Longrightarrow>
     limiter_step (l, hs) (OpTrack t ip) (l', h # hs)"
| track_noop: "TrackConnection t ip l = (l', None) \<Longrightarrow> limiter_step (l, hs) (OpTrack t ip) (l', hs)"
| close: "h \<in> set hs \<Longrightarrow> limiter_step (l, hs) (OpClose h) (CloseTracked h l, remove1 h hs)"
| update_user: "limiter_step (l, hs) (OpUpdateUser t added deleted) (UpdateUser t added deleted l, hs)"
| check_limit: "limiter_step (l, hs) (OpCheckLimit c now t ip tcp udp) (fst (CheckLimit c now t ip tcp udp l), hs)"
| get_online: "limiter_step (l, hs) OpGetOnlineDevice (fst (GetOnlineDevice l), hs)"
| set_tolerance: "limiter_step (l, hs) (OpSetDeviceTolerance n) (SetDeviceTolerance n l, hs)"
| set_ignored: "limiter_step (l, hs) (OpSetIgnoredPrefixes es) (SetIgnoredPrefixes es l, hs)"
| merge_kicked: "limiter_step (l, hs) (OpMergeKickedList now k) (MergeKickedList now k l, hs)"
| update_alive: "limiter_step (l, hs) (OpUpdateAliveList a) (UpdateAliveList a l, hs)"
| update_dynamic: "UpdateDynamicSpeedLimit t uuid limit expire l = Inr l' \<Longrightarrow>
     limiter_step (l, hs) (OpUpdateDynamic t uuid limit expire) (l', hs)"
| add_dynamic: "limiter_step (l, hs) (OpAddDynamic t u limit expire now)
     (AddDynamicSpeedLimit t u limit expire now l, hs)"
| update_rule: "UpdateRule compile rule l = Some l' \<Longrightarrow> limiter_step (l, hs) (OpUpdateRule compile rule) (l', hs)"

definition limiter_start :: "lstate \<Rightarrow> bool" where
  "limiter_start s \<longleftrightarrow> (\<exists>tag speed users alive. s = (AddLimiter tag speed users alive, []))"

abbreviation limiter_reachable :: "lstate \<Rightarrow> bool" where
  "limiter_reachable \<equiv> reachable limiter_start limiter_step"

section \<open>The invariant\<close>

text \<open>What holds of the object a user key points to.\<close>

definition user_ok :: "Limiter \<Rightarrow> trackHandle list \<Rightarrow> string \<Rightarrow> nat \<Rightarrow> bool" where
  "user_ok l hs t a \<longleftrightarrow>
     a < onlineNext l \<and> keys_distinct (ips (onlineHeap l a)) \<and> ips (onlineHeap l a) \<noteq> [] \<and>
     (\<forall>ip n. map_of (ips (onlineHeap l a)) ip = Some n \<longrightarrow> 0 < n) \<and>
     (\<forall>ip. mget 0 (ips (onlineHeap l a)) ip = int (count_list hs \<lparr>h_tagUUID = t, h_ip = ip, h_user = a\<rparr>)) \<and>
     (\<forall>h \<in> set hs. h_user h = a \<longrightarrow> h_tagUUID h = t)"

definition online_inv :: "lstate \<Rightarrow> bool" where
  "online_inv s \<longleftrightarrow>
     keys_distinct (onlineUsers (fst s)) \<and>
     (\<forall>h \<in> set (snd s). h_user h < onlineNext (fst s)) \<and>
     (\<forall>t a. map_of (onlineUsers (fst s)) t = Some a \<longrightarrow> user_ok (fst s) (snd s) t a)"

lemma online_invI:
  "keys_distinct (onlineUsers l) \<Longrightarrow> (\<And>h. h \<in> set hs \<Longrightarrow> h_user h < onlineNext l) \<Longrightarrow>
   (\<And>t a. map_of (onlineUsers l) t = Some a \<Longrightarrow> user_ok l hs t a) \<Longrightarrow> online_inv (l, hs)"
  by (simp add: online_inv_def)

lemma online_invD:
  assumes "online_inv (l, hs)"
  shows "keys_distinct (onlineUsers l)" "h \<in> set hs \<Longrightarrow> h_user h < onlineNext l"
    "map_of (onlineUsers l) t = Some a \<Longrightarrow> user_ok l hs t a"
  using assms by (simp_all add: online_inv_def)

lemma user_ok_entry:
  assumes "user_ok l hs t a" "map_of (ips (onlineHeap l a)) ip = Some n"
  shows "\<lparr>h_tagUUID = t, h_ip = ip, h_user = a\<rparr> \<in> set hs"
proof -
  from assms have "0 < int (count_list hs \<lparr>h_tagUUID = t, h_ip = ip, h_user = a\<rparr>)"
    unfolding user_ok_def mget_def by (metis option.simps(5))
  then show ?thesis using count_list_0_iff [of hs] by force
qed

lemma user_ok_handle:
  assumes "user_ok l hs t a"
  obtains h where "h \<in> set hs" "h_tagUUID h = t" "h_user h = a"
proof -
  from assms obtain ip n m where "ips (onlineHeap l a) = (ip, n) # m"
    by (metis list.exhaust surj_pair user_ok_def)
  then have "map_of (ips (onlineHeap l a)) ip = Some n" by simp
  from user_ok_entry [OF assms this] show ?thesis by (rule that) simp_all
qed

text \<open>No two user keys share an object.\<close>

lemma online_inv_inj:
  assumes "online_inv (l, hs)" "map_of (onlineUsers l) t = Some a" "map_of (onlineUsers l) t' = Some a"
  shows "t = t'"
proof -
  from assms have "user_ok l hs t a" "user_ok l hs t' a" by (simp_all add: online_inv_def)
  then show ?thesis by (metis user_ok_def user_ok_handle)
qed

subsection \<open>Operations that leave the registry alone or shrink it\<close>

definition registry_shrinks :: "Limiter \<Rightarrow> Limiter \<Rightarrow> bool" where
  "registry_shrinks l l' \<longleftrightarrow>
     onlineHeap l' = onlineHeap l \<and> onlineNext l' = onlineNext l \<and>
     (keys_distinct (onlineUsers l) \<longrightarrow> keys_distinct (onlineUsers l')) \<and>
     (\<forall>t a. map_of (onlineUsers l') t = Some a \<longrightarrow> map_of (onlineUsers l) t = Some a)"

lemma registry_shrinks_refl [simp]: "registry_shrinks l l"
  by (simp add: registry_shrinks_def)

lemma registry_shrinks_trans:
  "registry_shrinks l l' \<Longrightarrow> registry_shrinks l' l'' \<Longrightarrow> registry_shrinks l l''"
  by (auto simp: registry_shrinks_def)

lemma user_ok_frame:
  "onlineHeap l' = onlineHeap l \<Longrightarrow> onlineNext l' = onlineNext l \<Longrightarrow> user_ok l' hs t a = user_ok l hs t a"
  by (simp add: user_ok_def)

lemma registry_shrinks_inv: "registry_shrinks l l' \<Longrightarrow> online_inv (l, hs) \<Longrightarrow> online_inv (l', hs)"
  unfolding online_inv_def fst_conv snd_conv registry_shrinks_def
  by (metis user_ok_frame)

lemma fold_registry_shrinks:
  "(\<And>x l. registry_shrinks l (f x l)) \<Longrightarrow> registry_shrinks l (fold f xs l)"
  by (induction xs arbitrary: l) (auto intro: registry_shrinks_trans)

lemma remove_user_shrinks: "registry_shrinks l (remove_user t r u l)"
  by (auto simp: remove_user_def deleteAlive_def Let_def registry_shrinks_def split: if_splits)

lemma add_user_shrinks: "registry_shrinks l (add_user t u l)"
  by (auto simp: add_user_def store_user_def Let_def registry_shrinks_def split: option.splits if_splits)

lemma UpdateUser_shrinks: "registry_shrinks l (UpdateUser t added deleted l)"
  unfolding UpdateUser_def
  by (rule registry_shrinks_trans [OF fold_registry_shrinks fold_registry_shrinks])
     (rule remove_user_shrinks add_user_shrinks)+

lemma registry_frame:
  "onlineUsers l' = onlineUsers l \<Longrightarrow> onlineHeap l' = onlineHeap l \<Longrightarrow> onlineNext l' = onlineNext l \<Longrightarrow>
     registry_shrinks l l'"
  by (simp add: registry_shrinks_def)

lemma resolve_user_shrinks: "registry_shrinks l (fst (resolve_user now t u l))"
  by (rule registry_frame) (simp_all add: resolve_user_def)

lemma admit_device_shrinks: "registry_shrinks l (fst (admit_device t ip u d c l))"
  by (rule registry_frame) (simp_all add: admit_device_def Let_def split: option.split)

lemma speed_bucket_shrinks: "registry_shrinks l (fst (speed_bucket t x l))"
  by (rule registry_frame) (simp_all add: speed_bucket_def Let_def split: option.split)

lemma CheckLimit_shrinks: "registry_shrinks l (fst (CheckLimit c now t ip tcp udp l))"
proof (cases "map_of (UserLimits l) t")
  case None
  then show ?thesis by (simp add: CheckLimit_cases)
next
  case (Some u)
  let ?c = "canonical_ip ip"
  let ?l1 = "fst (resolve_user now t u l)"
  let ?l2 = "fst (admit_device t ?c (li_UID u) (li_DeviceLimit u) (isExempt c l ?c) ?l1)"
  have r: "registry_shrinks l ?l1" by (rule resolve_user_shrinks)
  then have a: "registry_shrinks l ?l2" by (rule registry_shrinks_trans) (rule admit_device_shrinks)
  from r a have "registry_shrinks l (fst (speed_bucket t x ?l1))" "registry_shrinks l (fst (speed_bucket t x ?l2))" for x
    by (blast intro: registry_shrinks_trans speed_bucket_shrinks)+
  with r Some show ?thesis
    by (simp add: CheckLimit_cases Let_def case_prod_unfold)
qed

lemma AddLimiter_registry:
  "onlineUsers (AddLimiter tag speed users alive) = []"
proof -
  have "onlineUsers (fold (store_user tag) users l) = onlineUsers l" for l
    by (induction users arbitrary: l) (simp_all add: store_user_def)
  then show ?thesis by (simp add: AddLimiter_def)
qed

subsection \<open>Opening and closing a connection\<close>

lemma TrackConnection_Some:
  assumes "TrackConnection t rawip l = (l', Some h)"
  obtains (kept) ip a where "map_of (onlineUsers l) t = Some a"
      "h = \<lparr>h_tagUUID = t, h_ip = ip, h_user = a\<rparr>"
      "l' = l\<lparr>onlineHeap := (onlineHeap l)(a := (onlineHeap l a)\<lparr>ips :=
               AList.update ip (mget 0 (ips (onlineHeap l a)) ip + 1) (ips (onlineHeap l a))\<rparr>)\<rparr>"
  | (fresh) ip u where "h = \<lparr>h_tagUUID = t, h_ip = ip, h_user = onlineNext l\<rparr>"
      "l' = l\<lparr>onlineHeap := (onlineHeap l)(onlineNext l := \<lparr>uid = u, ips = [(ip, 1)]\<rparr>),
             onlineNext := Suc (onlineNext l),
             onlineUsers := AList.update t (onlineNext l) (onlineUsers l)\<rparr>"
proof -
  from assms obtain addr info where p: "parse_addr rawip = Some addr" and i: "map_of (UserLimits l) t = Some info"
    by (auto simp: TrackConnection_def Let_def split: option.splits)
  show ?thesis
  proof (cases "\<exists>a. map_of (onlineUsers l) t = Some a \<and> uid (onlineHeap l a) = li_UID info")
    case True
    then obtain a where "map_of (onlineUsers l) t = Some a" "uid (onlineHeap l a) = li_UID info" by blast
    with assms p i show ?thesis
      by (intro kept [of a "show_addr (unmap addr)"]) (simp_all add: TrackConnection_def Let_def)
  next
    case False
    with assms p i show ?thesis
      by (intro fresh [of "show_addr (unmap addr)" "li_UID info"])
         (auto simp: TrackConnection_def Let_def mget_def split: option.splits)
  qed
qed

lemma TrackConnection_None: "TrackConnection t ip l = (l', None) \<Longrightarrow> l' = l"
  by (auto simp: TrackConnection_def Let_def split: option.splits prod.splits)


text \<open>Writing one object leaves the other users' objects as they were.\<close>

lemma user_ok_other:
  assumes "user_ok l hs t a" "a' \<noteq> a" "onlineNext l \<le> onlineNext l'"
    and "onlineHeap l' = (onlineHeap l)(a' := x)" "h_user h = a'"
  shows "user_ok l' (h # hs) t a" "user_ok l' (remove1 h hs) t a"
proof -
  have "\<lparr>h_tagUUID = t, h_ip = ip, h_user = a\<rparr> \<noteq> h" for ip using assms(2,5) by auto
  then have c: "count_list (remove1 h hs) \<lparr>h_tagUUID = t, h_ip = ip, h_user = a\<rparr> =
      count_list hs \<lparr>h_tagUUID = t, h_ip = ip, h_user = a\<rparr>" for ip
    by (induction hs) auto
  show "user_ok l' (h # hs) t a" using assms by (auto simp: user_ok_def)
  show "user_ok l' (remove1 h hs) t a"
    using assms c by (auto simp: user_ok_def dest: set_remove1_subset [THEN subsetD])
qed

lemma track_inv:
  assumes inv: "online_inv (l, hs)" and tr: "TrackConnection t rawip l = (l', Some h)"
  shows "online_inv (l', h # hs)"
  using tr
proof (cases rule: TrackConnection_Some)
  case (kept ip a)
  have ok: "user_ok l hs t a" using online_invD(3) [OF inv kept(1)] .
  have "user_ok l' (h # hs) t' a'" if t': "map_of (onlineUsers l) t' = Some a'" for t' a'
  proof (cases "t' = t")
    case True
    with ok t' kept show ?thesis by (auto simp: user_ok_def)
  next
    case False
    with online_inv_inj [OF inv kept(1)] t' have "a \<noteq> a'" by metis
    with online_invD(3) [OF inv t'] kept show ?thesis by (intro user_ok_other(1) [of l]) auto
  qed
  moreover have "a < onlineNext l" using ok by (simp add: user_ok_def)
  ultimately show ?thesis
    using kept online_invD(1,2) [OF inv] by (intro online_invI) auto
next
  case (fresh ip u)
  have old: "\<forall>h' \<in> set hs. h_user h' < onlineNext l" using online_invD(2) [OF inv] by blast
  then have "count_list hs \<lparr>h_tagUUID = t, h_ip = i, h_user = onlineNext l\<rparr> = 0" for i
    by (auto simp: count_list_0_iff)
  with old fresh have t: "user_ok l' (h # hs) t (onlineNext l)"
    by (auto simp: user_ok_def mget_def)
  have "user_ok l' (h # hs) t' a'" if "map_of (onlineUsers l) t' = Some a'" for t' a'
  proof (rule user_ok_other(1) [of l])
    show "user_ok l hs t' a'" using online_invD(3) [OF inv that] .
    then show "onlineNext l \<noteq> a'" by (auto simp: user_ok_def)
  qed (use fresh in auto)
  with t have "user_ok l' (h # hs) t' a'" if "map_of (onlineUsers l') t' = Some a'" for t' a'
    using that fresh by (auto split: if_splits)
  then show ?thesis
    using old fresh online_invD(1) [OF inv] by (intro online_invI) auto
qed

lemma count_list_remove1: "count_list (remove1 x xs) y = count_list xs y - (if x = y then 1 else 0)"
  by (induction xs) (auto simp: count_list_0_iff Suc_diff_Suc)

lemma close_unowned_inv:
  assumes inv: "online_inv (l, hs)" and h: "map_of (onlineUsers l) (h_tagUUID h) \<noteq> Some (h_user h)"
  shows "online_inv (l, remove1 h hs)"
proof (rule online_invI)
  fix t a
  assume m: "map_of (onlineUsers l) t = Some a"
  with h have "count_list (remove1 h hs) \<lparr>h_tagUUID = t, h_ip = ip, h_user = a\<rparr> =
      count_list hs \<lparr>h_tagUUID = t, h_ip = ip, h_user = a\<rparr>" for ip
    by (auto simp: count_list_remove1)
  with online_invD(3) [OF inv m] show "user_ok l (remove1 h hs) t a"
    by (auto simp: user_ok_def dest: set_remove1_subset [THEN subsetD])
qed (use online_invD [OF inv] set_remove1_subset [of h hs] in auto)

text \<open>The owner's object after one of its callbacks ran: the device's count is one lower, and gone at zero.\<close>

lemma close_owned_inv:
  assumes inv: "online_inv (l, hs)" and h: "map_of (onlineUsers l) (h_tagUUID h) = Some (h_user h)"
    and opened: "h \<in> set hs"
  shows "online_inv (CloseTracked h l, remove1 h hs)"
proof -
  define obj where "obj = onlineHeap l (h_user h)"
  define n where "n = mget 0 (ips obj) (h_ip h) - 1"
  define m where "m = (if n = 0 then AList.delete (h_ip h) (AList.update (h_ip h) n (ips obj))
                       else AList.update (h_ip h) n (ips obj))"
  define us where "us = (if m = [] then AList.delete (h_tagUUID h) (onlineUsers l) else onlineUsers l)"
  have l': "CloseTracked h l = l\<lparr>onlineHeap := (onlineHeap l)(h_user h := obj\<lparr>ips := m\<rparr>), onlineUsers := us\<rparr>"
    using h by (simp add: CloseTracked_def Let_def obj_def n_def m_def us_def)
  note owner = online_invD(3) [OF inv h]
  have hrec: "h = \<lparr>h_tagUUID = t, h_ip = ip, h_user = a\<rparr> \<longleftrightarrow> h_tagUUID h = t \<and> h_ip h = ip \<and> h_user h = a"
    for t ip a by (cases h) auto
  have cnt: "mget 0 (ips obj) ip = int (count_list hs \<lparr>h_tagUUID = h_tagUUID h, h_ip = ip, h_user = h_user h\<rparr>)" for ip
    using owner by (simp add: user_ok_def obj_def)
  have "0 < count_list hs h" using opened count_list_0_iff [of hs h] by simp
  moreover have hh: "\<lparr>h_tagUUID = h_tagUUID h, h_ip = h_ip h, h_user = h_user h\<rparr> = h" by simp
  ultimately have n: "0 \<le> n" using cnt [of "h_ip h"] unfolding n_def hh by simp
  have keys: "keys_distinct m" using owner by (simp add: m_def user_ok_def obj_def)
  have mget_m: "mget 0 m ip = int (count_list (remove1 h hs) \<lparr>h_tagUUID = h_tagUUID h, h_ip = ip, h_user = h_user h\<rparr>)" for ip
    using cnt n \<open>0 < count_list hs h\<close> by (auto simp: m_def n_def count_list_remove1 hrec of_nat_diff)
  have pos: "0 < k" if "map_of m ip = Some k" for ip k
  proof -
    have "\<And>i j. map_of (ips obj) i = Some j \<Longrightarrow> 0 < j" using owner unfolding user_ok_def obj_def by blast
    with that n show ?thesis by (auto simp: m_def split: if_splits)
  qed
  show ?thesis unfolding l'
  proof (rule online_invI)
    fix t a
    assume "map_of (onlineUsers (l\<lparr>onlineHeap := (onlineHeap l)(h_user h := obj\<lparr>ips := m\<rparr>), onlineUsers := us\<rparr>)) t = Some a"
    then have t: "map_of (onlineUsers l) t = Some a" and ne: "t = h_tagUUID h \<Longrightarrow> m \<noteq> []"
      by (auto simp: us_def split: if_splits)
    show "user_ok (l\<lparr>onlineHeap := (onlineHeap l)(h_user h := obj\<lparr>ips := m\<rparr>), onlineUsers := us\<rparr>) (remove1 h hs) t a"
    proof (cases "t = h_tagUUID h")
      case True
      with t h have "a = h_user h" by simp
      with True keys mget_m pos ne owner show ?thesis
        by (auto simp: user_ok_def dest: set_remove1_subset [THEN subsetD])
    next
      case False
      with online_inv_inj [OF inv t] h have "h_user h \<noteq> a" by metis
      then show ?thesis using online_invD(3) [OF inv t] by (intro user_ok_other(2)) auto
    qed
  qed (use online_invD [OF inv] set_remove1_subset [of h hs] in \<open>auto simp: us_def\<close>)
qed

lemma close_inv: "online_inv (l, hs) \<Longrightarrow> h \<in> set hs \<Longrightarrow> online_inv (CloseTracked h l, remove1 h hs)"
  using close_owned_inv close_unowned_inv by (cases "map_of (onlineUsers l) (h_tagUUID h) = Some (h_user h)")
    (auto simp: CloseTracked_def)

section \<open>Every reachable state\<close>

lemma limiter_step_inv: "limiter_step s e s' \<Longrightarrow> online_inv s \<Longrightarrow> online_inv s'"
proof (induction rule: limiter_step.induct)
  case (track_live t ip l l' h hs)
  then show ?case by (blast intro: track_inv)
next
  case (track_noop t ip l l' hs)
  then show ?case by (auto dest: TrackConnection_None)
next
  case (close h hs l)
  then show ?case by (blast intro: close_inv)
next
  case (update_user l hs t added deleted)
  then show ?case by (rule registry_shrinks_inv [OF UpdateUser_shrinks])
next
  case (check_limit l hs c now t ip tcp udp)
  then show ?case by (rule registry_shrinks_inv [OF CheckLimit_shrinks])
next
  case (get_online l hs)
  then show ?case by (rule registry_shrinks_inv [rotated]) (simp add: GetOnlineDevice_def registry_shrinks_def)
next
  case (set_tolerance l hs n)
  then show ?case by (rule registry_shrinks_inv [rotated]) (simp add: SetDeviceTolerance_def registry_shrinks_def)
next
  case (set_ignored l hs es)
  then show ?case by (rule registry_shrinks_inv [rotated]) (simp add: SetIgnoredPrefixes_def registry_shrinks_def)
next
  case (merge_kicked l hs now k)
  then show ?case by (rule registry_shrinks_inv [rotated]) (simp add: MergeKickedList_def registry_shrinks_def)
next
  case (update_alive l hs a)
  then show ?case by (rule registry_shrinks_inv [rotated]) (simp add: UpdateAliveList_def registry_shrinks_def)
next
  case (update_dynamic t uuid limit expire l l' hs)
  from update_dynamic.hyps have "registry_shrinks l l'"
    by (cases "map_of (UserLimits l) (UserTag t uuid)")
       (auto simp: UpdateDynamicSpeedLimit_def intro!: registry_frame)
  then show ?case using update_dynamic.prems by (rule registry_shrinks_inv)
next
  case (add_dynamic l hs t u limit expire now)
  then show ?case by (rule registry_shrinks_inv [rotated]) (simp add: AddDynamicSpeedLimit_def registry_shrinks_def)
next
  case (update_rule compile rule l l' hs)
  from update_rule.hyps have "registry_shrinks l l'"
    by (auto simp: UpdateRule_def Let_def split: if_splits intro!: registry_frame)
  then show ?case using update_rule.prems by (rule registry_shrinks_inv)
qed

interpretation online: component limiter_start limiter_step online_inv
proof
  show "online_inv s" if "limiter_start s" for s
    using that by (auto simp: limiter_start_def online_inv_def AddLimiter_registry)
  show "online_inv s'" if "online_inv s" "limiter_step s e s'" for s e s'
    using limiter_step_inv that by blast
qed


section \<open>What is reported\<close>

lemma fold_dedup:
  "set (fold (\<lambda>d ds. if d \<in> set ds then ds else ds @ [d]) xs ds) = set xs \<union> set ds"
  "distinct ds \<Longrightarrow> distinct (fold (\<lambda>d ds. if d \<in> set ds then ds else ds @ [d]) xs ds)"
  by (induction xs arbitrary: ds) auto

lemma distinct_onlineDevicesLocked: "distinct (onlineDevicesLocked l)"
  unfolding onlineDevicesLocked_def by (rule fold_dedup(2)) simp

lemma set_onlineDevicesLocked:
  "set (onlineDevicesLocked l) =
     (\<Union>(t, a) \<in> set (onlineUsers l).
        (\<lambda>(ip, n). \<lparr>on_UID = uid (onlineHeap l a), on_IP = ip\<rparr>) ` set (ips (onlineHeap l a)))"
  by (simp add: onlineDevicesLocked_def fold_dedup(1) case_prod_unfold)

text \<open>The callbacks that still own their registration.\<close>

definition owns :: "Limiter \<Rightarrow> trackHandle \<Rightarrow> bool" where
  "owns l h \<longleftrightarrow> map_of (onlineUsers l) (h_tagUUID h) = Some (h_user h)"

lemma online_devices_handles:
  assumes inv: "online_inv (l, hs)"
  shows "set (onlineDevicesLocked l) =
    {\<lparr>on_UID = uid (onlineHeap l (h_user h)), on_IP = h_ip h\<rparr> | h. h \<in> set hs \<and> owns l h}"
  (is "?L = ?R")
proof
  show "?L \<subseteq> ?R"
  proof
    fix d
    assume "d \<in> ?L"
    then obtain t a ip n where d: "d = \<lparr>on_UID = uid (onlineHeap l a), on_IP = ip\<rparr>"
      "(t, a) \<in> set (onlineUsers l)" "(ip, n) \<in> set (ips (onlineHeap l a))"
      by (auto simp: set_onlineDevicesLocked)
    then have t: "map_of (onlineUsers l) t = Some a" using online_invD(1) [OF inv] by simp
    note ok = online_invD(3) [OF inv t]
    then have "map_of (ips (onlineHeap l a)) ip = Some n" using d(3) by (simp add: user_ok_def)
    from user_ok_entry [OF ok this] d(1) t show "d \<in> ?R" by (force simp: owns_def)
  qed
  show "?R \<subseteq> ?L"
  proof clarsimp
    fix h
    assume h: "h \<in> set hs" "owns l h"
    note ok = online_invD(3) [OF inv, of "h_tagUUID h" "h_user h"]
    have hh: "\<lparr>h_tagUUID = h_tagUUID h, h_ip = h_ip h, h_user = h_user h\<rparr> = h" by simp
    have "0 < count_list hs h" using h count_list_0_iff [of hs h] by simp
    with ok h(2) have "mget 0 (ips (onlineHeap l (h_user h))) (h_ip h) \<noteq> 0"
      unfolding owns_def user_ok_def by (metis hh of_nat_0_less_iff order_less_irrefl)
    then obtain n where "map_of (ips (onlineHeap l (h_user h))) (h_ip h) = Some n"
      by (auto simp: mget_def split: option.splits)
    with h(2) show "\<lparr>on_UID = uid (onlineHeap l (h_user h)), on_IP = h_ip h\<rparr> \<in> ?L"
      unfolding set_onlineDevicesLocked owns_def by (force dest!: map_of_SomeD)
  qed
qed

text \<open>
  C1. In every state the limiter can be brought to, by any interleaving of connections opening and
  closing with user updates, admissions, reports and policy changes, the reported devices are
  exactly the pairs of user id and address of the open connections that still own their
  registration, each reported once; and every device's reference count is the number of its open
  connections.
\<close>

theorem online_report_exact:
  assumes "limiter_reachable (l, hs)"
  shows "distinct (snd (GetOnlineDevice l)) \<and>
    set (snd (GetOnlineDevice l)) =
      {\<lparr>on_UID = uid (onlineHeap l (h_user h)), on_IP = h_ip h\<rparr> | h.
         h \<in> set hs \<and> map_of (onlineUsers l) (h_tagUUID h) = Some (h_user h)} \<and>
    (\<forall>t a ip. map_of (onlineUsers l) t = Some a \<longrightarrow>
       mget 0 (ips (onlineHeap l a)) ip = int (count_list hs \<lparr>h_tagUUID = t, h_ip = ip, h_user = a\<rparr>))"
proof -
  note inv = online.reachable_inv [OF assms]
  show ?thesis
    using online_devices_handles [OF inv] online_invD(3) [OF inv] distinct_onlineDevicesLocked
    by (auto simp: GetOnlineDevice_def owns_def user_ok_def)
qed

theorem online_report_exact_witness:
  "snd (GetOnlineDevice (fst (TrackConnection ''n|u'' ''1.2.3.4'' ex_limiter))) = [\<lparr>on_UID = 7, on_IP = ''1.2.3.4''\<rparr>] \<and>
   mget 0 (ips (onlineHeap (fst (TrackConnection ''n|u'' ''1.2.3.4'' ex_limiter)) 0)) ''1.2.3.4'' = 1"
proof -
  let ?h = "\<lparr>h_tagUUID = ''n|u'', h_ip = ''1.2.3.4'', h_user = 0\<rparr>"
  let ?l = "fst (TrackConnection ''n|u'' ''1.2.3.4'' ex_limiter)"
  note defs = TrackConnection_def ex_limiter_simps parse_addr_example show_addr_example Let_def
  have tr: "TrackConnection ''n|u'' ''1.2.3.4'' ex_limiter = (?l, Some ?h)" by (simp add: defs)
  have "limiter_reachable (ex_limiter, [])"
    by (rule reach_start) (auto simp: limiter_start_def ex_limiter_def)
  moreover have "limiter_step (ex_limiter, []) (OpTrack ''n|u'' ''1.2.3.4'') (?l, [?h])"
    using tr by (rule track_live)
  ultimately have "limiter_reachable (?l, [?h])" by (rule reach_step)
  from online_report_exact [OF this] show ?thesis
    by (simp add: GetOnlineDevice_def onlineDevicesLocked_def) (simp add: defs mget_def)
qed

text \<open>
  No registration leaks: once every connection has run its close callback, in whatever order and
  whatever updates came in between, no device is reported and none is counted online.
\<close>

theorem online_no_leak:
  assumes "limiter_reachable (l, [])"
  shows "snd (GetOnlineDevice l) = [] \<and> CountOnlineIP cdn l = 0"
  using online_devices_handles [OF online.reachable_inv [OF assms]]
  by (simp add: GetOnlineDevice_def CountOnlineIP_def)

theorem online_no_leak_witness:
  "snd (GetOnlineDevice (CloseTracked \<lparr>h_tagUUID = ''n|u'', h_ip = ''1.2.3.4'', h_user = 0\<rparr>
     (fst (TrackConnection ''n|u'' ''1.2.3.4'' ex_limiter)))) = []"
proof -
  let ?h = "\<lparr>h_tagUUID = ''n|u'', h_ip = ''1.2.3.4'', h_user = 0\<rparr>"
  let ?l = "fst (TrackConnection ''n|u'' ''1.2.3.4'' ex_limiter)"
  have tr: "TrackConnection ''n|u'' ''1.2.3.4'' ex_limiter = (?l, Some ?h)"
    by (simp add: TrackConnection_def ex_limiter_simps parse_addr_example show_addr_example Let_def)
  have "limiter_reachable (ex_limiter, [])"
    by (rule reach_start) (auto simp: limiter_start_def ex_limiter_def)
  moreover have "limiter_step (ex_limiter, []) (OpTrack ''n|u'' ''1.2.3.4'') (?l, [?h])"
    using tr by (rule track_live)
  ultimately have "limiter_reachable (?l, [?h])" by (rule reach_step)
  moreover have "limiter_step (?l, [?h]) (OpClose ?h) (CloseTracked ?h ?l, [])"
    using close [of ?h "[?h]" ?l] by simp
  ultimately have "limiter_reachable (CloseTracked ?h ?l, [])" by (rule reach_step)
  from online_no_leak [OF this] show ?thesis by simp
qed

end
