(* ===== verification/Limiter_Policy.thy ===== *)
theory Limiter_Policy
  imports Online
begin

text \<open>
  What the limiter's policies promise over time: kicks issued by the panel, the grace a device gets
  from one report cycle to the next, speed buckets, and dynamic speed limits.
\<close>

section \<open>Kicks\<close>

definition kicked_ok :: "(int, (string, int) gomap) gomap \<Rightarrow> bool" where
  "kicked_ok k \<longleftrightarrow> keys_distinct k \<and> (\<forall>(u, m) \<in> set k. keys_distinct m)"

definition kick_expiry :: "(int, (string, int) gomap) gomap \<Rightarrow> int \<Rightarrow> string \<Rightarrow> int" where
  "kick_expiry k u ip = mget 0 (mget [] k u) ip"

text \<open>A kick the panel sent: user, address and the second it lapses.\<close>

definition kick_sent :: "int \<Rightarrow> (int, (string, int) gomap) gomap \<Rightarrow> int \<Rightarrow> string \<Rightarrow> int \<Rightarrow> bool" where
  "kick_sent now kicked u ip e \<longleftrightarrow>
     (\<exists>m ttl. (u, m) \<in> set kicked \<and> (ip, ttl) \<in> set m \<and> 0 < ttl \<and> e = i64 (now + ttl))"

lemma isKicked_expiry: "0 \<le> now \<Longrightarrow> isKicked now l u ip \<longleftrightarrow> now < kick_expiry (KickedIPs l) u ip"
  by (auto simp: isKicked_def kick_expiry_def mget_def split: option.splits)

lemma kick_expiry_merge:
  "kick_expiry (merge_kick now user (i, ttl) k) u ip =
     (if u = user \<and> ip = i \<and> 0 < ttl then max (kick_expiry k u ip) (i64 (now + ttl)) else kick_expiry k u ip)"
  by (auto simp: merge_kick_def kick_expiry_def Let_def)

lemma merge_ips_later:
  "t < kick_expiry (fold (merge_kick now user) m k) u ip \<longleftrightarrow>
     t < kick_expiry k u ip \<or> (u = user \<and> (\<exists>ttl. (ip, ttl) \<in> set m \<and> 0 < ttl \<and> t < i64 (now + ttl)))"
proof (induction m arbitrary: k)
  case Nil
  then show ?case by simp
next
  case (Cons x m)
  obtain i ttl where x: "x = (i, ttl)" by (cases x)
  show ?case by (simp add: x Cons.IH kick_expiry_merge less_max_iff_disj) blast
qed

lemma merge_all_later:
  "t < kick_expiry (fold (\<lambda>(user, m). fold (merge_kick now user) m) kicked k) u ip \<longleftrightarrow>
     t < kick_expiry k u ip \<or> (\<exists>e. kick_sent now kicked u ip e \<and> t < e)"
proof (induction kicked arbitrary: k)
  case Nil
  then show ?case by (simp add: kick_sent_def)
next
  case (Cons x kicked)
  obtain user m where x: "x = (user, m)" by (cases x)
  have "(\<exists>e. kick_sent now (x # kicked) u ip e \<and> t < e) \<longleftrightarrow>
      (u = user \<and> (\<exists>ttl. (ip, ttl) \<in> set m \<and> 0 < ttl \<and> t < i64 (now + ttl))) \<or>
      (\<exists>e. kick_sent now kicked u ip e \<and> t < e)"
    by (auto simp: kick_sent_def x)
  then show ?case by (simp add: x Cons.IH merge_ips_later)
qed

lemma kicked_ok_bucket: "kicked_ok k \<Longrightarrow> keys_distinct (mget [] k u)"
  by (auto simp: kicked_ok_def mget_def split: option.splits dest: map_of_SomeD)

lemma kicked_ok_update: "kicked_ok k \<Longrightarrow> keys_distinct m \<Longrightarrow> kicked_ok (AList.update u m k)"
  unfolding kicked_ok_def by (auto dest!: in_set_update)

lemma kicked_ok_merge: "kicked_ok k \<Longrightarrow> kicked_ok (merge_kick now user x k)"
  by (auto simp: merge_kick_def Let_def kicked_ok_bucket intro!: kicked_ok_update split: prod.splits)

lemma kicked_ok_merge_ips: "kicked_ok k \<Longrightarrow> kicked_ok (fold (merge_kick now user) m k)"
  by (induction m arbitrary: k) (simp_all add: kicked_ok_merge)

lemma kicked_ok_merge_all:
  "kicked_ok k \<Longrightarrow> kicked_ok (fold (\<lambda>(user, m). fold (merge_kick now user) m) kicked k)"
  by (induction kicked arbitrary: k) (auto simp: kicked_ok_merge_ips)

lemma map_of_prune_kicked:
  assumes "keys_distinct k"
  shows "mget [] (prune_kicked now k) u = filter (\<lambda>(_, expiry). now < expiry) (mget [] k u)"
proof -
  let ?f = "\<lambda>_. filter (\<lambda>(_, expiry). now < expiry)"
  let ?k = "map (\<lambda>(u, m). (u, ?f u m)) k"
  have "map fst ?k = map fst k" by (simp add: case_prod_unfold)
  with assms have "keys_distinct ?k" by (simp only:)
  from map_of_filter_key [OF this, of "\<lambda>(_, m). m \<noteq> []" u] show ?thesis
    unfolding prune_kicked_def mget_def map_of_map_value
    by (simp split: option.split)
qed

lemma kicked_ok_prune: "kicked_ok k \<Longrightarrow> kicked_ok (prune_kicked now k)"
  unfolding kicked_ok_def prune_kicked_def
  by (induction k) (auto simp: distinct_map_filter image_iff)

lemma kick_expiry_prune:
  assumes "kicked_ok k" "now \<le> t" "0 \<le> now"
  shows "t < kick_expiry (prune_kicked now k) u ip \<longleftrightarrow> t < kick_expiry k u ip"
proof -
  have "keys_distinct (mget [] k u)" using assms(1) by (rule kicked_ok_bucket)
  with assms show ?thesis
    by (auto simp: kick_expiry_def map_of_prune_kicked kicked_ok_def mget_def [of 0] map_of_filter_key
        split: option.splits)
qed

lemma kicked_frame:
  "KickedIPs (UpdateUser t added deleted l) = KickedIPs l"
  "KickedIPs (fst (CheckLimit c now t ip tcp udp l)) = KickedIPs l"
  "KickedIPs (CloseTracked h l) = KickedIPs l"
proof -
  have r: "KickedIPs (fold (remove_user t r) us l) = KickedIPs l" for us r l
    by (induction us arbitrary: l) (simp_all add: remove_user_def deleteAlive_def Let_def)
  have "KickedIPs (fold (add_user t) us l) = KickedIPs l" for us l
    by (induction us arbitrary: l) (simp_all add: add_user_def store_user_def Let_def split: option.split)
  with r show "KickedIPs (UpdateUser t added deleted l) = KickedIPs l" by (simp add: UpdateUser_def)
  have "KickedIPs (fst (resolve_user now t u l)) = KickedIPs l" for u l
    by (simp add: resolve_user_def)
  moreover have "KickedIPs (fst (admit_device t c' i d e l)) = KickedIPs l" for c' i d e l
    by (simp add: admit_device_def Let_def split: option.split)
  moreover have "KickedIPs (fst (speed_bucket t x l)) = KickedIPs l" for x l
    by (simp add: speed_bucket_def Let_def split: option.split)
  ultimately show "KickedIPs (fst (CheckLimit c now t ip tcp udp l)) = KickedIPs l"
    by (simp add: CheckLimit_cases Let_def case_prod_unfold split: option.split)
  show "KickedIPs (CloseTracked h l) = KickedIPs l" by (simp add: CloseTracked_def Let_def)
qed

lemma kicked_track: "TrackConnection t ip l = (l', h) \<Longrightarrow> KickedIPs l' = KickedIPs l"
  by (cases h) (auto dest: TrackConnection_None elim!: TrackConnection_Some)

lemma limiter_step_kicked: "limiter_step s e s' \<Longrightarrow> kicked_ok (KickedIPs (fst s)) \<Longrightarrow> kicked_ok (KickedIPs (fst s'))"
proof (induction rule: limiter_step.induct)
  case (merge_kicked l hs now k)
  then show ?case by (simp add: MergeKickedList_def kicked_ok_prune kicked_ok_merge_all)
next
  case (update_dynamic t uuid limit expire l l' hs)
  then show ?case
    by (cases "map_of (UserLimits l) (UserTag t uuid)") (auto simp: UpdateDynamicSpeedLimit_def)
qed (auto simp: kicked_frame kicked_track GetOnlineDevice_def SetDeviceTolerance_def SetIgnoredPrefixes_def
      UpdateAliveList_def AddDynamicSpeedLimit_def UpdateRule_def Let_def split: if_splits)

lemma AddLimiter_kicked: "KickedIPs (AddLimiter tag speed users alive) = []"
proof -
  have "KickedIPs (fold (store_user tag) users l) = KickedIPs l" for l
    by (induction users arbitrary: l) (simp_all add: store_user_def)
  then show ?thesis by (simp add: AddLimiter_def)
qed

interpretation kicks: component limiter_start limiter_step "\<lambda>s. kicked_ok (KickedIPs (fst s))"
proof
  show "kicked_ok (KickedIPs (fst s))" if "limiter_start s" for s
    using that by (auto simp: limiter_start_def AddLimiter_kicked kicked_ok_def)
  show "kicked_ok (KickedIPs (fst s'))" if "kicked_ok (KickedIPs (fst s))" "limiter_step s e s'" for s e s'
    using limiter_step_kicked that by blast
qed

text \<open>
  Merging a kick list never shortens a kick and never drops one that still runs: at any later
  second, an address is kicked exactly when it was kicked before the merge or the merged list carries
  a positive time to live for it that has not run out. Stale lists are therefore harmless.
\<close>

theorem MergeKickedList_exact:
  assumes "limiter_reachable (l, hs)" "0 \<le> now" "now \<le> t"
  shows "isKicked t (MergeKickedList now kicked l) u ip \<longleftrightarrow>
    isKicked t l u ip \<or>
    (\<exists>m ttl. (u, m) \<in> set kicked \<and> (ip, ttl) \<in> set m \<and> 0 < ttl \<and> t < i64 (now + ttl))"
proof -
  have ok: "kicked_ok (KickedIPs l)" using kicks.reachable_inv [OF assms(1)] by simp
  from assms(2,3) have "0 \<le> t" by simp
  then show ?thesis
    using ok assms(2,3)
    by (auto simp: isKicked_expiry MergeKickedList_def kick_expiry_prune kicked_ok_merge_all
        merge_all_later kick_sent_def)
qed


theorem MergeKickedList_exact_witness:
  "isKicked 150 (MergeKickedList 100 [(7, [(''1.2.3.4'', 60)])] ex_limiter) 7 ''1.2.3.4'' \<and>
   \<not> isKicked 160 (MergeKickedList 100 [(7, [(''1.2.3.4'', 60)])] ex_limiter) 7 ''1.2.3.4''"
proof -
  have "limiter_reachable (ex_limiter, [])"
    by (rule reach_start) (auto simp: limiter_start_def ex_limiter_def)
  note k = MergeKickedList_exact [OF this, of 100 _ "[(7, [(''1.2.3.4'', 60)])]" 7 "''1.2.3.4''"]
  have "\<not> isKicked 160 ex_limiter 7 ''1.2.3.4''"
    by (simp add: isKicked_def ex_limiter_def AddLimiter_kicked mget_def)
  with k [of 150] k [of 160] show ?thesis by (simp add: i64_def)
qed

section \<open>From one report cycle to the next\<close>

lemma fold_update_keeps:
  "map_of acc ip \<noteq> None \<or> ip \<in> fst ` set m \<Longrightarrow> map_of (fold (\<lambda>(i, user). AList.update i user) m acc) ip \<noteq> None"
  by (induction m arbitrary: acc) (auto split: if_splits)

lemma rotate_keeps:
  "map_of acc ip \<noteq> None \<or> (\<exists>t m. (t, m) \<in> set us \<and> ip \<in> fst ` set m) \<Longrightarrow>
     map_of (fold (\<lambda>(_, m). fold (\<lambda>(i, user). AList.update i user) m) us acc) ip \<noteq> None"
proof (induction us arbitrary: acc)
  case Nil
  then show ?case by simp
next
  case (Cons x us)
  obtain t m where x: "x = (t, m)" by (cases x)
  have "map_of (fold (\<lambda>(i, user). AList.update i user) m acc) ip \<noteq> None \<or>
      (\<exists>t m. (t, m) \<in> set us \<and> ip \<in> fst ` set m)"
    using Cons.prems fold_update_keeps [of acc ip m] x by (metis insert_iff list.set(2) prod.inject)
  from Cons.IH [OF this] show ?case by (simp add: x)
qed

text \<open>
  An address in the online table when a report is taken is let in during the next cycle whatever
  the panel counts alive: right after the report, a connection of any known user from an address that any
  user of the node was seen with is not turned away by the device limit, only by a kick.
\<close>

theorem reported_address_readmitted:
  assumes "map_of (mget [] (UserOnlineIP l) seenUser) (canonical_ip rawip) \<noteq> None"
    and "map_of (UserLimits l) taguuid = Some u"
    and "\<not> isKicked now l (li_UID u) (canonical_ip rawip)"
  shows "\<not> snd (snd (CheckLimit cdn now taguuid rawip isTcp noSSUDP (fst (GetOnlineDevice l))))"
proof -
  from assms(1) obtain m where "(seenUser, m) \<in> set (UserOnlineIP l)" "canonical_ip rawip \<in> fst ` set m"
    by (force simp: mget_def map_of_eq_None_iff split: option.splits dest: map_of_SomeD)
  then have "map_of (fold (\<lambda>(_, m). fold (\<lambda>(i, user). AList.update i user) m) (UserOnlineIP l) [])
      (canonical_ip rawip) \<noteq> None"
    by (intro rotate_keeps) blast
  then have "map_of (OldUserOnline (fst (GetOnlineDevice l))) (canonical_ip rawip) \<noteq> None"
    by (simp add: GetOnlineDevice_def)
  moreover have "UserLimits (fst (GetOnlineDevice l)) = UserLimits l"
    "isKicked now (fst (GetOnlineDevice l)) = isKicked now l"
    by (simp_all add: GetOnlineDevice_def isKicked_def fun_eq_iff)
  ultimately show ?thesis
    using assms(2,3) by (auto simp: CheckLimit_cases no_slot_def Let_def case_prod_unfold)
qed

theorem reported_address_readmitted_witness:
  "snd (snd (CheckLimit ([], None) 100 ''n|u'' ''1.2.3.4'' True True ex_limiter)) \<and>
   \<not> snd (snd (CheckLimit ([], None) 100 ''n|u'' ''1.2.3.4'' True True
       (fst (GetOnlineDevice (ex_limiter\<lparr>UserOnlineIP := [(''n|v'', [(''1.2.3.4'', 8)])]\<rparr>)))))"
proof -
  have "snd (snd (CheckLimit ([], None) 100 ''n|u'' ''1.2.3.4'' True True ex_limiter))"
    by (simp add: CheckLimit_cases ex_limiter_simps resolve_user_def isKicked_def mget_def no_slot_def
        aliveCount_def Let_def i64_def)
  moreover have "\<not> snd (snd (CheckLimit ([], None) 100 ''n|u'' ''1.2.3.4'' True True
       (fst (GetOnlineDevice (ex_limiter\<lparr>UserOnlineIP := [(''n|v'', [(''1.2.3.4'', 8)])]\<rparr>)))))"
    by (rule reported_address_readmitted [where seenUser = "''n|v''" and u = "\<lparr>li_UID = 7, li_SpeedLimit = 0,
          li_DeviceLimit = 1, li_DynamicSpeedLimit = 0, li_ExpireTime = 0, li_OverLimit = False\<rparr>"])
       (simp_all add: ex_limiter_simps mget_def isKicked_def)
  ultimately show ?thesis ..
qed

section \<open>Speed limits\<close>

text \<open>The lowest of the positive rates, 0 when there is none.\<close>

definition lowest_rate :: "int list \<Rightarrow> int" where
  "lowest_rate rs = (let ps = filter (\<lambda>r. 0 < r) rs in if ps = [] then 0 else Min (set ps))"

lemma determineSpeedLimit_lowest:
  "0 \<le> a \<Longrightarrow> 0 \<le> b \<Longrightarrow> determineSpeedLimit a b = lowest_rate [a, b]"
  by (auto simp: determineSpeedLimit_nonneg lowest_rate_def Let_def)

lemma determineSpeedLimit_lowest3:
  "0 \<le> a \<Longrightarrow> 0 \<le> b \<Longrightarrow> 0 \<le> c \<Longrightarrow>
     determineSpeedLimit a (determineSpeedLimit b c) = lowest_rate [a, b, c]"
  by (auto simp: determineSpeedLimit_nonneg lowest_rate_def Let_def)

lemma admit_speed_frame:
  "SpeedLimiter (fst (admit_device t c i d e l)) = SpeedLimiter l"
  "SpeedLimit (fst (admit_device t c i d e l)) = SpeedLimit l"
  by (simp_all add: admit_device_def Let_def split: option.split)

lemma resolve_speed_frame:
  "SpeedLimiter (fst (resolve_user now t u l)) = SpeedLimiter l"
  "SpeedLimit (fst (resolve_user now t u l)) = SpeedLimit l"
  by (simp_all add: resolve_user_def)

lemma speed_bucket_fresh:
  assumes "map_of (SpeedLimiter l) t = None" "0 \<le> r" "r < 2 ^ 40"
    and "determineSpeedLimit (SpeedLimit l) x = r"
  shows "snd (speed_bucket t x l) =
    (if r = 0 then None else Some (NewBucketWithQuantum (r * 125000) (r * 125000)))"
proof -
  have "i64 (r * 1000000) = r * 1000000" using assms(2,3) by (intro i64_id) (simp add: int64_range_def)
  moreover have "go_div (r * 1000000) 8 = r * 125000" using assms(2) by (simp add: go_div_nonneg)
  ultimately show ?thesis using assms by (simp add: speed_bucket_def Let_def)
qed

text \<open>
  The rate an admitted connection gets, when its user has no bucket yet: the lowest positive rate
  among the node's, the user's and the user's unexpired dynamic limit, in megabits, becomes a bucket of
  that many bytes per second, and with no positive rate the connection is not limited at all.
\<close>

theorem CheckLimit_bucket_rate:
  assumes "CheckLimit cdn now taguuid rawip isTcp noSSUDP l = (l', b, False)"
    and "map_of (UserLimits l) taguuid = Some u" "map_of (SpeedLimiter l) taguuid = None"
    and "\<forall>r \<in> {SpeedLimit l, li_SpeedLimit u, li_DynamicSpeedLimit u}. 0 \<le> r \<and> r < 2 ^ 40"
  shows "b = (let expired = li_ExpireTime u \<noteq> 0 \<and> li_ExpireTime u < now;
                  r = lowest_rate [SpeedLimit l, li_SpeedLimit u, if expired then 0 else li_DynamicSpeedLimit u]
              in if r = 0 then None else Some (NewBucketWithQuantum (r * 125000) (r * 125000)))"
proof -
  define r where "r = lowest_rate [SpeedLimit l, li_SpeedLimit u,
      if li_ExpireTime u \<noteq> 0 \<and> li_ExpireTime u < now then 0 else li_DynamicSpeedLimit u]"
  define x where "x = snd (resolve_user now taguuid u l)"
  have pos: "0 \<le> SpeedLimit l" "0 \<le> li_SpeedLimit u" "0 \<le> li_DynamicSpeedLimit u" using assms(4) by auto
  have x: "determineSpeedLimit (SpeedLimit l) x = r"
  proof (cases "li_ExpireTime u \<noteq> 0 \<and> li_ExpireTime u < now")
    case True
    then have "x = li_SpeedLimit u" by (simp add: x_def resolve_user_def)
    moreover have "r = lowest_rate [SpeedLimit l, li_SpeedLimit u]"
      using True by (simp add: r_def lowest_rate_def)
    ultimately show ?thesis using determineSpeedLimit_lowest [OF pos(1,2)] by simp
  next
    case False
    then have "x = determineSpeedLimit (li_SpeedLimit u) (li_DynamicSpeedLimit u)"
      by (auto simp: x_def resolve_user_def)
    moreover have "r = lowest_rate [SpeedLimit l, li_SpeedLimit u, li_DynamicSpeedLimit u]"
      using False by (simp only: r_def if_False)
    ultimately show ?thesis using determineSpeedLimit_lowest3 [OF pos] by simp
  qed
  have r: "0 \<le> r" "r < 2 ^ 40"
    using assms(4) by (auto simp: r_def lowest_rate_def Let_def)
  have fresh: "snd (speed_bucket taguuid x l'') =
      (if r = 0 then None else Some (NewBucketWithQuantum (r * 125000) (r * 125000)))"
    if "SpeedLimiter l'' = SpeedLimiter l" "SpeedLimit l'' = SpeedLimit l" for l''
    using speed_bucket_fresh [of l'' taguuid r x] that assms(3) r x by simp
  let ?l1 = "fst (resolve_user now taguuid u l)"
  let ?c = "canonical_ip rawip"
  have "b = snd (speed_bucket taguuid x (if noSSUDP
      then fst (admit_device taguuid ?c (li_UID u) (li_DeviceLimit u) (isExempt cdn l ?c) ?l1) else ?l1))"
    unfolding x_def CheckLimit_accepted [OF assms(1,2)] by (rule snd_conv [symmetric])
  also have "\<dots> = (if r = 0 then None else Some (NewBucketWithQuantum (r * 125000) (r * 125000)))"
    by (rule fresh) (simp_all add: admit_speed_frame resolve_speed_frame)
  finally show ?thesis unfolding Let_def r_def .
qed

theorem CheckLimit_bucket_rate_witness:
  "\<exists>l'. CheckLimit ([], None) 100 ''n|u'' ''1.2.3.4'' True False (ex_limiter\<lparr>SpeedLimit := 80\<rparr>) =
     (l', Some (NewBucketWithQuantum 10000000 10000000), False)"
proof -
  let ?l = "ex_limiter\<lparr>SpeedLimit := 80\<rparr>"
  let ?u = "\<lparr>li_UID = 7, li_SpeedLimit = 0, li_DeviceLimit = 1, li_DynamicSpeedLimit = 0,
     li_ExpireTime = 0, li_OverLimit = False\<rparr>"
  have u: "map_of (UserLimits ?l) ''n|u'' = Some ?u" "map_of (SpeedLimiter ?l) ''n|u'' = None"
    by (simp_all add: ex_limiter_simps)
  have "\<not> snd (snd (CheckLimit ([], None) 100 ''n|u'' ''1.2.3.4'' True False ?l))"
    by (simp add: CheckLimit_cases ex_limiter_simps isKicked_def mget_def Let_def case_prod_unfold)
  then obtain l' b where c: "CheckLimit ([], None) 100 ''n|u'' ''1.2.3.4'' True False ?l = (l', b, False)"
    by (metis (full_types) prod.collapse)
  from CheckLimit_bucket_rate [OF c u] have "b = Some (NewBucketWithQuantum 10000000 10000000)"
    by (simp add: ex_limiter_simps lowest_rate_def)
  with c show ?thesis by blast
qed

text \<open>
  A dynamic speed limit bans a user who has no speed limit of his own: the first connection after
  the limit expired removes the user's limit record, and every connection after that is rejected
  as one of an unknown user, until the user list brings the user back.
\<close>

theorem expired_dynamic_limit_bans:
  assumes "UpdateDynamicSpeedLimit tag uuid limit expire l = Inr l1"
    and "map_of (UserLimits l) (UserTag tag uuid) = Some info" "li_SpeedLimit info = 0"
    and "expire \<noteq> 0" "expire < now"
  shows "snd (snd (CheckLimit cdn later (UserTag tag uuid) ip2 isTcp2 noSSUDP2
    (fst (CheckLimit cdn now (UserTag tag uuid) ip isTcp noSSUDP l1))))"
proof -
  let ?t = "UserTag tag uuid"
  let ?u = "info\<lparr>li_DynamicSpeedLimit := limit, li_ExpireTime := expire\<rparr>"
  have l1: "map_of (UserLimits l1) ?t = Some ?u"
    using assms(1,2) by (auto simp: UpdateDynamicSpeedLimit_def)
  have gone: "map_of (UserLimits (fst (resolve_user now ?t ?u l1))) ?t = None"
    using assms(3-5) by (simp add: resolve_user_def)
  have "map_of (UserLimits (fst (CheckLimit cdn now ?t ip isTcp noSSUDP l1))) ?t = None"
    unfolding CheckLimit_UserLimits [OF l1] by (rule gone)
  then show ?thesis by (simp add: CheckLimit_cases [of cdn later])
qed

theorem expired_dynamic_limit_bans_witness:
  "\<exists>l1. UpdateDynamicSpeedLimit ''n'' ''u'' 10 200 ex_limiter = Inr l1 \<and>
     snd (snd (CheckLimit ([], None) 500 (UserTag ''n'' ''u'') ''1.2.3.4'' True False
       (fst (CheckLimit ([], None) 300 (UserTag ''n'' ''u'') ''1.2.3.4'' True False l1))))"
proof -
  obtain l1 where l1: "UpdateDynamicSpeedLimit ''n'' ''u'' 10 200 ex_limiter = Inr l1"
    by (simp add: UpdateDynamicSpeedLimit_def ex_limiter_simps)
  have i: "map_of (UserLimits ex_limiter) (UserTag ''n'' ''u'') = Some \<lparr>li_UID = 7, li_SpeedLimit = 0,
      li_DeviceLimit = 1, li_DynamicSpeedLimit = 0, li_ExpireTime = 0, li_OverLimit = False\<rparr>"
    by (simp add: ex_limiter_simps)
  from expired_dynamic_limit_bans [OF l1 i, of 300] l1 show ?thesis by simp
qed

end
