(* ===== verification/User_Sync.thy ===== *)
theory User_Sync
  imports Limiter_Policy
begin

text \<open>
  Bringing the panel's user list into a running node: the comparison of the old and the new list
  (\<^verbatim>\<open>node/user_compare.go\<close>) and what the limiter knows of the users after the changes were applied to it.
\<close>

section \<open>Comparing two user lists\<close>

record userListChanges =
  deleted :: "UserInfo list"
  added :: "UserInfo list"
  limiterDeleted :: "UserInfo list"
  limiterAdded :: "UserInfo list"

definition userLimitFieldsChanged :: "UserInfo \<Rightarrow> UserInfo \<Rightarrow> bool" where
  "userLimitFieldsChanged old new \<longleftrightarrow>
     u_Id old \<noteq> u_Id new \<or> u_SpeedLimit old \<noteq> u_SpeedLimit new \<or> u_DeviceLimit old \<noteq> u_DeviceLimit new"

text \<open>One round of the loop over the new list.\<close>

definition compare_one :: "UserInfo \<Rightarrow> (string, UserInfo) gomap \<times> userListChanges
    \<Rightarrow> (string, UserInfo) gomap \<times> userListChanges" where
  "compare_one user st = (case st of (oldByUUID, changes) \<Rightarrow>
     (case map_of oldByUUID (u_Uuid user) of
        None \<Rightarrow> (oldByUUID, changes\<lparr>added := added changes @ [user],
                                   limiterAdded := limiterAdded changes @ [user]\<rparr>)
      | Some oldUser \<Rightarrow>
          (AList.delete (u_Uuid user) oldByUUID,
           if userLimitFieldsChanged oldUser user
           then changes\<lparr>limiterDeleted := limiterDeleted changes @ [oldUser],
                        limiterAdded := limiterAdded changes @ [user]\<rparr>
           else changes)))"

definition users_by_uuid :: "UserInfo list \<Rightarrow> (string, UserInfo) gomap" where
  "users_by_uuid us = fold (\<lambda>u. AList.update (u_Uuid u) u) us []"

definition compareUserList :: "UserInfo list \<Rightarrow> UserInfo list \<Rightarrow> userListChanges" where
  "compareUserList old new =
     (case fold compare_one new
        (users_by_uuid old, \<lparr>deleted = [], added = [], limiterDeleted = [], limiterAdded = []\<rparr>) of
        (oldByUUID, changes) \<Rightarrow>
          changes\<lparr>deleted := map snd oldByUUID,
                  limiterDeleted := limiterDeleted changes @ map snd oldByUUID\<rparr>)"

section \<open>The comparison, by membership\<close>

abbreviation uuids :: "UserInfo list \<Rightarrow> string set" where
  "uuids us \<equiv> u_Uuid ` set us"

definition unique_uuids :: "UserInfo list \<Rightarrow> bool" where
  "unique_uuids us \<longleftrightarrow> distinct (map u_Uuid us)"

lemma unique_uuids_eq: "unique_uuids us \<Longrightarrow> u \<in> set us \<Longrightarrow> v \<in> set us \<Longrightarrow> u_Uuid u = u_Uuid v \<Longrightarrow> u = v"
  by (auto simp: unique_uuids_def distinct_map inj_on_def)

lemma unique_uuids_find: "unique_uuids (v # us) \<Longrightarrow> find (\<lambda>u. u_Uuid u = u_Uuid v) us = None"
  by (auto simp: unique_uuids_def find_None_iff) (metis imageI)

lemma users_by_uuid_fold:
  "unique_uuids us \<Longrightarrow> map_of (fold (\<lambda>u. AList.update (u_Uuid u) u) us m) k =
     (case find (\<lambda>u. u_Uuid u = k) us of Some u \<Rightarrow> Some u | None \<Rightarrow> map_of m k)"
proof (induction us arbitrary: m)
  case Nil
  then show ?case by simp
next
  case (Cons u us)
  moreover from Cons.prems have "u_Uuid u = k \<Longrightarrow> find (\<lambda>u. u_Uuid u = k) us = None"
    using unique_uuids_find [of u us] by auto
  ultimately show ?case by (auto simp: unique_uuids_def split: option.split)
qed

lemma map_of_users_by_uuid:
  "unique_uuids us \<Longrightarrow> map_of (users_by_uuid us) k = find (\<lambda>u. u_Uuid u = k) us"
  by (simp add: users_by_uuid_def users_by_uuid_fold split: option.split)

lemma keys_users_by_uuid: "keys_distinct (users_by_uuid us)"
proof -
  have "keys_distinct m \<Longrightarrow> keys_distinct (fold (\<lambda>u. AList.update (u_Uuid u) u) us m)" for m
    by (induction us arbitrary: m) (simp_all del: map_map)
  then show ?thesis by (simp add: users_by_uuid_def)
qed

lemma find_user: "unique_uuids us \<Longrightarrow> find (\<lambda>u. u_Uuid u = k) us = Some u \<longleftrightarrow> u \<in> set us \<and> u_Uuid u = k"
proof (induction us)
  case Nil
  then show ?case by simp
next
  case (Cons v us)
  then show ?case by (auto simp: unique_uuids_def)
qed

lemma compare_one_simps:
  "map_of m (u_Uuid u) = None \<Longrightarrow>
     compare_one u (m, c) = (m, c\<lparr>added := added c @ [u], limiterAdded := limiterAdded c @ [u]\<rparr>)"
  "map_of m (u_Uuid u) = Some v \<Longrightarrow> userLimitFieldsChanged v u \<Longrightarrow>
     compare_one u (m, c) = (AList.delete (u_Uuid u) m,
       c\<lparr>limiterDeleted := limiterDeleted c @ [v], limiterAdded := limiterAdded c @ [u]\<rparr>)"
  "map_of m (u_Uuid u) = Some v \<Longrightarrow> \<not> userLimitFieldsChanged v u \<Longrightarrow>
     compare_one u (m, c) = (AList.delete (u_Uuid u) m, c)"
  by (simp_all add: compare_one_def)

text \<open>The state of the loop after a prefix of the new list, as sets.\<close>

lemma compare_fold:
  assumes "unique_uuids new"
  shows "fold compare_one new (m, c) =
    (filter (\<lambda>(k, _). k \<notin> uuids new) m,
     c\<lparr>added := added c @ filter (\<lambda>u. map_of m (u_Uuid u) = None) new,
       limiterDeleted := limiterDeleted c @
         concat (map (\<lambda>u. case map_of m (u_Uuid u) of None \<Rightarrow> []
                        | Some o' \<Rightarrow> if userLimitFieldsChanged o' u then [o'] else []) new),
       limiterAdded := limiterAdded c @
         filter (\<lambda>u. case map_of m (u_Uuid u) of None \<Rightarrow> True
                      | Some o' \<Rightarrow> userLimitFieldsChanged o' u) new\<rparr>)"
  using assms
proof (induction new arbitrary: m c)
  case Nil
  then show ?case by simp
next
  case (Cons u new)
  have del: "AList.delete k m = filter (\<lambda>(k', _). k' \<noteq> k) m" for k
    by (auto simp: AList.delete_eq case_prod_unfold intro!: filter_cong)
  have other: "u_Uuid v \<noteq> u_Uuid u" if "v \<in> set new" for v
    using Cons.prems that by (auto simp: unique_uuids_def image_iff)
  have sub: "unique_uuids new" using Cons.prems by (simp add: unique_uuids_def)
  show ?case
  proof (cases "map_of m (u_Uuid u)")
    case None
    then have "filter (\<lambda>(k, _). k \<notin> uuids (u # new)) m = filter (\<lambda>(k, _). k \<notin> uuids new) m"
      by (intro filter_cong) (auto simp: map_of_eq_None_iff rev_image_eqI)
    with None show ?thesis by (simp add: compare_one_simps Cons.IH [OF sub])
  next
    case (Some o')
    have "filter (\<lambda>(k, _). k \<notin> uuids new) (AList.delete (u_Uuid u) m) = filter (\<lambda>(k, _). k \<notin> uuids (u # new)) m"
      unfolding del by (simp add: case_prod_unfold conj_commute)
    with Some show ?thesis
      by (cases "userLimitFieldsChanged o' u")
         (simp_all add: compare_one_simps Cons.IH [OF sub] other cong: filter_cong map_cong)
  qed
qed


lemma compareUserList_lists:
  fixes old new
  assumes "unique_uuids old" "unique_uuids new"
  defines "c \<equiv> compareUserList old new"
  shows "added c = filter (\<lambda>u. u_Uuid u \<notin> uuids old) new"
    and "set (deleted c) = {u \<in> set old. u_Uuid u \<notin> uuids new}"
    and "set (limiterAdded c) = {u \<in> set new. \<forall>v \<in> set old. u_Uuid v = u_Uuid u \<longrightarrow> userLimitFieldsChanged v u}"
    and "set (limiterDeleted c) = {u \<in> set old. \<forall>v \<in> set new. u_Uuid v = u_Uuid u \<longrightarrow> userLimitFieldsChanged u v}"
    and "unique_uuids (limiterAdded c)"
proof -
  let ?m = "users_by_uuid old"
  note f = compare_fold [OF assms(2), of ?m]
  have mem: "(k, u) \<in> set ?m \<longleftrightarrow> u \<in> set old \<and> u_Uuid u = k" for k u
    using map_of_eq_Some_iff [OF keys_users_by_uuid] map_of_users_by_uuid [OF assms(1)] find_user [OF assms(1)]
    by metis
  have none: "map_of ?m k = None \<longleftrightarrow> k \<notin> uuids old" for k
    by (auto simp: map_of_users_by_uuid [OF assms(1)] find_None_iff)
  have some: "map_of ?m k = Some u \<longleftrightarrow> u \<in> set old \<and> u_Uuid u = k" for k u
    by (simp add: map_of_users_by_uuid [OF assms(1)] find_user [OF assms(1)])
  have left: "set (map snd (filter (\<lambda>(k, _). k \<notin> uuids new) ?m)) = {u \<in> set old. u_Uuid u \<notin> uuids new}"
  proof (intro set_eqI iffI)
    fix u
    assume "u \<in> {u \<in> set old. u_Uuid u \<notin> uuids new}"
    then have "(u_Uuid u, u) \<in> set (filter (\<lambda>(k, _). k \<notin> uuids new) ?m)" by (simp add: mem)
    then show "u \<in> set (map snd (filter (\<lambda>(k, _). k \<notin> uuids new) ?m))"
      unfolding set_map by (metis image_eqI snd_conv)
  qed (auto simp: mem)
  show "added c = filter (\<lambda>u. u_Uuid u \<notin> uuids old) new"
    by (simp add: c_def compareUserList_def f none)
  show del: "set (deleted c) = {u \<in> set old. u_Uuid u \<notin> uuids new}"
    using left by (simp add: c_def compareUserList_def f)
  show "set (limiterAdded c) = {u \<in> set new. \<forall>v \<in> set old. u_Uuid v = u_Uuid u \<longrightarrow> userLimitFieldsChanged v u}"
  proof -
    have "(case map_of ?m (u_Uuid u) of None \<Rightarrow> True | Some v \<Rightarrow> userLimitFieldsChanged v u) \<longleftrightarrow>
        (\<forall>v \<in> set old. u_Uuid v = u_Uuid u \<longrightarrow> userLimitFieldsChanged v u)" for u
    proof (cases "map_of ?m (u_Uuid u)")
      case None
      then show ?thesis using none [of "u_Uuid u"] by (auto simp: image_iff)
    next
      case (Some w)
      then have w: "w \<in> set old" "u_Uuid w = u_Uuid u" using some by blast+
      have same: "v = w" if "v \<in> set old" "u_Uuid v = u_Uuid u" for v
        using unique_uuids_eq [OF assms(1) that(1) w(1)] that(2) w(2) by simp
      show ?thesis unfolding Some option.case using w same by metis
    qed
    moreover have "limiterAdded c =
        filter (\<lambda>u. case map_of ?m (u_Uuid u) of None \<Rightarrow> True | Some v \<Rightarrow> userLimitFieldsChanged v u) new"
      by (simp add: c_def compareUserList_def f)
    ultimately show ?thesis by (simp only: set_filter)
  qed
  show "set (limiterDeleted c) = {u \<in> set old. \<forall>v \<in> set new. u_Uuid v = u_Uuid u \<longrightarrow> userLimitFieldsChanged u v}"
    (is "_ = ?R")
  proof -
    have "u \<in> set (limiterDeleted c) \<longleftrightarrow>
        (\<exists>v \<in> set new. map_of ?m (u_Uuid v) = Some u \<and> userLimitFieldsChanged u v) \<or>
        (u \<in> set old \<and> u_Uuid u \<notin> uuids new)" for u
      using left by (auto simp: c_def compareUserList_def f split: option.splits if_splits)
    moreover have "(\<exists>v \<in> set new. map_of ?m (u_Uuid v) = Some u \<and> userLimitFieldsChanged u v) \<or>
        (u \<in> set old \<and> u_Uuid u \<notin> uuids new) \<longleftrightarrow> u \<in> ?R" for u
    proof (cases "\<exists>v \<in> set new. u_Uuid v = u_Uuid u")
      case True
      then obtain v where v: "v \<in> set new" "u_Uuid v = u_Uuid u" by blast
      have same: "v' = v" if "v' \<in> set new" "u_Uuid v' = u_Uuid u" for v'
        using unique_uuids_eq [OF assms(2) that(1) v(1)] that(2) v(2) by simp
      have "u_Uuid u \<in> uuids new" using v by (metis imageI)
      then show ?thesis unfolding some mem_Collect_eq using v same by metis
    next
      case False
      then show ?thesis unfolding some by (auto simp: image_iff)
    qed
    ultimately show ?thesis by blast
  qed
  show "unique_uuids (limiterAdded c)"
    using assms(2) by (simp add: c_def compareUserList_def f unique_uuids_def distinct_map_filter)
qed

section \<open>The limiter after a user update\<close>

lemma remove_users_limits:
  "map_of (UserLimits (fold (remove_user tag r) ds l)) (UserTag tag k) =
     (if k \<in> uuids ds then None else map_of (UserLimits l) (UserTag tag k))"
  "map_of (UUIDtoUID (fold (remove_user tag r) ds l)) k =
     (if k \<in> uuids ds then None else map_of (UUIDtoUID l) k)"
  "map_of (SpeedLimiter (fold (remove_user tag r) ds l)) (UserTag tag k) =
     (if k \<in> uuids ds then None else map_of (SpeedLimiter l) (UserTag tag k))"
  "map_of (UserOnlineIP (fold (remove_user tag r) ds l)) (UserTag tag k) =
     (if k \<in> uuids ds then None else map_of (UserOnlineIP l) (UserTag tag k))"
  by (induction ds arbitrary: l) (auto simp: remove_user_def deleteAlive_def Let_def)

lemma add_user_maps:
  "UserLimits (add_user tag u l) = AList.update (UserTag tag (u_Uuid u)) (new_user_limit u) (UserLimits l)"
  "UUIDtoUID (add_user tag u l) = AList.update (u_Uuid u) (u_Id u) (UUIDtoUID l)"
  "SpeedLimiter (add_user tag u l) = SpeedLimiter l"
  "UserOnlineIP (add_user tag u l) = UserOnlineIP l"
  by (simp_all add: add_user_def store_user_def Let_def split: option.split)

lemma add_users_frame:
  "SpeedLimiter (fold (add_user tag) as l) = SpeedLimiter l"
  "UserOnlineIP (fold (add_user tag) as l) = UserOnlineIP l"
  by (induction as arbitrary: l) (simp_all add: add_user_maps)

lemma add_users_limits:
  assumes "unique_uuids as"
  shows "map_of (UserLimits (fold (add_user tag) as l)) (UserTag tag k) =
      (case find (\<lambda>u. u_Uuid u = k) as of Some u \<Rightarrow> Some (new_user_limit u)
       | None \<Rightarrow> map_of (UserLimits l) (UserTag tag k))"
    and "map_of (UUIDtoUID (fold (add_user tag) as l)) k =
      (case find (\<lambda>u. u_Uuid u = k) as of Some u \<Rightarrow> Some (u_Id u) | None \<Rightarrow> map_of (UUIDtoUID l) k)"
proof -
  have "find (\<lambda>u. u_Uuid u = k) us = None" if "unique_uuids (v # us)" "u_Uuid v = k" for v us
    using that unique_uuids_find [of v us] by auto
  then show "map_of (UserLimits (fold (add_user tag) as l)) (UserTag tag k) =
      (case find (\<lambda>u. u_Uuid u = k) as of Some u \<Rightarrow> Some (new_user_limit u)
       | None \<Rightarrow> map_of (UserLimits l) (UserTag tag k))"
    and "map_of (UUIDtoUID (fold (add_user tag) as l)) k =
      (case find (\<lambda>u. u_Uuid u = k) as of Some u \<Rightarrow> Some (u_Id u) | None \<Rightarrow> map_of (UUIDtoUID l) k)"
    using assms
    by (induction as arbitrary: l) (auto simp: add_user_maps unique_uuids_def split: option.split)
qed

text \<open>The limiter knows exactly these users, with their ids and limits.\<close>

definition user_fields :: "UserInfo \<Rightarrow> int \<times> int \<times> int" where
  "user_fields u = (u_Id u, u_SpeedLimit u, u_DeviceLimit u)"

definition limit_fields :: "UserLimitInfo \<Rightarrow> int \<times> int \<times> int" where
  "limit_fields i = (li_UID i, li_SpeedLimit i, li_DeviceLimit i)"

definition knows :: "Limiter \<Rightarrow> string \<Rightarrow> UserInfo list \<Rightarrow> bool" where
  "knows l tag us \<longleftrightarrow>
     (\<forall>k. map_option limit_fields (map_of (UserLimits l) (UserTag tag k)) =
          map_option user_fields (find (\<lambda>u. u_Uuid u = k) us)) \<and>
     (\<forall>k. map_of (UUIDtoUID l) k = map_option u_Id (find (\<lambda>u. u_Uuid u = k) us))"

lemma limit_fields_new [simp]: "limit_fields (new_user_limit u) = user_fields u"
  by (simp add: limit_fields_def user_fields_def new_user_limit_def)

lemma unchanged_fields: "\<not> userLimitFieldsChanged v u \<Longrightarrow> user_fields v = user_fields u \<and> u_Id v = u_Id u"
  by (simp add: userLimitFieldsChanged_def user_fields_def)


text \<open>
  The comparison is exact: users only in the new list are added, users only in the old list are
  deleted, and the limiter is told about exactly the users that are new or gone or whose id, speed limit or
  device limit changed; users whose entry did not change are not touched.
\<close>

theorem compareUserList_exact:
  assumes "unique_uuids old" "unique_uuids new"
  shows "added (compareUserList old new) = filter (\<lambda>u. u_Uuid u \<notin> uuids old) new \<and>
    set (deleted (compareUserList old new)) = {u \<in> set old. u_Uuid u \<notin> uuids new} \<and>
    set (limiterAdded (compareUserList old new)) =
       {u \<in> set new. \<forall>v \<in> set old. u_Uuid v = u_Uuid u \<longrightarrow> userLimitFieldsChanged v u} \<and>
    set (limiterDeleted (compareUserList old new)) =
       {u \<in> set old. \<forall>v \<in> set new. u_Uuid v = u_Uuid u \<longrightarrow> userLimitFieldsChanged u v}"
  using compareUserList_lists [OF assms] by simp

theorem compareUserList_exact_witness:
  "added (compareUserList [\<lparr>u_Id = 1, u_Uuid = ''a'', u_SpeedLimit = 0, u_DeviceLimit = 1\<rparr>]
     [\<lparr>u_Id = 1, u_Uuid = ''a'', u_SpeedLimit = 5, u_DeviceLimit = 1\<rparr>,
      \<lparr>u_Id = 2, u_Uuid = ''b'', u_SpeedLimit = 0, u_DeviceLimit = 1\<rparr>]) =
   [\<lparr>u_Id = 2, u_Uuid = ''b'', u_SpeedLimit = 0, u_DeviceLimit = 1\<rparr>]"
  using compareUserList_exact [of "[\<lparr>u_Id = 1, u_Uuid = ''a'', u_SpeedLimit = 0, u_DeviceLimit = 1\<rparr>]"
     "[\<lparr>u_Id = 1, u_Uuid = ''a'', u_SpeedLimit = 5, u_DeviceLimit = 1\<rparr>,
      \<lparr>u_Id = 2, u_Uuid = ''b'', u_SpeedLimit = 0, u_DeviceLimit = 1\<rparr>]"]
  by (simp add: unique_uuids_def)

lemma UpdateUser_follows:
  assumes "unique_uuids old" "unique_uuids new" "knows l tag old"
  defines "c \<equiv> compareUserList old new"
  shows "knows (UpdateUser tag (limiterAdded c) (limiterDeleted c) l) tag new \<and>
    (\<forall>k. k \<notin> uuids (limiterDeleted c) \<longrightarrow>
       map_of (UserOnlineIP (UpdateUser tag (limiterAdded c) (limiterDeleted c) l)) (UserTag tag k) =
         map_of (UserOnlineIP l) (UserTag tag k) \<and>
       map_of (SpeedLimiter (UpdateUser tag (limiterAdded c) (limiterDeleted c) l)) (UserTag tag k) =
         map_of (SpeedLimiter l) (UserTag tag k))"
proof -
  let ?l = "UpdateUser tag (limiterAdded c) (limiterDeleted c) l"
  note lists = compareUserList_lists [OF assms(1,2), folded c_def]
  have step: "(case find (\<lambda>u. u_Uuid u = k) (limiterAdded c) of
        Some u \<Rightarrow> Some (f u)
      | None \<Rightarrow> if k \<in> uuids (limiterDeleted c) then None else map_option f (find (\<lambda>u. u_Uuid u = k) old)) =
      map_option f (find (\<lambda>u. u_Uuid u = k) new)"
    if f: "\<And>u v. \<not> userLimitFieldsChanged v u \<Longrightarrow> f v = f u" for k and f :: "UserInfo \<Rightarrow> 'a"
  proof (cases "find (\<lambda>u. u_Uuid u = k) (limiterAdded c)")
    case (Some u)
    then have "u \<in> set new" "u_Uuid u = k" by (auto simp: find_user [OF lists(5)] lists(3))
    then have "find (\<lambda>u. u_Uuid u = k) new = Some u" by (simp add: find_user [OF assms(2)])
    with Some show ?thesis by simp
  next
    case None
    then have na: "\<And>u. u \<in> set (limiterAdded c) \<Longrightarrow> u_Uuid u \<noteq> k" by (simp add: find_None_iff)
    show ?thesis
    proof (cases "find (\<lambda>u. u_Uuid u = k) new")
      case (Some u)
      then have u: "u \<in> set new" "u_Uuid u = k" by (simp_all add: find_user [OF assms(2)])
      with na obtain v where v: "v \<in> set old" "u_Uuid v = k" "\<not> userLimitFieldsChanged v u"
        unfolding lists(3) by auto
      then have "find (\<lambda>u. u_Uuid u = k) old = Some v" by (simp add: find_user [OF assms(1)])
      moreover have "k \<notin> uuids (limiterDeleted c)"
      proof
        assume "k \<in> uuids (limiterDeleted c)"
        then obtain w where w: "w \<in> set old" "u_Uuid w = k"
            "\<forall>x \<in> set new. u_Uuid x = u_Uuid w \<longrightarrow> userLimitFieldsChanged w x"
          unfolding lists(4) by blast
        with v have "w = v" using unique_uuids_eq [OF assms(1)] by metis
        with u v(3) w show False by simp
      qed
      ultimately show ?thesis using None Some f [OF v(3)] by simp
    next
      case new_None: None
      then have nn: "\<And>u. u \<in> set new \<Longrightarrow> u_Uuid u \<noteq> k" by (simp add: find_None_iff)
      then have "k \<in> uuids (limiterDeleted c)" if "v \<in> set old" "u_Uuid v = k" for v
        unfolding lists(4) using that by force
      then have "k \<notin> uuids (limiterDeleted c) \<Longrightarrow> find (\<lambda>u. u_Uuid u = k) old = None"
        by (auto simp: find_None_iff)
      with None new_None show ?thesis by auto
    qed
  qed
  have "map_option limit_fields (map_of (UserLimits ?l) (UserTag tag k)) =
      map_option user_fields (find (\<lambda>u. u_Uuid u = k) new)" for k
    using step [of user_fields k] assms(3) unchanged_fields
    by (simp add: UpdateUser_def add_users_limits [OF lists(5)] remove_users_limits knows_def
        split: option.splits if_splits)
  moreover have "map_of (UUIDtoUID ?l) k = map_option u_Id (find (\<lambda>u. u_Uuid u = k) new)" for k
    using step [of u_Id k] assms(3) unchanged_fields
    by (simp add: UpdateUser_def add_users_limits [OF lists(5)] remove_users_limits knows_def
        split: option.splits if_splits)
  ultimately show ?thesis
    by (simp add: knows_def UpdateUser_def add_users_frame remove_users_limits)
qed

text \<open>
  C5. Applying the comparison to the limiter brings it from the old list to the new one: a limiter that
  knows exactly the old users with their ids and limits knows exactly the new users afterwards,
  and a user whose entry did not change keeps his online table and his bucket.
\<close>

theorem limiter_follows_user_list:
  assumes "unique_uuids old" "unique_uuids new" "knows l tag old"
  defines "c \<equiv> compareUserList old new"
  shows "knows (UpdateUser tag (limiterAdded c) (limiterDeleted c) l) tag new \<and>
    (\<forall>k. k \<notin> uuids (limiterDeleted c) \<longrightarrow>
       map_of (UserOnlineIP (UpdateUser tag (limiterAdded c) (limiterDeleted c) l)) (UserTag tag k) =
         map_of (UserOnlineIP l) (UserTag tag k) \<and>
       map_of (SpeedLimiter (UpdateUser tag (limiterAdded c) (limiterDeleted c) l)) (UserTag tag k) =
         map_of (SpeedLimiter l) (UserTag tag k))"
  unfolding c_def by (rule UpdateUser_follows [OF assms(1-3)])

theorem limiter_follows_user_list_witness:
  "knows (UpdateUser ''n'' [] [\<lparr>u_Id = 7, u_Uuid = ''u'', u_SpeedLimit = 0, u_DeviceLimit = 1\<rparr>] ex_limiter) ''n'' []"
proof -
  let ?u = "\<lparr>u_Id = 7, u_Uuid = ''u'', u_SpeedLimit = 0, u_DeviceLimit = 1\<rparr>"
  have "knows ex_limiter ''n'' [?u]"
    by (auto simp: knows_def ex_limiter_def AddLimiter_def store_user_def UserTag_def limit_fields_def
        user_fields_def new_user_limit_def)
  from limiter_follows_user_list [OF _ _ this, of "[]"] show ?thesis
    by (simp add: unique_uuids_def compareUserList_def users_by_uuid_def)
qed

end
