(* ===== verification/Cert_Orders.thy ===== *)
theory Cert_Orders
  imports Conf_Node Panel_Fetch Clock
begin

text \<open>
  Certificate orders: \<^verbatim>\<open>src/node/cert_cooldown.go\<close>, \<^verbatim>\<open>src/node/cert_preflight.go\<close>, \<^verbatim>\<open>src/node/dns_env.go\<close> and the flow
  of \<^verbatim>\<open>src/node/cert.go\<close> that uses them. Times and durations are nanoseconds, an instant counts from the Unix
  epoch. An error is its message.

  The certificate authority client, the DNS providers, the resolver, the file system, SHA-256 and the random token
  are arguments; a process environment is a map.
\<close>

section \<open>Environment of a DNS provider\<close>

text \<open>\<^verbatim>\<open>os.Setenv\<close> refuses an empty name, a name with an equals sign or a zero byte, and a value with a zero byte.\<close>

type_synonym environ = "(string, string) gomap"

definition env_name :: "string \<Rightarrow> bool" where
  "env_name key \<longleftrightarrow> key \<noteq> [] \<and> CHR ''='' \<notin> set key \<and> CHR 0x00 \<notin> set key"

definition Setenv :: "string \<Rightarrow> string \<Rightarrow> environ \<Rightarrow> environ option" where
  "Setenv key value env = (if env_name key \<and> CHR 0x00 \<notin> set value then Some (AList.update key value env) else None)"

definition Unsetenv :: "string \<Rightarrow> environ \<Rightarrow> environ" where
  "Unsetenv key env = AList.delete key env"

record savedEnv =
  sv_value :: string
  sv_existed :: bool

fun set_envs :: "(string, string) gomap \<Rightarrow> (string, savedEnv) gomap \<Rightarrow> environ \<Rightarrow> (string, savedEnv) gomap \<times> environ \<times> string option" where
  "set_envs [] previous env = (previous, env, None)"
| "set_envs ((key, value) # rest) previous env =
     (let saved = (case map_of env key of Some old \<Rightarrow> \<lparr>sv_value = old, sv_existed = True\<rparr> | None \<Rightarrow> \<lparr>sv_value = [], sv_existed = False\<rparr>);
          previous = AList.update key saved previous in
      case Setenv key value env of
        None \<Rightarrow> (previous, env, Some key)
      | Some env' \<Rightarrow> set_envs rest previous env')"

fun restore_envs :: "(string, savedEnv) gomap \<Rightarrow> environ \<Rightarrow> environ" where
  "restore_envs [] env = env"
| "restore_envs ((key, saved) # rest) env =
     restore_envs rest
       (if sv_existed saved then (case Setenv key (sv_value saved) env of None \<Rightarrow> env | Some env' \<Rightarrow> env') else Unsetenv key env)"

definition applyScopedEnv :: "(string, string) gomap \<Rightarrow> environ \<Rightarrow> (environ \<Rightarrow> environ) \<times> environ \<times> string option" where
  "applyScopedEnv envs env = (let (previous, env', err) = set_envs envs [] env in (restore_envs previous, env', err))"

datatype 'p provider_result = SetFailed string | FactoryError string | Provided 'p

definition newScopedDNSProvider ::
  "string \<Rightarrow> (string, string) gomap \<Rightarrow> (string \<Rightarrow> environ \<Rightarrow> string + 'p) \<Rightarrow> environ \<Rightarrow> 'p provider_result \<times> environ" where
  "newScopedDNSProvider name envs factory env =
     (let (restore, env', err) = applyScopedEnv envs env in
      (case err of
         Some key \<Rightarrow> SetFailed key
       | None \<Rightarrow> (case factory name env' of Inl e \<Rightarrow> FactoryError e | Inr p \<Rightarrow> Provided p),
       restore env'))"

section \<open>The cooldown\<close>

definition acmeRejectionBackoffBase :: int where "acmeRejectionBackoffBase = 5 * minute"
definition acmeRejectionBackoffMax :: int where "acmeRejectionBackoffMax = hour"
definition localFailureBackoffBase :: int where "localFailureBackoffBase = minute"
definition localFailureBackoffMax :: int where "localFailureBackoffMax = 10 * minute"
definition rateLimitDefaultPause :: int where "rateLimitDefaultPause = hour"
definition rateLimitMaxPause :: int where "rateLimitMaxPause = 7 * 24 * hour"

definition acmeProblemPrefix :: string where "acmeProblemPrefix = ''urn:ietf:params:acme:error:''"
definition acmeRateLimited :: string where "acmeRateLimited = acmeProblemPrefix @ ''rateLimited''"

record certOrderFailure =
  acmeRejections :: nat
  localFailures :: nat
  retryAt :: int
  lastErr :: string

type_synonym certOrderCooldown = "(string, certOrderFailure) gomap"

definition Check :: "string \<Rightarrow> int \<Rightarrow> certOrderCooldown \<Rightarrow> certOrderFailure option" where
  "Check key now c =
     (case map_of c key of None \<Rightarrow> None | Some entry \<Rightarrow> if \<not> now < retryAt entry then None else Some entry)"

function backoff_loop :: "int \<Rightarrow> nat \<Rightarrow> nat \<Rightarrow> int \<Rightarrow> int" where
  "backoff_loop maxDelay failures i delay =
     (if i < failures \<and> delay < maxDelay then backoff_loop maxDelay failures (i + 1) (delay * 2) else delay)"
  by pat_completeness auto
termination
  by (relation "measure (\<lambda>(_, failures, i, _). failures - i)") auto

declare backoff_loop.simps [simp del]

definition doublingBackoff :: "int \<Rightarrow> int \<Rightarrow> nat \<Rightarrow> int" where
  "doublingBackoff base maxDelay failures = min (backoff_loop maxDelay failures 1 base) maxDelay"

text \<open>The pattern of a retry time: digits where the template has a hash sign, everything else literally; the leftmost
  match counts.\<close>

fun match_template :: "string \<Rightarrow> string \<Rightarrow> string option" where
  "match_template [] s = Some []"
| "match_template (t # ts) [] = None"
| "match_template (t # ts) (c # cs) =
     (if (if t = CHR ''#'' then is_digit c else t = c) then map_option ((#) c) (match_template ts cs) else None)"

definition retry_template :: string where "retry_template = ''####-##-## ##:##:## UTC''"

fun find_retry_after :: "string \<Rightarrow> string option" where
  "find_retry_after [] = None"
| "find_retry_after (c # cs) =
     (case strip_prefix ''retry after '' (c # cs) of
        None \<Rightarrow> find_retry_after cs
      | Some r \<Rightarrow> (case match_template retry_template r of None \<Rightarrow> find_retry_after cs | Some t \<Rightarrow> Some t))"

text \<open>\<^verbatim>\<open>time.Parse\<close> for that layout: the fields are checked against the calendar.\<close>

definition leap :: "int \<Rightarrow> bool" where
  "leap y \<longleftrightarrow> y mod 4 = 0 \<and> (y mod 100 \<noteq> 0 \<or> y mod 400 = 0)"

definition month_days :: "int \<Rightarrow> nat \<Rightarrow> int" where
  "month_days y m = (if m = 2 \<and> leap y then 29 else [31, 28, 31, 30, 31, 30, 31, 31, 30, 31, 30, 31] ! (m - 1))"

definition days_before_year :: "int \<Rightarrow> int" where
  "days_before_year y = 365 * y + (y + 3) div 4 - (y + 99) div 100 + (y + 399) div 400"

definition unix_day :: "int \<Rightarrow> nat \<Rightarrow> nat \<Rightarrow> int" where
  "unix_day y m d = days_before_year y - days_before_year 1970 + sum_list (map (month_days y) [1 ..< m]) + int d - 1"

definition parse_retry :: "string \<Rightarrow> int option" where
  "parse_retry t =
     (let field = (\<lambda>i n. decimal_value (take n (drop i t)));
          y = int (field 0 4); m = field 5 2; d = field 8 2; hh = field 11 2; mi = field 14 2; ss = field 17 2 in
      if 1 \<le> m \<and> m \<le> 12 \<and> 1 \<le> d \<and> int d \<le> month_days y m \<and> hh < 24 \<and> mi < 60 \<and> ss < 60
      then Some ((unix_day y m d * 86400 + int hh * 3600 + int mi * 60 + int ss) * second) else None)"

definition rateLimitPause :: "string \<Rightarrow> int \<Rightarrow> int" where
  "rateLimitPause message now =
     (case find_retry_after message of
        None \<Rightarrow> rateLimitDefaultPause
      | Some t \<Rightarrow>
          (case parse_retry t of
             None \<Rightarrow> rateLimitDefaultPause
           | Some due \<Rightarrow> min (max (time_sub due now) localFailureBackoffBase) rateLimitMaxPause))"

definition failure_zero :: certOrderFailure where
  "failure_zero = \<lparr>acmeRejections = 0, localFailures = 0, retryAt = 0, lastErr = []\<rparr>"

definition RecordFailure :: "string \<Rightarrow> string \<Rightarrow> int \<Rightarrow> certOrderCooldown \<Rightarrow> certOrderCooldown" where
  "RecordFailure key message now c =
     (let entry = (mget failure_zero c key)\<lparr>lastErr := message\<rparr>;
          entry = (if contains message acmeRateLimited
             then entry\<lparr>acmeRejections := acmeRejections entry + 1, retryAt := now + rateLimitPause message now\<rparr>
             else if contains message acmeProblemPrefix
             then entry\<lparr>acmeRejections := acmeRejections entry + 1,
                        retryAt := now + doublingBackoff acmeRejectionBackoffBase acmeRejectionBackoffMax (acmeRejections entry + 1)\<rparr>
             else entry\<lparr>localFailures := localFailures entry + 1,
                        retryAt := now + doublingBackoff localFailureBackoffBase localFailureBackoffMax (localFailures entry + 1)\<rparr>)
      in AList.update key entry c)"

definition RecordSuccess :: "string \<Rightarrow> certOrderCooldown \<Rightarrow> certOrderCooldown" where
  "RecordSuccess key c = AList.delete key c"

text \<open>The key of an order; \<open>sha256\<close> gives the digest in hexadecimal.\<close>

definition order_text :: "CertConfig \<Rightarrow> string" where
  "order_text c =
     CertProvider c @ [CHR 0x00] @ Email c @ [CHR 0x00]
     @ concat (map (\<lambda>key. key @ ''='' @ mget [] (DNSEnv c) key @ [CHR 0x00]) (sort (map fst (DNSEnv c))))"

definition certOrderCooldownKey :: "(string \<Rightarrow> string) \<Rightarrow> CertConfig \<Rightarrow> string" where
  "certOrderCooldownKey sha256 c =
     CertMode c @ ''|'' @ trim_suffix (to_lower (trim_space (CertDomain c))) ''.'' @ ''|'' @ sha256 (order_text c)"

section \<open>Checks before an order\<close>

definition minRedactedSecretLength :: nat where "minRedactedSecretLength = 8"

definition redactDNSEnv :: "string \<Rightarrow> (string, string) gomap \<Rightarrow> string" where
  "redactDNSEnv message envs =
     fold (\<lambda>(_, value) redacted.
       if minRedactedSecretLength \<le> length value then replace_all value ''[REDACTED]'' redacted else redacted) envs message"

record 'p preflight =
  pf_MkdirAll :: "string \<Rightarrow> string option"
  pf_CreateTemp :: "string \<Rightarrow> string + string"
  pf_Close :: "string \<Rightarrow> string option"
  pf_Remove :: "string \<Rightarrow> string option"
  pf_factory :: "string \<Rightarrow> environ \<Rightarrow> string + 'p"
  pf_Present :: "'p \<Rightarrow> string \<Rightarrow> string \<Rightarrow> string \<Rightarrow> string option"
  pf_CleanUp :: "'p \<Rightarrow> string \<Rightarrow> string \<Rightarrow> string \<Rightarrow> string option"
  pf_timedOut :: bool
  pf_token :: "string + string"
  pf_listen :: "string option"
  pf_release :: "string option"
  pf_lookup :: "string \<Rightarrow> string + string list"

datatype check_error =
    ConfigInvalid cert_error
  | EnvRefused string string
  | ProviderRejected string string
  | DirectoryNotWritable string string
  | TokenError string
  | ProviderTimedOut string string
  | RecordError string
  | PortNotFree string
  | PortNotReleased string
  | NotResolved string string
  | NoAddress string

definition certDirectories :: "CertConfig \<Rightarrow> string list" where
  "certDirectories c =
     (let certDir = filepath_Dir (CertFile c); keyDir = filepath_Dir (KeyFile c)
      in [certDir, filepath_Clean (certDir @ ''/'' @ ''user'')] @ (if keyDir \<noteq> certDir then [keyDir] else []))"

definition checkDirectoryWritable :: "'p preflight \<Rightarrow> string \<Rightarrow> string option" where
  "checkDirectoryWritable pf dir =
     (case pf_MkdirAll pf dir of
        Some e \<Rightarrow> Some e
      | None \<Rightarrow>
          (case pf_CreateTemp pf dir of
             Inl e \<Rightarrow> Some e
           | Inr name \<Rightarrow> (case pf_Close pf name of Some e \<Rightarrow> Some e | None \<Rightarrow> pf_Remove pf name)))"

fun check_directories :: "'p preflight \<Rightarrow> string list \<Rightarrow> check_error option" where
  "check_directories pf [] = None"
| "check_directories pf (dir # dirs) =
     (case checkDirectoryWritable pf dir of
        Some e \<Rightarrow> Some (DirectoryNotWritable dir e)
      | None \<Rightarrow> check_directories pf dirs)"

definition presentAndCleanUp :: "'p preflight \<Rightarrow> 'p \<Rightarrow> string \<Rightarrow> string \<Rightarrow> string \<Rightarrow> string option" where
  "presentAndCleanUp pf provider domain token providerName =
     (let keyAuth = token @ ''.n2x-self-test'' in
      case pf_Present pf provider domain token keyAuth of
        Some e \<Rightarrow> Some (''create test TXT record _acme-challenge.'' @ domain @ '' via '' @ providerName
                      @ '' (check the credentials can edit this zone): '' @ e)
      | None \<Rightarrow>
          (case pf_CleanUp pf provider domain token keyAuth of
             Some e \<Rightarrow> Some (''remove test TXT record _acme-challenge.'' @ domain @ '' via '' @ providerName @ '': '' @ e)
           | None \<Rightarrow> None))"

definition checkDNS :: "'p preflight \<Rightarrow> CertConfig \<Rightarrow> environ \<Rightarrow> check_error option \<times> environ" where
  "checkDNS pf c env =
     (let (provider, env') = newScopedDNSProvider (CertProvider c) (DNSEnv c) (pf_factory pf) env in
      (case provider of
         SetFailed key \<Rightarrow> Some (EnvRefused (CertProvider c) key)
       | FactoryError e \<Rightarrow> Some (ProviderRejected (CertProvider c) (redactDNSEnv e (DNSEnv c)))
       | Provided p \<Rightarrow>
           let domain = trim_prefix (trim_suffix (CertDomain c) ''.'') ''*.'' in
           (case pf_token pf of
              Inl e \<Rightarrow> Some (TokenError e)
            | Inr token \<Rightarrow>
                if pf_timedOut pf then Some (ProviderTimedOut (CertProvider c) domain)
                else
                  (case presentAndCleanUp pf p domain token (CertProvider c) of
                     Some e \<Rightarrow> Some (RecordError (redactDNSEnv e (DNSEnv c)))
                   | None \<Rightarrow> None)),
       env'))"

definition checkHTTP :: "'p preflight \<Rightarrow> CertConfig \<Rightarrow> check_error option" where
  "checkHTTP pf c =
     (case pf_listen pf of
        Some e \<Rightarrow> Some (PortNotFree e)
      | None \<Rightarrow>
          (case pf_release pf of
             Some e \<Rightarrow> Some (PortNotReleased e)
           | None \<Rightarrow>
               let domain = trim_suffix (CertDomain c) ''.'' in
               (case pf_lookup pf domain of
                  Inl e \<Rightarrow> Some (NotResolved domain e)
                | Inr addresses \<Rightarrow> if addresses = [] then Some (NoAddress domain) else None)))"

definition Run :: "'p preflight \<Rightarrow> CertConfig \<Rightarrow> environ \<Rightarrow> check_error option \<times> environ" where
  "Run pf c env =
     (case check_directories pf (certDirectories c) of
        Some e \<Rightarrow> (Some e, env)
      | None \<Rightarrow>
          if CertMode c = ''dns'' then checkDNS pf c env
          else if CertMode c = ''http'' then (checkHTTP pf c, env)
          else (None, env))"

section \<open>Placing an order\<close>

text \<open>An \<open>order_call\<close> is what one call finds: the clock when it looks at the cooldown and when it records the outcome.\<close>

record 'p order_call =
  oc_mail :: "string \<Rightarrow> (string \<times> string) option"
  oc_sha256 :: "string \<Rightarrow> string"
  oc_preflight :: "'p preflight"
  oc_checked :: int
  oc_recorded :: int

datatype order_result = Ordered | CheckFailed check_error | Paused string certOrderFailure | OrderFailed string

definition validateCertConfig :: "'p order_call \<Rightarrow> CertConfig \<Rightarrow> check_error option" where
  "validateCertConfig oc c = map_option ConfigInvalid (ValidateACMECertConfig filepath_Clean (oc_mail oc) c)"

definition placeCertOrder ::
  "'p order_call \<Rightarrow> (CertConfig \<Rightarrow> string option) \<Rightarrow> CertConfig \<Rightarrow> certOrderCooldown \<times> environ
     \<Rightarrow> order_result \<times> certOrderCooldown \<times> environ" where
  "placeCertOrder oc order c s =
     (let (certOrders, env) = s in
      case validateCertConfig oc c of
        Some e \<Rightarrow> (CheckFailed e, certOrders, env)
      | None \<Rightarrow>
          let key = certOrderCooldownKey (oc_sha256 oc) c in
          (case Check key (oc_checked oc) certOrders of
             Some entry \<Rightarrow> (Paused (CertDomain c) entry, certOrders, env)
           | None \<Rightarrow>
               (case Run (oc_preflight oc) c env of
                  (Some e, env') \<Rightarrow> (CheckFailed e, certOrders, env')
                | (None, env') \<Rightarrow>
                    (case order c of
                       Some e \<Rightarrow>
                         let err = redactDNSEnv e (DNSEnv c)
                         in (OrderFailed err, RecordFailure key err (oc_recorded oc) certOrders, env')
                     | None \<Rightarrow> (Ordered, RecordSuccess key certOrders, env')))))"

section \<open>Requesting and renewing\<close>

definition effectiveCertConfig :: "NodeInfo option \<Rightarrow> Options option \<Rightarrow> CertConfig option" where
  "effectiveCertConfig node options =
     (case node of
        Some n \<Rightarrow> (case ni_CertConfig n of Some c \<Rightarrow> if CertMode c \<noteq> [] then Some c else Option.bind options op_CertConfig
                  | None \<Rightarrow> Option.bind options op_CertConfig)
      | None \<Rightarrow> Option.bind options op_CertConfig)"

datatype request_result =
  Ready | NoCertConfig | PathMissing | FileNotFound string | Requested order_result | SelfSignFailed string | UnsupportedMode string

definition requestCert ::
  "(string \<Rightarrow> bool) \<Rightarrow> (string \<Rightarrow> string \<Rightarrow> string \<Rightarrow> string option) \<Rightarrow> 'p order_call \<Rightarrow> (CertConfig \<Rightarrow> string option)
     \<Rightarrow> CertConfig option \<Rightarrow> certOrderCooldown \<times> environ \<Rightarrow> request_result \<times> certOrderCooldown \<times> environ" where
  "requestCert exist selfSign oc issueCert config s =
     (case config of
        None \<Rightarrow> (NoCertConfig, s)
      | Some c \<Rightarrow>
          if CertMode c = ''none'' \<or> CertMode c = [] then (Ready, s)
          else if CertMode c = ''file'' then
            if CertFile c = [] \<or> KeyFile c = [] then (PathMissing, s)
            else (case find (\<lambda>path. \<not> exist path) [CertFile c, KeyFile c] of
                    Some path \<Rightarrow> (FileNotFound path, s) | None \<Rightarrow> (Ready, s))
          else if CertMode c = ''dns'' \<or> CertMode c = ''http'' then
            if CertFile c = [] \<or> KeyFile c = [] then (PathMissing, s)
            else if exist (CertFile c) \<and> exist (KeyFile c) then (Ready, s)
            else (let (r, s') = placeCertOrder oc issueCert c s in (Requested r, s'))
          else if CertMode c = ''self'' then
            if CertFile c = [] \<or> KeyFile c = [] then (PathMissing, s)
            else if exist (CertFile c) \<and> exist (KeyFile c) then (Ready, s)
            else (case selfSign (CertDomain c) (CertFile c) (KeyFile c) of
                    Some e \<Rightarrow> (SelfSignFailed e, s) | None \<Rightarrow> (Ready, s))
          else (UnsupportedMode (CertMode c), s))"

definition certRenewWindow :: int where "certRenewWindow = 31 * 24 * hour"

text \<open>\<open>not_after\<close> reads the end of a certificate from the text of its file.\<close>

definition certRenewalDue :: "(string \<Rightarrow> string option) \<Rightarrow> (string \<Rightarrow> int option) \<Rightarrow> string \<Rightarrow> int \<Rightarrow> bool option" where
  "certRenewalDue read not_after certFile now =
     (case read certFile of
        None \<Rightarrow> None
      | Some certPEM \<Rightarrow> map_option (\<lambda>notAfter. time_sub notAfter now < certRenewWindow) (not_after certPEM))"

datatype renew_result = NotAutomatic | ExpiryUnknown | NotDue | RenewFailed order_result | Renewed

definition renewCertTask ::
  "(string \<Rightarrow> string option) \<Rightarrow> (string \<Rightarrow> int option) \<Rightarrow> int \<Rightarrow> 'p order_call \<Rightarrow> (CertConfig \<Rightarrow> string option)
     \<Rightarrow> CertConfig option \<Rightarrow> certOrderCooldown \<times> environ \<Rightarrow> renew_result \<times> certOrderCooldown \<times> environ" where
  "renewCertTask read not_after now oc renewIssuedCert config s =
     (case config of
        None \<Rightarrow> (NotAutomatic, s)
      | Some c \<Rightarrow>
          if CertMode c \<noteq> ''dns'' \<and> CertMode c \<noteq> ''http'' then (NotAutomatic, s)
          else
            (case certRenewalDue read not_after (CertFile c) now of
               None \<Rightarrow> (ExpiryUnknown, s)
             | Some False \<Rightarrow> (NotDue, s)
             | Some True \<Rightarrow>
                 let (r, s') = placeCertOrder oc renewIssuedCert c s
                 in (if r = Ordered then Renewed else RenewFailed r, s')))"

section \<open>The environment is put back\<close>

definition settable :: "string \<Rightarrow> string \<Rightarrow> bool" where
  "settable key value \<longleftrightarrow> env_name key \<and> CHR 0x00 \<notin> set value"

definition env_ok :: "environ \<Rightarrow> bool" where
  "env_ok env \<longleftrightarrow> (\<forall>k v. map_of env k = Some v \<longrightarrow> settable k v)"

text \<open>What was saved, laid over the present environment, is the environment at the start.\<close>

definition undoes :: "(string, savedEnv) gomap \<Rightarrow> environ \<Rightarrow> environ \<Rightarrow> bool" where
  "undoes previous env env0 \<longleftrightarrow>
     (\<forall>k. map_of env0 k = (case map_of previous k of
        Some s \<Rightarrow> if sv_existed s then Some (sv_value s) else None | None \<Rightarrow> map_of env k))"

lemma set_envs_undoes:
  assumes "undoes previous env env0" "keys_distinct previous" "keys_distinct envs"
    and "fst ` set envs \<inter> dom (map_of previous) = {}" "set_envs envs previous env = (p, env', err)"
  shows "undoes p env' env0 \<and> keys_distinct p"
  using assms
proof (induction envs previous env rule: set_envs.induct)
  case (2 key val rest previous env)
  define saved where "saved = (case map_of env key of Some old \<Rightarrow> \<lparr>sv_value = old, sv_existed = True\<rparr> | None \<Rightarrow> \<lparr>sv_value = [], sv_existed = False\<rparr>)"
  let ?p = "AList.update key saved previous"
  from "2.prems"(4) have none: "map_of previous key = None" by auto
  have u: "undoes ?p env1 env0" if "\<And>k. k \<noteq> key \<Longrightarrow> map_of env1 k = map_of env k" for env1
    unfolding undoes_def
  proof
    fix k
    from "2.prems"(1) have "map_of env0 k = (case map_of previous k of
        Some s \<Rightarrow> if sv_existed s then Some (sv_value s) else None | None \<Rightarrow> map_of env k)" by (simp add: undoes_def)
    then show "map_of env0 k = (case map_of ?p k of Some s \<Rightarrow> if sv_existed s then Some (sv_value s) else None | None \<Rightarrow> map_of env1 k)"
      using none that [of k] by (cases "k = key") (auto simp: saved_def split: option.splits)
  qed
  show ?case
  proof (cases "Setenv key val env")
    case None
    moreover have "keys_distinct ?p" using "2.prems"(2) by simp
    ultimately show ?thesis using "2.prems"(5) u [of env] by (auto simp: saved_def [symmetric] Let_def)
  next
    case (Some env1)
    then have "\<And>k. k \<noteq> key \<Longrightarrow> map_of env1 k = map_of env k" by (auto simp: Setenv_def split: if_splits)
    with u have u1: "undoes ?p env1 env0" by blast
    have "dom (map_of ?p) = insert key (dom (map_of previous))" by (auto simp: dom_def)
    then have "fst ` set rest \<inter> dom (map_of ?p) = {}" using "2.prems"(3,4) by simp
    with "2.IH" [OF saved_def refl Some] u1 "2.prems" Some show ?thesis by (simp add: saved_def [symmetric] Let_def del: map_of_update_eq)
  qed
qed simp

lemma restore_undoes:
  assumes "undoes previous env env0" "keys_distinct previous" "env_ok env0"
  shows "map_of (restore_envs previous env) = map_of env0"
  using assms
proof (induction previous env rule: restore_envs.induct)
  case (2 key saved rest env)
  let ?env = "if sv_existed saved then (case Setenv key (sv_value saved) env of None \<Rightarrow> env | Some env' \<Rightarrow> env') else Unsetenv key env"
  have v: "map_of env0 key = (if sv_existed saved then Some (sv_value saved) else None)"
    using "2.prems"(1) by (simp add: undoes_def)
  then have "sv_existed saved \<Longrightarrow> Setenv key (sv_value saved) env = Some (AList.update key (sv_value saved) env)"
    using "2.prems"(3) by (simp add: env_ok_def settable_def Setenv_def)
  then have e: "map_of ?env k = (if k = key then map_of env0 key else map_of env k)" for k
    using v by (simp add: Unsetenv_def)
  have "undoes rest ?env env0"
    unfolding undoes_def
  proof
    fix k
    from "2.prems"(1) have "map_of env0 k = (case map_of ((key, saved) # rest) k of
        Some s \<Rightarrow> if sv_existed s then Some (sv_value s) else None | None \<Rightarrow> map_of env k)" by (simp add: undoes_def)
    moreover have "map_of rest key = None" using "2.prems"(2) by (simp add: map_of_eq_None_iff)
    ultimately show "map_of env0 k = (case map_of rest k of Some s \<Rightarrow> if sv_existed s then Some (sv_value s) else None | None \<Rightarrow> map_of ?env k)"
      unfolding e by (cases "k = key") (auto split: option.splits)
  qed
  with "2.IH" "2.prems" show ?case by simp
qed (auto simp: undoes_def)

lemma set_envs_seen:
  assumes "keys_distinct envs" "set_envs envs previous env = (p, env', err)"
  shows "case err of
      None \<Rightarrow> (\<forall>(k, v) \<in> set envs. settable k v) \<and> map_of env' = map_of env ++ map_of envs
    | Some key \<Rightarrow> (\<exists>v. (key, v) \<in> set envs \<and> \<not> settable key v)"
  using assms
proof (induction envs previous env rule: set_envs.induct)
  case (2 key val rest previous env)
  show ?case
  proof (cases "settable key val")
    case True
    then have s: "Setenv key val env = Some (AList.update key val env)" by (simp add: Setenv_def settable_def)
    have "map_of (AList.update key val env) ++ map_of rest = map_of env ++ map_of ((key, val) # rest)"
      using "2.prems"(1) by (auto simp: map_add_def fun_eq_iff map_of_eq_None_iff image_iff split: option.splits)
    moreover obtain P where "set_envs rest P (AList.update key val env) = (p, env', err)"
      "case err of None \<Rightarrow> (\<forall>(k, v) \<in> set rest. settable k v) \<and> map_of env' = map_of (AList.update key val env) ++ map_of rest
        | Some key \<Rightarrow> (\<exists>v. (key, v) \<in> set rest \<and> \<not> settable key v)"
      using "2.IH" [OF refl refl s] "2.prems" s by (auto simp: Let_def)
    ultimately show ?thesis using True by (cases err) (simp_all only: option.case list.set ball_simps prod.case, auto)
  next
    case False
    then have "Setenv key val env = None" by (simp add: Setenv_def settable_def)
    with "2.prems" False show ?thesis by (auto simp: Let_def)
  qed
qed auto

lemma provider_env_restored:
  assumes "keys_distinct envs" "env_ok env"
  shows "map_of (snd (newScopedDNSProvider name envs factory env)) = map_of env"
proof -
  obtain p env' err where s: "set_envs envs [] env = (p, env', err)" by (cases "set_envs envs [] env") auto
  have "undoes p env' env \<and> keys_distinct p"
    by (rule set_envs_undoes [OF _ _ assms(1) _ s]) (simp_all add: undoes_def)
  with restore_undoes assms(2) s show ?thesis by (simp add: newScopedDNSProvider_def applyScopedEnv_def)
qed

text \<open>
  A DNS provider is built under its own credentials only, and the environment is put back: the provider sees the
  environment with the node's variables laid over it; afterwards, also when a variable is refused or the provider
  fails, every variable has the value it had.
\<close>

theorem newScopedDNSProvider_scoped:
  assumes "keys_distinct envs" "env_ok env" "newScopedDNSProvider name envs factory env = (r, env')"
  shows "map_of env' = map_of env
    \<and> (if \<forall>(k, v) \<in> set envs. settable k v
       then \<exists>seen. map_of seen = map_of env ++ map_of envs \<and> r = (case factory name seen of Inl e \<Rightarrow> FactoryError e | Inr p \<Rightarrow> Provided p)
       else \<exists>key v. (key, v) \<in> set envs \<and> \<not> settable key v \<and> r = SetFailed key)"
proof -
  obtain p env1 err where s: "set_envs envs [] env = (p, env1, err)" by (cases "set_envs envs [] env") auto
  have "map_of env' = map_of env" using provider_env_restored [OF assms(1,2), of name factory] assms(3) by simp
  moreover have r: "r = (case err of Some key \<Rightarrow> SetFailed key
      | None \<Rightarrow> (case factory name env1 of Inl e \<Rightarrow> FactoryError e | Inr p \<Rightarrow> Provided p))"
    using assms(3) s by (simp add: newScopedDNSProvider_def applyScopedEnv_def)
  ultimately show ?thesis using set_envs_seen [OF assms(1) s] by (cases err) auto
qed

theorem newScopedDNSProvider_scoped_witness:
  "\<exists>env'. newScopedDNSProvider ''cf'' [(''CF_TOKEN'', ''t'')] (\<lambda>_ env. case map_of env ''CF_TOKEN'' of None \<Rightarrow> Inl [] | Some t \<Rightarrow> Inr t)
       [(''CF_TOKEN'', ''old''), (''HOME'', ''/'')] = (Provided ''t'', env')
     \<and> map_of env' = map_of [(''CF_TOKEN'', ''old''), (''HOME'', ''/'')]"
proof -
  let ?f = "\<lambda>_ env. case map_of env ''CF_TOKEN'' of None \<Rightarrow> Inl [] | Some t \<Rightarrow> Inr t"
  let ?env = "[(''CF_TOKEN'', ''old''), (''HOME'', ''/'')]"
  obtain r env' where e: "newScopedDNSProvider ''cf'' [(''CF_TOKEN'', ''t'')] ?f ?env = (r, env')" by fastforce
  have s: "settable ''CF_TOKEN'' ''t''" and ok: "env_ok ?env" by (auto simp: settable_def env_name_def env_ok_def)
  have d: "keys_distinct [(''CF_TOKEN'', ''t'')]" by simp
  from newScopedDNSProvider_scoped [OF d ok e] s have "map_of env' = map_of ?env" "r = Provided ''t''" by auto
  with e show ?thesis by blast
qed

section \<open>How fast orders can fail\<close>

lemmas duration_defs = acmeRejectionBackoffBase_def acmeRejectionBackoffMax_def localFailureBackoffBase_def
  localFailureBackoffMax_def rateLimitDefaultPause_def rateLimitMaxPause_def clock_units

lemma backoff_loop_power:
  assumes "0 < delay"
  shows "min (backoff_loop maxDelay failures i delay) maxDelay = min (delay * 2 ^ (failures - i)) maxDelay"
  using assms
proof (induction maxDelay failures i delay rule: backoff_loop.induct)
  case (1 maxDelay failures i delay)
  consider (go) "i < failures" "delay < maxDelay" | (stop) "failures \<le> i" | (full) "i < failures" "maxDelay \<le> delay" by linarith
  then show ?case
  proof cases
    case go
    then have "delay * 2 * 2 ^ (failures - (i + 1)) = delay * 2 ^ (failures - i)"
      by (metis Suc_diff_Suc add.commute mult.assoc plus_1_eq_Suc power_Suc)
    moreover have "min (backoff_loop maxDelay failures (i + 1) (delay * 2)) maxDelay = min (delay * 2 * 2 ^ (failures - (i + 1))) maxDelay"
      using 1 go by simp
    ultimately show ?thesis using go by (simp only: backoff_loop.simps [of maxDelay failures i] if_True simp_thms)
  next
    case stop
    then show ?thesis by (simp add: backoff_loop.simps [of maxDelay failures i])
  next
    case full
    have "delay * 1 \<le> delay * 2 ^ (failures - i)" by (rule mult_left_mono) (use "1.prems" in simp_all)
    with full show ?thesis by (simp add: backoff_loop.simps [of maxDelay failures i])
  qed
qed

lemma doublingBackoff_power: "0 < base \<Longrightarrow> doublingBackoff base maxDelay n = min (base * 2 ^ (n - 1)) maxDelay"
  by (simp add: doublingBackoff_def backoff_loop_power)






text \<open>A run of calls of \<^const>\<open>placeCertOrder\<close>, each with its configuration and the outcome of the order itself.\<close>

type_synonym 'p placing = "'p order_call \<times> CertConfig \<times> string option"













definition demo_cert :: CertConfig where
  "demo_cert = \<lparr>CertMode = ''http'', RejectUnknownSni = False, CertDomain = ''a.b'', CertFile = ''/c'', KeyFile = ''/k'',
     CertProvider = [], Email = [], DNSEnv = []\<rparr>"

definition demo_preflight :: "unit preflight" where
  "demo_preflight = \<lparr>pf_MkdirAll = (\<lambda>_. None), pf_CreateTemp = (\<lambda>_. Inr ''t''), pf_Close = (\<lambda>_. None), pf_Remove = (\<lambda>_. None),
     pf_factory = (\<lambda>_ _. Inr ()), pf_Present = (\<lambda>_ _ _ _. None), pf_CleanUp = (\<lambda>_ _ _ _. None), pf_timedOut = False,
     pf_token = Inr ''t'', pf_listen = None, pf_release = None, pf_lookup = (\<lambda>_. Inr [''1.2.3.4''])\<rparr>"

definition demo_placing :: "int \<Rightarrow> unit placing" where
  "demo_placing t = (\<lparr>oc_mail = (\<lambda>_. None), oc_sha256 = (\<lambda>_. ''h''), oc_preflight = demo_preflight, oc_checked = t, oc_recorded = t\<rparr>,
     demo_cert, Some acmeProblemPrefix)"


section \<open>When an order is placed\<close>

lemma Run_env:
  assumes "keys_distinct (DNSEnv c)" "env_ok env"
  shows "map_of (snd (Run pf c env)) = map_of env"
  using provider_env_restored [OF assms, of "CertProvider c" "pf_factory pf"]
  by (auto simp: Run_def checkDNS_def case_prod_unfold Let_def split: option.splits)

lemma RecordFailure_pause:
  "\<exists>entry. map_of (RecordFailure key message now c) key = Some entry \<and> lastErr entry = message
     \<and> now + minute \<le> retryAt entry \<and> retryAt entry \<le> now + rateLimitMaxPause"
proof -
  have "minute \<le> rateLimitPause message now \<and> rateLimitPause message now \<le> rateLimitMaxPause"
    by (auto simp: rateLimitPause_def duration_defs min_def max_def split: option.splits)
  moreover have "minute \<le> doublingBackoff b d n \<and> doublingBackoff b d n \<le> rateLimitMaxPause"
    if "minute \<le> b" "minute \<le> d" "d \<le> rateLimitMaxPause" for b d n
  proof -
    have pos: "0 < b" using that by (simp add: duration_defs)
    then have "b * 1 \<le> b * 2 ^ (n - 1)" by (intro mult_left_mono) simp_all
    with that(1) have "minute \<le> b * 2 ^ (n - 1)" by linarith
    with that pos show ?thesis unfolding doublingBackoff_power [OF pos] by (meson min.bounded_iff min.cobounded2 order_trans)
  qed
  ultimately show ?thesis by (auto simp: RecordFailure_def Let_def acmeRejectionBackoffBase_def acmeRejectionBackoffMax_def
      localFailureBackoffBase_def localFailureBackoffMax_def) (simp_all add: duration_defs)
qed

text \<open>
  An order reaches the certificate authority exactly when its configuration is valid, no pause of the same order is
  running and the self-test passes. Only the order itself changes the cooldown: a failure pauses it for at least a
  minute and at most a week and is remembered, a success forgets it; other orders are untouched. The environment is
  put back in every case.
\<close>

theorem placeCertOrder_exact:
  assumes "keys_distinct (DNSEnv c)" "env_ok env" "placeCertOrder oc order c (cd, env) = (r, cd', env')"
  defines "key \<equiv> certOrderCooldownKey (oc_sha256 oc) c"
  shows "(r = Ordered \<or> (\<exists>e. r = OrderFailed e) \<longleftrightarrow>
       validateCertConfig oc c = None \<and> (\<forall>entry. map_of cd key = Some entry \<longrightarrow> retryAt entry \<le> oc_checked oc)
       \<and> fst (Run (oc_preflight oc) c env) = None)
    \<and> (r = Ordered \<longrightarrow> order c = None \<and> map_of cd' key = None)
    \<and> (\<forall>e. r = OrderFailed e \<longrightarrow> (\<exists>entry. map_of cd' key = Some entry \<and> lastErr entry = e
         \<and> oc_recorded oc + minute \<le> retryAt entry \<and> retryAt entry \<le> oc_recorded oc + rateLimitMaxPause))
    \<and> (r \<noteq> Ordered \<and> (\<forall>e. r \<noteq> OrderFailed e) \<longrightarrow> cd' = cd)
    \<and> (\<forall>k. k \<noteq> key \<longrightarrow> map_of cd' k = map_of cd k) \<and> map_of env' = map_of env"
proof (cases "validateCertConfig oc c = None \<and> Check key (oc_checked oc) cd = None")
  case False
  then show ?thesis using assms(3)
    by (cases "validateCertConfig oc c")
      (auto simp: placeCertOrder_def Let_def key_def Check_def not_less split: option.splits if_splits)
next
  case True
  then have v: "validateCertConfig oc c = None" and k: "Check key (oc_checked oc) cd = None" by auto
  obtain pe env1 where run: "Run (oc_preflight oc) c env = (pe, env1)" by fastforce
  have e: "map_of env1 = map_of env" using Run_env [OF assms(1,2), of "oc_preflight oc"] run by simp
  have chk: "\<forall>entry. map_of cd key = Some entry \<longrightarrow> retryAt entry \<le> oc_checked oc"
    using k by (auto simp: Check_def not_less split: if_splits)
  show ?thesis
  proof (cases pe)
    case (Some err)
    with assms(3) v k run e show ?thesis by (auto simp: placeCertOrder_def Let_def key_def)
  next
    case None
    show ?thesis
    proof (cases "order c")
      case (Some err)
      have "map_of cd' k' = map_of cd k'" if "k' \<noteq> key" for k'
        using assms(3) v k run None Some that by (auto simp: placeCertOrder_def Let_def key_def RecordFailure_def)
      with assms(3) v k run None Some e chk RecordFailure_pause [of key "redactDNSEnv err (DNSEnv c)" "oc_recorded oc" cd]
      show ?thesis by (auto simp: placeCertOrder_def Let_def key_def)
    qed (use assms(3) v k run None e chk in \<open>auto simp: placeCertOrder_def Let_def key_def RecordSuccess_def\<close>)
  qed
qed

theorem placeCertOrder_exact_witness:
  "\<exists>cd' env'. placeCertOrder (fst (demo_placing 0)) (\<lambda>_. Some acmeProblemPrefix) demo_cert ([], []) = (OrderFailed acmeProblemPrefix, cd', env')
     \<and> (\<exists>entry. map_of cd' ''http|a.b|h'' = Some entry \<and> minute \<le> retryAt entry)"
proof -
  obtain r cd' env' where p: "placeCertOrder (fst (demo_placing 0)) (\<lambda>_. Some acmeProblemPrefix) demo_cert ([], []) = (r, cd', env')"
    by (metis prod.exhaust)
  have "fst (placeCertOrder (fst (demo_placing 0)) (\<lambda>_. Some acmeProblemPrefix) demo_cert ([], [])) = OrderFailed acmeProblemPrefix"
    by code_simp
  with p have r: "r = OrderFailed acmeProblemPrefix" by simp
  have d: "keys_distinct (DNSEnv demo_cert)" and ok: "env_ok []" by (simp_all add: demo_cert_def env_ok_def)
  have key: "certOrderCooldownKey (oc_sha256 (fst (demo_placing 0))) demo_cert = ''http|a.b|h''"
    and t: "oc_recorded (fst (demo_placing 0)) = 0" by code_simp+
  from placeCertOrder_exact [OF d ok p] r key t show ?thesis using p by auto
qed

text \<open>The redaction depends on the order in which the variables are walked: a secret that contains another one is only
  masked in part when the shorter one is met first.\<close>

lemma redaction_leaks_rest:
  "redactDNSEnv ''bad key abcdefghSECRET'' [(''A'', ''abcdefgh''), (''B'', ''abcdefghSECRET'')] = ''bad key [REDACTED]SECRET''"
  by code_simp

end
