(* ===== verification/Https_Redirect.thy ===== *)
theory Https_Redirect
  imports Panel_Devices Panel_Fetch
begin

text \<open>
  The listener that sends visitors of port 443 to the public port of an ArtX node, \<^verbatim>\<open>src/node/https_redirect.go\<close>.
  One manager serves all nodes of the process; every operation below is one critical section of its lock, and the end
  of a server's goroutine is one more. A server is a number, given out by \<open>startLocked\<close>; a certificate is whatever
  \<^verbatim>\<open>tls.LoadX509KeyPair\<close> (the argument \<open>load\<close>) makes of the two files. \<open>listen\<close> is the error of \<^verbatim>\<open>netutil.ListenTCP\<close>.
\<close>

section \<open>State\<close>

record 'k httpsRedirectEntry =
  re_host :: string
  re_port :: int
  re_certificate :: 'k

record 'k httpsRedirectManager =
  rm_entries :: "(string, 'k httpsRedirectEntry) gomap"
  rm_blockers :: "(string, unit) gomap"
  rm_server :: "nat option"
  rm_listener :: "nat option"
  rm_started :: nat

datatype redirect_error =
  SharesPort | BadHost | NoCertFiles | LoadFailed string | HostTaken string int | ListenFailed string

definition newHTTPSRedirectManager :: "'k httpsRedirectManager" where
  "newHTTPSRedirectManager = \<lparr>rm_entries = [], rm_blockers = [], rm_server = None, rm_listener = None, rm_started = 0\<rparr>"

section \<open>Hosts and nodes\<close>

text \<open>\<^verbatim>\<open>net.ParseIP\<close> takes what \<^verbatim>\<open>netip.ParseAddr\<close> takes, but no zone.\<close>

definition parse_ip :: "string \<Rightarrow> bool" where
  "parse_ip s = (CHR ''%'' \<notin> set s \<and> parse_addr s \<noteq> None)"

definition normalizeRedirectHost :: "string \<Rightarrow> string option" where
  "normalizeRedirectHost val =
     (let host = trim_space val;
          host = (case split_host_port host of None \<Rightarrow> host | Some (parsedHost, _) \<Rightarrow> parsedHost);
          host = trim_suffix (to_lower (trim_space host)) ''.''
      in if host = [] \<or> list_ex (\<lambda>c. c \<in> set ''/?#@'') host then None
         else if CHR '':'' \<in> set host \<and> \<not> parse_ip host then None
         else Some host)"

definition hasHTTPSRedirectEndpoint :: "NodeInfo option \<Rightarrow> bool" where
  "hasHTTPSRedirectEndpoint nodeInfo =
     (case nodeInfo of
        None \<Rightarrow> False
      | Some n \<Rightarrow> ni_Type n = ''artx'' \<and>
          (case ni_ArtX n of
             None \<Rightarrow> False
           | Some x \<Rightarrow> trim_space (ax_PublicHost x) \<noteq> [] \<and> 1 \<le> ax_PublicPort x \<and> ax_PublicPort x \<le> 65535))"

definition blocksHTTPSRedirect :: "NodeInfo option \<Rightarrow> bool" where
  "blocksHTTPSRedirect nodeInfo =
     (case nodeInfo of
        None \<Rightarrow> False
      | Some n \<Rightarrow>
          (case ni_Common n of None \<Rightarrow> False | Some cn \<Rightarrow> cn_ServerPort cn = 443) \<or>
          ni_Type n = ''artx'' \<and> (case ni_ArtX n of None \<Rightarrow> False | Some x \<Rightarrow> ax_PublicPort x = 443))"

section \<open>Operations\<close>

definition stopLocked :: "'k httpsRedirectManager \<Rightarrow> 'k httpsRedirectManager" where
  "stopLocked m = (if rm_server m = None then m\<lparr>rm_listener := None\<rparr> else m\<lparr>rm_server := None, rm_listener := None\<rparr>)"

definition startLocked :: "string option \<Rightarrow> 'k httpsRedirectManager \<Rightarrow> redirect_error option \<times> 'k httpsRedirectManager" where
  "startLocked listen m =
     (case listen of
        Some err \<Rightarrow> (Some (ListenFailed err), m)
      | None \<Rightarrow> (None, m\<lparr>rm_server := Some (rm_started m), rm_listener := Some (rm_started m), rm_started := Suc (rm_started m)\<rparr>))"

text \<open>The end of the goroutine \<open>startLocked\<close> leaves behind.\<close>

definition serve_ended :: "nat \<Rightarrow> 'k httpsRedirectManager \<Rightarrow> 'k httpsRedirectManager" where
  "serve_ended server m = (if rm_server m = Some server then m\<lparr>rm_server := None, rm_listener := None\<rparr> else m)"

definition Redirect_Prepare :: "string \<Rightarrow> NodeInfo option \<Rightarrow> 'k httpsRedirectManager \<Rightarrow> 'k httpsRedirectManager" where
  "Redirect_Prepare tag nodeInfo m =
     (if blocksHTTPSRedirect nodeInfo
      then stopLocked (m\<lparr>rm_blockers := AList.update tag () (rm_blockers m), rm_entries := AList.delete tag (rm_entries m)\<rparr>)
      else m\<lparr>rm_blockers := AList.delete tag (rm_blockers m)\<rparr>)"

definition Redirect_Remove ::
  "string option \<Rightarrow> string \<Rightarrow> 'k httpsRedirectManager \<Rightarrow> redirect_error option \<times> 'k httpsRedirectManager" where
  "Redirect_Remove listen tag m =
     (let m = m\<lparr>rm_entries := AList.delete tag (rm_entries m), rm_blockers := AList.delete tag (rm_blockers m)\<rparr>
      in if rm_entries m = [] then (None, stopLocked m)
         else if rm_blockers m = [] \<and> rm_server m = None then startLocked listen m
         else (None, m))"

definition Redirect_Close :: "'k httpsRedirectManager \<Rightarrow> 'k httpsRedirectManager" where
  "Redirect_Close m = stopLocked (m\<lparr>rm_entries := [], rm_blockers := []\<rparr>)"

text \<open>Another node that already sends this host elsewhere.\<close>

definition host_conflict :: "string \<Rightarrow> string \<Rightarrow> int \<Rightarrow> 'k httpsRedirectManager \<Rightarrow> int option" where
  "host_conflict tag host port m =
     map_option (re_port \<circ> snd)
       (find (\<lambda>(existingTag, entry). existingTag \<noteq> tag \<and> re_host entry = host \<and> re_port entry \<noteq> port) (rm_entries m))"

definition Redirect_Upsert ::
  "(string \<Rightarrow> string \<Rightarrow> string + 'k) \<Rightarrow> string option \<Rightarrow> string \<Rightarrow> NodeInfo option \<Rightarrow> CertConfig option
     \<Rightarrow> 'k httpsRedirectManager \<Rightarrow> redirect_error option \<times> 'k httpsRedirectManager" where
  "Redirect_Upsert load listen tag nodeInfo certConfig m =
     (if blocksHTTPSRedirect nodeInfo then
        (if hasHTTPSRedirectEndpoint nodeInfo \<and> ax_PublicPort (the (ni_ArtX (the nodeInfo))) \<noteq> 443 then Some SharesPort else None,
         Redirect_Prepare tag nodeInfo m)
      else if \<not> hasHTTPSRedirectEndpoint nodeInfo then Redirect_Remove listen tag m
      else
        let artx = the (ni_ArtX (the nodeInfo)) in
        case normalizeRedirectHost (ax_PublicHost artx) of
          None \<Rightarrow> (Some BadHost, m)
        | Some host \<Rightarrow>
            (case certConfig of
               None \<Rightarrow> (Some NoCertFiles, m)
             | Some cc \<Rightarrow>
                 if CertFile cc = [] \<or> KeyFile cc = [] then (Some NoCertFiles, m)
                 else case load (CertFile cc) (KeyFile cc) of
                   Inl err \<Rightarrow> (Some (LoadFailed err), m)
                 | Inr certificate \<Rightarrow>
                     (case host_conflict tag host (ax_PublicPort artx) m of
                        Some port \<Rightarrow> (Some (HostTaken host port), m)
                      | None \<Rightarrow>
                          (let m = m\<lparr>rm_blockers := AList.delete tag (rm_blockers m),
                                     rm_entries := AList.update tag
                                       \<lparr>re_host = host, re_port = ax_PublicPort artx, re_certificate = certificate\<rparr> (rm_entries m)\<rparr>
                           in if rm_blockers m \<noteq> [] \<or> rm_server m \<noteq> None then (None, m) else startLocked listen m))))"

section \<open>Serving\<close>

definition entryForHost :: "string \<Rightarrow> 'k httpsRedirectManager \<Rightarrow> 'k httpsRedirectEntry option" where
  "entryForHost host m = map_option snd (find (\<lambda>(_, entry). re_host entry = host) (rm_entries m))"

definition getCertificate :: "string \<Rightarrow> 'k httpsRedirectManager \<Rightarrow> 'k option" where
  "getCertificate serverName m =
     Option.bind (normalizeRedirectHost serverName) (\<lambda>host. map_option re_certificate (entryForHost host m))"

definition join_host_port :: "string \<Rightarrow> string \<Rightarrow> string" where
  "join_host_port host port = (if CHR '':'' \<in> set host then ''['' @ host @ '']:'' @ port else host @ '':'' @ port)"

datatype redirect_reply = MisdirectedRequest | MovedPermanently string

record redirect_request =
  rq_Host :: string
  rq_ServerName :: "string option"
  rq_RequestURI :: string

definition ServeHTTP :: "redirect_request \<Rightarrow> 'k httpsRedirectManager \<Rightarrow> redirect_reply" where
  "ServeHTTP request m =
     (case normalizeRedirectHost (rq_Host request) of
        None \<Rightarrow> MisdirectedRequest
      | Some host \<Rightarrow>
          (case rq_ServerName request of
             None \<Rightarrow> MisdirectedRequest
           | Some sni \<Rightarrow>
               if normalizeRedirectHost sni \<noteq> Some host then MisdirectedRequest
               else (case entryForHost host m of
                       None \<Rightarrow> MisdirectedRequest
                     | Some entry \<Rightarrow>
                         MovedPermanently (''https://'' @ join_host_port (re_host entry) (itoa (re_port entry))
                           @ rq_RequestURI request))))"

section \<open>Every state the manager can be in\<close>

datatype 'k redirect_op =
    RPrepare string "NodeInfo option"
  | RUpsert "string \<Rightarrow> string \<Rightarrow> string + 'k" "string option" string "NodeInfo option" "CertConfig option"
  | RRemove "string option" string
  | RClose
  | RServeEnded nat

definition redirect_start :: "'k httpsRedirectManager \<Rightarrow> bool" where
  "redirect_start m \<longleftrightarrow> m = newHTTPSRedirectManager"

inductive redirect_step :: "'k httpsRedirectManager \<Rightarrow> 'k redirect_op \<Rightarrow> 'k httpsRedirectManager \<Rightarrow> bool" where
  step_prepare: "redirect_step m (RPrepare tag ni) (Redirect_Prepare tag ni m)"
| step_upsert: "redirect_step m (RUpsert load listen tag ni cc) (snd (Redirect_Upsert load listen tag ni cc m))"
| step_remove: "redirect_step m (RRemove listen tag) (snd (Redirect_Remove listen tag m))"
| step_close: "redirect_step m RClose (Redirect_Close m)"
| step_served: "redirect_step m (RServeEnded k) (serve_ended k m)"

text \<open>A redirect names a real port other than the one it is served on, and one host has one target.\<close>

definition entry_ok :: "'k httpsRedirectEntry \<Rightarrow> bool" where
  "entry_ok e \<longleftrightarrow> re_host e \<noteq> [] \<and> 1 \<le> re_port e \<and> re_port e \<le> 65535 \<and> re_port e \<noteq> 443"

definition one_target :: "(string, 'k httpsRedirectEntry) gomap \<Rightarrow> bool" where
  "one_target es \<longleftrightarrow> (\<forall>d \<in> snd ` set es. \<forall>e \<in> snd ` set es. re_host d = re_host e \<longrightarrow> re_port d = re_port e)"

definition table_ok :: "(string, 'k httpsRedirectEntry) gomap \<Rightarrow> bool" where
  "table_ok es \<longleftrightarrow> keys_distinct es \<and> list_all (entry_ok \<circ> snd) es \<and> one_target es"

definition redirect_inv :: "'k httpsRedirectManager \<Rightarrow> bool" where
  "redirect_inv m \<longleftrightarrow>
     table_ok (rm_entries m) \<and> fst ` set (rm_blockers m) \<inter> fst ` set (rm_entries m) = {} \<and>
     rm_listener m = rm_server m \<and>
     (rm_server m \<noteq> None \<longrightarrow> rm_blockers m = [] \<and> rm_entries m \<noteq> [])"

lemma stopLocked_simps [simp]:
  "rm_entries (stopLocked m) = rm_entries m" "rm_blockers (stopLocked m) = rm_blockers m"
  "rm_server (stopLocked m) = None" "rm_listener (stopLocked m) = None"
  by (simp_all add: stopLocked_def)

lemma startLocked_inv:
  "redirect_inv m \<Longrightarrow> rm_blockers m = [] \<Longrightarrow> rm_entries m \<noteq> [] \<Longrightarrow> redirect_inv (snd (startLocked listen m))"
  by (cases listen) (simp_all add: startLocked_def redirect_inv_def)

lemma set_delete_sub: "set (AList.delete k m) \<subseteq> set m"
  by (auto simp: AList.delete_eq)

lemma keys_delete: "fst ` set (AList.delete k m) = fst ` set m - {k}"
  by (auto simp: AList.delete_eq image_iff)

lemma table_ok_delete: "table_ok es \<Longrightarrow> table_ok (AList.delete t es)"
  using set_delete_sub [of t es] unfolding table_ok_def list_all_iff one_target_def by (auto simp: distinct_delete)

lemma Redirect_Prepare_inv:
  assumes "redirect_inv m"
  shows "redirect_inv (Redirect_Prepare tag ni m)"
proof (cases "blocksHTTPSRedirect ni")
  case True
  have "table_ok (AList.delete tag (rm_entries m))" using assms by (simp add: redirect_inv_def table_ok_delete)
  moreover have "fst ` set (AList.update tag () (rm_blockers m)) \<inter> fst ` set (AList.delete tag (rm_entries m)) = {}"
    using assms by (auto simp: redirect_inv_def dom_update keys_delete)
  ultimately show ?thesis using True by (simp add: Redirect_Prepare_def redirect_inv_def)
next
  case False
  have "fst ` set (AList.delete tag (rm_blockers m)) \<inter> fst ` set (rm_entries m) = {}"
    using assms set_delete_sub [of tag "rm_blockers m"] unfolding redirect_inv_def by blast
  then show ?thesis using False assms by (auto simp: Redirect_Prepare_def redirect_inv_def)
qed

lemma Redirect_Remove_inv:
  assumes "redirect_inv m"
  shows "redirect_inv (snd (Redirect_Remove listen tag m))"
proof -
  let ?m = "m\<lparr>rm_entries := AList.delete tag (rm_entries m), rm_blockers := AList.delete tag (rm_blockers m)\<rparr>"
  have tab: "table_ok (rm_entries ?m)" using assms by (simp add: redirect_inv_def table_ok_delete)
  have dis: "fst ` set (rm_blockers ?m) \<inter> fst ` set (rm_entries ?m) = {}"
    using assms set_delete_sub [of tag "rm_blockers m"] set_delete_sub [of tag "rm_entries m"]
    unfolding redirect_inv_def by auto
  show ?thesis
  proof (cases "rm_entries ?m = []")
    case True
    then show ?thesis using tab by (simp add: Redirect_Remove_def Let_def redirect_inv_def)
  next
    case False
    then have inv: "redirect_inv ?m" using assms tab dis by (auto simp: redirect_inv_def)
    show ?thesis
    proof (cases "rm_blockers ?m = [] \<and> rm_server ?m = None")
      case True
      then have "Redirect_Remove listen tag m = startLocked listen ?m"
        using False by (simp add: Redirect_Remove_def Let_def)
      then show ?thesis using startLocked_inv [OF inv] True False by simp
    next
      case blocked: False
      then have "Redirect_Remove listen tag m = (None, ?m)"
        using False by (auto simp: Redirect_Remove_def Let_def)
      then show ?thesis using inv by simp
    qed
  qed
qed

text \<open>Storing an entry that no other node's entry contradicts.\<close>

lemma table_ok_agree:
  assumes "table_ok es" "(t, d) \<in> set es" "(u, e) \<in> set es" "re_host d = re_host e"
  shows "re_port d = re_port e"
proof -
  have "d \<in> snd ` set es" "e \<in> snd ` set es" using assms(2,3) by (metis image_eqI snd_conv)+
  moreover have "one_target es" using assms(1) by (simp add: table_ok_def)
  ultimately show ?thesis using assms(4) unfolding one_target_def by blast
qed

lemma table_ok_update:
  assumes "table_ok es" "entry_ok e"
    "\<And>t d. (t, d) \<in> set es \<Longrightarrow> t \<noteq> tag \<Longrightarrow> re_host d = re_host e \<Longrightarrow> re_port d = re_port e"
  shows "table_ok (AList.update tag e es)"
proof -
  have kd: "keys_distinct es" using assms(1) by (simp add: table_ok_def)
  have mem: "d = e \<or> (\<exists>t. t \<noteq> tag \<and> (t, d) \<in> set es)" if d: "d \<in> snd ` set (AList.update tag e es)" for d
  proof -
    obtain t where "(t, d) \<in> set (AList.update tag e es)" using d by force
    then have "map_of (AList.update tag e es) t = Some d" by (simp only: map_of_in_set_iff [OF keys_distinct_update [OF kd]])
    then show ?thesis using map_of_in_set_iff [OF kd, of t d] by (cases "t = tag") auto
  qed
  have "entry_ok d" if "d \<in> snd ` set (AList.update tag e es)" for d
    using mem [OF that] assms(1,2) by (fastforce simp: table_ok_def list_all_iff)
  moreover have "re_port d = re_port d'"
    if "d \<in> snd ` set (AList.update tag e es)" "d' \<in> snd ` set (AList.update tag e es)" "re_host d = re_host d'" for d d'
  proof -
    from mem [OF that(1)] mem [OF that(2)] consider "d = e" "d' = e" | t where "d = e" "t \<noteq> tag" "(t, d') \<in> set es"
      | t where "d' = e" "t \<noteq> tag" "(t, d) \<in> set es" | t u where "(t, d) \<in> set es" "(u, d') \<in> set es" by blast
    then show ?thesis
    proof cases
      case (2 t)
      then show ?thesis using assms(3) [of t d'] that(3) by simp
    next
      case (3 t)
      then show ?thesis using assms(3) [of t d] that(3) by simp
    next
      case (4 t u)
      then show ?thesis using table_ok_agree [OF assms(1) _ _ that(3)] by blast
    qed simp
  qed
  then have "one_target (AList.update tag e es)" unfolding one_target_def by blast
  ultimately show ?thesis using kd by (simp add: table_ok_def list_all_iff distinct_update)
qed

lemma update_nonempty [simp]: "AList.update k v m \<noteq> []"
  by (cases m) (auto split: prod.splits)

lemma store_entry_inv:
  assumes "redirect_inv m" "entry_ok e" "host_conflict tag (re_host e) (re_port e) m = None"
  shows "redirect_inv (m\<lparr>rm_blockers := AList.delete tag (rm_blockers m), rm_entries := AList.update tag e (rm_entries m)\<rparr>)"
proof -
  have "table_ok (AList.update tag e (rm_entries m))"
    using assms(1,3) by (intro table_ok_update assms(2)) (auto simp: redirect_inv_def host_conflict_def find_None_iff)
  moreover have "fst ` set (AList.delete tag (rm_blockers m)) \<inter> fst ` set (AList.update tag e (rm_entries m)) = {}"
    using assms(1) by (auto simp: redirect_inv_def dom_update keys_delete)
  ultimately show ?thesis using assms(1) by (auto simp: redirect_inv_def)
qed

lemma normalized_host_nonempty: "normalizeRedirectHost v = Some h \<Longrightarrow> h \<noteq> []"
  by (auto simp: normalizeRedirectHost_def Let_def split: if_splits)

lemma endpoint_entry_ok:
  assumes "\<not> blocksHTTPSRedirect ni" "hasHTTPSRedirectEndpoint ni" "normalizeRedirectHost v = Some h"
  shows "entry_ok \<lparr>re_host = h, re_port = ax_PublicPort (the (ni_ArtX (the ni))), re_certificate = k\<rparr>"
  using assms normalized_host_nonempty [OF assms(3)]
  by (auto simp: entry_ok_def blocksHTTPSRedirect_def hasHTTPSRedirectEndpoint_def split: option.splits)

lemma Redirect_Upsert_inv:
  assumes "redirect_inv m"
  shows "redirect_inv (snd (Redirect_Upsert load listen tag ni cc m))"
proof (cases "blocksHTTPSRedirect ni \<or> \<not> hasHTTPSRedirectEndpoint ni")
  case True
  then show ?thesis
    using Redirect_Prepare_inv [OF assms] Redirect_Remove_inv [OF assms] by (auto simp: Redirect_Upsert_def)
next
  case False
  let ?x = "the (ni_ArtX (the ni))"
  show ?thesis
  proof (cases "\<exists>h c k. normalizeRedirectHost (ax_PublicHost ?x) = Some h \<and> cc = Some c \<and> CertFile c \<noteq> [] \<and> KeyFile c \<noteq> []
      \<and> load (CertFile c) (KeyFile c) = Inr k \<and> host_conflict tag h (ax_PublicPort ?x) m = None")
    case None: False
    then have "snd (Redirect_Upsert load listen tag ni cc m) = m"
      using False by (auto simp: Redirect_Upsert_def Let_def split: option.split sum.split)
    then show ?thesis using assms by simp
  next
    case True
    then obtain h c k where ok: "normalizeRedirectHost (ax_PublicHost ?x) = Some h" "cc = Some c" "CertFile c \<noteq> []"
      "KeyFile c \<noteq> []" "load (CertFile c) (KeyFile c) = Inr k" "host_conflict tag h (ax_PublicPort ?x) m = None" by blast
    let ?e = "\<lparr>re_host = h, re_port = ax_PublicPort ?x, re_certificate = k\<rparr>"
    let ?m = "m\<lparr>rm_blockers := AList.delete tag (rm_blockers m), rm_entries := AList.update tag ?e (rm_entries m)\<rparr>"
    have inv: "redirect_inv ?m"
      using store_entry_inv [OF assms, of ?e tag] endpoint_entry_ok [of ni _ h k] False ok by auto
    show ?thesis
    proof (cases "rm_blockers ?m \<noteq> [] \<or> rm_server ?m \<noteq> None")
      case True
      then have "Redirect_Upsert load listen tag ni cc m = (None, ?m)"
        using False ok by (simp add: Redirect_Upsert_def Let_def)
      then show ?thesis using inv by simp
    next
      case free: False
      then have "Redirect_Upsert load listen tag ni cc m = startLocked listen ?m"
        using False ok by (simp add: Redirect_Upsert_def Let_def)
      then show ?thesis using startLocked_inv [OF inv, of listen] free by simp
    qed
  qed
qed

lemma redirect_step_inv: "redirect_step m op m' \<Longrightarrow> redirect_inv m \<Longrightarrow> redirect_inv m'"
proof (induction rule: redirect_step.induct)
  case (step_close m)
  show ?case by (simp add: Redirect_Close_def redirect_inv_def table_ok_def one_target_def)
next
  case (step_served m k)
  then show ?case by (simp add: serve_ended_def redirect_inv_def)
qed (simp_all add: Redirect_Prepare_inv Redirect_Upsert_inv Redirect_Remove_inv)

interpretation redirect: component redirect_start redirect_step redirect_inv
proof unfold_locales
  show "redirect_inv m" if "redirect_start m" for m :: "'a httpsRedirectManager"
    using that by (simp add: redirect_start_def redirect_inv_def newHTTPSRedirectManager_def table_ok_def one_target_def)
qed (rule redirect_step_inv)

section \<open>What a visitor gets\<close>

lemma entryForHost_in: "entryForHost host m = Some e \<Longrightarrow> e \<in> snd ` set (rm_entries m) \<and> re_host e = host"
  by (force simp: entryForHost_def find_Some_iff in_set_conv_nth)

text \<open>
  C38. In every state the redirect manager can be brought to, by nodes coming and going, failing listeners and dying
  servers: the listener on 443 runs only while no node needs that port and some node has a redirect; a visitor who is
  redirected asked for a host a node has registered, named the same host in his TLS handshake, and is sent to the one
  port every node with that host agrees on, a valid port that is not 443, so the redirect cannot lead back to itself.
\<close>

theorem redirect_leads_away:
  assumes "reachable redirect_start redirect_step m"
  shows "(rm_server m \<noteq> None \<longrightarrow> rm_blockers m = [] \<and> rm_entries m \<noteq> []) \<and>
    (\<forall>l. ServeHTTP r m = MovedPermanently l \<longrightarrow>
       (\<exists>host port. normalizeRedirectHost (rq_Host r) = Some host \<and>
          Option.bind (rq_ServerName r) normalizeRedirectHost = Some host \<and>
          1 \<le> port \<and> port \<le> 65535 \<and> port \<noteq> 443 \<and>
          l = ''https://'' @ join_host_port host (itoa port) @ rq_RequestURI r \<and>
          (\<exists>tag e. map_of (rm_entries m) tag = Some e \<and> re_host e = host) \<and>
          (\<forall>tag e. map_of (rm_entries m) tag = Some e \<longrightarrow> re_host e = host \<longrightarrow> re_port e = port)))"
proof -
  have inv: "redirect_inv m" using redirect.reachable_inv [OF assms] .
  then have tab: "table_ok (rm_entries m)" by (simp add: redirect_inv_def)
  then have kd: "keys_distinct (rm_entries m)" by (simp add: table_ok_def)
  have "\<exists>host port. normalizeRedirectHost (rq_Host r) = Some host \<and>
          Option.bind (rq_ServerName r) normalizeRedirectHost = Some host \<and>
          1 \<le> port \<and> port \<le> 65535 \<and> port \<noteq> 443 \<and>
          l = ''https://'' @ join_host_port host (itoa port) @ rq_RequestURI r \<and>
          (\<exists>tag e. map_of (rm_entries m) tag = Some e \<and> re_host e = host) \<and>
          (\<forall>tag e. map_of (rm_entries m) tag = Some e \<longrightarrow> re_host e = host \<longrightarrow> re_port e = port)"
    if moved: "ServeHTTP r m = MovedPermanently l" for l
  proof -
    obtain host sni e where e: "normalizeRedirectHost (rq_Host r) = Some host" "rq_ServerName r = Some sni"
        "normalizeRedirectHost sni = Some host" "entryForHost host m = Some e"
        "l = ''https://'' @ join_host_port (re_host e) (itoa (re_port e)) @ rq_RequestURI r"
      using moved by (auto simp: ServeHTTP_def split: option.splits if_splits)
    note h = entryForHost_in [OF e(4)]
    obtain tag where tag: "(tag, e) \<in> set (rm_entries m)" using h by force
    have ok: "entry_ok e" using tab h by (auto simp: table_ok_def list_all_iff)
    have all: "re_port d = re_port e" if "map_of (rm_entries m) t = Some d" "re_host d = host" for t d
      using table_ok_agree [OF tab map_of_SomeD [OF that(1)] tag] h that(2) by simp
    have mine: "map_of (rm_entries m) tag = Some e" using tag map_of_in_set_iff [OF kd] by simp
    have sni: "Option.bind (rq_ServerName r) normalizeRedirectHost = Some host" using e(2,3) by simp
    have loc: "l = ''https://'' @ join_host_port host (itoa (re_port e)) @ rq_RequestURI r" using e(5) h by simp
    have ports: "1 \<le> re_port e \<and> re_port e \<le> 65535 \<and> re_port e \<noteq> 443" using ok by (simp add: entry_ok_def)
    show ?thesis using e(1) sni ports loc mine h all by blast
  qed
  then show ?thesis using inv unfolding redirect_inv_def by blast
qed

definition ex_artx :: "string \<Rightarrow> int \<Rightarrow> int \<Rightarrow> NodeInfo" where
  "ex_artx host port server_port = (new_node 1 ''artx'')\<lparr>
     ni_ArtX := Some (ArtXNode_zero\<lparr>ax_PublicHost := host, ax_PublicPort := port\<rparr>),
     ni_Common := Some (CommonNode_zero\<lparr>cn_ServerPort := server_port\<rparr>)\<rparr>"

definition ex_files :: CertConfig where
  "ex_files = \<lparr>CertMode = ''file'', RejectUnknownSni = False, CertDomain = [], CertFile = ''c'', KeyFile = ''k'',
     CertProvider = [], Email = [], DNSEnv = []\<rparr>"

definition ex_redirect :: "unit httpsRedirectManager" where
  "ex_redirect = snd (Redirect_Upsert (\<lambda>_ _. Inr ()) None ''n'' (Some (ex_artx ''A.b.'' 8 8)) (Some ex_files)
     newHTTPSRedirectManager)"

lemma ex_redirect_reachable: "reachable redirect_start redirect_step ex_redirect"
proof -
  have "reachable redirect_start redirect_step (newHTTPSRedirectManager :: unit httpsRedirectManager)"
    by (rule reach_start) (simp add: redirect_start_def)
  then show ?thesis unfolding ex_redirect_def by (rule reach_step) (rule step_upsert)
qed

theorem redirect_leads_away_witness:
  "ServeHTTP \<lparr>rq_Host = ''a.b:443'', rq_ServerName = Some ''a.b'', rq_RequestURI = ''/x''\<rparr> ex_redirect =
     MovedPermanently ''https://a.b:8/x'' \<and>
   rm_server ex_redirect = Some 0 \<and> rm_blockers ex_redirect = []"
proof -
  have served: "ServeHTTP \<lparr>rq_Host = ''a.b:443'', rq_ServerName = Some ''a.b'', rq_RequestURI = ''/x''\<rparr> ex_redirect =
     MovedPermanently ''https://a.b:8/x''" "rm_server ex_redirect = Some 0" by code_simp+
  then show ?thesis using redirect_leads_away [OF ex_redirect_reachable] by auto
qed

text \<open>
  A node that gives up port 443 but has no certificate files leaves the redirects of the other nodes down: preparing
  it removes the blocker without starting the listener, and the failing update does not come to the point where it
  would be started.
\<close>

lemma redirect_left_down:
  fixes m :: "unit httpsRedirectManager"
  defines "m \<equiv> Redirect_Prepare ''b'' (Some (ex_artx ''c.d'' 443 443)) ex_redirect"
  shows "fst (Redirect_Upsert (\<lambda>_ _. Inr ()) None ''b'' (Some (ex_artx ''c.d'' 8 8)) None
      (Redirect_Prepare ''b'' (Some (ex_artx ''c.d'' 8 8)) m)) = Some NoCertFiles"
    and "rm_server (snd (Redirect_Upsert (\<lambda>_ _. Inr ()) None ''b'' (Some (ex_artx ''c.d'' 8 8)) None
      (Redirect_Prepare ''b'' (Some (ex_artx ''c.d'' 8 8)) m))) = None"
    and "rm_blockers (snd (Redirect_Upsert (\<lambda>_ _. Inr ()) None ''b'' (Some (ex_artx ''c.d'' 8 8)) None
      (Redirect_Prepare ''b'' (Some (ex_artx ''c.d'' 8 8)) m))) = []"
  unfolding m_def by code_simp+

end
