(* ===== verification/Task.thy ===== *)
theory Task
  imports Clock
begin

text \<open>
  The periodic task of \<^verbatim>\<open>src/common/task/task.go\<close>, which drives every poll and report of a node. \<^verbatim>\<open>Start\<close> makes a
  stop channel and a goroutine that runs the callback at every interval; \<^verbatim>\<open>Close\<close> closes the channel. The callback
  itself may close and restart the task, so goroutines of earlier runs can still be at work beside the current one.

  A channel is a number in the order the task made them; closing a closed channel panics in Go, which is recorded. A
  goroutine is a \<open>run\<close> with what it captured and the point it is at; one rule of \<open>task_step\<close> is what happens between
  two points at which another goroutine can come in.
\<close>

section \<open>The task and its operations\<close>

record Task =
  tk_Interval :: int
  tk_running :: bool
  tk_stop :: "nat option"
  tk_made :: nat

datatype phase = Waiting | Ticked | Executing | Finished

record run =
  rn_stop :: nat
  rn_interval :: int
  rn_delay :: int
  rn_phase :: phase

definition new_Task :: "int \<Rightarrow> Task" where
  "new_Task interval = \<lparr>tk_Interval = interval, tk_running = False, tk_stop = None, tk_made = 0\<rparr>"

definition Task_Start :: "bool \<Rightarrow> Task \<Rightarrow> Task \<times> run option" where
  "Task_Start first t =
     (if tk_running t then (t, None)
      else (t\<lparr>tk_running := True, tk_stop := Some (tk_made t), tk_made := Suc (tk_made t)\<rparr>,
            Some \<lparr>rn_stop = tk_made t, rn_interval = tk_Interval t,
                  rn_delay = (if first then 0 else tk_Interval t), rn_phase = Waiting\<rparr>))"

text \<open>Besides the task, the channel that is closed.\<close>

definition Task_Close :: "Task \<Rightarrow> Task \<times> nat option" where
  "Task_Close t = (if tk_running t then (t\<lparr>tk_running := False\<rparr>, tk_stop t) else (t, None))"

text \<open>The deferred function of a run that returns.\<close>

definition run_exit :: "nat \<Rightarrow> Task \<Rightarrow> Task \<times> nat option" where
  "run_exit stop t =
     (if tk_running t \<and> tk_stop t = Some stop then (t\<lparr>tk_running := False\<rparr>, Some stop) else (t, None))"

section \<open>Tasks at work\<close>

record task_state =
  ts_task :: Task
  ts_runs :: "run list"
  ts_closed :: "nat list"
  ts_panic :: bool

definition close_chan :: "nat option \<Rightarrow> task_state \<Rightarrow> task_state" where
  "close_chan c s =
     (case c of
        None \<Rightarrow> s
      | Some ch \<Rightarrow> if ch \<in> set (ts_closed s) then s\<lparr>ts_panic := True\<rparr> else s\<lparr>ts_closed := ch # ts_closed s\<rparr>)"

definition set_phase :: "nat \<Rightarrow> phase \<Rightarrow> task_state \<Rightarrow> task_state" where
  "set_phase i p s = s\<lparr>ts_runs := (ts_runs s)[i := (ts_runs s ! i)\<lparr>rn_phase := p\<rparr>]\<rparr>"

definition do_start :: "bool \<Rightarrow> task_state \<Rightarrow> task_state" where
  "do_start first s =
     (case Task_Start first (ts_task s) of
        (t, r) \<Rightarrow> s\<lparr>ts_task := t, ts_runs := ts_runs s @ (case r of None \<Rightarrow> [] | Some r \<Rightarrow> [r])\<rparr>)"

definition do_close :: "task_state \<Rightarrow> task_state" where
  "do_close s = (case Task_Close (ts_task s) of (t, c) \<Rightarrow> close_chan c (s\<lparr>ts_task := t\<rparr>))"

definition do_return :: "nat \<Rightarrow> task_state \<Rightarrow> task_state" where
  "do_return i s =
     (case run_exit (rn_stop (ts_runs s ! i)) (ts_task s) of
        (t, c) \<Rightarrow> close_chan c (set_phase i Finished (s\<lparr>ts_task := t\<rparr>)))"

datatype task_event =
    EvStart bool | EvClose | EvInterval int
  | EvTimer nat | EvStopSeen nat | EvGiveUp nat | EvExecute nat | EvExecuted nat bool

definition at_phase :: "nat \<Rightarrow> phase \<Rightarrow> task_state \<Rightarrow> bool" where
  "at_phase i p s \<longleftrightarrow> i < length (ts_runs s) \<and> rn_phase (ts_runs s ! i) = p"

definition stop_closed :: "nat \<Rightarrow> task_state \<Rightarrow> bool" where
  "stop_closed i s \<longleftrightarrow> rn_stop (ts_runs s ! i) \<in> set (ts_closed s)"

inductive task_step :: "task_state \<Rightarrow> task_event \<Rightarrow> task_state \<Rightarrow> bool" where
  ts_start: "task_step s (EvStart first) (do_start first s)"
| ts_close: "task_step s EvClose (do_close s)"
| ts_interval: "task_step s (EvInterval d) (s\<lparr>ts_task := (ts_task s)\<lparr>tk_Interval := d\<rparr>\<rparr>)"
| ts_timer: "at_phase i Waiting s \<Longrightarrow> task_step s (EvTimer i) (set_phase i Ticked s)"
| ts_stop_seen: "at_phase i Waiting s \<Longrightarrow> stop_closed i s \<Longrightarrow> task_step s (EvStopSeen i) (do_return i s)"
| ts_give_up: "at_phase i Ticked s \<Longrightarrow> stop_closed i s \<Longrightarrow> task_step s (EvGiveUp i) (do_return i s)"
| ts_execute: "at_phase i Ticked s \<Longrightarrow> \<not> stop_closed i s \<Longrightarrow> task_step s (EvExecute i) (set_phase i Executing s)"
| ts_executed: "at_phase i Executing s \<Longrightarrow> task_step s (EvExecuted i True) (set_phase i Waiting s)"
| ts_failed: "at_phase i Executing s \<Longrightarrow> task_step s (EvExecuted i False) (do_return i s)"

inductive_simps execute_iff: "task_step s (EvExecute i) s'"

definition task_start :: "task_state \<Rightarrow> bool" where
  "task_start s \<longleftrightarrow> (\<exists>d. ts_task s = new_Task d) \<and> ts_runs s = [] \<and> ts_closed s = [] \<and> \<not> ts_panic s"

section \<open>One run at a time\<close>

text \<open>
  Runs and channels are made together, so a run has the number of its channel. All channels but that of the current
  run are closed, and a run that has returned has a closed channel.
\<close>

definition task_inv :: "task_state \<Rightarrow> bool" where
  "task_inv s \<longleftrightarrow>
     \<not> ts_panic s \<and> length (ts_runs s) = tk_made (ts_task s) \<and>
     (\<forall>i < length (ts_runs s). rn_stop (ts_runs s ! i) = i) \<and>
     (\<forall>i < length (ts_runs s). rn_phase (ts_runs s ! i) = Finished \<longrightarrow> i \<in> set (ts_closed s)) \<and>
     (if tk_running (ts_task s)
      then ts_runs s \<noteq> [] \<and> tk_stop (ts_task s) = Some (length (ts_runs s) - 1) \<and>
           set (ts_closed s) = {..<length (ts_runs s) - 1}
      else set (ts_closed s) = {..<length (ts_runs s)})"

lemma set_phase_simps [simp]:
  "ts_task (set_phase i p s) = ts_task s" "ts_closed (set_phase i p s) = ts_closed s"
  "ts_panic (set_phase i p s) = ts_panic s" "length (ts_runs (set_phase i p s)) = length (ts_runs s)"
  "ts_runs (set_phase i p s) = [] \<longleftrightarrow> ts_runs s = []"
  by (simp_all add: set_phase_def)

lemma set_phase_run:
  "j < length (ts_runs s) \<Longrightarrow>
     ts_runs (set_phase i p s) ! j = (if j = i then (ts_runs s ! i)\<lparr>rn_phase := p\<rparr> else ts_runs s ! j)"
  by (simp add: set_phase_def)

lemma set_phase_inv:
  "task_inv s \<Longrightarrow> p \<noteq> Finished \<or> i \<in> set (ts_closed s) \<Longrightarrow> task_inv (set_phase i p s)"
  by (auto simp: task_inv_def set_phase_run split: if_splits)

lemma do_start_inv:
  assumes "task_inv s"
  shows "task_inv (do_start first s)"
proof (cases "tk_running (ts_task s)")
  case True
  then show ?thesis using assms by (simp add: do_start_def Task_Start_def)
next
  case False
  then have "set (ts_closed s) = {..<length (ts_runs s)}" using assms by (simp add: task_inv_def)
  with False assms show ?thesis
    by (auto simp: do_start_def Task_Start_def task_inv_def nth_append less_Suc_eq)
qed

text \<open>Closing the channel of the current run: the one place a channel is closed.\<close>

lemma close_current_inv:
  assumes "task_inv s" "tk_running (ts_task s)"
  shows "task_inv (close_chan (tk_stop (ts_task s)) (s\<lparr>ts_task := (ts_task s)\<lparr>tk_running := False\<rparr>\<rparr>))"
proof -
  have n: "ts_runs s \<noteq> []" "tk_stop (ts_task s) = Some (length (ts_runs s) - 1)"
    "set (ts_closed s) = {..<length (ts_runs s) - 1}" using assms by (simp_all add: task_inv_def)
  obtain k where k: "length (ts_runs s) = Suc k" using n(1) by (cases "ts_runs s") simp_all
  have "insert (length (ts_runs s) - 1) (set (ts_closed s)) = {..<length (ts_runs s)}"
    by (simp add: n(3) k lessThan_Suc)
  moreover have "length (ts_runs s) - 1 \<notin> set (ts_closed s)" using n(3) by simp
  ultimately show ?thesis using n(2) assms unfolding task_inv_def by (simp add: close_chan_def)
qed

lemma do_close_inv: "task_inv s \<Longrightarrow> task_inv (do_close s)"
  using close_current_inv [of s]
  by (cases "tk_running (ts_task s)") (simp_all add: do_close_def Task_Close_def, simp add: close_chan_def)

lemma close_set_phase: "close_chan c (set_phase i p s) = set_phase i p (close_chan c s)"
  by (simp add: close_chan_def set_phase_def split: option.split)

lemma do_return_inv:
  assumes "task_inv s" "i < length (ts_runs s)"
  shows "task_inv (do_return i s)"
proof -
  have stop: "rn_stop (ts_runs s ! i) = i" using assms by (simp add: task_inv_def)
  show ?thesis
  proof (cases "tk_running (ts_task s) \<and> tk_stop (ts_task s) = Some i")
    case True
    let ?s = "close_chan (tk_stop (ts_task s)) (s\<lparr>ts_task := (ts_task s)\<lparr>tk_running := False\<rparr>\<rparr>)"
    have "do_return i s = set_phase i Finished ?s"
      using True by (simp add: do_return_def stop run_exit_def close_set_phase)
    moreover have "task_inv ?s" using close_current_inv assms(1) True by blast
    moreover have "i \<in> set (ts_closed ?s)" using True by (auto simp: close_chan_def)
    ultimately show ?thesis using set_phase_inv by simp
  next
    case False
    then have "i \<in> set (ts_closed s)" using assms by (auto simp: task_inv_def split: if_splits)
    moreover have "do_return i s = set_phase i Finished s"
      using False by (auto simp: do_return_def stop run_exit_def close_chan_def)
    ultimately show ?thesis using set_phase_inv [OF assms(1)] by simp
  qed
qed

lemma task_step_inv: "task_step s e s' \<Longrightarrow> task_inv s \<Longrightarrow> task_inv s'"
  by (induction rule: task_step.induct)
    (simp_all add: do_start_inv do_close_inv do_return_inv set_phase_inv at_phase_def,
     simp add: task_inv_def)

interpretation task: component task_start task_step task_inv
proof unfold_locales
  show "task_inv s" if "task_start s" for s
    using that by (auto simp: task_start_def task_inv_def new_Task_def)
qed (rule task_step_inv)

text \<open>
  C7. However \<^verbatim>\<open>Start\<close>, \<^verbatim>\<open>Close\<close>, timers and callbacks interleave, also when the callback closes and restarts its own
  task: no channel is closed twice, so the process does not panic; at most one run has an open stop channel, the task
  is running exactly when there is one, and that run has not returned; and the callback is only ever begun by it, never
  by a run that was closed before.
\<close>

theorem task_one_run:
  assumes "reachable task_start task_step s"
  defines "is_open \<equiv> \<lambda>i. i < length (ts_runs s) \<and> \<not> stop_closed i s"
  shows "\<not> ts_panic s \<and> (\<forall>i j. is_open i \<and> is_open j \<longrightarrow> i = j) \<and>
    (tk_running (ts_task s) \<longleftrightarrow> (\<exists>i. is_open i)) \<and> (\<forall>i. is_open i \<longrightarrow> \<not> at_phase i Finished s) \<and>
    (\<forall>i s'. task_step s (EvExecute i) s' \<longrightarrow> is_open i)"
proof -
  have inv: "task_inv s" using task.reachable_inv [OF assms(1)] .
  have st: "is_open i \<longleftrightarrow> i < length (ts_runs s) \<and> i \<notin> set (ts_closed s)" for i
    using inv by (auto simp: is_open_def task_inv_def stop_closed_def)
  have opn: "is_open i \<longleftrightarrow> tk_running (ts_task s) \<and> ts_runs s \<noteq> [] \<and> i = length (ts_runs s) - 1" for i
  proof (cases "tk_running (ts_task s)")
    case True
    then have c: "set (ts_closed s) = {..<length (ts_runs s) - 1}" "ts_runs s \<noteq> []" using inv by (simp_all add: task_inv_def)
    then have "0 < length (ts_runs s)" by simp
    then have "i < length (ts_runs s) \<and> \<not> i < length (ts_runs s) - 1 \<longleftrightarrow> i = length (ts_runs s) - 1" by linarith
    then show ?thesis using True c by (simp add: st)
  next
    case False
    then have "set (ts_closed s) = {..<length (ts_runs s)}" using inv by (simp add: task_inv_def)
    then show ?thesis using False by (simp add: st)
  qed
  have run: "tk_running (ts_task s) \<Longrightarrow> ts_runs s \<noteq> []" using inv by (simp add: task_inv_def)
  have fin: "\<not> at_phase i Finished s" if "is_open i" for i
    using inv that unfolding is_open_def task_inv_def at_phase_def stop_closed_def by auto
  have "is_open i" if "task_step s (EvExecute i) s'" for i s'
    using that unfolding execute_iff is_open_def at_phase_def by auto
  moreover have "\<not> ts_panic s" using inv by (simp add: task_inv_def)
  moreover have "\<forall>i j. is_open i \<and> is_open j \<longrightarrow> i = j" by (simp add: opn)
  moreover have "tk_running (ts_task s) \<longleftrightarrow> (\<exists>i. is_open i)" using run by (auto simp: opn)
  ultimately show ?thesis using fin by blast
qed

definition ex_task :: task_state where
  "ex_task = \<lparr>ts_task = new_Task minute, ts_runs = [], ts_closed = [], ts_panic = False\<rparr>"

text \<open>A callback that closes and restarts its task, as a reload with a new interval does.\<close>

definition ex_restarted :: task_state where
  "ex_restarted = do_start False (do_close (set_phase 0 Executing (set_phase 0 Ticked (do_start True ex_task))))"

lemma ex_restarted_reachable: "reachable task_start task_step ex_restarted"
proof -
  have 0: "reachable task_start task_step ex_task" by (rule reach_start) (auto simp: task_start_def ex_task_def)
  have 1: "reachable task_start task_step (do_start True ex_task)" using 0 ts_start by (rule reach_step)
  have a: "at_phase 0 Waiting (do_start True ex_task)"
    by (simp add: at_phase_def do_start_def Task_Start_def ex_task_def new_Task_def)
  have 2: "reachable task_start task_step (set_phase 0 Ticked (do_start True ex_task))" using 1 ts_timer [OF a] by (rule reach_step)
  have b: "at_phase 0 Ticked (set_phase 0 Ticked (do_start True ex_task))"
    "\<not> stop_closed 0 (set_phase 0 Ticked (do_start True ex_task))"
    by (simp_all add: at_phase_def stop_closed_def set_phase_def do_start_def Task_Start_def ex_task_def new_Task_def)
  have 3: "reachable task_start task_step (set_phase 0 Executing (set_phase 0 Ticked (do_start True ex_task)))"
    using 2 ts_execute [OF b] by (rule reach_step)
  have 4: "reachable task_start task_step (do_close (set_phase 0 Executing (set_phase 0 Ticked (do_start True ex_task))))"
    using 3 ts_close by (rule reach_step)
  show ?thesis unfolding ex_restarted_def using 4 ts_start by (rule reach_step)
qed

theorem task_one_run_witness:
  "\<not> ts_panic ex_restarted \<and> at_phase 0 Executing ex_restarted \<and> stop_closed 0 ex_restarted \<and>
   at_phase 1 Waiting ex_restarted \<and> tk_running (ts_task ex_restarted)"
  using task_one_run [OF ex_restarted_reachable]
  by (simp add: at_phase_def stop_closed_def ex_restarted_def set_phase_def do_start_def do_close_def Task_Start_def
      Task_Close_def close_chan_def ex_task_def new_Task_def)

end
