(* ===== verification/Node_Controller.thy ===== *)
theory Node_Controller
  imports Panel_Users Selector User_Sync Cert_Orders Https_Redirect Task
begin

text \<open>
  The controller of one node, \<^verbatim>\<open>src/node\<close> (\<^verbatim>\<open>controller.go\<close>, \<^verbatim>\<open>task.go\<close>, \<^verbatim>\<open>device_limit_inplace.go\<close>,
  \<^verbatim>\<open>artx_flow_control.go\<close>): it brings a node up from what the panel says, follows the panel's changes at every pull, and
  takes the node down again.

  A step works on three records: \<open>Controller\<close> with the fields of the Go struct, \<open>Client\<close> with the controller's view of
  the panel, and \<open>world\<close> with what the controllers of a process share: the core, the table of limiters (limiters are
  objects in a store, because the controller, the table and the connections hold pointers to the same one), the
  disabled CDN providers, the certificate orders and the redirect manager. What one call finds outside is the record
  \<open>outside\<close>; the answers of the panel are the record \<open>answers\<close>. A step gives \<^const>\<open>None\<close> when the process panics: a
  malformed blocking rule, or a nil pointer that is followed. The model has no difference between a nil and an empty
  slice, so \<^verbatim>\<open>reflect.DeepEqual\<close> is equality. Log entries other than the outcome of a pull are left out.
\<close>

section \<open>What the controller works with\<close>

record ('s, 'e) ArtXFlowControlProvider =
  fp_SetArtXUserRates :: "string \<Rightarrow> (string, int) gomap \<Rightarrow> 's \<Rightarrow> 's"
  fp_ClearArtXUserRates :: "string \<Rightarrow> 's \<Rightarrow> 's"
  fp_ConfigureArtXWindowBudget :: "int \<times> int \<Rightarrow> 's \<Rightarrow> 'e option \<times> 's"
  fp_SetArtXFlowControl :: "string \<Rightarrow> ArtXNode \<Rightarrow> 's \<Rightarrow> 'e option \<times> 's"

text \<open>
  The core as the controller sees it: the node operations of the interface \<^verbatim>\<open>Core\<close>, which may rewrite the options they
  are given a pointer to, and the optional ArtX interface.
\<close>

record ('s, 'e) server =
  sv_AddNode :: "string \<Rightarrow> NodeInfo \<Rightarrow> Options \<Rightarrow> 's \<Rightarrow> 'e option \<times> 's \<times> Options"
  sv_DelNode :: "string \<Rightarrow> 's \<Rightarrow> 'e option \<times> 's"
  sv_AddUsers :: "AddUsersParams \<Rightarrow> 's \<Rightarrow> ('e + int) \<times> 's"
  sv_DelUsers :: "UserInfo list \<Rightarrow> string \<Rightarrow> NodeInfo \<Rightarrow> 's \<Rightarrow> 'e option \<times> 's"
  sv_GetUserTrafficSlice :: "string \<Rightarrow> bool \<Rightarrow> 's \<Rightarrow> ('e + UserTraffic list) \<times> 's"
  sv_ArtX :: "('s, 'e) ArtXFlowControlProvider option"

text \<open>A selector of several cores; it does not implement the ArtX interface.\<close>

definition selector_server :: "host \<Rightarrow> ('c, 'e) Core \<Rightarrow> ('c Selector, 'e sel_error) server" where
  "selector_server h api =
     \<lparr>sv_AddNode = (\<lambda>tag info option s. AddNode h api s tag info option),
      sv_DelNode = (\<lambda>tag s. DelNode api s tag),
      sv_AddUsers = (\<lambda>params s. AddUsers api s params),
      sv_DelUsers = (\<lambda>users tag info s. DelUsers api s users tag info),
      sv_GetUserTrafficSlice = (\<lambda>tag reset s. GetUserTrafficSlice api s tag reset),
      sv_ArtX = None\<rparr>"

record ('s, 'k) world =
  wd_server :: 's
  wd_limiters :: "(string, nat) gomap"
  wd_heap :: "nat \<Rightarrow> Limiter"
  wd_made :: nat
  wd_disabled :: cdn_disabled
  wd_orders :: "certOrderCooldown \<times> environ"
  wd_redirect :: "'k httpsRedirectManager option"

record ('s, 'e, 'p, 'k) outside =
  ou_server :: "('s, 'e) server"
  ou_compile :: "string \<Rightarrow> (string \<Rightarrow> bool) option"
  ou_letter :: "string \<Rightarrow> bool"
  ou_hash :: "NodeInfo \<Rightarrow> string"
  ou_exist :: "string \<Rightarrow> bool"
  ou_selfSign :: "string \<Rightarrow> string \<Rightarrow> string \<Rightarrow> string option"
  ou_order :: "'p order_call"
  ou_issue :: "CertConfig \<Rightarrow> string option"
  ou_load :: "string \<Rightarrow> string \<Rightarrow> string + 'k"
  ou_listen :: "string option"
  ou_now :: int

record answers =
  an_node :: "string + http_response option"
  an_users :: "(user_response \<times> string option) option"
  an_alive :: "(int \<times> json option) option"

record Controller =
  ct_tag :: string
  ct_limiter :: "nat option"
  ct_traffic :: "(string, int) gomap"
  ct_userList :: "UserInfo list"
  ct_reportedDeviceUsers :: "int list"
  ct_aliveMap :: "(int, int) gomap"
  ct_info :: "NodeInfo option"
  ct_nodeInfoMonitorPeriodic :: "Task option"
  ct_userReportPeriodic :: "Task option"
  ct_renewCertPeriodic :: "Task option"
  ct_dynamicSpeedLimitPeriodic :: "Task option"
  ct_nodeStatusReportPeriodic :: "Task option"
  ct_nodeMetricsReportPeriodic :: "Task option"
  ct_artXPressure :: bool
  ct_totalUploadBytes :: int
  ct_totalDownloadBytes :: int
  ct_lastMetricsUpload :: int
  ct_lastMetricsDownload :: int
  ct_lastMetricsAt :: "int option"
  ct_Options :: Options

definition NewController :: "Options \<Rightarrow> Controller" where
  "NewController config =
     \<lparr>ct_tag = [], ct_limiter = None, ct_traffic = [], ct_userList = [], ct_reportedDeviceUsers = [], ct_aliveMap = [],
      ct_info = None, ct_nodeInfoMonitorPeriodic = None, ct_userReportPeriodic = None, ct_renewCertPeriodic = None,
      ct_dynamicSpeedLimitPeriodic = None, ct_nodeStatusReportPeriodic = None, ct_nodeMetricsReportPeriodic = None,
      ct_artXPressure = False, ct_totalUploadBytes = 0, ct_totalDownloadBytes = 0, ct_lastMetricsUpload = 0,
      ct_lastMetricsDownload = 0, ct_lastMetricsAt = None, ct_Options = config\<rparr>"

type_synonym ('s, 'k) cw = "Controller \<times> ('s, 'k) world"

section \<open>Tag, alive map and kicks\<close>

definition buildNodeTag :: "Client \<Rightarrow> NodeInfo \<Rightarrow> string" where
  "buildNodeTag p node = ''['' @ cl_APIHost p @ '']-'' @ ni_Type node @ '':'' @ itoa (ni_Id node)"

definition cloneAliveMap :: "(int, int) gomap \<Rightarrow> (int, int) gomap" where
  "cloneAliveMap alive = filter (\<lambda>(uid, n). 0 < uid \<and> 0 < n) alive"

text \<open>What is done to the limiter the controller points to, if it points to one.\<close>

definition on_limiter :: "(Limiter \<Rightarrow> Limiter) \<Rightarrow> Controller \<Rightarrow> ('s, 'k) world \<Rightarrow> ('s, 'k) world" where
  "on_limiter f c w =
     (case ct_limiter c of None \<Rightarrow> w | Some a \<Rightarrow> w\<lparr>wd_heap := (wd_heap w)(a := f (wd_heap w a))\<rparr>)"

definition setAliveMap :: "(int, int) gomap \<Rightarrow> ('s, 'k) cw \<Rightarrow> ('s, 'k) cw" where
  "setAliveMap alive = (\<lambda>(c, w).
     let snapshot = cloneAliveMap alive
     in (c\<lparr>ct_aliveMap := snapshot\<rparr>, on_limiter (UpdateAliveList snapshot) c w))"

definition setKickedMap :: "int \<Rightarrow> (int, (string, int) gomap) gomap \<Rightarrow> ('s, 'k) cw \<Rightarrow> ('s, 'k) cw" where
  "setKickedMap now kicked = (\<lambda>(c, w). (c, on_limiter (MergeKickedList now kicked) c w))"

fun run_hooks :: "int \<Rightarrow> hook_call list \<Rightarrow> ('s, 'k) cw \<Rightarrow> ('s, 'k) cw" where
  "run_hooks now [] s = s"
| "run_hooks now (AliveHook m # hs) s = run_hooks now hs (setAliveMap m s)"
| "run_hooks now (KickedHook m # hs) s = run_hooks now hs (setKickedMap now m s)"

definition activeUserCount :: "Controller \<Rightarrow> nat" where
  "activeUserCount c = length (ct_aliveMap c)"

definition activeConnectionCount :: "cdn_index \<Rightarrow> ('s, 'k) cw \<Rightarrow> nat" where
  "activeConnectionCount idx = (\<lambda>(c, w).
     case ct_limiter c of None \<Rightarrow> 0 | Some a \<Rightarrow> CountOnlineIP (idx, wd_disabled w) (wd_heap w a))"

section \<open>Changes that are applied in place\<close>

definition maskDeviceLimit :: "NodeInfo \<Rightarrow> NodeInfo" where
  "maskDeviceLimit info =
     info\<lparr>ni_DeviceLimitTolerance := 0, ni_DeviceLimitIgnoredIPs := [], ni_DeviceLimitCDNDisabled := []\<rparr>"

definition deviceLimitOnlyChange :: "NodeInfo option \<Rightarrow> NodeInfo option \<Rightarrow> bool" where
  "deviceLimitOnlyChange old updated =
     (case (old, updated) of
        (Some old, Some updated) \<Rightarrow>
          if ni_DeviceLimitTolerance old = ni_DeviceLimitTolerance updated \<and>
             ni_DeviceLimitIgnoredIPs old = ni_DeviceLimitIgnoredIPs updated \<and>
             ni_DeviceLimitCDNDisabled old = ni_DeviceLimitCDNDisabled updated then False
          else maskDeviceLimit old = maskDeviceLimit updated
      | _ \<Rightarrow> False)"

definition usesNativeArtXWire :: "NodeInfo option \<Rightarrow> bool" where
  "usesNativeArtXWire info =
     (case info of
        None \<Rightarrow> False
      | Some n \<Rightarrow> ni_Type n = ''artx'' \<and>
          (case ni_ArtX n of None \<Rightarrow> False | Some x \<Rightarrow> to_lower (trim_space (ax_Underlay x)) = ''artx-wire''))"

definition maskArtXFlowControl :: "NodeInfo \<Rightarrow> NodeInfo" where
  "maskArtXFlowControl info = info\<lparr>ni_ArtX := Some ((the (ni_ArtX info))\<lparr>ax_FlowControl := []\<rparr>)\<rparr>"

definition artXFlowControlOnlyChange :: "NodeInfo option \<Rightarrow> NodeInfo option \<Rightarrow> bool" where
  "artXFlowControlOnlyChange old updated =
     (if \<not> usesNativeArtXWire old \<or> \<not> usesNativeArtXWire updated then False
      else if ax_FlowControl (the (ni_ArtX (the old))) = ax_FlowControl (the (ni_ArtX (the updated))) then False
      else maskArtXFlowControl (the old) = maskArtXFlowControl (the updated))"

definition artXFlowControlProvider ::
  "('s, 'e) server \<Rightarrow> NodeInfo option \<Rightarrow> ('s, 'e) ArtXFlowControlProvider option" where
  "artXFlowControlProvider srv info = (if usesNativeArtXWire info then sv_ArtX srv else None)"

definition retierArtXFlowControl :: "('s, 'e) server \<Rightarrow> NodeInfo \<Rightarrow> ('s, 'k) cw \<Rightarrow> bool \<times> ('s, 'k) world" where
  "retierArtXFlowControl srv info = (\<lambda>(c, w).
     case artXFlowControlProvider srv (Some info) of
       None \<Rightarrow> (False, w)
     | Some provider \<Rightarrow>
         (case fp_SetArtXFlowControl provider (ct_tag c) (the (ni_ArtX info)) (wd_server w) of
            (e, s) \<Rightarrow> (e = None, w\<lparr>wd_server := s\<rparr>)))"

definition artXUserRateBytesPerSecond :: "int \<Rightarrow> int \<Rightarrow> int" where
  "artXUserRateBytesPerSecond nodeSpeedLimit userSpeedLimit =
     (let nodeSpeedLimit = (if nodeSpeedLimit < 0 then 0 else nodeSpeedLimit);
          userSpeedLimit = (if userSpeedLimit < 0 then 0 else userSpeedLimit);
          effective = (if nodeSpeedLimit = 0 \<or> userSpeedLimit \<noteq> 0 \<and> userSpeedLimit < nodeSpeedLimit
                       then userSpeedLimit else nodeSpeedLimit)
      in if effective = 0 then 0 else (effective * (1000000 div 8)) mod 2 ^ 64)"

definition buildArtXUserRates :: "string \<Rightarrow> int \<Rightarrow> UserInfo list \<Rightarrow> (string, int) gomap" where
  "buildArtXUserRates tag nodeSpeedLimit users =
     fold (\<lambda>u. AList.update (UserTag tag (u_Uuid u)) (artXUserRateBytesPerSecond nodeSpeedLimit (u_SpeedLimit u))) users []"

definition publishArtXUserRates :: "('s, 'e) server \<Rightarrow> ('s, 'k) cw \<Rightarrow> ('s, 'k) world" where
  "publishArtXUserRates srv = (\<lambda>(c, w).
     case artXFlowControlProvider srv (ct_info c) of
       None \<Rightarrow> w
     | Some provider \<Rightarrow>
         w\<lparr>wd_server := fp_SetArtXUserRates provider (ct_tag c)
             (buildArtXUserRates (ct_tag c) (lc_SpeedLimit (op_LimitConfig (ct_Options c))) (ct_userList c)) (wd_server w)\<rparr>)"

definition clearArtXUserRatesForTag :: "('s, 'e) server \<Rightarrow> string \<Rightarrow> ('s, 'k) world \<Rightarrow> ('s, 'k) world" where
  "clearArtXUserRatesForTag srv tag w =
     (case sv_ArtX srv of
        None \<Rightarrow> w
      | Some provider \<Rightarrow> w\<lparr>wd_server := fp_ClearArtXUserRates provider tag (wd_server w)\<rparr>)"

text \<open>The window budget of the options; a value the core rejects is only logged.\<close>

definition configureArtXWindowBudget ::
  "('s, 'e) ArtXFlowControlProvider \<Rightarrow> Controller \<Rightarrow> ('s, 'k) world \<Rightarrow> ('s, 'k) world" where
  "configureArtXWindowBudget provider c w =
     (let policy = (case op_ArtXOptions (ct_Options c) of
                      None \<Rightarrow> (0, 0)
                    | Some x \<Rightarrow> (ax_WindowBudgetSharePercent x, ax_WindowBudgetReservePercent x))
      in w\<lparr>wd_server := snd (fp_ConfigureArtXWindowBudget provider policy (wd_server w))\<rparr>)"

definition startArtXPressureSampler :: "('s, 'e) server \<Rightarrow> NodeInfo option \<Rightarrow> ('s, 'k) cw \<Rightarrow> ('s, 'k) cw" where
  "startArtXPressureSampler srv info = (\<lambda>(c, w).
     case artXFlowControlProvider srv info of
       None \<Rightarrow> (c, w)
     | Some provider \<Rightarrow>
         if ct_artXPressure c then (c, w)
         else (c\<lparr>ct_artXPressure := True\<rparr>, configureArtXWindowBudget provider c w))"

definition stopArtXPressureSampler :: "Controller \<Rightarrow> Controller" where
  "stopArtXPressureSampler c = c\<lparr>ct_artXPressure := False\<rparr>"

definition applyDeviceLimitInPlace :: "NodeInfo \<Rightarrow> ('s, 'k) cw \<Rightarrow> ('s, 'k) world option" where
  "applyDeviceLimitInPlace info = (\<lambda>(c, w).
     case ct_limiter c of
       None \<Rightarrow> None
     | Some _ \<Rightarrow>
         Some ((on_limiter (\<lambda>l. SetIgnoredPrefixes (ni_DeviceLimitIgnoredIPs info)
                   (SetDeviceTolerance (ni_DeviceLimitTolerance info) l)) c w)
               \<lparr>wd_disabled := SetDisabledProviders (ni_DeviceLimitCDNDisabled info)\<rparr>))"

section \<open>Certificates and redirects\<close>

definition cert_for :: "Controller \<Rightarrow> NodeInfo \<Rightarrow> CertConfig option" where
  "cert_for c node = effectiveCertConfig (Some node) (Some (ct_Options c))"

definition request_cert ::
  "('s, 'e, 'p, 'k) outside \<Rightarrow> NodeInfo \<Rightarrow> ('s, 'k) cw \<Rightarrow> bool \<times> ('s, 'k) world" where
  "request_cert out node = (\<lambda>(c, w).
     case requestCert (ou_exist out) (ou_selfSign out) (ou_order out) (ou_issue out) (cert_for c node) (wd_orders w) of
       (r, orders) \<Rightarrow> (r = Ready \<or> r = Requested Ordered, w\<lparr>wd_orders := orders\<rparr>))"

definition prepareHTTPSRedirect :: "NodeInfo \<Rightarrow> ('s, 'k) cw \<Rightarrow> ('s, 'k) world" where
  "prepareHTTPSRedirect node = (\<lambda>(c, w).
     w\<lparr>wd_redirect := map_option (Redirect_Prepare (ct_tag c) (Some node)) (wd_redirect w)\<rparr>)"

definition refreshHTTPSRedirect :: "('s, 'e, 'p, 'k) outside \<Rightarrow> NodeInfo \<Rightarrow> ('s, 'k) cw \<Rightarrow> ('s, 'k) world" where
  "refreshHTTPSRedirect out node = (\<lambda>(c, w).
     w\<lparr>wd_redirect := map_option (\<lambda>m. snd (Redirect_Upsert (ou_load out) (ou_listen out) (ct_tag c) (Some node)
         (cert_for c node) m)) (wd_redirect w)\<rparr>)"

end
