(* ===== verification/Node_Pull.thy ===== *)
theory Node_Pull
  imports Node_Controller
begin

text \<open>
  Bringing a node up, following the panel and taking the node down: \<^verbatim>\<open>Controller.Start\<close> and \<^verbatim>\<open>Close\<close>
  (\<^verbatim>\<open>src/node/controller.go\<close>), \<^verbatim>\<open>startTasks\<close>, \<^verbatim>\<open>nodeInfoMonitor\<close> and \<^verbatim>\<open>abortReload\<close> (\<^verbatim>\<open>src/node/task.go\<close>). The state of a
  step is the controller, its client and the shared world.
\<close>

type_synonym ('s, 'k) node_state = "Controller \<times> Client \<times> ('s, 'k) world"

section \<open>Tasks\<close>

abbreviation started :: "bool \<Rightarrow> int \<Rightarrow> Task option" where
  "started first interval \<equiv> Some (fst (Task_Start first (new_Task interval)))"

definition startTasks :: "('s, 'e, 'p, 'k) outside \<Rightarrow> NodeInfo \<Rightarrow> ('s, 'k) cw \<Rightarrow> ('s, 'k) cw" where
  "startTasks out node = (\<lambda>(c, w).
     let statusInterval = (if ni_PushInterval node < minute then minute else ni_PushInterval node);
         c = c\<lparr>ct_nodeInfoMonitorPeriodic := started False (ni_PullInterval node),
               ct_userReportPeriodic := started False (ni_PushInterval node),
               ct_nodeStatusReportPeriodic := started True statusInterval,
               ct_nodeMetricsReportPeriodic := started True statusInterval\<rparr>;
         (c, w) = startArtXPressureSampler (ou_server out) (Some node) (c, w);
         certMode = (case cert_for c node of None \<Rightarrow> [] | Some cc \<Rightarrow> CertMode cc);
         c = (if ni_Security node = 1 \<and> certMode \<notin> set [''none'', [], ''file'', ''self'']
              then c\<lparr>ct_renewCertPeriodic := started True (hour * 24)\<rparr> else c);
         limit = op_LimitConfig (ct_Options c);
         c = (case lc_DynamicSpeedLimitConfig limit of
                None \<Rightarrow> c
              | Some d \<Rightarrow>
                  if \<not> lc_EnableDynamicSpeedLimit limit then c
                  else let interval = i64 (dyn_Periodic d * Clock.second);
                           interval = (if interval \<le> 0 then minute else interval)
                       in c\<lparr>ct_traffic := [], ct_dynamicSpeedLimitPeriodic := started False interval\<rparr>)
     in (c, w))"

text \<open>A task gets a new interval by being closed and started again.\<close>

definition retime :: "int \<Rightarrow> Task option \<Rightarrow> Task option" where
  "retime interval task =
     map_option (\<lambda>t. if tk_Interval t \<noteq> interval \<and> interval \<noteq> 0
                     then fst (Task_Start False (fst (Task_Close (t\<lparr>tk_Interval := interval\<rparr>)))) else t) task"

section \<open>A new limiter\<close>

definition install_limiter ::
  "NodeInfo \<Rightarrow> (int, int) gomap \<Rightarrow> ('s, 'k) cw \<Rightarrow> nat \<times> ('s, 'k) world" where
  "install_limiter node alive = (\<lambda>(c, w).
     let l = AddLimiter (ct_tag c) (lc_SpeedLimit (op_LimitConfig (ct_Options c))) (ct_userList c) alive;
         l = SetIgnoredPrefixes (ni_DeviceLimitIgnoredIPs node) (SetDeviceTolerance (ni_DeviceLimitTolerance node) l)
     in (wd_made w,
         w\<lparr>wd_limiters := AList.update (ct_tag c) (wd_made w) (wd_limiters w),
           wd_heap := (wd_heap w)(wd_made w := l), wd_made := Suc (wd_made w),
           wd_disabled := SetDisabledProviders (ni_DeviceLimitCDNDisabled node)\<rparr>))"

text \<open>The blocking rules; a rule that does not compile panics.\<close>

definition update_rules ::
  "(string \<Rightarrow> (string \<Rightarrow> bool) option) \<Rightarrow> NodeInfo \<Rightarrow> nat \<Rightarrow> ('s, 'k) world \<Rightarrow> ('s, 'k) world option" where
  "update_rules compile node a w =
     map_option (\<lambda>l. w\<lparr>wd_heap := (wd_heap w)(a := l)\<rparr>) (UpdateRule compile (ni_Rules node) (wd_heap w a))"

section \<open>Start\<close>

datatype StartStage = StagePanel | StageCert | StageCore

datatype start_error =
  GetNodeFailed | GetUsersFailed | NoUsers | RequestCertFailed | AddNodeFailed | StartUsersFailed

definition startStageOf :: "start_error \<Rightarrow> StartStage" where
  "startStageOf e =
     (case e of
        GetNodeFailed \<Rightarrow> StagePanel | GetUsersFailed \<Rightarrow> StagePanel | NoUsers \<Rightarrow> StagePanel
      | RequestCertFailed \<Rightarrow> StageCert | AddNodeFailed \<Rightarrow> StageCore | StartUsersFailed \<Rightarrow> StageCore)"

text \<open>From the certificate on: the same order of calls in \<^verbatim>\<open>Start\<close> and in a reload.\<close>

definition bring_up ::
  "('s, 'e, 'p, 'k) outside \<Rightarrow> NodeInfo \<Rightarrow> ('s, 'k) cw \<Rightarrow> start_error option \<times> ('s, 'k) cw" where
  "bring_up out node = (\<lambda>(c, w).
     case (if ni_Security node = 1 then request_cert out node (c, w) else (True, w)) of
       (False, w) \<Rightarrow> (Some RequestCertFailed, (c, w))
     | (True, w) \<Rightarrow>
         (let w = prepareHTTPSRedirect node (c, w)
          in case sv_AddNode (ou_server out) (ct_tag c) node (ct_Options c) (wd_server w) of
               (Some _, s, opts) \<Rightarrow> (Some AddNodeFailed, (c\<lparr>ct_Options := opts\<rparr>, w\<lparr>wd_server := s\<rparr>))
             | (None, s, opts) \<Rightarrow>
                 (case sv_AddUsers (ou_server out)
                         \<lparr>aup_Tag = ct_tag c, aup_Users = ct_userList c, aup_NodeInfo = Some node\<rparr> s of
                    (Inl _, s) \<Rightarrow> (Some StartUsersFailed, (c\<lparr>ct_Options := opts\<rparr>, w\<lparr>wd_server := s\<rparr>))
                  | (Inr _, s) \<Rightarrow> (None, (c\<lparr>ct_Options := opts\<rparr>, w\<lparr>wd_server := s\<rparr>)))))"

definition Controller_Start ::
  "('s, 'e, 'p, 'k) outside \<Rightarrow> answers \<Rightarrow> ('s, 'k) node_state \<Rightarrow> (start_error option \<times> ('s, 'k) node_state) option" where
  "Controller_Start out an = (\<lambda>(c, p, w).
     case GetNodeInfo (ou_letter out) (ou_hash out) (an_node an) p of
       (p, Inl _) \<Rightarrow> Some (Some GetNodeFailed, (c, p, w))
     | (p, Inr node) \<Rightarrow>
         (case fetch_users (an_users an) p of
            (p, Inl _) \<Rightarrow> Some (Some GetUsersFailed, (c\<lparr>ct_userList := []\<rparr>, p, w))
          | (p, Inr users) \<Rightarrow>
              (let c = c\<lparr>ct_userList := (case users of None \<Rightarrow> [] | Some us \<Rightarrow> us)\<rparr>
               in if ct_userList c = [] then Some (Some NoUsers, (c, p, w))
                  else case fetch_alive (an_alive an) p of
                    (p, calls, alive) \<Rightarrow>
                      (let (c, w) = run_hooks (ou_now out) calls (c, w);
                           c = c\<lparr>ct_aliveMap := cloneAliveMap alive\<rparr>
                       in case node of
                            None \<Rightarrow> None
                          | Some node \<Rightarrow>
                              (let name = op_Name (ct_Options c);
                                   c = c\<lparr>ct_tag := (if name = [] then buildNodeTag p node else name)\<rparr>;
                                   (a, w) = install_limiter node (ct_aliveMap c) (c, w)
                               in case update_rules (ou_compile out) node a w of
                                    None \<Rightarrow> None
                                  | Some w \<Rightarrow>
                                      (let c = c\<lparr>ct_limiter := Some a\<rparr>;
                                           p = p\<lparr>cl_alive := SetKickedUpdateHook True (SetAliveUpdateHook True (cl_alive p))\<rparr>
                                       in case bring_up out node (c, w) of
                                            (Some e, (c, w)) \<Rightarrow> Some (Some e, (c, p, w))
                                          | (None, (c, w)) \<Rightarrow>
                                              (let c = c\<lparr>ct_info := Some node\<rparr>;
                                                   w = publishArtXUserRates (ou_server out) (c, w);
                                                   w = refreshHTTPSRedirect out node (c, w);
                                                   (c, w) = startTasks out node (c, w)
                                               in Some (None, (c, p, w)))))))))"

section \<open>Close\<close>

definition close_task :: "Task option \<Rightarrow> Task option" where
  "close_task = map_option (fst \<circ> Task_Close)"

definition Controller_Close ::
  "('s, 'e) server \<Rightarrow> ('s, 'k) node_state \<Rightarrow> 'e option \<times> ('s, 'k) node_state" where
  "Controller_Close srv = (\<lambda>(c, p, w).
     let p = p\<lparr>cl_alive := SetKickedUpdateHook False (SetAliveUpdateHook False (cl_alive p))\<rparr>;
         c = stopArtXPressureSampler c;
         w = clearArtXUserRatesForTag srv (ct_tag c) w;
         w = w\<lparr>wd_limiters := AList.delete (ct_tag c) (wd_limiters w)\<rparr>;
         c = c\<lparr>ct_nodeInfoMonitorPeriodic := close_task (ct_nodeInfoMonitorPeriodic c),
               ct_userReportPeriodic := close_task (ct_userReportPeriodic c),
               ct_renewCertPeriodic := close_task (ct_renewCertPeriodic c),
               ct_dynamicSpeedLimitPeriodic := close_task (ct_dynamicSpeedLimitPeriodic c),
               ct_nodeStatusReportPeriodic := close_task (ct_nodeStatusReportPeriodic c),
               ct_nodeMetricsReportPeriodic := close_task (ct_nodeMetricsReportPeriodic c)\<rparr>
     in case sv_DelNode srv (ct_tag c) (wd_server w) of (e, s) \<Rightarrow> (e, (c, p, w\<lparr>wd_server := s\<rparr>)))"

section \<open>The pull\<close>

datatype pull_log =
    NodeFetchFailed | UserFetchFailed | DeleteNodeFailed | ReloadFailed start_error | Reloaded
  | UsersNotChanged | DeleteUsersFailed | AddUsersFailed | UsersUpdated

definition abortReload :: "Client \<Rightarrow> Client" where
  "abortReload p = p\<lparr>cl_node := InvalidateNodeInfoCache (cl_node p)\<rparr>"

definition reload ::
  "('s, 'e, 'p, 'k) outside \<Rightarrow> NodeInfo \<Rightarrow> UserInfo list option \<Rightarrow> (int, int) gomap \<Rightarrow> ('s, 'k) node_state
     \<Rightarrow> (pull_log \<times> ('s, 'k) node_state) option" where
  "reload out newN newU newA = (\<lambda>(c, p, w).
     let c = c\<lparr>ct_info := Some newN, ct_userList := (case newU of None \<Rightarrow> ct_userList c | Some us \<Rightarrow> us), ct_traffic := []\<rparr>
     in case sv_DelNode (ou_server out) (ct_tag c) (wd_server w) of
          (Some _, s) \<Rightarrow> Some (DeleteNodeFailed, (c, abortReload p, w\<lparr>wd_server := s\<rparr>))
        | (None, s) \<Rightarrow>
            (let w = w\<lparr>wd_server := s\<rparr>;
                 oldTag = ct_tag c;
                 c = (if op_Name (ct_Options c) = [] then c\<lparr>ct_tag := buildNodeTag p newN\<rparr> else c);
                 w = w\<lparr>wd_limiters := AList.delete oldTag (wd_limiters w)\<rparr>;
                 w = clearArtXUserRatesForTag (ou_server out) oldTag w;
                 (a, w) = install_limiter newN newA (c, w);
                 c = c\<lparr>ct_limiter := Some a\<rparr>;
                 (c, w) = setAliveMap newA (c, w)
             in case update_rules (ou_compile out) newN a w of
                  None \<Rightarrow> None
                | Some w \<Rightarrow>
                    (case bring_up out newN (c, w) of
                       (Some e, (c, w)) \<Rightarrow> Some (ReloadFailed e, (c, abortReload p, w))
                     | (None, (c, w)) \<Rightarrow>
                         (let w = refreshHTTPSRedirect out newN (c, w);
                              w = publishArtXUserRates (ou_server out) (c, w);
                              c = stopArtXPressureSampler c;
                              (c, w) = startArtXPressureSampler (ou_server out) (Some newN) (c, w);
                              c = c\<lparr>ct_nodeInfoMonitorPeriodic := retime (ni_PullInterval newN) (ct_nodeInfoMonitorPeriodic c),
                                    ct_userReportPeriodic := retime (ni_PushInterval newN) (ct_userReportPeriodic c)\<rparr>
                          in Some (Reloaded, (c, p, w))))))"

text \<open>The part of the pull that handles a node that has not changed, or was changed in place.\<close>

definition update_users ::
  "('s, 'e, 'p, 'k) outside \<Rightarrow> UserInfo list option \<Rightarrow> (int, int) gomap \<Rightarrow> ('s, 'k) node_state
     \<Rightarrow> (pull_log \<times> ('s, 'k) node_state) option" where
  "update_users out newU newA = (\<lambda>(c, p, w).
     case setAliveMap newA (c, w) of (c, w) \<Rightarrow>
     (case newU of
        None \<Rightarrow> Some (UsersNotChanged, (c, p, w))
      | Some new \<Rightarrow>
          (let ch = compareUserList (ct_userList c) new; info = the (ct_info c)
           in case (if deleted ch = [] then (None, wd_server w)
                    else sv_DelUsers (ou_server out) (deleted ch) (ct_tag c) info (wd_server w)) of
                (Some _, s) \<Rightarrow> Some (DeleteUsersFailed, (c, p, w\<lparr>wd_server := s\<rparr>))
              | (None, s) \<Rightarrow>
                  (case (if added ch = [] then (Inr 0, s)
                         else sv_AddUsers (ou_server out)
                                \<lparr>aup_Tag = ct_tag c, aup_Users = added ch, aup_NodeInfo = ct_info c\<rparr> s) of
                     (Inl _, s) \<Rightarrow> Some (AddUsersFailed, (c, p, w\<lparr>wd_server := s\<rparr>))
                   | (Inr _, s) \<Rightarrow>
                       (let w = w\<lparr>wd_server := s\<rparr>;
                            touched = (limiterAdded ch \<noteq> [] \<or> limiterDeleted ch \<noteq> [])
                        in if touched \<and> ct_limiter c = None then None
                           else
                             (let w = (if touched then on_limiter (UpdateUser (ct_tag c) (limiterAdded ch) (limiterDeleted ch)) c w
                                       else w);
                                  c = (if touched \<and> lc_EnableDynamicSpeedLimit (op_LimitConfig (ct_Options c))
                                       then c\<lparr>ct_traffic := fold (\<lambda>u. AList.delete (u_Uuid u)) (deleted ch) (ct_traffic c)\<rparr> else c);
                                  c = c\<lparr>ct_userList := new\<rparr>;
                                  w = publishArtXUserRates (ou_server out) (c, w)
                              in Some (UsersUpdated, (c, p, w))))))))"

text \<open>What is done with the three answers.\<close>

definition apply_pull ::
  "('s, 'e, 'p, 'k) outside \<Rightarrow> NodeInfo option \<Rightarrow> UserInfo list option \<Rightarrow> (int, int) gomap \<Rightarrow> ('s, 'k) node_state
     \<Rightarrow> (pull_log \<times> ('s, 'k) node_state) option" where
  "apply_pull out newN newU newA = (\<lambda>(c, p, w).
     let (retiered, w) = (if newN \<noteq> None \<and> artXFlowControlOnlyChange (ct_info c) newN
                          then retierArtXFlowControl (ou_server out) (the newN) (c, w) else (False, w));
         (c, newN) = (if retiered then (c\<lparr>ct_info := newN\<rparr>, None) else (c, newN))
     in case newN of
          None \<Rightarrow> update_users out newU newA (c, p, w)
        | Some n \<Rightarrow>
            if deviceLimitOnlyChange (ct_info c) (Some n)
            then (let c = c\<lparr>ct_info := Some n\<rparr>
                  in case applyDeviceLimitInPlace n (c, w) of
                       None \<Rightarrow> None
                     | Some w \<Rightarrow> update_users out newU newA (c, p, w))
            else reload out n newU newA (c, p, w))"

definition nodeInfoMonitor ::
  "('s, 'e, 'p, 'k) outside \<Rightarrow> answers \<Rightarrow> ('s, 'k) node_state \<Rightarrow> (pull_log \<times> ('s, 'k) node_state) option" where
  "nodeInfoMonitor out an = (\<lambda>(c, p, w).
     case GetNodeInfo (ou_letter out) (ou_hash out) (an_node an) p of
       (p, Inl _) \<Rightarrow> Some (NodeFetchFailed, (c, p, w))
     | (p, Inr newN) \<Rightarrow>
         (case fetch_users (an_users an) p of
            (p, Inl _) \<Rightarrow> Some (UserFetchFailed, (c, p, w))
          | (p, Inr newU) \<Rightarrow>
              (case fetch_alive (an_alive an) p of
                 (p, calls, newA) \<Rightarrow>
                   (case run_hooks (ou_now out) calls (c, w) of
                      (c, w) \<Rightarrow> apply_pull out newN newU newA (c, p, w)))))"

section \<open>Steps of a pull\<close>

text \<open>Hooks and alive maps do not reach the core.\<close>

lemma on_limiter_frame [simp]:
  "wd_server (on_limiter f c w) = wd_server w" "wd_limiters (on_limiter f c w) = wd_limiters w"
  "wd_made (on_limiter f c w) = wd_made w" "wd_disabled (on_limiter f c w) = wd_disabled w"
  "wd_orders (on_limiter f c w) = wd_orders w" "wd_redirect (on_limiter f c w) = wd_redirect w"
  by (simp_all add: on_limiter_def split: option.split)

definition same_node :: "('s, 'k) cw \<Rightarrow> ('s, 'k) cw \<Rightarrow> bool" where
  "same_node s s' \<longleftrightarrow>
     (case (s, s') of ((c, w), (c', w')) \<Rightarrow>
        wd_server w' = wd_server w \<and> ct_tag c' = ct_tag c \<and> ct_info c' = ct_info c \<and> ct_limiter c' = ct_limiter c \<and>
        ct_userList c' = ct_userList c \<and> ct_Options c' = ct_Options c \<and> wd_limiters w' = wd_limiters w)"

lemma same_node_refl [simp]: "same_node s s"
  by (simp add: same_node_def split: prod.split)

lemma same_node_trans: "same_node s t \<Longrightarrow> same_node t u \<Longrightarrow> same_node s u"
  by (auto simp: same_node_def split: prod.splits)

lemma setAliveMap_same: "same_node s (setAliveMap m s)"
  by (simp add: setAliveMap_def same_node_def Let_def split: prod.split)

lemma setKickedMap_same: "same_node s (setKickedMap now m s)"
  by (simp add: setKickedMap_def same_node_def split: prod.split)

lemma run_hooks_same: "same_node s (run_hooks now calls s)"
  by (induction now calls s rule: run_hooks.induct)
    (auto intro: same_node_trans setAliveMap_same setKickedMap_same)

lemma applyDeviceLimitInPlace_frame:
  "applyDeviceLimitInPlace n (c, w) = Some w' \<Longrightarrow> wd_server w' = wd_server w \<and> wd_limiters w' = wd_limiters w"
  by (auto simp: applyDeviceLimitInPlace_def split: option.splits)

text \<open>The ways a pull can go.\<close>

lemma pull_cases:
  assumes "nodeInfoMonitor out an (c, p, w) = Some (lg, s')"
  obtains (node_failed) p1 e where "GetNodeInfo (ou_letter out) (ou_hash out) (an_node an) p = (p1, Inl e)"
      "lg = NodeFetchFailed" "s' = (c, p1, w)"
  | (users_failed) p1 newN p2 e where "GetNodeInfo (ou_letter out) (ou_hash out) (an_node an) p = (p1, Inr newN)"
      "fetch_users (an_users an) p1 = (p2, Inl e)" "lg = UserFetchFailed" "s' = (c, p2, w)"
  | (applied) p1 newN p2 newU p3 calls newA c1 w1
    where "GetNodeInfo (ou_letter out) (ou_hash out) (an_node an) p = (p1, Inr newN)"
      "fetch_users (an_users an) p1 = (p2, Inr newU)" "fetch_alive (an_alive an) p2 = (p3, calls, newA)"
      "run_hooks (ou_now out) calls (c, w) = (c1, w1)" "same_node (c, w) (c1, w1)"
      "apply_pull out newN newU newA (c1, p3, w1) = Some (lg, s')"
proof -
  obtain p1 r1 where n: "GetNodeInfo (ou_letter out) (ou_hash out) (an_node an) p = (p1, r1)" by fastforce
  obtain p2 r2 where u: "fetch_users (an_users an) p1 = (p2, r2)" by fastforce
  obtain p3 calls newA where a: "fetch_alive (an_alive an) p2 = (p3, calls, newA)" by (metis prod_cases3)
  obtain c1 w1 where hk: "run_hooks (ou_now out) calls (c, w) = (c1, w1)" by fastforce
  have same: "same_node (c, w) (c1, w1)" using run_hooks_same [of "(c, w)"] hk by metis
  show thesis
  proof (cases r1)
    case (Inl e)
    then show thesis using assms node_failed n by (simp add: nodeInfoMonitor_def)
  next
    case 1: (Inr newN)
    show thesis
    proof (cases r2)
      case (Inl e)
      then show thesis using assms users_failed n u 1 by (simp add: nodeInfoMonitor_def)
    next
      case (Inr newU)
      then have "apply_pull out newN newU newA (c1, p3, w1) = Some (lg, s')"
        using assms n u 1 a hk by (simp add: nodeInfoMonitor_def)
      then show thesis using applied n u 1 Inr a hk same by blast
    qed
  qed
qed

text \<open>A number of pulls, one after the other.\<close>

fun pulls :: "(('s, 'e, 'p, 'k) outside \<times> answers) list \<Rightarrow> ('s, 'k) node_state \<Rightarrow> (pull_log list \<times> ('s, 'k) node_state) option" where
  "pulls [] s = Some ([], s)"
| "pulls ((out, an) # xs) s =
     (case nodeInfoMonitor out an s of
        None \<Rightarrow> None
      | Some (lg, s') \<Rightarrow> map_option (\<lambda>(lgs, s''). (lg # lgs, s'')) (pulls xs s'))"

section \<open>A small surrounding\<close>

text \<open>Used by the examples: a panel that answers with a bare node and one user, and nothing to go wrong outside.\<close>

definition ex_out :: "('s, 'e) server \<Rightarrow> ('s, 'e, unit, unit) outside" where
  "ex_out srv =
     \<lparr>ou_server = srv, ou_compile = (\<lambda>_. None), ou_letter = (\<lambda>_. False), ou_hash = (\<lambda>_. ''h''), ou_exist = (\<lambda>_. True),
      ou_selfSign = (\<lambda>_ _ _. None), ou_order = fst (demo_placing 0), ou_issue = (\<lambda>_. None), ou_load = (\<lambda>_ _. Inr ()),
      ou_listen = None, ou_now = 0\<rparr>"

definition ex_user :: UserInfo where
  "ex_user = \<lparr>u_Id = 1, u_Uuid = ''u'', u_SpeedLimit = 0, u_DeviceLimit = 0\<rparr>"

definition ex_answers :: answers where
  "ex_answers =
     \<lparr>an_node = Inr (Some \<lparr>rs_Status = 200, rs_ETag = [], rs_Body = Some (JObj [])\<rparr>),
      an_users = Some (\<lparr>ur_Status = 200, ur_ETag = [], ur_Msgpack = True, ur_Packed = Some [ex_user], ur_Stream = []\<rparr>, None),
      an_alive = None\<rparr>"

definition ex_client :: Client where
  "ex_client =
     \<lparr>cl_APIHost = ''p'', cl_NodeId = 1, cl_NodeType = ''shadowsocks'',
      cl_node = \<lparr>nodeEtag = [], nodeConfigHash = [], nodeCacheVersion = 0, nodeRetryVersion = 0\<rparr>, cl_userEtag = [],
      cl_alive = \<lparr>ac_AliveMap = None, ac_aliveUpdate = False, ac_kickedUpdate = False\<rparr>\<rparr>"

definition ex_world :: "'s \<Rightarrow> ('s, unit) world" where
  "ex_world s =
     \<lparr>wd_server = s, wd_limiters = [(''n'', 0)], wd_heap = (\<lambda>_. AddLimiter ''n'' 0 [] []), wd_made = 1, wd_disabled = None,
      wd_orders = ([], []), wd_redirect = None\<rparr>"

end
