(* ===== verification/Node_Dark.thy ===== *)
theory Node_Dark
  imports Node_Pull
begin

text \<open>
  What a failed reload leads to when several cores run behind a selector: the node is taken off the core first, and
  from then on every pull fails where it tries to take it off again.
\<close>

section \<open>A node the selector does not have\<close>

definition dark :: "('c Selector, 'k) node_state \<Rightarrow> bool" where
  "dark s = (case s of (c, p, w) \<Rightarrow> map_of (sl_nodes (wd_server w)) (ct_tag c) = None)"

lemma dark_calls:
  assumes "map_of (sl_nodes s) tag = None"
  shows "DelNode api s tag = (Some NoNode, s)" "DelUsers api s us tag info = (Some NoNode, s)"
    "aup_Tag q = tag \<Longrightarrow> AddUsers api s q = (Inl NoNode, s)"
  using assms by (simp_all add: DelNode_def DelUsers_def AddUsers_def)

lemma selector_server_simps [simp]:
  "sv_AddNode (selector_server h api) = (\<lambda>tag info option s. AddNode h api s tag info option)"
  "sv_DelNode (selector_server h api) = (\<lambda>tag s. DelNode api s tag)"
  "sv_AddUsers (selector_server h api) = (\<lambda>params s. AddUsers api s params)"
  "sv_DelUsers (selector_server h api) = (\<lambda>users tag info s. DelUsers api s users tag info)"
  "sv_ArtX (selector_server h api) = None"
  by (simp_all add: selector_server_def)

lemma selector_no_artx [simp]:
  "publishArtXUserRates (selector_server h api) s = snd s"
  "clearArtXUserRatesForTag (selector_server h api) tag w = w"
  "retierArtXFlowControl (selector_server h api) n s = (False, snd s)"
  "startArtXPressureSampler (selector_server h api) i s = s"
  by (simp_all add: publishArtXUserRates_def clearArtXUserRatesForTag_def retierArtXFlowControl_def
      startArtXPressureSampler_def artXFlowControlProvider_def split: prod.split)

lemma update_users_dark:
  assumes "update_users out newU newA (c, p, w) = Some (lg, (c', p', w'))"
    "ou_server out = selector_server h api" "dark (c, p, w)"
  shows "dark (c', p', w') \<and> ct_tag c' = ct_tag c \<and> lg \<noteq> Reloaded"
proof -
  obtain c1 w1 where s: "setAliveMap newA (c, w) = (c1, w1)" by (cases "setAliveMap newA (c, w)")
  have k: "ct_tag c1 = ct_tag c" "wd_server w1 = wd_server w"
    using setAliveMap_same [of "(c, w)" newA] unfolding s by (simp_all add: same_node_def)
  have d: "map_of (sl_nodes (wd_server w1)) (ct_tag c1) = None" using assms(3) k by (simp add: dark_def)
  show ?thesis
    using assms(1) k d
    by (auto simp: update_users_def s assms(2) dark_calls dark_def Let_def split: option.splits if_splits)
qed

lemma reload_dark:
  assumes "ou_server out = selector_server h api" "dark (c, p, w)"
  shows "\<exists>c' p'. reload out n newU newA (c, p, w) = Some (DeleteNodeFailed, (c', p', w)) \<and> ct_tag c' = ct_tag c"
  using assms(2) by (simp add: reload_def assms(1) dark_def dark_calls Let_def)

text \<open>With a selector a pull never changes the flow control in place.\<close>

lemma apply_pull_selector:
  assumes "ou_server out = selector_server h api"
  shows "apply_pull out newN newU newA (c, p, w) =
    (case newN of
       None \<Rightarrow> update_users out newU newA (c, p, w)
     | Some n \<Rightarrow>
         if deviceLimitOnlyChange (ct_info c) (Some n)
         then (case applyDeviceLimitInPlace n (c\<lparr>ct_info := Some n\<rparr>, w) of
                 None \<Rightarrow> None
               | Some w \<Rightarrow> update_users out newU newA (c\<lparr>ct_info := Some n\<rparr>, p, w))
         else reload out n newU newA (c, p, w))"
  by (cases newN) (simp_all add: apply_pull_def assms Let_def)

lemma apply_pull_dark:
  assumes "apply_pull out newN newU newA (c, p, w) = Some (lg, (c', p', w'))"
    "ou_server out = selector_server h api" "dark (c, p, w)"
  shows "dark (c', p', w') \<and> ct_tag c' = ct_tag c \<and> lg \<noteq> Reloaded"
proof (cases "\<exists>n. newN = Some n \<and> \<not> deviceLimitOnlyChange (ct_info c) (Some n)")
  case True
  then obtain n where "reload out n newU newA (c, p, w) = Some (lg, (c', p', w'))"
    using assms(1) by (auto simp: apply_pull_selector [OF assms(2)])
  then show ?thesis using reload_dark [OF assms(2,3), of n newU newA] assms(3) by (auto simp: dark_def)
next
  case False
  show ?thesis
  proof (cases newN)
    case None
    then show ?thesis using assms(1) update_users_dark [OF _ assms(2,3)] by (simp add: apply_pull_selector [OF assms(2)])
  next
    case (Some n)
    then obtain w2 where w2: "applyDeviceLimitInPlace n (c\<lparr>ct_info := Some n\<rparr>, w) = Some w2"
        "update_users out newU newA (c\<lparr>ct_info := Some n\<rparr>, p, w2) = Some (lg, (c', p', w'))"
      using assms(1) False by (auto simp: apply_pull_selector [OF assms(2)] split: option.splits)
    have "dark (c\<lparr>ct_info := Some n\<rparr>, p, w2)"
      using assms(3) applyDeviceLimitInPlace_frame [OF w2(1)] by (simp add: dark_def)
    then show ?thesis using update_users_dark [OF w2(2) assms(2)] by simp
  qed
qed

lemma pull_dark:
  assumes "nodeInfoMonitor out an (c, p, w) = Some (lg, (c', p', w'))"
    "ou_server out = selector_server h api" "dark (c, p, w)"
  shows "dark (c', p', w') \<and> ct_tag c' = ct_tag c \<and> lg \<noteq> Reloaded"
  using assms(1)
proof (cases rule: pull_cases)
  case (applied p1 newN p2 newU p3 calls newA c1 w1)
  then have "dark (c1, p3, w1)" "ct_tag c1 = ct_tag c" using assms(3) by (simp_all add: dark_def same_node_def)
  then show ?thesis using apply_pull_dark [OF applied(6) assms(2)] by simp
qed (use assms(3) in \<open>simp_all add: dark_def\<close>)

section \<open>A reload that fails\<close>

lemma update_users_log: "update_users out newU newA s = Some (lg, s') \<Longrightarrow> lg \<noteq> ReloadFailed e"
  by (cases s) (auto simp: update_users_def Let_def split: prod.splits option.splits sum.splits if_splits)

lemma on_core_nodes: "on_core s name f = Some (r, s') \<Longrightarrow> sl_nodes s' = sl_nodes s"
  by (auto simp: on_core_def Let_def split: option.splits prod.splits)

lemma core_result_nodes:
  assumes "core_result (on_core s name f) s = (e, s')"
  shows "sl_nodes s' = sl_nodes s"
proof (cases "on_core s name f")
  case (Some y)
  obtain r t where y: "y = (r, t)" by (cases y)
  then show ?thesis using assms Some on_core_nodes [of s name f r t] by (simp add: core_result_def)
qed (use assms in \<open>simp add: core_result_def\<close>)

lemma AddNode_failed_nodes:
  fixes api :: "('c, 'e) Core"
  assumes "AddNode h api s tag info option = (Some e, s', option')"
  shows "sl_nodes s' = sl_nodes s"
proof (cases "selectCore api s info option")
  case (Inr name)
  obtain e1 :: "'e sel_error option" and o1 where o1: "settle_options h (core_type api s name) option = (e1, o1)"
    by fastforce
  obtain e2 s2 where s2: "core_result (on_core s name (c_AddNode api tag info o1)) s = (e2, s2)"
    by (cases "core_result (on_core s name (c_AddNode api tag info o1)) s")
  show ?thesis
    using assms Inr o1 s2 core_result_nodes [OF s2] by (cases e1; cases e2) (simp_all add: AddNode_def)
qed (use assms in \<open>simp add: AddNode_def\<close>)

lemma DelNode_nodes:
  assumes "DelNode api s tag = (None, s')"
  shows "sl_nodes s' = AList.delete tag (sl_nodes s)"
proof (cases "map_of (sl_nodes s) tag")
  case (Some name)
  obtain e2 s2 where s2: "core_result (on_core s name (c_DelNode api tag)) s = (e2, s2)"
    by (cases "core_result (on_core s name (c_DelNode api tag)) s")
  show ?thesis using assms Some s2 core_result_nodes [OF s2] by (cases e2) (auto simp: DelNode_def)
qed (use assms in \<open>simp add: DelNode_def\<close>)

lemma request_cert_server: "wd_server (snd (request_cert out n (c, w))) = wd_server w"
  by (simp add: request_cert_def split: prod.split)

lemma bring_up_failed_nodes:
  assumes "bring_up out n (c, w) = (Some e, (c', w'))" "e \<noteq> StartUsersFailed" "ou_server out = selector_server h api"
  shows "sl_nodes (wd_server w') = sl_nodes (wd_server w) \<and> ct_tag c' = ct_tag c"
proof -
  obtain ok w1 where w1: "(if ni_Security n = 1 then request_cert out n (c, w) else (True, w)) = (ok, w1)" by fastforce
  then have s1: "wd_server w1 = wd_server w" using request_cert_server [of out n c w] by (auto split: if_splits)
  show ?thesis
  proof (cases ok)
    case False
    then show ?thesis using assms(1) s1 by (simp add: bring_up_def w1)
  next
    case True
    let ?w = "prepareHTTPSRedirect n (c, w1)"
    obtain e1 s2 o2 where add: "AddNode h api (wd_server ?w) (ct_tag c) n (ct_Options c) = (e1, s2, o2)" by (metis prod_cases3)
    have sw: "wd_server ?w = wd_server w" using s1 by (simp add: prepareHTTPSRedirect_def)
    show ?thesis
    proof (cases e1)
      case None
      then show ?thesis
        using assms add True by (auto simp: bring_up_def w1 Let_def split: prod.splits sum.splits)
    next
      case (Some x)
      then have "sl_nodes s2 = sl_nodes (wd_server w)" using AddNode_failed_nodes add sw by metis
      then show ?thesis using assms add True Some by (auto simp: bring_up_def w1 Let_def)
    qed
  qed
qed

lemma reload_failed_dark:
  assumes "reload out n newU newA (c, p, w) = Some (ReloadFailed e, (c', p', w'))" "e \<noteq> StartUsersFailed"
    "ou_server out = selector_server h api"
    "ct_tag c' = ct_tag c \<or> map_of (sl_nodes (wd_server w)) (ct_tag c') = None"
  shows "dark (c', p', w')"
proof -
  let ?c = "c\<lparr>ct_info := Some n, ct_userList := (case newU of None \<Rightarrow> ct_userList c | Some us \<Rightarrow> us), ct_traffic := []\<rparr>"
  obtain r s where del: "DelNode api (wd_server w) (ct_tag c) = (r, s)" by fastforce
  with assms(1) have r: "r = None" by (cases r) (auto simp: reload_def assms(3) Let_def)
  let ?c1 = "if op_Name (ct_Options ?c) = [] then ?c\<lparr>ct_tag := buildNodeTag p n\<rparr> else ?c"
  let ?w1 = "w\<lparr>wd_server := s, wd_limiters := AList.delete (ct_tag c) (wd_limiters w)\<rparr>"
  obtain a w2 where inst: "install_limiter n newA (?c1, ?w1) = (a, w2)" by fastforce
  obtain c3 w3 where al: "setAliveMap newA (?c1\<lparr>ct_limiter := Some a\<rparr>, w2) = (c3, w3)" by fastforce
  have s3: "wd_server w3 = s"
    using setAliveMap_same [of "(?c1\<lparr>ct_limiter := Some a\<rparr>, w2)" newA] inst unfolding al
    by (auto simp: same_node_def install_limiter_def Let_def)
  obtain w4 where w4: "update_rules (ou_compile out) n a w3 = Some w4" and b: "bring_up out n (c3, w4) = (Some e, (c', w'))"
    using assms(1) r del inst al
    by (auto simp: reload_def assms(3) Let_def split: option.splits prod.splits if_splits)
  have "wd_server w4 = s" using w4 s3 by (auto simp: update_rules_def)
  with bring_up_failed_nodes [OF b assms(2,3)] have "sl_nodes (wd_server w') = sl_nodes s" by simp
  also have "\<dots> = AList.delete (ct_tag c) (sl_nodes (wd_server w))" using DelNode_nodes del r by metis
  finally show ?thesis using assms(4) by (auto simp: dark_def)
qed

lemma pulls_dark:
  assumes "dark s" "list_all (\<lambda>(out, _). ou_server out = selector_server h api) xs" "pulls xs s = Some (lgs, s')"
  shows "dark s' \<and> Reloaded \<notin> set lgs"
  using assms
proof (induction xs arbitrary: s lgs)
  case (Cons x xs)
  obtain out an where x: "x = (out, an)" by (cases x)
  obtain c p w where s: "s = (c, p, w)" by (metis prod_cases3)
  from Cons.prems(3) x obtain lg s1 lgs1 where
    1: "nodeInfoMonitor out an s = Some (lg, s1)" "pulls xs s1 = Some (lgs1, s')" "lgs = lg # lgs1"
    by (auto split: option.splits prod.splits)
  obtain c1 p1 w1 where s1: "s1 = (c1, p1, w1)" by (metis prod_cases3)
  have "dark s1 \<and> lg \<noteq> Reloaded"
    using pull_dark [of out an c p w lg c1 p1 w1] 1(1) Cons.prems(1,2) s s1 x by auto
  then show ?case using Cons.IH [of s1 lgs1] Cons.prems(2) 1(2,3) by auto
qed simp

text \<open>
  C6. Behind a selector, a reload that fails after the old node was removed is final. Whatever the panel answers and
  whatever the cores would accept from then on, no later pull brings the node back: it stays unknown to the selector,
  although \<^verbatim>\<open>abortReload\<close> says that the next pull retries. (Every pull begins with removing the node, and the selector
  refuses to remove one it does not have. A reload that fails only when adding the users is not affected.)
\<close>

theorem failed_reload_is_final:
  assumes "nodeInfoMonitor out an (c, p, w) = Some (ReloadFailed e, (c', p', w'))" "startStageOf e = StageCert \<or> e = AddNodeFailed"
    and "ou_server out = selector_server h api"
    and "ct_tag c' = ct_tag c \<or> map_of (sl_nodes (wd_server w)) (ct_tag c') = None"
    and "list_all (\<lambda>(out, _). ou_server out = selector_server h api) later" "pulls later (c', p', w') = Some (lgs, s)"
  shows "dark s \<and> Reloaded \<notin> set lgs"
proof -
  have e: "e \<noteq> StartUsersFailed" using assms(2) by (auto simp: startStageOf_def)
  have "dark (c', p', w')"
    using assms(1)
  proof (cases rule: pull_cases)
    case (applied p1 newN p2 newU p3 calls newA c1 w1)
    from applied(6) obtain n where n: "reload out n newU newA (c1, p3, w1) = Some (ReloadFailed e, (c', p', w'))"
      by (auto simp: apply_pull_selector [OF assms(3)] split: option.splits if_splits dest: update_users_log)
    have "ct_tag c' = ct_tag c1 \<or> map_of (sl_nodes (wd_server w1)) (ct_tag c') = None"
      using assms(4) applied(5) by (simp add: same_node_def)
    then show ?thesis using reload_failed_dark [OF n e assms(3)] by blast
  qed simp_all
  then show ?thesis using pulls_dark assms(5,6) by blast
qed

section \<open>A core that refuses a node once\<close>

text \<open>A core that refuses its first node and accepts every later one.\<close>

definition refusing_core :: "(nat, string) Core" where
  "refusing_core =
     \<lparr>c_Start = (\<lambda>s. (None, s)), c_Close = (\<lambda>s. (None, s)),
      c_AddNode = (\<lambda>tag info option s. (if s = 0 then Some ''refused'' else None, Suc s)),
      c_DelNode = (\<lambda>tag s. (None, s)), c_AddUsers = (\<lambda>q s. (Inr 0, s)),
      c_GetUserTrafficSlice = (\<lambda>tag reset s. (Inr [], s)), c_DelUsers = (\<lambda>us tag info s. (None, s)),
      c_Protocols = (\<lambda>_. [''shadowsocks'']), c_Type = (\<lambda>_. ''sing''), c_RuntimeStats = (\<lambda>_. None)\<rparr>"

definition serving :: "(nat Selector, unit) node_state" where
  "serving =
     ((NewController (Options_default\<lparr>op_Name := ''n''\<rparr>))\<lparr>ct_tag := ''n'', ct_limiter := Some 0, ct_info := Some (new_node 2 ''shadowsocks'')\<rparr>,
      ex_client,
      ex_world \<lparr>sl_cores = [(''s'', 0)], sl_nodes = [(''n'', ''s'')]\<rparr>)"

lemma serving_fails:
  "map_option (\<lambda>(lg, c', p', w'). (lg, ct_tag c')) (nodeInfoMonitor (ex_out (selector_server small_host refusing_core)) ex_answers serving)
     = Some (ReloadFailed AddNodeFailed, ''n'')"
  by code_simp

lemma serving_later:
  "map_option fst (pulls (replicate 3 (ex_out (selector_server small_host refusing_core), ex_answers)) serving)
     = Some [ReloadFailed AddNodeFailed, DeleteNodeFailed, DeleteNodeFailed]"
  by code_simp

theorem failed_reload_is_final_witness:
  "\<exists>s1 s. nodeInfoMonitor (ex_out (selector_server small_host refusing_core)) ex_answers serving = Some (ReloadFailed AddNodeFailed, s1) \<and>
    pulls (replicate 2 (ex_out (selector_server small_host refusing_core), ex_answers)) s1 = Some ([DeleteNodeFailed, DeleteNodeFailed], s) \<and>
    dark s"
proof -
  let ?o = "ex_out (selector_server small_host refusing_core)"
  obtain c p w where s: "serving = (c, p, w)" by (metis prod_cases3)
  obtain c' p' w' where 1: "nodeInfoMonitor ?o ex_answers (c, p, w) = Some (ReloadFailed AddNodeFailed, (c', p', w'))"
    and tag: "ct_tag c' = ''n''" using serving_fails unfolding s by (auto split: prod.splits)
  have c: "ct_tag c = ''n''" using s by (auto simp: serving_def)
  obtain s2 where 2: "pulls (replicate 2 (?o, ex_answers)) (c', p', w') = Some ([DeleteNodeFailed, DeleteNodeFailed], s2)"
    using serving_later 1 unfolding s by (auto simp: numeral_3_eq_3 numeral_2_eq_2 split: prod.splits option.splits)
  have "dark s2"
    using failed_reload_is_final [OF 1 _ _ _ _ 2, of small_host refusing_core] tag c by (simp add: ex_out_def numeral_2_eq_2)
  then show ?thesis using 1 2 unfolding s by blast
qed

end
