(* ===== verification/Node_Start.thy ===== *)
theory Node_Start
  imports Node_Dark
begin

text \<open>
  All nodes of a process, \<^verbatim>\<open>src/node/node.go\<close>: \<^verbatim>\<open>Node.Start\<close> tries every configured node once and leaves those that
  fail to a loop that retries in the background, \<^verbatim>\<open>Node.Close\<close> takes all of them down. The DDNS
  workers, which \<^verbatim>\<open>Start\<close> runs first, are in the theory \<open>Ddns\<close>; here their result is an argument.
  Retries of several nodes interleave with each other, but a controller is started under no lock and shares only the
  world; the model gives the rounds of one loop one after the other.
\<close>

section \<open>State\<close>

record ('s, 'k) Node =
  nd_world :: "('s, 'k) world"
  nd_controllers :: "(Controller \<times> Client) list"

record StartFailure =
  sf_Index :: nat
  sf_Stage :: StartStage
  sf_Err :: start_error

definition nodeStartRetryBase :: int where "nodeStartRetryBase = 30 * Clock.second"
definition nodeStartRetryMax :: int where "nodeStartRetryMax = 5 * minute"

definition nodeStartRetryDelay :: "nat \<Rightarrow> int" where
  "nodeStartRetryDelay attempt = min (backoff_loop nodeStartRetryMax attempt 1 nodeStartRetryBase) nodeStartRetryMax"

section \<open>Starting one node\<close>

text \<open>\<open>ended\<close> says whether the context was cancelled when the controller was up.\<close>

definition startController ::
  "('s, 'e, 'p, 'k) outside \<Rightarrow> answers \<Rightarrow> bool \<Rightarrow> Options \<Rightarrow> Client \<Rightarrow> ('s, 'k) Node
     \<Rightarrow> (start_error option \<times> Options \<times> Client \<times> ('s, 'k) Node) option" where
  "startController out an ended opts p n =
     (case Controller_Start out an (NewController opts, p, nd_world n) of
        None \<Rightarrow> None
      | Some (Some e, st) \<Rightarrow>
          (case Controller_Close (ou_server out) st of
             (_, (c, p, w)) \<Rightarrow> Some (Some e, ct_Options c, p, n\<lparr>nd_world := w\<rparr>))
      | Some (None, st) \<Rightarrow>
          if ended then
            (case Controller_Close (ou_server out) st of
               (_, (c, p, w)) \<Rightarrow> Some (None, ct_Options c, p, n\<lparr>nd_world := w\<rparr>))
          else
            (case st of (c, p, w) \<Rightarrow>
               Some (None, ct_Options c, p, n\<lparr>nd_world := w, nd_controllers := nd_controllers n @ [(c, p)]\<rparr>)))"




section \<open>Starting and closing all nodes\<close>

text \<open>The result is the failures and, for each of them, what its retry loop goes on with.\<close>

fun start_nodes ::
  "nat \<Rightarrow> (('s, 'e, 'p, 'k) outside \<times> answers) list \<Rightarrow> (Client \<times> Options) list \<Rightarrow> ('s, 'k) Node
     \<Rightarrow> (StartFailure list \<times> (Client \<times> Options) list \<times> ('s, 'k) Node) option" where
  "start_nodes i ((out, an) # xs) ((p, opts) # ps) n =
     (case startController out an False opts p n of
        None \<Rightarrow> None
      | Some (e, opts, p, n) \<Rightarrow>
          (case start_nodes (Suc i) xs ps n of
             None \<Rightarrow> None
           | Some (fs, retries, n) \<Rightarrow>
               (case e of
                  None \<Rightarrow> Some (fs, retries, n)
                | Some err \<Rightarrow>
                    Some (\<lparr>sf_Index = i, sf_Stage = startStageOf err, sf_Err = err\<rparr> # fs, (p, opts) # retries, n))))"
| "start_nodes i _ _ n = Some ([], [], n)"

fun build_clients :: "NodeConfig list \<Rightarrow> (string + (Client \<times> Options) list)" where
  "build_clients [] = Inr []"
| "build_clients (c # cs) =
     (case panel_New (nc_ApiConfig c) of
        Inl err \<Rightarrow> Inl err
      | Inr (p, _) \<Rightarrow> (case build_clients cs of Inl err \<Rightarrow> Inl err | Inr ps \<Rightarrow> Inr ((p, nc_Options c) # ps)))"

definition Node_Start ::
  "string option \<Rightarrow> (('s, 'e, 'p, 'k) outside \<times> answers) list \<Rightarrow> NodeConfig list \<Rightarrow> ('s, 'k) Node
     \<Rightarrow> (string + StartFailure list \<times> (Client \<times> Options) list) option \<times> ('s, 'k) Node" where
  "Node_Start ddns xs nodes n =
     (case build_clients nodes of
        Inl err \<Rightarrow> (Some (Inl err), n)
      | Inr ps \<Rightarrow>
          (case ddns of
             Some err \<Rightarrow> (Some (Inl err), n)
           | None \<Rightarrow>
               (case start_nodes 0 xs ps n of
                  None \<Rightarrow> (None, n)
                | Some (fs, retries, n) \<Rightarrow> (Some (Inr (fs, retries)), n))))"

text \<open>A controller that cannot be closed panics.\<close>

fun close_controllers ::
  "('s, 'e) server \<Rightarrow> (Controller \<times> Client) list \<Rightarrow> ('s, 'k) world \<Rightarrow> ('s, 'k) world option" where
  "close_controllers srv [] w = Some w"
| "close_controllers srv ((c, p) # cs) w =
     (case Controller_Close srv (c, p, w) of
        (Some _, _) \<Rightarrow> None
      | (None, (_, _, w)) \<Rightarrow> close_controllers srv cs w)"

definition Node_Close :: "('s, 'e) server \<Rightarrow> ('s, 'k) Node \<Rightarrow> ('s, 'k) Node option" where
  "Node_Close srv n =
     (let w = (nd_world n)\<lparr>wd_redirect := map_option Redirect_Close (wd_redirect (nd_world n))\<rparr>
      in map_option (\<lambda>w. n\<lparr>nd_world := w, nd_controllers := []\<rparr>) (close_controllers srv (nd_controllers n) w))"

section \<open>The delay between retries\<close>

theorem nodeStartRetryDelay_exact:
  "0 < attempt \<Longrightarrow> nodeStartRetryDelay attempt = min (nodeStartRetryBase * 2 ^ (attempt - 1)) nodeStartRetryMax"
  using doublingBackoff_power [of nodeStartRetryBase nodeStartRetryMax attempt]
  by (simp add: nodeStartRetryDelay_def doublingBackoff_def nodeStartRetryBase_def nodeStartRetryMax_def clock_units)

section \<open>Retries with the panel unchanged\<close>
















section \<open>Closing a dark node\<close>

lemma close_dark:
  assumes "map_of (sl_nodes (wd_server w)) (ct_tag c) = None" "(c, p) \<in> set cs"
  shows "close_controllers (selector_server h api) cs w = None"
  using assms
proof (induction cs arbitrary: w)
  case (Cons x cs)
  obtain d q where x: "x = (d, q)" by (cases x)
  obtain e s where del: "DelNode api (wd_server w) (ct_tag d) = (e, s)" by fastforce
  have close: "\<exists>c' q' w'. Controller_Close (selector_server h api) (d, q, w) = (e, (c', q', w')) \<and> wd_server w' = s"
    using del by (simp add: Controller_Close_def Let_def stopArtXPressureSampler_def)
  show ?case
  proof (cases "e = None")
    case False
    then show ?thesis using close x by auto
  next
    case True
    have "(c, p) \<noteq> x"
      using Cons.prems(1) x del True by (auto simp: DelNode_def)
    moreover have "map_of (sl_nodes s) (ct_tag c) = None"
      using DelNode_nodes [of api "wd_server w" "ct_tag d" s] del True Cons.prems(1) by simp
    ultimately show ?thesis using Cons.IH Cons.prems(2) close x True by auto
  qed
qed simp

text \<open>
  Closing the nodes, which a reload of the configuration does too, panics when one of them is not known to the selector:
  what a failed reload leaves behind ends the process at the next change of the configuration.
\<close>

theorem Node_Close_panics:
  assumes "(c, p) \<in> set (nd_controllers n)" "dark (c, p, nd_world n)"
  shows "Node_Close (selector_server h api) n = None"
  using close_dark [of "(nd_world n)\<lparr>wd_redirect := map_option Redirect_Close (wd_redirect (nd_world n))\<rparr>" c p "nd_controllers n"] assms
  by (simp add: Node_Close_def Let_def dark_def)

end
