(* ===== verification/Node_Sync.thy ===== *)
theory Node_Sync
  imports Node_Pull
begin

text \<open>
  What a pull achieves. A node is in sync when the core, the limiter and the controller agree: the core serves exactly
  the users of the controller's list under the node's tag, the limiter the table has under that tag is the
  controller's and knows exactly these users, and it applies the device policy of the node's settings. What is relied
  on of the core is the contract \<open>user_contract\<close>; a selector keeps it when its cores do.
\<close>

section \<open>The contract of a core\<close>












section \<open>Agreement\<close>

definition policy_of :: "NodeInfo \<Rightarrow> Limiter \<Rightarrow> Limiter" where
  "policy_of n l = SetIgnoredPrefixes (ni_DeviceLimitIgnoredIPs n) (SetDeviceTolerance (ni_DeviceLimitTolerance n) l)"










lemma policy_knows [simp]: "knows (policy_of n l) tag us = knows l tag us"
  by (simp add: policy_of_def SetIgnoredPrefixes_def SetDeviceTolerance_def knows_def)



lemma UpdateUser_nothing [simp]: "UpdateUser tag [] [] l = l"
  by (simp add: UpdateUser_def)


section \<open>A pull that keeps the node\<close>

lemma publish_frame [simp]:
  "wd_limiters (publishArtXUserRates srv s) = wd_limiters (snd s)" "wd_heap (publishArtXUserRates srv s) = wd_heap (snd s)"
  by (cases s; simp add: publishArtXUserRates_def split: option.split)+



section \<open>A pull that rebuilds the node\<close>





lemma refresh_frame [simp]:
  "wd_heap (refreshHTTPSRedirect out n s) = wd_heap (snd s)" "wd_limiters (refreshHTTPSRedirect out n s) = wd_limiters (snd s)"
  "wd_server (refreshHTTPSRedirect out n s) = wd_server (snd s)"
  by (cases s; simp add: refreshHTTPSRedirect_def)+



section \<open>A whole pull\<close>







section \<open>A change that is lost\<close>

text \<open>
  C36. A change of the node's settings is lost when the same pull cannot fetch the users. The settings are not applied,
  but the client has stored their hash: every later pull that gets the same settings takes them for unchanged and
  leaves the controller with the old ones.
\<close>

theorem change_lost_with_users:
  assumes "nodeInfoMonitor out an (c, p, w) = Some (UserFetchFailed, (c1, p1, w1))"
    and "an_node an = Inr (Some r)" "GetNodeInfo (ou_letter out) (ou_hash out) (an_node an) p = (q, Inr (Some n))"
    and "ou_letter out' = ou_letter out" "ou_hash out' = ou_hash out" "an_node an' = an_node an"
    and "nodeInfoMonitor out' an' (c1, p1, w1) = Some (lg, (c2, p2, w2))"
  shows "ct_info c2 = ct_info c \<and> lg \<noteq> Reloaded"
proof -
  have 1: "c1 = c" "w1 = w" "cl_node p1 = cl_node q" "cl_NodeId p1 = cl_NodeId p" "cl_NodeType p1 = cl_NodeType p"
  proof -
    obtain p2 e where "fetch_users (an_users an) q = (p2, Inl e)" "(c1, p1, w1) = (c, p2, w)"
      using assms(1)
    proof (cases rule: pull_cases)
      case (users_failed a b d e)
      then show ?thesis using that assms(3) by auto
    next
      case (applied a b d u f calls newA g h)
      from applied(6) have False
        by (auto simp: apply_pull_def update_users_def reload_def Let_def split: prod.splits option.splits sum.splits if_splits)
      then show ?thesis ..
    qed simp
    then show "c1 = c" "w1 = w" "cl_node p1 = cl_node q" "cl_NodeId p1 = cl_NodeId p" "cl_NodeType p1 = cl_NodeType p"
      using fetch_users_frame [of "an_users an" q] GetNodeInfo_frame(4,5) [of "ou_letter out" "ou_hash out" "an_node an" p] assms(3)
      by auto
  qed
  have stale: "snd (GetNodeInfo (ou_letter out) (ou_hash out) (an_node an) p1) = Inr None"
    using assms(2,3) 1(3-5)
    by (auto simp: GetNodeInfo_def node_response_def node_request_def Let_def split: option.splits sum.splits if_splits prod.splits)
  have upd: "ct_info c' = ct_info d \<and> lg' \<noteq> Reloaded"
    if "update_users out' newU newA (d, p, w) = Some (lg', (c', p', w'))" for d p w newU newA lg' c' p' w'
  proof -
    obtain d1 w1 where s: "setAliveMap newA (d, w) = (d1, w1)" by fastforce
    then have "ct_info d1 = ct_info d" using setAliveMap_same [of "(d, w)" newA] by (simp add: same_node_def)
    then show ?thesis using that
      by (auto simp: update_users_def s Let_def split: prod.splits option.splits sum.splits if_splits)
  qed
  show ?thesis
    using assms(7)
  proof (cases rule: pull_cases)
    case (applied q1 n2 q2 u2 q3 calls newA c3 w3)
    have "n2 = None" using stale applied(1) unfolding assms(4-6) by simp
    then have "update_users out' u2 newA (c3, q3, w3) = Some (lg, (c2, p2, w2))" using applied(6) by (simp add: apply_pull_def)
    then show ?thesis using upd applied(5) 1(1) by (simp add: same_node_def)
  qed (use 1 in auto)
qed

section \<open>A core that keeps users\<close>

text \<open>A core whose state is the list of tags and users it serves.\<close>

definition keeping_core :: "((string \<times> string) list, string) Core" where
  "keeping_core =
     \<lparr>c_Start = (\<lambda>s. (None, s)), c_Close = (\<lambda>s. (None, s)),
      c_AddNode = (\<lambda>tag info option s. (None, filter (\<lambda>(t, u). t \<noteq> tag) s)),
      c_DelNode = (\<lambda>tag s. (None, filter (\<lambda>(t, u). t \<noteq> tag) s)),
      c_AddUsers = (\<lambda>q s. (Inr (int (length (aup_Users q))), s @ map (\<lambda>u. (aup_Tag q, u_Uuid u)) (aup_Users q))),
      c_GetUserTrafficSlice = (\<lambda>tag reset s. (Inr [], s)),
      c_DelUsers = (\<lambda>us tag info s. (None, filter (\<lambda>(t, u). \<not> (t = tag \<and> u \<in> set (map u_Uuid us))) s)),
      c_Protocols = (\<lambda>_. [''shadowsocks'']), c_Type = (\<lambda>_. ''sing''), c_RuntimeStats = (\<lambda>_. None)\<rparr>"



definition settled :: "((string \<times> string) list Selector, unit) node_state" where
  "settled =
     ((NewController (Options_default\<lparr>op_Name := ''n''\<rparr>))\<lparr>ct_tag := ''n'', ct_limiter := Some 0, ct_info := Some (new_node 2 ''shadowsocks'')\<rparr>,
      ex_client,
      (ex_world \<lparr>sl_cores = [(''s'', [])], sl_nodes = [(''n'', ''s'')]\<rparr>)
        \<lparr>wd_heap := (\<lambda>_. policy_of (new_node 2 ''shadowsocks'') (AddLimiter ''n'' 0 [] []))\<rparr>)"


definition settled_out :: "((string \<times> string) list Selector, string sel_error, unit, unit) outside" where
  "settled_out = ex_out (selector_server small_host keeping_core)"

lemma settled_pulls:
  "map_option fst (nodeInfoMonitor settled_out ex_answers settled) = Some Reloaded"
  "map_option fst (pulls [(settled_out, ex_answers\<lparr>an_users := None\<rparr>), (settled_out, ex_answers)] settled) = Some [UserFetchFailed, UsersUpdated]"
  by code_simp+

lemma ex_fetch:
  "\<exists>q n. GetNodeInfo (ou_letter settled_out) (ou_hash settled_out) (an_node ex_answers) ex_client = (q, Inr (Some n))"
proof -
  obtain n where "build_node (\<lambda>_. False) 1 ''shadowsocks'' (Some (JObj [])) = Inr n"
    by (simp add: build_node_def decode_params_def decode_Shadowsocks_def into_struct_def ShadowsocksNode_zero_def
        CommonNode_zero_def set_intervals_def Let_def)
  then show ?thesis
    by (simp add: settled_out_def ex_out_def ex_answers_def ex_client_def GetNodeInfo_def node_response_def node_request_def
        checkResponse_def Let_def)
qed

lemma settled_client: "settled = (c, p, w) \<Longrightarrow> p = ex_client \<and> ct_info c = Some (new_node 2 ''shadowsocks'')"
  by (simp add: settled_def) auto


theorem change_lost_with_users_witness:
  "\<exists>c1 p1 w1 c2 p2 w2.
     nodeInfoMonitor settled_out (ex_answers\<lparr>an_users := None\<rparr>) settled = Some (UserFetchFailed, (c1, p1, w1)) \<and>
     nodeInfoMonitor settled_out ex_answers (c1, p1, w1) = Some (UsersUpdated, (c2, p2, w2)) \<and>
     ct_info c2 = Some (new_node 2 ''shadowsocks'')"
proof -
  obtain c p w where s: "settled = (c, p, w)" by (metis prod_cases3)
  let ?an = "ex_answers\<lparr>an_users := None\<rparr>"
  obtain c1 p1 w1 c2 p2 w2 where 1: "nodeInfoMonitor settled_out ?an (c, p, w) = Some (UserFetchFailed, (c1, p1, w1))"
      "nodeInfoMonitor settled_out ex_answers (c1, p1, w1) = Some (UsersUpdated, (c2, p2, w2))"
    using settled_pulls(2) unfolding s by (auto split: option.splits prod.splits)
  obtain q n where f: "GetNodeInfo (ou_letter settled_out) (ou_hash settled_out) (an_node ?an) p = (q, Inr (Some n))"
    using ex_fetch settled_client [OF s] by auto
  obtain r where r: "an_node ?an = Inr (Some r)" by (simp add: ex_answers_def)
  have "ct_info c2 = ct_info c"
    using change_lost_with_users [OF 1(1) r f _ _ _ 1(2)] by simp
  then show ?thesis using 1 settled_client [OF s] unfolding s by auto
qed

end
