(* ===== verification/Node_Report.thy ===== *)
theory Node_Report
  imports Node_Pull
begin

text \<open>
  What a node reports: traffic and online devices (\<^verbatim>\<open>src/node/user.go\<close>), the dynamic speed limit
  (\<^verbatim>\<open>SpeedChecker\<close> of \<^verbatim>\<open>src/node/task.go\<close>) and the load and runtime metrics (\<^verbatim>\<open>src/node/status.go\<close>, with the
  payloads of \<^verbatim>\<open>src/api/panel/user.go\<close>). The probes of the machine are arguments; a floating point number is a rational
  that has been rounded.
\<close>

section \<open>Traffic and devices\<close>

text \<open>The users whose traffic of this cycle is too small to count them as online the first time.\<close>

definition nocountUID :: "int \<Rightarrow> int list \<Rightarrow> UserTraffic list \<Rightarrow> int list" where
  "nocountUID minTraffic reported userTraffic =
     map t_UID (filter (\<lambda>t. t_UID t \<notin> set reported \<and> i64 (t_Upload t + t_Download t) < i64 (minTraffic * 1000)) userTraffic)"

definition counted_devices :: "int \<Rightarrow> int list \<Rightarrow> UserTraffic list \<Rightarrow> OnlineUser list \<Rightarrow> OnlineUser list" where
  "counted_devices minTraffic reported userTraffic online =
     filter (\<lambda>d. on_UID d \<notin> set (nocountUID minTraffic reported userTraffic)) online"

definition add_device :: "OnlineUser \<Rightarrow> (int, string list) gomap \<Rightarrow> (int, string list) gomap" where
  "add_device d m = AList.update (on_UID d) (mget [] m (on_UID d) @ [on_IP d]) m"

definition add_removal :: "int list \<Rightarrow> int \<Rightarrow> (int, string list) gomap \<Rightarrow> (int, string list) gomap" where
  "add_removal current u m = (if u \<in> set current then m else AList.update u [] m)"

text \<open>The body of a report, and the users it has devices for.\<close>

definition device_report :: "int list \<Rightarrow> OnlineUser list \<Rightarrow> (int, string list) gomap \<times> int list" where
  "device_report reported devs =
     (let data = fold add_device devs []; current = remdups (map on_UID devs)
      in (fold (add_removal current) reported data, current))"

record reports =
  rp_traffic :: "UserTraffic list option"
  rp_online :: "(int, string list) gomap"

text \<open>\<open>onlineOk\<close> says whether the report of the devices was answered without an error.\<close>

definition reportUserTrafficTask ::
  "('s, 'e) server \<Rightarrow> bool \<Rightarrow> ('s, 'k) cw \<Rightarrow> (reports \<times> ('s, 'k) cw) option" where
  "reportUserTrafficTask srv onlineOk = (\<lambda>(c, w).
     case sv_GetUserTrafficSlice srv (ct_tag c) True (wd_server w) of (r, s) \<Rightarrow>
     (let userTraffic = (case r of Inl _ \<Rightarrow> [] | Inr ts \<Rightarrow> ts);
          w = w\<lparr>wd_server := s\<rparr>;
          addedUp = foldl (\<lambda>n t. i64 (n + t_Upload t)) 0 userTraffic;
          addedDown = foldl (\<lambda>n t. i64 (n + t_Download t)) 0 userTraffic;
          c = (if userTraffic = [] then c
               else c\<lparr>ct_totalUploadBytes := i64 (ct_totalUploadBytes c + addedUp),
                      ct_totalDownloadBytes := i64 (ct_totalDownloadBytes c + addedDown)\<rparr>)
      in case ct_limiter c of
           None \<Rightarrow> None
         | Some a \<Rightarrow>
             (case GetOnlineDevice (wd_heap w a) of (l, onlineDevice) \<Rightarrow>
              (let w = w\<lparr>wd_heap := (wd_heap w)(a := l)\<rparr>;
                   devs = counted_devices (op_DeviceOnlineMinTraffic (ct_Options c)) (ct_reportedDeviceUsers c) userTraffic onlineDevice;
                   (data, current) = device_report (ct_reportedDeviceUsers c) devs;
                   c = c\<lparr>ct_reportedDeviceUsers := (if onlineOk then current else List.union current (ct_reportedDeviceUsers c))\<rparr>
               in Some (\<lparr>rp_traffic = (if userTraffic = [] then None else Some userTraffic), rp_online = data\<rparr>, (c, w))))))"

section \<open>What the panel ends up with\<close>

text \<open>
  The panel keeps, for each user, the addresses of the last report that named him; a report that reaches it replaces
  the entries of the users it names. A round is the devices counted, whether the report arrived, and whether its
  acknowledgement came back; an acknowledged report has arrived, an unacknowledged one may have.
\<close>

type_synonym panel_view = "int \<Rightarrow> string list"

definition panel_receives :: "(int, string list) gomap \<Rightarrow> panel_view \<Rightarrow> panel_view" where
  "panel_receives data view = (\<lambda>u. case map_of data u of None \<Rightarrow> view u | Some addrs \<Rightarrow> addrs)"

inductive report_step :: "int list \<times> panel_view \<Rightarrow> OnlineUser list \<times> bool \<times> bool \<Rightarrow> int list \<times> panel_view \<Rightarrow> bool" where
  acknowledged: "device_report reported devs = (data, current) \<Longrightarrow>
     report_step (reported, view) (devs, True, True) (current, panel_receives data view)"
| reply_lost: "device_report reported devs = (data, current) \<Longrightarrow>
     report_step (reported, view) (devs, True, False) (List.union current reported, panel_receives data view)"
| not_sent: "device_report reported devs = (data, current) \<Longrightarrow>
     report_step (reported, view) (devs, False, False) (List.union current reported, view)"


definition report_start :: "int list \<times> panel_view \<Rightarrow> bool" where
  "report_start s \<longleftrightarrow> s = ([], \<lambda>_. [])"

definition report_inv :: "int list \<times> panel_view \<Rightarrow> bool" where
  "report_inv s \<longleftrightarrow> (\<forall>u. snd s u \<noteq> [] \<longrightarrow> u \<in> set (fst s))"

definition addresses :: "OnlineUser list \<Rightarrow> int \<Rightarrow> string list" where
  "addresses devs u = map on_IP (filter (\<lambda>d. on_UID d = u) devs)"

lemma addresses_simps [simp]:
  "addresses [] u = []" "addresses (d # ds) u = (if on_UID d = u then on_IP d # addresses ds u else addresses ds u)"
  by (simp_all add: addresses_def)

lemma addresses_empty: "u \<notin> on_UID ` set devs \<Longrightarrow> addresses devs u = []"
  by (auto simp: addresses_def filter_empty_conv)

lemma add_device_read:
  "map_of (add_device d m) u = (if u = on_UID d then Some (mget [] m u @ [on_IP d]) else map_of m u)"
  "mget [] (add_device d m) u = (if u = on_UID d then mget [] m u @ [on_IP d] else mget [] m u)"
  by (simp_all add: add_device_def)

lemma map_of_add_devices:
  "map_of (fold add_device devs m) u =
     (if u \<in> on_UID ` set devs then Some (mget [] m u @ addresses devs u) else map_of m u)"
  by (induction devs arbitrary: m) (auto simp: add_device_read addresses_empty)

lemma map_of_removals:
  "map_of (fold (add_removal current) us m) u = (if u \<in> set us \<and> u \<notin> set current then Some [] else map_of m u)"
  by (induction us arbitrary: m) (auto simp: add_removal_def)

lemma device_report_data:
  assumes "device_report reported devs = (data, current)"
  shows "map_of data u =
      (if u \<in> on_UID ` set devs then Some (addresses devs u) else if u \<in> set reported then Some [] else None)"
    and "set current = on_UID ` set devs"
  using assms by (auto simp: device_report_def Let_def map_of_removals map_of_add_devices mget_def)

text \<open>After a report has arrived, the view is the counted devices, if it was confined to reported users before.\<close>

lemma panel_receives_exact:
  assumes "device_report reported devs = (data, current)" "report_inv (reported, view)"
  shows "panel_receives data view u = addresses devs u"
  using assms(2) addresses_empty [of u devs]
  by (auto simp: panel_receives_def device_report_data [OF assms(1)] report_inv_def)

lemma report_step_inv: "report_step s e s' \<Longrightarrow> report_inv s \<Longrightarrow> report_inv s'"
proof (induction rule: report_step.induct)
  case (acknowledged reported devs data current view)
  then show ?case
    using panel_receives_exact [OF acknowledged(1,2)] device_report_data(2) [OF acknowledged(1)] addresses_empty [of _ devs]
    by (fastforce simp: report_inv_def)
next
  case (reply_lost reported devs data current view)
  then show ?case
    using panel_receives_exact [OF reply_lost(1,2)] device_report_data(2) [OF reply_lost(1)] addresses_empty [of _ devs]
    by (fastforce simp: report_inv_def)
next
  case (not_sent reported devs data current view)
  then show ?case by (auto simp: report_inv_def)
qed

interpretation reports: component report_start report_step report_inv
proof unfold_locales
  show "report_inv s" if "report_start s" for s using that by (simp add: report_start_def report_inv_def)
qed (rule report_step_inv)



section \<open>The dynamic speed limit\<close>

definition check_speed :: "DynamicSpeedLimitConfig \<Rightarrow> int \<Rightarrow> string \<times> int \<Rightarrow> ('s, 'k) cw \<Rightarrow> ('s, 'k) cw" where
  "check_speed d now ut = (\<lambda>(c, w). case ut of (u, t) \<Rightarrow>
     if t < dyn_Traffic d then (c, w)
     else (c\<lparr>ct_traffic := AList.delete u (ct_traffic c)\<rparr>,
           on_limiter (\<lambda>l. case UpdateDynamicSpeedLimit (ct_tag c) u (dyn_SpeedLimit d)
                               (now + i64 (dyn_ExpireTime d * minute) div Clock.second) l of
                             Inl _ \<Rightarrow> l | Inr l' \<Rightarrow> l') c w))"

definition SpeedChecker :: "int \<Rightarrow> ('s, 'k) cw \<Rightarrow> ('s, 'k) cw" where
  "SpeedChecker now = (\<lambda>(c, w).
     case lc_DynamicSpeedLimitConfig (op_LimitConfig (ct_Options c)) of
       None \<Rightarrow> (c, w)
     | Some d \<Rightarrow> fold (check_speed d now) (ct_traffic c) (c, w))"

text \<open>The traffic the checker looks at is never filled: pulls and checks leave the empty table empty.\<close>

lemma SpeedChecker_idle: "ct_traffic c = [] \<Longrightarrow> SpeedChecker now (c, w) = (c, w)"
  by (simp add: SpeedChecker_def split: option.split)

section \<open>Metrics\<close>

definition boundedMetricInt :: "int \<Rightarrow> int" where
  "boundedMetricInt val = (if 2 ^ 63 - 1 < val then 2 ^ 63 - 1 else val)"

definition clampPercent :: "rat \<Rightarrow> rat" where
  "clampPercent val = (if val < 0 then 0 else if 100 < val then 100 else val)"

definition configuredArtXWindowScale :: "ArtXNode option \<Rightarrow> int" where
  "configuredArtXWindowScale node =
     (case node of
        None \<Rightarrow> 0
      | Some x \<Rightarrow>
          if ax_FlowControl x = ''medium_latency'' then 3
          else if ax_FlowControl x = ''high_latency'' then 4
          else if ax_FlowControl x = ''auto'' then 4 else 0)"

definition artXFlowControlScales :: "int list \<Rightarrow> int list" where
  "artXFlowControlScales scales = map boundedMetricInt scales"

record NodeStatusMem =
  sm_Total :: int
  sm_Used :: int

record NodeStatus =
  ns_Cpu :: rat
  ns_Mem :: NodeStatusMem
  ns_Swap :: NodeStatusMem
  ns_Disk :: NodeStatusMem

text \<open>A probe that fails is none; the processor probe gives a list.\<close>

definition collectNodeStatus ::
  "rat list option \<Rightarrow> NodeStatusMem option \<Rightarrow> NodeStatusMem option \<Rightarrow> NodeStatusMem option \<Rightarrow> NodeStatus" where
  "collectNodeStatus cpu vm swap disk =
     (let none = \<lparr>sm_Total = 0, sm_Used = 0\<rparr>; got = (\<lambda>p. case p of None \<Rightarrow> none | Some m \<Rightarrow> m)
      in \<lparr>ns_Cpu = clampPercent (case cpu of Some (x # _) \<Rightarrow> x | _ \<Rightarrow> 0), ns_Mem = got vm, ns_Swap = got swap, ns_Disk = got disk\<rparr>)"

record ArtXHostPressureSample =
  hp_CPUPercent :: rat
  hp_MemoryPercent :: rat
  hp_MemoryTotalBytes :: int
  hp_MemoryAvailableBytes :: int

definition sampleHostPressure :: "rat list option \<Rightarrow> (rat \<times> int \<times> int) option \<Rightarrow> ArtXHostPressureSample \<times> bool" where
  "sampleHostPressure cpu vm =
     (let (cpuPercent, cpuOk) = (case cpu of Some (x # _) \<Rightarrow> (clampPercent x, True) | _ \<Rightarrow> (0, False))
      in case vm of
           None \<Rightarrow> (\<lparr>hp_CPUPercent = cpuPercent, hp_MemoryPercent = 0, hp_MemoryTotalBytes = 0, hp_MemoryAvailableBytes = 0\<rparr>, cpuOk)
         | Some (used, bytes, available) \<Rightarrow>
             (\<lparr>hp_CPUPercent = cpuPercent, hp_MemoryPercent = clampPercent used, hp_MemoryTotalBytes = bytes,
               hp_MemoryAvailableBytes = available\<rparr>, True))"

record NodeMetricsArtX =
  mx_ConfiguredFlowControl :: string
  mx_MaxWindowScale :: int
  mx_AuthenticationSuccess :: int
  mx_AuthenticationFailure :: int
  mx_ReplayRejected :: int
  mx_FallbackHits :: int
  mx_FallbackErrors :: int
  mx_FlowControlNegotiated :: int
  mx_FlowControlScales :: "int list"
  mx_FlowControlPressureCeiling :: int
  mx_FlowControlAutoFallback :: int
  mx_RequestedUDPMode :: string
  mx_ActiveUDPMode :: string
  mx_NativeListenerReady :: bool
  mx_NativeActive :: int
  mx_NativeAccepted :: int
  mx_NativeRejected :: int
  mx_NativeDatagramsUp :: int
  mx_NativeDatagramsDown :: int
  mx_NativeBytesUp :: int
  mx_NativeBytesDown :: int
  mx_NativeTransportErrors :: int
  mx_NativeTargetErrors :: int
  mx_NativeCleanupFailures :: int
  mx_NativeCleanupMillis :: int
  mx_LastErrorCode :: string
  mx_LastErrorUnix :: int
  mx_ProcessCPUSeconds :: rat
  mx_ProcessRSSBytes :: int

definition metrics_of_artx :: "ArtXNode option \<Rightarrow> rat option \<Rightarrow> int option \<Rightarrow> ArtXRuntimeStats \<Rightarrow> NodeMetricsArtX" where
  "metrics_of_artx node cpuSeconds rss x =
     \<lparr>mx_ConfiguredFlowControl = ax_FlowControl (the node),
      mx_MaxWindowScale = configuredArtXWindowScale node,
      mx_AuthenticationSuccess = boundedMetricInt (xs_AuthenticationSuccess x),
      mx_AuthenticationFailure = boundedMetricInt (xs_AuthenticationFailure x),
      mx_ReplayRejected = boundedMetricInt (xs_ReplayRejected x),
      mx_FallbackHits = boundedMetricInt (xs_FallbackHits x),
      mx_FallbackErrors = boundedMetricInt (xs_FallbackErrors x),
      mx_FlowControlNegotiated = boundedMetricInt (xs_FlowControlNegotiated x),
      mx_FlowControlScales = artXFlowControlScales (xs_FlowControlScales x),
      mx_FlowControlPressureCeiling = boundedMetricInt (xs_FlowControlPressureCeiling x),
      mx_FlowControlAutoFallback = boundedMetricInt (xs_FlowControlAutoFallback x),
      mx_RequestedUDPMode = xs_RequestedUDPMode x,
      mx_ActiveUDPMode = xs_ActiveUDPMode x,
      mx_NativeListenerReady = xs_NativeListenerReady x,
      mx_NativeActive = boundedMetricInt (xs_NativeActive x),
      mx_NativeAccepted = boundedMetricInt (xs_NativeAccepted x),
      mx_NativeRejected = boundedMetricInt (xs_NativeRejected x),
      mx_NativeDatagramsUp = boundedMetricInt (xs_NativeDatagramsUp x),
      mx_NativeDatagramsDown = boundedMetricInt (xs_NativeDatagramsDown x),
      mx_NativeBytesUp = boundedMetricInt (xs_NativeBytesUp x),
      mx_NativeBytesDown = boundedMetricInt (xs_NativeBytesDown x),
      mx_NativeTransportErrors = boundedMetricInt (xs_NativeTransportErrors x),
      mx_NativeTargetErrors = boundedMetricInt (xs_NativeTargetErrors x),
      mx_NativeCleanupFailures = boundedMetricInt (xs_NativeCleanupFailures x),
      mx_NativeCleanupMillis = boundedMetricInt (xs_NativeCleanupMillis x),
      mx_LastErrorCode = xs_LastErrorCode x,
      mx_LastErrorUnix = xs_LastErrorUnix x,
      mx_ProcessCPUSeconds = (case cpuSeconds of None \<Rightarrow> 0 | Some v \<Rightarrow> v),
      mx_ProcessRSSBytes = (case rss of None \<Rightarrow> 0 | Some v \<Rightarrow> v)\<rparr>"

record NodeMetrics =
  nm_Uptime :: int
  nm_Goroutines :: int
  nm_ActiveConnections :: int
  nm_TotalConnections :: int
  nm_TotalUsers :: int
  nm_ActiveUsers :: int
  nm_InboundSpeed :: int
  nm_OutboundSpeed :: int
  nm_CPUPerCore :: "rat list"
  nm_Load :: "(rat \<times> rat \<times> rat) option"
  nm_SpeedLimiter :: "int option"
  nm_GC :: "rat option"
  nm_API :: "int \<times> int"
  nm_WS :: "bool option"
  nm_ArtX :: "NodeMetricsArtX option"
  nm_KernelStatus :: bool

text \<open>The counters a core keeps for a tag; a core without them gives none.\<close>

definition applyProtocolRuntimeStats ::
  "(string \<Rightarrow> RuntimeStats) option \<Rightarrow> rat option \<Rightarrow> int option \<Rightarrow> Controller \<Rightarrow> NodeMetrics \<Rightarrow> NodeMetrics" where
  "applyProtocolRuntimeStats provider cpuSeconds rss c m =
     (if \<not> usesNativeArtXWire (ct_info c) then m
      else case provider of
             None \<Rightarrow> m
           | Some f \<Rightarrow>
               (let stats = f (ct_tag c);
                    m = m\<lparr>nm_ActiveConnections := boundedMetricInt (st_ActiveConnections stats),
                          nm_TotalConnections := boundedMetricInt (st_TotalConnections stats)\<rparr>
                in case st_ArtX stats of
                     None \<Rightarrow> m
                   | Some x \<Rightarrow> m\<lparr>nm_ArtX := Some (metrics_of_artx (ni_ArtX (the (ct_info c))) cpuSeconds rss x)\<rparr>))"

text \<open>\<^verbatim>\<open>Duration.Seconds\<close> and the rate derived from two totals.\<close>

definition seconds :: "int \<Rightarrow> rat" where
  "seconds d = f64 (f64 (of_int (d div Clock.second)) + f64 (f64 (of_int (d mod Clock.second)) / 10 ^ 9))"

definition speed :: "int \<Rightarrow> int \<Rightarrow> rat \<Rightarrow> int" where
  "speed current before elapsed =
     (let delta = i64 (current - before)
      in if 0 < elapsed \<and> 0 < delta then trunc_rat (f64 (f64 (of_int delta) / elapsed)) else 0)"

record probes =
  pb_uptime :: int
  pb_goroutines :: int
  pb_perCore :: "rat list option"
  pb_load :: "(rat \<times> rat \<times> rat) option"
  pb_pause :: int
  pb_api :: "int \<times> int"
  pb_wsEnabled :: bool
  pb_wsConnected :: bool
  pb_stats :: "(string \<Rightarrow> RuntimeStats) option"
  pb_cpuSeconds :: "rat option"
  pb_rss :: "int option"
  pb_index :: cdn_index
  pb_unix :: int
  pb_now :: int

definition collectNodeMetrics :: "probes \<Rightarrow> ('s, 'k) cw \<Rightarrow> NodeMetrics \<times> Controller" where
  "collectNodeMetrics pb = (\<lambda>(c, w).
     let m = applyProtocolRuntimeStats (pb_stats pb) (pb_cpuSeconds pb) (pb_rss pb) c
           \<lparr>nm_Uptime = pb_uptime pb, nm_Goroutines = pb_goroutines pb,
            nm_ActiveConnections = int (activeConnectionCount (pb_index pb) (c, w)), nm_TotalConnections = 0,
            nm_TotalUsers = int (length (ct_userList c)), nm_ActiveUsers = int (activeUserCount c),
            nm_InboundSpeed = 0, nm_OutboundSpeed = 0,
            nm_CPUPerCore = (case pb_perCore pb of None \<Rightarrow> [] | Some xs \<Rightarrow> xs),
            nm_Load = pb_load pb,
            nm_SpeedLimiter =
              (case ct_limiter c of
                 None \<Rightarrow> None
               | Some a \<Rightarrow> let limited = LimitedUserCount (pb_unix pb) (wd_heap w a) in if 0 < limited then Some (int limited) else None),
            nm_GC = (if 0 < pb_pause pb then Some (f64 (f64 (of_int (pb_pause pb div 1000)) / 1000)) else None),
            nm_API = pb_api pb,
            nm_WS = (if pb_wsEnabled pb then Some (pb_wsConnected pb) else None),
            nm_ArtX = None, nm_KernelStatus = True\<rparr>;
         up = ct_totalUploadBytes c; down = ct_totalDownloadBytes c;
         m = (case ct_lastMetricsAt c of
                None \<Rightarrow> m
              | Some before \<Rightarrow>
                  let elapsed = seconds (time_sub (pb_now pb) before)
                  in m\<lparr>nm_OutboundSpeed := speed up (ct_lastMetricsUpload c) elapsed,
                       nm_InboundSpeed := speed down (ct_lastMetricsDownload c) elapsed\<rparr>)
     in (m, c\<lparr>ct_lastMetricsUpload := up, ct_lastMetricsDownload := down, ct_lastMetricsAt := Some (pb_now pb)\<rparr>))"

end
