(* ===== verification/Ws.thy ===== *)
theory Ws
  imports Panel_Users Clock
begin

text \<open>
  The WebSocket driver of \<^verbatim>\<open>src/api/panel/ws.go\<close> and the part of the client that uses it (\<^verbatim>\<open>src/api/panel/panel.go\<close>,
  \<^verbatim>\<open>src/api/panel/user.go\<close>). Three kinds of goroutines share a driver: the reconnect loop, any number of callers of \<^verbatim>\<open>Send\<close>,
  and the one that stops it. Each is a program counter, and each step of \<open>ws_exec\<close> is what one of them does between two
  points at which another can come in: one critical section, one store to the flag \<^verbatim>\<open>connected\<close>, one call on a connection.

  A connection is a number in the order they were dialled; \<open>dr_closed\<close> lists the closed ones and \<open>dr_wire\<close> what was
  written. What the network does is part of the event: whether a dial, a read or a write succeeds. Of the connection
  the model uses that a write on a closed one fails and that a read on a closed one returns.
\<close>

section \<open>Addresses and configuration\<close>

text \<open>
  \<^verbatim>\<open>url.Parse\<close> and \<^verbatim>\<open>URL.String\<close> are arguments; \<open>ul_Rest\<close> is what the code does not look at. A query is the map its parser
  returns.
\<close>

record 'r url =
  ul_Scheme :: string
  ul_Path :: string
  ul_Query :: "(string, string list) gomap"
  ul_Rest :: 'r

datatype ws_error =
  EmptyURL | EmptyToken | InvalidNodeID | EmptyHost | HostNotParsed | UnsupportedScheme string | NoDriver | NotConnected

definition deriveWSURL :: "(string \<Rightarrow> 'r url option) \<Rightarrow> ('r url \<Rightarrow> string) \<Rightarrow> string \<Rightarrow> ws_error + string" where
  "deriveWSURL parse print apiHost =
     (if apiHost = [] then Inl EmptyHost
      else case parse apiHost of
        None \<Rightarrow> Inl HostNotParsed
      | Some u \<Rightarrow>
          (let scheme = to_lower (ul_Scheme u);
               with_path = (\<lambda>u. if ul_Path u = [] \<or> ul_Path u = ''/'' then u\<lparr>ul_Path := ''/ws/''\<rparr> else u)
           in if scheme = ''http'' then Inr (print (with_path (u\<lparr>ul_Scheme := ''ws''\<rparr>)))
              else if scheme = ''https'' then Inr (print (with_path (u\<lparr>ul_Scheme := ''wss''\<rparr>)))
              else if scheme = ''ws'' \<or> scheme = ''wss'' then Inr (print (with_path u))
              else Inl (UnsupportedScheme (ul_Scheme u))))"

definition maskToken :: "(string \<Rightarrow> 'r url option) \<Rightarrow> ('r url \<Rightarrow> string) \<Rightarrow> string \<Rightarrow> string" where
  "maskToken parse print raw =
     (case parse raw of
        None \<Rightarrow> raw
      | Some u \<Rightarrow>
          print (if ''token'' \<in> fst ` set (ul_Query u)
                 then u\<lparr>ul_Query := AList.update ''token'' [''***''] (ul_Query u)\<rparr> else u))"

record wsDriverConfig =
  dc_URL :: string
  dc_NodeID :: int
  dc_NodeType :: string
  dc_Token :: string
  dc_Debug :: bool

text \<open>The address a session dials.\<close>

definition session_url :: "('r url \<Rightarrow> string) \<Rightarrow> wsDriverConfig \<Rightarrow> 'r url \<Rightarrow> string" where
  "session_url print cfg u =
     print (u\<lparr>ul_Query := AList.update ''node_id'' [itoa (dc_NodeID cfg)]
                          (AList.update ''token'' [dc_Token cfg] (ul_Query u))\<rparr>)"

definition wsMinReconnectBackoff :: int where "wsMinReconnectBackoff = 3 * second"
definition wsMaxReconnectBackoff :: int where "wsMaxReconnectBackoff = 60 * second"

section \<open>The driver\<close>

record wsDriver =
  dr_cfg :: wsDriverConfig
  dr_cancelled :: bool
  dr_conn :: "nat option"
  dr_connected :: bool
  dr_made :: nat
  dr_closed :: "nat list"
  dr_wire :: "(nat \<times> string) list"

definition newWSDriver :: "wsDriverConfig \<Rightarrow> ws_error + wsDriver" where
  "newWSDriver cfg =
     (if dc_URL cfg = [] then Inl EmptyURL
      else if dc_Token cfg = [] then Inl EmptyToken
      else if dc_NodeID cfg \<le> 0 then Inl InvalidNodeID
      else Inr \<lparr>dr_cfg = cfg, dr_cancelled = False, dr_conn = None, dr_connected = False, dr_made = 0, dr_closed = [],
                dr_wire = []\<rparr>)"

definition close_conn :: "nat \<Rightarrow> wsDriver \<Rightarrow> wsDriver" where
  "close_conn c d = d\<lparr>dr_closed := List.insert c (dr_closed d)\<rparr>"

text \<open>\<^verbatim>\<open>markDisconnectedLocked\<close> in three parts: forget the connection, clear the flag, close it.\<close>

datatype mark_pc = MForget nat | MFlag nat | MClose nat

fun markDisconnectedLocked :: "mark_pc \<Rightarrow> wsDriver \<Rightarrow> mark_pc option \<times> wsDriver" where
  "markDisconnectedLocked (MForget c) d = (Some (MFlag c), if dr_conn d = Some c then d\<lparr>dr_conn := None\<rparr> else d)"
| "markDisconnectedLocked (MFlag c) d = (Some (MClose c), d\<lparr>dr_connected := False\<rparr>)"
| "markDisconnectedLocked (MClose c) d = (None, close_conn c d)"

text \<open>\<^verbatim>\<open>Send\<close>: look at the flag, take the connection, write; a write that fails marks the connection.\<close>

datatype write_result = Written | DeadlineRefused | WriteFailed

datatype send_pc = SCheck | STake | SWrite nat | SMark mark_pc | SOver bool

fun Send :: "string \<Rightarrow> write_result \<Rightarrow> send_pc \<Rightarrow> wsDriver \<Rightarrow> (send_pc \<times> wsDriver) option" where
  "Send ev r SCheck d = Some (if dr_connected d then STake else SOver False, d)"
| "Send ev r STake d = Some (case dr_conn d of None \<Rightarrow> SOver False | Some c \<Rightarrow> SWrite c, d)"
| "Send ev r (SWrite c) d =
     (case r of
        Written \<Rightarrow> if c \<in> set (dr_closed d) then None else Some (SOver True, d\<lparr>dr_wire := dr_wire d @ [(c, ev)]\<rparr>)
      | DeadlineRefused \<Rightarrow> Some (SOver False, d)
      | WriteFailed \<Rightarrow> Some (SMark (MForget c), d))"
| "Send ev r (SMark m) d =
     Some (case markDisconnectedLocked m d of (Some m, d) \<Rightarrow> (SMark m, d) | (None, d) \<Rightarrow> (SOver False, d))"
| "Send ev r (SOver ok) d = None"

section \<open>Messages\<close>

record wsEvent =
  ev_Event :: string
  ev_Data :: "json option"

definition wsEvent_fields :: "wsEvent fields" where
  "wsEvent_fields =
     [(''event'', fld ev_Event ev_Event_update into_string),
      (''data'', fld ev_Data ev_Data_update into_raw)]"

text \<open>
  \<^verbatim>\<open>handleMessage\<close> with the hooks \<^verbatim>\<open>StartWebSocket\<close> installs: what it does to the client, the calls of the hooks the
  controller has set, whether the session is authenticated, and the event it answers with. A message that is no JSON is
  none.
\<close>

record handled =
  hd_client :: Client
  hd_calls :: "hook_call list"
  hd_auth :: bool
  hd_answer :: "string option"

definition handleMessage :: "cdn_state \<Rightarrow> json option \<Rightarrow> Client \<Rightarrow> handled" where
  "handleMessage cdn raw p =
     (let same = \<lparr>hd_client = p, hd_calls = [], hd_auth = False, hd_answer = None\<rparr>
      in case Option.bind raw (into_struct wsEvent_fields \<lparr>ev_Event = [], ev_Data = None\<rparr>) of
           None \<Rightarrow> same
         | Some evt \<Rightarrow>
             if ev_Event evt = ''auth.success'' then same\<lparr>hd_auth := True, hd_answer := Some ''request.devices''\<rparr>
             else if ev_Event evt = ''ping'' then same\<lparr>hd_answer := Some ''pong''\<rparr>
             else if ev_Event evt = ''sync.config'' then same\<lparr>hd_client := p\<lparr>cl_node := invalidateNodeInfoCache (cl_node p)\<rparr>\<rparr>
             else if ev_Event evt = ''sync.users'' then same\<lparr>hd_client := invalidateUserListCache p\<rparr>
             else if ev_Event evt = ''sync.devices'' then
               (case onSyncDevices cdn (ev_Data evt) (cl_alive p) of
                  (a, calls) \<Rightarrow> same\<lparr>hd_client := p\<lparr>cl_alive := a\<rparr>, hd_calls := calls\<rparr>)
             else if ev_Event evt = ''sync.kick'' then same\<lparr>hd_calls := onSyncKick (ev_Data evt) (cl_alive p)\<rparr>
             else same)"

section \<open>The goroutines\<close>

text \<open>
  The reconnect loop: at its top, dialling, storing the new connection, looking whether it was cancelled, reading,
  handling a message, answering it, leaving the session, after it, waiting, returned. The goroutine in \<^verbatim>\<open>Stop\<close>: not yet
  called, cancelled, connection taken, flag cleared, waiting for the loop, returned.
\<close>

datatype loop_pc =
  LTop | LDial | LStore nat | LCheck nat | LRead nat | LHandle nat "json option" | LAnswer nat string send_pc
| LLeave mark_pc | LAfter | LWait | LDone

datatype stop_pc = PIdle | PCancelled | PTaken "nat option" | PFlag "nat option" | PWait | PStopped

text \<open>\<open>st_auth\<close> records that the session has seen \<^verbatim>\<open>auth.success\<close>, \<open>st_waits\<close> counts the waits.\<close>

record ws_state =
  st_driver :: wsDriver
  st_client :: Client
  st_calls :: "hook_call list"
  st_loop :: loop_pc
  st_backoff :: int
  st_stop :: stop_pc
  st_sends :: "(string \<times> send_pc) list"
  st_auth :: bool
  st_waits :: nat

text \<open>What the network does for the loop: a dial or a read that succeeds or not, the outcome of a write, a timer.\<close>

datatype net = Dialled | NotDialled | Message "json option" | ReadFailed | Wrote write_result | Fired | Quiet

definition runSession :: "cdn_state \<Rightarrow> net \<Rightarrow> ws_state \<Rightarrow> ws_state option" where
  "runSession cdn r s =
     (let d = st_driver s in
      case st_loop s of
        LDial \<Rightarrow>
          (case r of
             Dialled \<Rightarrow> Some (s\<lparr>st_driver := d\<lparr>dr_made := Suc (dr_made d)\<rparr>, st_loop := LStore (dr_made d), st_auth := False\<rparr>)
           | NotDialled \<Rightarrow> Some (s\<lparr>st_loop := LAfter\<rparr>)
           | _ \<Rightarrow> None)
      | LStore c \<Rightarrow> Some (s\<lparr>st_driver := d\<lparr>dr_conn := Some c\<rparr>, st_loop := (if r = ReadFailed then LLeave (MForget c) else LCheck c)\<rparr>)
      | LCheck c \<Rightarrow> Some (s\<lparr>st_loop := (if dr_cancelled d then LLeave (MForget c) else LRead c)\<rparr>)
      | LRead c \<Rightarrow>
          (case r of
             Message m \<Rightarrow> Some (s\<lparr>st_loop := LHandle c m\<rparr>)
           | ReadFailed \<Rightarrow> Some (s\<lparr>st_loop := LLeave (MForget c)\<rparr>)
           | _ \<Rightarrow> None)
      | LHandle c m \<Rightarrow>
          (let h = handleMessage cdn m (st_client s) in
           Some (s\<lparr>st_driver := (if hd_auth h then d\<lparr>dr_connected := True\<rparr> else d), st_auth := (st_auth s \<or> hd_auth h),
                  st_client := hd_client h, st_calls := st_calls s @ hd_calls h,
                  st_loop := (case hd_answer h of None \<Rightarrow> LCheck c | Some ev \<Rightarrow> LAnswer c ev SCheck)\<rparr>))
      | LAnswer c ev pc \<Rightarrow>
          (case pc of
             SOver ok \<Rightarrow> Some (s\<lparr>st_loop := LCheck c\<rparr>)
           | _ \<Rightarrow> map_option (\<lambda>(pc, d). s\<lparr>st_driver := d, st_loop := LAnswer c ev pc\<rparr>)
                    (Send ev (case r of Wrote w \<Rightarrow> w | _ \<Rightarrow> WriteFailed) pc d))
      | LLeave m \<Rightarrow>
          Some (case markDisconnectedLocked m d of
                  (Some m, d) \<Rightarrow> s\<lparr>st_driver := d, st_loop := LLeave m\<rparr>
                | (None, d) \<Rightarrow> s\<lparr>st_driver := d, st_loop := LAfter\<rparr>)
      | _ \<Rightarrow> None)"

definition runLoop :: "cdn_state \<Rightarrow> net \<Rightarrow> ws_state \<Rightarrow> ws_state option" where
  "runLoop cdn r s =
     (let over = dr_cancelled (st_driver s) in
      case st_loop s of
        LTop \<Rightarrow> Some (s\<lparr>st_loop := (if over then LDone else LDial)\<rparr>)
      | LAfter \<Rightarrow> Some (s\<lparr>st_loop := (if over then LDone else LWait)\<rparr>)
      | LWait \<Rightarrow>
          if r = Fired
          then Some (s\<lparr>st_loop := LTop, st_waits := Suc (st_waits s),
                       st_backoff := (let b = st_backoff s * 2 in if wsMaxReconnectBackoff < b then wsMaxReconnectBackoff else b)\<rparr>)
          else if over then Some (s\<lparr>st_loop := LDone\<rparr>) else None
      | LDone \<Rightarrow> None
      | _ \<Rightarrow> runSession cdn r s)"

definition Stop :: "ws_state \<Rightarrow> ws_state option" where
  "Stop s =
     (let d = st_driver s in
      case st_stop s of
        PIdle \<Rightarrow> Some (s\<lparr>st_driver := d\<lparr>dr_cancelled := True\<rparr>, st_stop := PCancelled\<rparr>)
      | PCancelled \<Rightarrow> Some (s\<lparr>st_driver := d\<lparr>dr_conn := None\<rparr>, st_stop := PTaken (dr_conn d)\<rparr>)
      | PTaken c \<Rightarrow> Some (s\<lparr>st_driver := d\<lparr>dr_connected := False\<rparr>, st_stop := PFlag c\<rparr>)
      | PFlag c \<Rightarrow> Some (s\<lparr>st_driver := (case c of None \<Rightarrow> d | Some c \<Rightarrow> close_conn c d), st_stop := PWait\<rparr>)
      | PWait \<Rightarrow> if st_loop s = LDone then Some (s\<lparr>st_stop := PStopped\<rparr>) else None
      | PStopped \<Rightarrow> None)"

datatype ws_event = EvLoop net | EvStop | EvSend string | EvSender nat write_result

fun ws_exec :: "cdn_state \<Rightarrow> ws_event \<Rightarrow> ws_state \<Rightarrow> ws_state option" where
  "ws_exec cdn (EvLoop r) s = runLoop cdn r s"
| "ws_exec cdn EvStop s = Stop s"
| "ws_exec cdn (EvSend ev) s = Some (s\<lparr>st_sends := st_sends s @ [(ev, SCheck)]\<rparr>)"
| "ws_exec cdn (EvSender i w) s =
     (if i < length (st_sends s)
      then map_option (\<lambda>(pc, d). s\<lparr>st_driver := d, st_sends := (st_sends s)[i := (fst (st_sends s ! i), pc)]\<rparr>)
             (Send (fst (st_sends s ! i)) w (snd (st_sends s ! i)) (st_driver s))
      else None)"

text \<open>A driver that was just started.\<close>

definition started_driver :: "wsDriver \<Rightarrow> Client \<Rightarrow> ws_state" where
  "started_driver d p = \<lparr>st_driver = d, st_client = p, st_calls = [], st_loop = LTop, st_backoff = wsMinReconnectBackoff, st_stop = PIdle,
     st_sends = [], st_auth = False, st_waits = 0\<rparr>"

definition ws_start :: "ws_state \<Rightarrow> bool" where
  "ws_start s = (\<exists>cfg d p. newWSDriver cfg = Inr d \<and> s = started_driver d p)"

definition ws_step :: "ws_state \<Rightarrow> cdn_state \<times> ws_event \<Rightarrow> ws_state \<Rightarrow> bool" where
  "ws_step s e s' = (ws_exec (fst e) (snd e) s = Some s')"

section \<open>The invariant of a driver\<close>

text \<open>The connection of the loop's session, and the one it has stored and not given up yet.\<close>

fun mark_conn :: "mark_pc \<Rightarrow> nat" where
  "mark_conn (MForget c) = c" | "mark_conn (MFlag c) = c" | "mark_conn (MClose c) = c"

fun session :: "loop_pc \<Rightarrow> nat option" where
  "session (LStore c) = Some c" | "session (LCheck c) = Some c" | "session (LRead c) = Some c"
| "session (LHandle c m) = Some c" | "session (LAnswer c ev pc) = Some c" | "session (LLeave m) = Some (mark_conn m)"
| "session _ = None"

fun held :: "loop_pc \<Rightarrow> nat option" where
  "held (LCheck c) = Some c" | "held (LRead c) = Some c" | "held (LHandle c m) = Some c" | "held (LAnswer c ev pc) = Some c"
| "held (LLeave (MForget c)) = Some c" | "held _ = None"

text \<open>Inside the read pump; and the points at which the flag can be set.\<close>

fun pumping :: "loop_pc \<Rightarrow> bool" where
  "pumping (LRead c) = True" | "pumping (LHandle c m) = True" | "pumping (LAnswer c ev pc) = True" | "pumping _ = False"

fun flagged :: "loop_pc \<Rightarrow> bool" where
  "flagged (LLeave (MClose c)) = False" | "flagged (LStore c) = False" | "flagged pc = (session pc \<noteq> None)"

text \<open>A sender that is about to close a connection, and the connections a sender or \<^verbatim>\<open>Stop\<close> has in its hands.\<close>

fun marks :: "send_pc \<Rightarrow> nat \<Rightarrow> bool" where
  "marks (SMark m) c = (mark_conn m = c)" | "marks _ c = False"

fun in_hand :: "send_pc \<Rightarrow> nat option" where
  "in_hand (SWrite c) = Some c" | "in_hand (SMark m) = Some (mark_conn m)" | "in_hand _ = None"

fun taken :: "stop_pc \<Rightarrow> nat option" where
  "taken (PTaken c) = c" | "taken (PFlag c) = c" | "taken _ = None"

fun answering :: "loop_pc \<Rightarrow> send_pc" where
  "answering (LAnswer c ev pc) = pc" | "answering _ = SOver True"

definition senders :: "ws_state \<Rightarrow> send_pc set" where
  "senders s = insert (answering (st_loop s)) (snd ` set (st_sends s))"

definition about_to_close :: "ws_state \<Rightarrow> nat \<Rightarrow> bool" where
  "about_to_close s c = (taken (st_stop s) = Some c \<or> (\<exists>pc\<in>senders s. marks pc c))"

definition has_taken :: "stop_pc \<Rightarrow> bool" where
  "has_taken p = (p \<noteq> PIdle \<and> p \<noteq> PCancelled)"

definition conns_inv :: "ws_state \<Rightarrow> bool" where
  "conns_inv s = (let d = st_driver s; pc = st_loop s in
     (\<forall>c\<in>set (dr_closed d). c < dr_made d) \<and> (\<forall>c<dr_made d. c \<notin> set (dr_closed d) \<longrightarrow> session pc = Some c) \<and>
     (\<forall>c. session pc = Some c \<longrightarrow> c < dr_made d) \<and>
     (\<forall>c. dr_conn d = Some c \<longrightarrow> held pc = Some c) \<and>
     (\<forall>c p. p \<in> senders s \<longrightarrow> in_hand p = Some c \<longrightarrow> c < dr_made d) \<and> (\<forall>c. taken (st_stop s) = Some c \<longrightarrow> c < dr_made d))"

definition stop_inv :: "ws_state \<Rightarrow> bool" where
  "stop_inv s = (let d = st_driver s; pc = st_loop s in
     (\<forall>c. held pc = Some c \<longrightarrow> dr_conn d = Some c \<or> c \<in> set (dr_closed d) \<or> about_to_close s c) \<and>
     (dr_cancelled d \<longleftrightarrow> st_stop s \<noteq> PIdle) \<and> (has_taken (st_stop s) \<and> pumping pc \<longrightarrow> dr_conn d = None) \<and>
     (st_stop s = PStopped \<longrightarrow> pc = LDone))"

definition flag_inv :: "ws_state \<Rightarrow> bool" where
  "flag_inv s = (dr_connected (st_driver s) \<longrightarrow> st_auth s \<and> flagged (st_loop s))"

definition backoff_inv :: "ws_state \<Rightarrow> bool" where
  "backoff_inv s = (st_backoff s = min (wsMinReconnectBackoff * 2 ^ st_waits s) wsMaxReconnectBackoff)"

definition ws_inv :: "ws_state \<Rightarrow> bool" where
  "ws_inv s = (conns_inv s \<and> stop_inv s \<and> flag_inv s \<and> backoff_inv s)"

section \<open>Steps of a sender\<close>

lemma mark_effect:
  assumes "markDisconnectedLocked m d = (m', d')"
  shows "dr_cancelled d' = dr_cancelled d" "dr_made d' = dr_made d" "dr_connected d' \<Longrightarrow> dr_connected d"
    "dr_conn d' = dr_conn d \<or> (dr_conn d = Some (mark_conn m) \<and> dr_conn d' = None)"
    "set (dr_closed d') = (if m' = None then insert (mark_conn m) (set (dr_closed d)) else set (dr_closed d))"
    "m' = Some n \<Longrightarrow> mark_conn n = mark_conn m"
  using assms by (cases m; auto simp: close_conn_def split: if_splits)+

lemma send_pc_full:
  obtains "pc = SCheck" | "pc = STake" | c where "pc = SWrite c" | c where "pc = SMark (MForget c)" | c where "pc = SMark (MFlag c)"
    | c where "pc = SMark (MClose c)" | ok where "pc = SOver ok"
  by (metis mark_pc.exhaust send_pc.exhaust)

lemma Send_effect:
  assumes "Send ev w pc d = Some (pc', d')"
  shows "dr_cancelled d' = dr_cancelled d" "dr_made d' = dr_made d" "dr_connected d' \<Longrightarrow> dr_connected d"
    "dr_conn d' = dr_conn d \<or> (\<exists>c. dr_conn d = Some c \<and> dr_conn d' = None \<and> marks pc' c)"
    "set (dr_closed d) \<subseteq> set (dr_closed d')" "c \<in> set (dr_closed d') \<Longrightarrow> c \<notin> set (dr_closed d) \<Longrightarrow> in_hand pc = Some c"
    "marks pc c \<Longrightarrow> marks pc' c \<or> c \<in> set (dr_closed d')"
    "in_hand pc' = Some c \<Longrightarrow> in_hand pc = Some c \<or> dr_conn d = Some c"
  using assms by (cases pc rule: send_pc_full; cases w; auto simp: close_conn_def split: if_splits option.splits)+

lemma held_session: "held pc = Some c \<Longrightarrow> session pc = Some c"
  by (cases pc rule: held.cases) auto

lemma send_step_inv:
  assumes inv: "ws_inv s" and send: "Send ev w pc (st_driver s) = Some (pc', st_driver s')"
    and pcs: "pc \<in> senders s" "pc' \<in> senders s'"
      "\<And>p. p \<in> senders s \<Longrightarrow> p \<in> senders s' \<or> p = pc" "\<And>p. p \<in> senders s' \<Longrightarrow> p = pc' \<or> p \<in> senders s"
    and loop: "held (st_loop s') = held (st_loop s)" "session (st_loop s') = session (st_loop s)"
      "pumping (st_loop s') = pumping (st_loop s)" "flagged (st_loop s') = flagged (st_loop s)" "st_loop s' = LDone \<longleftrightarrow> st_loop s = LDone"
    and same: "st_stop s' = st_stop s" "st_auth s' = st_auth s" "st_backoff s' = st_backoff s" "st_waits s' = st_waits s"
  shows "ws_inv s'"
proof -
  note e = Send_effect [OF send]
  have close: "about_to_close s' c \<or> c \<in> set (dr_closed (st_driver s'))" if "about_to_close s c" for c
    using that e(7) [of c] pcs(2,3) unfolding about_to_close_def same(1) by blast
  have lost: "about_to_close s' c" if "dr_conn (st_driver s) = Some c" "dr_conn (st_driver s') \<noteq> Some c" for c
    using that e(4) pcs(2) unfolding about_to_close_def by auto
  have made: "c < dr_made (st_driver s)" if "in_hand pc' = Some c" for c
    using e(8) [OF that] inv pcs(1) held_session [of "st_loop s" c] unfolding ws_inv_def conns_inv_def Let_def by metis
  note old = inv [unfolded ws_inv_def conns_inv_def stop_inv_def Let_def]
  have conn: "dr_conn (st_driver s') = Some c \<Longrightarrow> dr_conn (st_driver s) = Some c" for c using e(4) by auto
  have closed: "c \<in> set (dr_closed (st_driver s')) \<Longrightarrow> c < dr_made (st_driver s)" for c
    using e(6) [of c] old pcs(1) by blast
  have 1: "conns_inv s'"
    unfolding conns_inv_def Let_def e(2) loop(2) same(1) loop(1)
  proof (intro conjI allI ballI impI)
    fix c p assume "p \<in> senders s'" "in_hand p = Some c"
    then show "c < dr_made (st_driver s)" using pcs(4) made old by blast
  qed (use closed conn e(5) old in blast)+
  have 2: "stop_inv s'"
    unfolding stop_inv_def Let_def e(1) loop(1,3,5) same(1)
  proof (intro conjI allI impI)
    fix c assume "held (st_loop s) = Some c"
    then show "dr_conn (st_driver s') = Some c \<or> c \<in> set (dr_closed (st_driver s')) \<or> about_to_close s' c"
      using old close lost e(5) by blast
  qed (use old e(4) in auto)
  have 3: "flag_inv s'" using inv e(3) loop(4) same(2) unfolding ws_inv_def flag_inv_def by simp
  have 4: "backoff_inv s'" using inv same(3,4) unfolding ws_inv_def backoff_inv_def by simp
  show ?thesis unfolding ws_inv_def using 1 2 3 4 by simp
qed

section \<open>Steps of the loop and of Stop\<close>

text \<open>The invariant as rules, to be proved and used part by part.\<close>

lemma ws_invI:
  assumes "\<And>c. c \<in> set (dr_closed (st_driver s)) \<Longrightarrow> c < dr_made (st_driver s)"
    "\<And>c. c < dr_made (st_driver s) \<Longrightarrow> c \<notin> set (dr_closed (st_driver s)) \<Longrightarrow> session (st_loop s) = Some c"
    "\<And>c. session (st_loop s) = Some c \<Longrightarrow> c < dr_made (st_driver s)"
    "\<And>c. dr_conn (st_driver s) = Some c \<Longrightarrow> held (st_loop s) = Some c"
    "\<And>p c. p \<in> senders s \<Longrightarrow> in_hand p = Some c \<Longrightarrow> c < dr_made (st_driver s)"
    "\<And>c. taken (st_stop s) = Some c \<Longrightarrow> c < dr_made (st_driver s)"
    "\<And>c. held (st_loop s) = Some c \<Longrightarrow> dr_conn (st_driver s) \<noteq> Some c \<Longrightarrow> \<not> about_to_close s c \<Longrightarrow> c \<in> set (dr_closed (st_driver s))"
    "dr_cancelled (st_driver s) \<longleftrightarrow> st_stop s \<noteq> PIdle" "has_taken (st_stop s) \<Longrightarrow> pumping (st_loop s) \<Longrightarrow> dr_conn (st_driver s) = None"
    "st_stop s = PStopped \<Longrightarrow> st_loop s = LDone"
    "dr_connected (st_driver s) \<Longrightarrow> st_auth s" "dr_connected (st_driver s) \<Longrightarrow> flagged (st_loop s)"
    "st_backoff s = min (wsMinReconnectBackoff * 2 ^ st_waits s) wsMaxReconnectBackoff"
  shows "ws_inv s"
  unfolding ws_inv_def conns_inv_def stop_inv_def flag_inv_def backoff_inv_def Let_def using assms by blast

lemma ws_invD:
  assumes "ws_inv s"
  shows "c \<in> set (dr_closed (st_driver s)) \<Longrightarrow> c < dr_made (st_driver s)"
    "c < dr_made (st_driver s) \<Longrightarrow> c \<notin> set (dr_closed (st_driver s)) \<Longrightarrow> session (st_loop s) = Some c"
    "session (st_loop s) = Some c \<Longrightarrow> c < dr_made (st_driver s)"
    "dr_conn (st_driver s) = Some c \<Longrightarrow> held (st_loop s) = Some c"
    "p \<in> senders s \<Longrightarrow> in_hand p = Some c \<Longrightarrow> c < dr_made (st_driver s)"
    "taken (st_stop s) = Some c \<Longrightarrow> c < dr_made (st_driver s)"
    "held (st_loop s) = Some c \<Longrightarrow> dr_conn (st_driver s) \<noteq> Some c \<Longrightarrow> \<not> about_to_close s c \<Longrightarrow> c \<in> set (dr_closed (st_driver s))"
    "dr_cancelled (st_driver s) \<longleftrightarrow> st_stop s \<noteq> PIdle" "has_taken (st_stop s) \<Longrightarrow> pumping (st_loop s) \<Longrightarrow> dr_conn (st_driver s) = None"
    "st_stop s = PStopped \<Longrightarrow> st_loop s = LDone"
    "dr_connected (st_driver s) \<Longrightarrow> st_auth s" "dr_connected (st_driver s) \<Longrightarrow> flagged (st_loop s)"
    "st_backoff s = min (wsMinReconnectBackoff * 2 ^ st_waits s) wsMaxReconnectBackoff"
  using assms unfolding ws_inv_def conns_inv_def stop_inv_def flag_inv_def backoff_inv_def Let_def by blast+

lemma sender_inv:
  assumes "ws_inv s" "ws_exec cdn (EvSender i w) s = Some s'"
  shows "ws_inv s'"
proof -
  obtain ev pc pc' d' where x: "i < length (st_sends s)" "st_sends s ! i = (ev, pc)" "Send ev w pc (st_driver s) = Some (pc', d')"
      "s' = s\<lparr>st_driver := d', st_sends := (st_sends s)[i := (ev, pc')]\<rparr>"
    using assms(2) by (cases "st_sends s ! i") (auto split: if_splits)
  have sp: "st_sends s = take i (st_sends s) @ (ev, pc) # drop (Suc i) (st_sends s)" using id_take_nth_drop [OF x(1)] x(2) by simp
  have upd: "snd ` set (st_sends s') = insert pc' (snd ` (set (take i (st_sends s)) \<union> set (drop (Suc i) (st_sends s))))"
    unfolding x(4) by (simp add: upd_conv_take_nth_drop [OF x(1)])
  have old: "snd ` set (st_sends s) = insert pc (snd ` (set (take i (st_sends s)) \<union> set (drop (Suc i) (st_sends s))))"
    by (subst sp) simp
  have pcs: "pc \<in> senders s" "pc' \<in> senders s'"
    "p \<in> senders s \<Longrightarrow> p \<in> senders s' \<or> p = pc" "p \<in> senders s' \<Longrightarrow> p = pc' \<or> p \<in> senders s" for p
    unfolding senders_def upd old using x(4) by auto
  show ?thesis
    by (rule send_step_inv [OF assms(1), of ev w pc pc']) (use x pcs in auto)
qed

lemma send_call_inv:
  assumes "ws_inv s" "ws_exec cdn (EvSend ev) s = Some s'"
  shows "ws_inv s'"
proof -
  have s': "s' = s\<lparr>st_sends := st_sends s @ [(ev, SCheck)]\<rparr>" using assms(2) by simp
  have p: "p \<in> senders s' \<longleftrightarrow> p \<in> senders s \<or> p = SCheck" for p by (auto simp: s' senders_def)
  have a: "about_to_close s' c \<longleftrightarrow> about_to_close s c" for c using p by (auto simp: about_to_close_def s')
  note D = ws_invD [OF assms(1)]
  show ?thesis
    by (rule ws_invI) (auto simp: s' a [unfolded s'] p [unfolded s'] D(8,13) dest: D(1-7,9-12))
qed

lemma stop_inv_step:
  assumes "ws_inv s" "Stop s = Some s'"
  shows "ws_inv s'"
proof -
  note D = ws_invD [OF assms(1)]
  have m: "dr_conn (st_driver s) = Some c \<Longrightarrow> c < dr_made (st_driver s)" for c using D(3,4) held_session by blast
  have p: "senders s' = senders s" using assms(2)
    by (auto simp: Stop_def senders_def Let_def split: stop_pc.splits if_splits)
  show ?thesis
  proof (cases "st_stop s")
    case PIdle
    then have "s' = s\<lparr>st_driver := (st_driver s)\<lparr>dr_cancelled := True\<rparr>, st_stop := PCancelled\<rparr>" using assms(2) by (simp add: Stop_def Let_def)
    then show ?thesis using p PIdle by (intro ws_invI) (auto simp: about_to_close_def has_taken_def D(8,13) dest: D(1-7,9-12))
  next
    case PCancelled
    then have "s' = s\<lparr>st_driver := (st_driver s)\<lparr>dr_conn := None\<rparr>, st_stop := PTaken (dr_conn (st_driver s))\<rparr>" using assms(2) by (simp add: Stop_def Let_def)
    then show ?thesis using p PCancelled by (intro ws_invI) (auto simp: about_to_close_def has_taken_def D(8,13) dest: D(1-7,9-12) m)
  next
    case (PTaken c)
    then have "s' = s\<lparr>st_driver := (st_driver s)\<lparr>dr_connected := False\<rparr>, st_stop := PFlag c\<rparr>" using assms(2) by (simp add: Stop_def Let_def)
    moreover note D(6,9) [unfolded PTaken has_taken_def, simplified]
    ultimately show ?thesis using p PTaken by (intro ws_invI) (auto simp: about_to_close_def has_taken_def D(8,13) dest: D(1-7,9-12))
  next
    case (PFlag c)
    then have "s' = s\<lparr>st_driver := (case c of None \<Rightarrow> st_driver s | Some c \<Rightarrow> close_conn c (st_driver s)), st_stop := PWait\<rparr>"
      using assms(2) by (simp add: Stop_def Let_def)
    moreover note D(6,9) [unfolded PFlag has_taken_def, simplified]
    ultimately show ?thesis using p PFlag by (intro ws_invI) (auto simp: about_to_close_def has_taken_def close_conn_def D(8,13) split: option.splits dest: D(1-7,9-12))
  next
    case PWait
    then have "s' = s\<lparr>st_stop := PStopped\<rparr>" "st_loop s = LDone" using assms(2) by (simp_all add: Stop_def Let_def split: if_splits)
    then show ?thesis using p PWait by (intro ws_invI) (auto simp: about_to_close_def has_taken_def D(8,13) dest: D(1-7,9-12))
  qed (use assms(2) in \<open>simp add: Stop_def\<close>)
qed

lemma leave_inv:
  assumes "ws_inv s" "st_loop s = LLeave m" "markDisconnectedLocked m (st_driver s) = (m', d')"
  shows "ws_inv (s\<lparr>st_driver := d', st_loop := (case m' of None \<Rightarrow> LAfter | Some n \<Rightarrow> LLeave n)\<rparr>)" (is "ws_inv ?s")
proof -
  note D = ws_invD [OF assms(1), unfolded assms(2)]
  have p: "senders ?s = senders s" using assms(2,3) by (cases m) (auto simp: senders_def)
  have a: "about_to_close ?s c = about_to_close s c" for c by (simp add: about_to_close_def p)
  show ?thesis
  proof (cases m)
    case (MForget c)
    note E = D(2,3,4,12) [unfolded MForget, simplified]
    show ?thesis using assms(3) MForget p by (intro ws_invI) (auto simp: a D(8,13) E(2) split: if_splits dest: D(1,5,6,10,11) E(1,3))
  next
    case (MFlag c)
    note E = D(2,3,4,12) [unfolded MFlag, simplified]
    show ?thesis using assms(3) MFlag p by (intro ws_invI) (auto simp: a D(8,13) E(2) dest: D(1,5,6,10,11) E(1,3))
  next
    case (MClose c)
    note E = D(2,3,4,12) [unfolded MClose, simplified]
    show ?thesis using assms(3) MClose p by (intro ws_invI) (auto simp: a close_conn_def D(8,13) E(2) dest: D(1,5,6,10,11) E(1,3,4))
  qed
qed

lemma answer_inv:
  assumes "ws_inv s" "st_loop s = LAnswer c ev pc" "Send ev w pc (st_driver s) = Some (pc', d')"
  shows "ws_inv (s\<lparr>st_driver := d', st_loop := LAnswer c ev pc'\<rparr>)"
  by (rule send_step_inv [OF assms(1), of ev w pc pc']) (use assms(2,3) in \<open>auto simp: senders_def\<close>)

text \<open>A step of the loop that leaves the driver and the senders alone.\<close>

lemma move_inv:
  assumes "ws_inv s" "answering (st_loop s) = SOver ok" "answering pc = SOver ok'" "session pc = session (st_loop s)"
    "held pc = held (st_loop s)" "\<not> pumping pc \<or> pumping (st_loop s) \<or> \<not> dr_cancelled (st_driver s)"
    "flagged (st_loop s) \<Longrightarrow> flagged pc" "st_loop s \<noteq> LDone"
  shows "ws_inv (s\<lparr>st_loop := pc\<rparr>)" (is "ws_inv ?s")
proof -
  note D = ws_invD [OF assms(1)]
  have p: "x \<in> senders ?s \<Longrightarrow> x \<in> senders s \<or> in_hand x = None" for x using assms(3) by (auto simp: senders_def)
  have a: "about_to_close s c \<Longrightarrow> about_to_close ?s c" for c using assms(2) by (auto simp: about_to_close_def senders_def)
  have t: "has_taken (st_stop s) \<Longrightarrow> dr_cancelled (st_driver s)" using D(8) by (auto simp: has_taken_def)
  show ?thesis
  proof (rule ws_invI)
    show "c < dr_made (st_driver ?s)" if "x \<in> senders ?s" "in_hand x = Some c" for x c using p [OF that(1)] that(2) D(5) by auto
  qed (use assms(4-8) a D(10) in \<open>auto simp: D(8,13) dest: D(1-4,6,7,9,11,12) t\<close>)
qed

lemma dial_inv:
  assumes "ws_inv s" "st_loop s = LDial"
  shows "ws_inv (s\<lparr>st_driver := (st_driver s)\<lparr>dr_made := Suc (dr_made (st_driver s))\<rparr>, st_loop := LStore (dr_made (st_driver s)),
    st_auth := False\<rparr>)" (is "ws_inv ?s")
proof -
  note D = ws_invD [OF assms(1), unfolded assms(2), simplified]
  have p: "senders ?s = senders s" using assms(2) by (simp add: senders_def)
  show ?thesis
    by (rule ws_invI) (auto simp: p D(4,8,13) less_Suc_eq dest: D(1,2,4,5,6,10,12))
qed

lemma store_inv:
  assumes "ws_inv s" "st_loop s = LStore c" "pc = LCheck c \<or> pc = LLeave (MForget c)"
  shows "ws_inv (s\<lparr>st_driver := (st_driver s)\<lparr>dr_conn := Some c\<rparr>, st_loop := pc\<rparr>)" (is "ws_inv ?s")
proof -
  note D = ws_invD [OF assms(1), unfolded assms(2), simplified]
  have p: "senders ?s = senders s" using assms(2,3) by (auto simp: senders_def)
  show ?thesis
    using assms(3) by (intro ws_invI) (auto simp: p D(3,8,13) dest: D(1,2,4,5,6,10,12))
qed

lemma handle_inv:
  assumes "ws_inv s" "st_loop s = LHandle c m"
  shows "ws_inv (s\<lparr>st_driver := (st_driver s)\<lparr>dr_connected := (dr_connected (st_driver s) \<or> auth)\<rparr>, st_auth := (st_auth s \<or> auth),
    st_client := p, st_calls := calls, st_loop := (case answer of None \<Rightarrow> LCheck c | Some ev \<Rightarrow> LAnswer c ev SCheck)\<rparr>)" (is "ws_inv ?s")
proof -
  note D = ws_invD [OF assms(1), unfolded assms(2), simplified]
  have p: "x \<in> senders ?s \<Longrightarrow> x \<in> senders s \<or> in_hand x = None" for x using assms(2) by (auto simp: senders_def split: option.splits)
  have a: "about_to_close s c \<Longrightarrow> about_to_close ?s c" for c using assms(2) by (auto simp: about_to_close_def senders_def)
  show ?thesis
  proof (rule ws_invI)
    show "c < dr_made (st_driver ?s)" if "x \<in> senders ?s" "in_hand x = Some c" for x c using p [OF that(1)] that(2) D(5) by auto
    show "x \<in> set (dr_closed (st_driver ?s))"
      if "held (st_loop ?s) = Some x" "dr_conn (st_driver ?s) \<noteq> Some x" "\<not> about_to_close ?s x" for x
      using that a [of x] D(7) by (cases answer) auto
  qed (auto simp: D(3,8,13) split: option.splits dest: D(1,2,4,6,9,10,11))
qed

lemma wait_inv:
  assumes "ws_inv s" "st_loop s = LWait" "b = (let b = st_backoff s * 2 in if wsMaxReconnectBackoff < b then wsMaxReconnectBackoff else b)"
  shows "ws_inv (s\<lparr>st_loop := LTop, st_waits := Suc (st_waits s), st_backoff := b\<rparr>)" (is "ws_inv ?s")
proof -
  note D = ws_invD [OF assms(1), unfolded assms(2), simplified]
  have p: "senders ?s = senders s" using assms(2) by (simp add: senders_def)
  have b: "b = min (wsMinReconnectBackoff * 2 ^ Suc (st_waits s)) wsMaxReconnectBackoff"
    unfolding assms(3) D(13) by (simp add: Let_def min_def wsMinReconnectBackoff_def wsMaxReconnectBackoff_def clock_units)
  show ?thesis
  proof (rule ws_invI)
    show "st_backoff ?s = min (wsMinReconnectBackoff * 2 ^ st_waits ?s) wsMaxReconnectBackoff" using b by simp
  qed (auto simp: p D(8) dest: D(1,2,4,5,6,10,12))
qed

lemma set_flag: "(if b then d\<lparr>dr_connected := True\<rparr> else d) = d\<lparr>dr_connected := (dr_connected d \<or> b)\<rparr>"
  by (cases b) simp_all

lemma loop_step_inv:
  assumes "ws_inv s" "runLoop cdn r s = Some s'"
  shows "ws_inv s'"
proof (cases "st_loop s")
  case LTop
  then show ?thesis using assms move_inv [of s] by (auto simp: runLoop_def Let_def)
next
  case LAfter
  then show ?thesis using assms move_inv [of s] by (auto simp: runLoop_def Let_def)
next
  case (LCheck c)
  then show ?thesis using assms move_inv [of s] by (auto simp: runLoop_def runSession_def Let_def)
next
  case (LRead c)
  then show ?thesis using assms move_inv [of s] by (auto simp: runLoop_def runSession_def Let_def split: net.splits)
next
  case (LLeave m)
  then show ?thesis using assms leave_inv [OF assms(1) LLeave]
    by (auto simp: runLoop_def runSession_def Let_def split: prod.splits option.splits)
next
  case (LAnswer c ev pc)
  show ?thesis
  proof (cases "\<exists>ok. pc = SOver ok")
    case True
    then show ?thesis using LAnswer assms move_inv [of s] by (auto simp: runLoop_def runSession_def Let_def)
  next
    case False
    then show ?thesis using LAnswer assms answer_inv [OF assms(1) LAnswer]
      by (auto simp: runLoop_def runSession_def Let_def simp del: Send.simps split: send_pc.splits)
  qed
next
  case LDial
  then show ?thesis using assms dial_inv [OF assms(1) LDial] move_inv [of s] by (auto simp: runLoop_def runSession_def Let_def split: net.splits)
next
  case (LStore c)
  then show ?thesis using assms store_inv [OF assms(1) LStore] by (auto simp: runLoop_def runSession_def Let_def)
next
  case (LHandle c m)
  then show ?thesis using assms handle_inv [OF assms(1) LHandle]
    by (auto simp: runLoop_def runSession_def Let_def set_flag)
next
  case LWait
  then show ?thesis using assms wait_inv [OF assms(1) LWait] move_inv [of s] by (auto simp: runLoop_def Let_def split: if_splits)
qed (use assms(2) in \<open>simp add: runLoop_def\<close>)

section \<open>Sessions and stopping\<close>

interpretation ws: component ws_start ws_step ws_inv
proof unfold_locales
  fix s assume "ws_start s"
  then obtain cfg d p where d: "newWSDriver cfg = Inr d" "s = started_driver d p" by (auto simp: ws_start_def)
  have "dr_conn d = None" "\<not> dr_connected d" "\<not> dr_cancelled d" "dr_made d = 0" "dr_closed d = []"
    using d(1) by (auto simp: newWSDriver_def split: if_splits)
  then show "ws_inv s"
    unfolding d(2) started_driver_def
    by (intro ws_invI) (auto simp: senders_def has_taken_def wsMinReconnectBackoff_def wsMaxReconnectBackoff_def clock_units)
next
  fix s e s' assume inv: "ws_inv s" and "ws_step s e s'"
  then have step: "ws_exec (fst e) (snd e) s = Some s'" by (simp add: ws_step_def)
  show "ws_inv s'"
  proof (cases "snd e")
    case (EvLoop r)
    then have "runLoop (fst e) r s = Some s'" using step by simp
    then show ?thesis by (rule loop_step_inv [OF inv])
  next
    case EvStop
    then have "Stop s = Some s'" using step by simp
    then show ?thesis by (rule stop_inv_step [OF inv])
  next
    case (EvSend ev)
    show ?thesis by (rule send_call_inv [OF inv step [unfolded EvSend]])
  next
    case (EvSender i w)
    show ?thesis by (rule sender_inv [OF inv step [unfolded EvSender]])
  qed
qed

text \<open>
  C12. However the reconnect loop, callers of \<^verbatim>\<open>Send\<close> and \<^verbatim>\<open>Stop\<close> interleave and whatever the network does: \<^verbatim>\<open>Connected\<close> is
  only true during a session in which the panel has confirmed the authentication; no connection is leaked, since every
  connection that was ever dialled and is not closed is that of the current session; and when \<^verbatim>\<open>Stop\<close> has returned, all
  connections are closed, none is stored and the driver does not claim to be connected.
\<close>

theorem ws_sessions:
  assumes "reachable ws_start ws_step s"
  shows "(dr_connected (st_driver s) \<longrightarrow> st_auth s \<and> session (st_loop s) \<noteq> None) \<and>
    (\<forall>c < dr_made (st_driver s). c \<notin> set (dr_closed (st_driver s)) \<longrightarrow> session (st_loop s) = Some c) \<and>
    (\<forall>c. dr_conn (st_driver s) = Some c \<longrightarrow> session (st_loop s) = Some c) \<and>
    (st_stop s = PStopped \<longrightarrow> \<not> dr_connected (st_driver s) \<and> dr_conn (st_driver s) = None \<and>
       set (dr_closed (st_driver s)) = {..<dr_made (st_driver s)})"
proof -
  have inv: "ws_inv s" using ws.reachable_inv [OF assms] .
  note D = ws_invD [OF inv]
  have "session (st_loop s) \<noteq> None" if "flagged (st_loop s)" using that by (cases "st_loop s" rule: flagged.cases) auto
  then have "dr_connected (st_driver s) \<longrightarrow> st_auth s \<and> session (st_loop s) \<noteq> None" using D(11,12) by blast
  moreover have "\<not> dr_connected (st_driver s) \<and> dr_conn (st_driver s) = None \<and> set (dr_closed (st_driver s)) = {..<dr_made (st_driver s)}"
    if "st_stop s = PStopped"
  proof -
    have loop: "st_loop s = LDone" using D(10) that by simp
    note E = D(1,2,4,12) [unfolded loop, simplified]
    have "dr_conn (st_driver s) = None" using E(3) by (cases "dr_conn (st_driver s)") simp_all
    moreover have "set (dr_closed (st_driver s)) = {..<dr_made (st_driver s)}" by (rule set_eqI) (auto dest: E(1,2))
    ultimately show ?thesis using E(4) by blast
  qed
  moreover have "\<forall>c. dr_conn (st_driver s) = Some c \<longrightarrow> session (st_loop s) = Some c" using D(4) held_session by blast
  moreover have "\<forall>c < dr_made (st_driver s). c \<notin> set (dr_closed (st_driver s)) \<longrightarrow> session (st_loop s) = Some c" using D(2) by blast
  ultimately show ?thesis by (intro conjI) (assumption | rule impI | simp only: HOL.simp_thms)+
qed

text \<open>How many steps are at most left to the loop once it is cancelled.\<close>

fun mark_rank :: "mark_pc \<Rightarrow> nat" where
  "mark_rank (MForget c) = 3" | "mark_rank (MFlag c) = 2" | "mark_rank (MClose c) = 1"

fun send_rank :: "send_pc \<Rightarrow> nat" where
  "send_rank SCheck = 6" | "send_rank STake = 5" | "send_rank (SWrite c) = 4" | "send_rank (SMark m) = mark_rank m"
| "send_rank (SOver ok) = 0"

fun loop_rank :: "loop_pc \<Rightarrow> nat" where
  "loop_rank LDone = 0" | "loop_rank LAfter = 1" | "loop_rank LTop = 1" | "loop_rank LWait = 2"
| "loop_rank (LLeave m) = 1 + mark_rank m" | "loop_rank (LCheck c) = 5" | "loop_rank (LStore c) = 6" | "loop_rank LDial = 7"
| "loop_rank (LAnswer c ev pc) = 6 + send_rank pc" | "loop_rank (LHandle c m) = 13" | "loop_rank (LRead c) = 14"

lemma mark_rank_less: "markDisconnectedLocked m d = (Some n, d') \<Longrightarrow> mark_rank n < mark_rank m"
  by (cases m) auto

lemma mark_rank_pos [simp]: "0 < mark_rank m"
  by (cases m) auto

lemma Send_rank_less: "Send ev w pc d = Some (pc', d') \<Longrightarrow> send_rank pc' < send_rank pc"
  by (cases pc rule: send_pc_full; cases w) (auto split: option.splits if_splits)

lemma loop_rank_less:
  assumes "dr_cancelled (st_driver s)" "runLoop cdn r s = Some s'"
  shows "loop_rank (st_loop s') < loop_rank (st_loop s)"
proof (cases "st_loop s")
  case (LAnswer c ev pc)
  show ?thesis
  proof (cases "\<exists>ok. pc = SOver ok")
    case False
    then obtain pc' d' where "Send ev (case r of Wrote w \<Rightarrow> w | _ \<Rightarrow> WriteFailed) pc (st_driver s) = Some (pc', d')"
        "st_loop s' = LAnswer c ev pc'"
      using LAnswer assms(2) by (auto simp: runLoop_def runSession_def Let_def simp del: Send.simps split: send_pc.splits)
    then show ?thesis using LAnswer Send_rank_less by simp
  qed (use LAnswer assms(2) in \<open>auto simp: runLoop_def runSession_def Let_def\<close>)
next
  case (LLeave m)
  then show ?thesis using assms(2) mark_rank_less [of m "st_driver s"]
    by (auto simp: runLoop_def runSession_def Let_def split: prod.splits option.splits)
qed (use assms in \<open>auto simp: runLoop_def runSession_def Let_def split: net.splits option.splits if_splits\<close>)

lemma loop_moves:
  assumes "dr_cancelled (st_driver s)" "st_loop s \<noteq> LDone"
  shows "\<exists>r s'. (\<forall>m. r \<noteq> Message m) \<and> runLoop cdn r s = Some s'"
proof (cases "st_loop s")
  case LDial
  then show ?thesis by (intro exI [of _ NotDialled]) (simp add: runLoop_def runSession_def)
next
  case (LRead c)
  then show ?thesis by (intro exI [of _ ReadFailed]) (simp add: runLoop_def runSession_def)
next
  case (LAnswer c ev pc)
  then show ?thesis
    by (intro exI [of _ "Wrote WriteFailed"]) (cases pc; simp add: runLoop_def runSession_def split: prod.splits)
qed (use assms in \<open>auto simp: runLoop_def runSession_def Let_def intro: exI [of _ Quiet]\<close>)

text \<open>
  C8. \<^verbatim>\<open>Stop\<close> returns. While it waits for the reconnect loop, the loop is not blocked on the panel: if it is in the
  middle of a read, the connection is closed, or a \<^verbatim>\<open>Send\<close> that failed on it is just closing it. Every step of the loop,
  even one that finds another message in its buffer, brings it closer to its end, of which it is at most fourteen steps
  away, and as long as it has not ended some step is possible that no message of the panel is needed for.
\<close>

theorem stop_returns:
  assumes "reachable ws_start ws_step s" "st_stop s = PWait"
  shows "(\<forall>c. st_loop s = LRead c \<longrightarrow> c \<in> set (dr_closed (st_driver s)) \<or> (\<exists>x\<in>set (st_sends s). marks (snd x) c)) \<and>
    loop_rank (st_loop s) \<le> 14 \<and> (\<forall>cdn r s'. runLoop cdn r s = Some s' \<longrightarrow> loop_rank (st_loop s') < loop_rank (st_loop s)) \<and>
    (\<exists>s'. if st_loop s = LDone then Stop s = Some s' \<and> st_stop s' = PStopped
          else \<exists>cdn r. (\<forall>m. r \<noteq> Message m) \<and> runLoop cdn r s = Some s')"
proof -
  have inv: "ws_inv s" using ws.reachable_inv [OF assms(1)] .
  note D = ws_invD [OF inv]
  have c: "dr_cancelled (st_driver s)" using D(8) assms(2) by simp
  have read: "c \<in> set (dr_closed (st_driver s)) \<or> (\<exists>x\<in>set (st_sends s). marks (snd x) c)" if l: "st_loop s = LRead c" for c
  proof -
    have "dr_conn (st_driver s) = None" using D(9) assms(2) l by (simp add: has_taken_def)
    then show ?thesis using D(7) [of c] l assms(2) by (auto simp: about_to_close_def senders_def)
  qed
  have "loop_rank (st_loop s) \<le> 14"
  proof (cases "st_loop s")
    case (LAnswer x ev pc)
    then show ?thesis by (cases pc rule: send_pc_full) auto
  next
    case (LLeave m)
    then show ?thesis by (cases m) auto
  qed simp_all
  moreover have "\<exists>s'. if st_loop s = LDone then Stop s = Some s' \<and> st_stop s' = PStopped
      else \<exists>cdn r. (\<forall>m. r \<noteq> Message m) \<and> runLoop cdn r s = Some s'"
  proof (cases "st_loop s = LDone")
    case False
    then show ?thesis using loop_moves [OF c False] by metis
  qed (use assms(2) in \<open>simp add: Stop_def\<close>)
  ultimately show ?thesis using read loop_rank_less [OF c] by blast
qed

section \<open>Runs\<close>

fun ws_run :: "cdn_state \<Rightarrow> ws_event list \<Rightarrow> ws_state \<Rightarrow> ws_state option" where
  "ws_run cdn [] s = Some s"
| "ws_run cdn (e # es) s = Option.bind (ws_exec cdn e s) (ws_run cdn es)"

lemma ws_run_reachable:
  "reachable ws_start ws_step s \<Longrightarrow> ws_run cdn es s = Some s' \<Longrightarrow> reachable ws_start ws_step s'"
proof (induction es arbitrary: s)
  case (Cons e es)
  then obtain t where t: "ws_exec cdn e s = Some t" "ws_run cdn es t = Some s'" by (auto simp: bind_eq_Some_conv)
  then have "ws_step s (cdn, e) t" by (simp add: ws_step_def)
  with Cons.prems(1) have "reachable ws_start ws_step t" by (rule reach_step)
  then show ?case using Cons.IH t(2) by blast
qed simp

definition ws_cfg :: wsDriverConfig where
  "ws_cfg = \<lparr>dc_URL = ''u'', dc_NodeID = 1, dc_NodeType = ''vless'', dc_Token = ''k'', dc_Debug = False\<rparr>"

definition ws_fresh :: ws_state where
  "ws_fresh = started_driver (projr (newWSDriver ws_cfg))
     \<lparr>cl_APIHost = ''p'', cl_NodeId = 1, cl_NodeType = ''vless'',
      cl_node = \<lparr>nodeEtag = [], nodeConfigHash = [], nodeCacheVersion = 0, nodeRetryVersion = 0\<rparr>, cl_userEtag = [],
      cl_alive = \<lparr>ac_AliveMap = None, ac_aliveUpdate = False, ac_kickedUpdate = False\<rparr>\<rparr>"

lemma ws_fresh_reachable: "reachable ws_start ws_step ws_fresh"
proof (rule reach_start)
  have "newWSDriver ws_cfg = Inr (projr (newWSDriver ws_cfg))" by (simp add: newWSDriver_def ws_cfg_def)
  then show "ws_start ws_fresh" unfolding ws_start_def ws_fresh_def by blast
qed

text \<open>A session up to its authentication; a session that ends and the wait after it.\<close>

definition ws_event :: "string \<Rightarrow> ws_event" where
  "ws_event name = EvLoop (Message (Some (JObj [(''event'', JStr name)])))"

definition ws_login :: "ws_event list" where
  "ws_login = [EvLoop Quiet, EvLoop Dialled, EvLoop Quiet, EvLoop Quiet, ws_event ''auth.success'', EvLoop Quiet, EvLoop Quiet,
     EvLoop Quiet, EvLoop (Wrote Written), EvLoop Quiet, EvLoop Quiet]"

definition ws_drop :: "ws_event list" where
  "ws_drop = [EvLoop ReadFailed, EvLoop Quiet, EvLoop Quiet, EvLoop Quiet, EvLoop Quiet, EvLoop Fired]"

theorem ws_sessions_witness:
  "\<exists>s. ws_run ([], None) (ws_login @ [EvStop, EvStop, EvStop, EvStop] @ butlast ws_drop @ [EvStop]) ws_fresh = Some s \<and>
     st_stop s = PStopped \<and> \<not> dr_connected (st_driver s) \<and> set (dr_closed (st_driver s)) = {..<1}"
proof -
  have "map_option (\<lambda>s. (st_stop s, dr_made (st_driver s)))
      (ws_run ([], None) (ws_login @ [EvStop, EvStop, EvStop, EvStop] @ butlast ws_drop @ [EvStop]) ws_fresh) = Some (PStopped, 1)"
    by code_simp
  then obtain s where s: "ws_run ([], None) (ws_login @ [EvStop, EvStop, EvStop, EvStop] @ butlast ws_drop @ [EvStop]) ws_fresh = Some s"
      "st_stop s = PStopped" "dr_made (st_driver s) = 1" by auto
  then show ?thesis using ws_sessions [OF ws_run_reachable [OF ws_fresh_reachable s(1)]] by auto
qed

theorem stop_returns_witness:
  "\<exists>s. ws_run ([], None) (ws_login @ [EvStop, EvStop, EvStop, EvStop]) ws_fresh = Some s \<and> st_stop s = PWait \<and>
     st_loop s = LRead 0 \<and> 0 \<in> set (dr_closed (st_driver s)) \<and> (\<exists>cdn r s'. (\<forall>m. r \<noteq> Message m) \<and> runLoop cdn r s = Some s')"
proof -
  have "map_option (\<lambda>s. (st_stop s, st_loop s, st_sends s))
      (ws_run ([], None) (ws_login @ [EvStop, EvStop, EvStop, EvStop]) ws_fresh) = Some (PWait, LRead 0, [])"
    by code_simp
  then obtain s where s: "ws_run ([], None) (ws_login @ [EvStop, EvStop, EvStop, EvStop]) ws_fresh = Some s"
      "st_stop s = PWait" "st_loop s = LRead 0" "st_sends s = []" by auto
  note all = stop_returns [OF ws_run_reachable [OF ws_fresh_reachable s(1)] s(2)]
  have "0 \<in> set (dr_closed (st_driver s))" using all [THEN conjunct1] s(3,4) by auto
  moreover have "\<exists>cdn r s'. (\<forall>m. r \<noteq> Message m) \<and> runLoop cdn r s = Some s'"
    using all [THEN conjunct2, THEN conjunct2, THEN conjunct2] s(3) by auto
  ultimately show ?thesis using s by blast
qed

text \<open>
  The waits only ever grow: neither an authenticated session nor a long one sets the delay back, so from the fifth loss
  of a connection on every reconnect waits a minute.
\<close>

lemma backoff_never_reset:
  "reachable ws_start ws_step s \<Longrightarrow> 5 \<le> st_waits s \<Longrightarrow> st_backoff s = wsMaxReconnectBackoff"
proof -
  assume r: "reachable ws_start ws_step s" and w: "5 \<le> st_waits s"
  have "(2::int) ^ 5 \<le> 2 ^ st_waits s" using w by (rule power_increasing) simp
  then show ?thesis
    using ws_invD(13) [OF ws.reachable_inv [OF r]] by (simp add: wsMinReconnectBackoff_def wsMaxReconnectBackoff_def clock_units)
qed

text \<open>
  A \<^verbatim>\<open>Send\<close> that fails on the connection of an earlier session clears the flag of the present one, which then neither
  sends a report nor answers a ping until it ends, though it is authenticated.
\<close>

lemma stale_send_disconnects:
  "\<exists>s. reachable ws_start ws_step s \<and> st_auth s \<and> dr_conn (st_driver s) = Some 1 \<and> 1 \<notin> set (dr_closed (st_driver s)) \<and>
     st_loop s = LRead 1 \<and> \<not> dr_connected (st_driver s) \<and> (1, ''pong'') \<notin> set (dr_wire (st_driver s))"
proof -
  let ?es = "ws_login @ [EvSend ''report.devices'', EvSender 0 Written, EvSender 0 Written] @ ws_drop @ ws_login @
    replicate 4 (EvSender 0 WriteFailed) @ [ws_event ''ping'', EvLoop Quiet, EvLoop Quiet, EvLoop Quiet, EvLoop Quiet]"
  have "map_option (\<lambda>s. (st_auth s, dr_conn (st_driver s), dr_closed (st_driver s), st_loop s, dr_connected (st_driver s), dr_wire (st_driver s)))
      (ws_run ([], None) ?es ws_fresh)
    = Some (True, Some 1, [0], LRead 1, False, [(0, ''request.devices''), (1, ''request.devices'')])"
    by code_simp
  then show ?thesis using ws_run_reachable [OF ws_fresh_reachable] by fastforce
qed

end
