(* ===== verification/Panel_Report.thy ===== *)
theory Panel_Report
  imports Ws
begin

text \<open>
  The transport of the panel client: dialling (\<^verbatim>\<open>src/api/panel/dial.go\<close>), the WebSocket driver of a client
  (\<^verbatim>\<open>src/api/panel/panel.go\<close>), the reports that go through it or over HTTP (\<^verbatim>\<open>src/api/panel/user.go\<close>), and the masking of the
  panel's key in everything that is logged (\<^verbatim>\<open>src/api/panel/utils.go\<close>).
\<close>

section \<open>Dialling\<close>

text \<open>
  \<open>dial\<close> is one attempt of the base dialer on a network, with a connection or an error; the list is the attempts that
  were made. \<open>over\<close> says whether the context has ended by the time the first attempt has failed.
\<close>

definition sending_ip :: "string \<Rightarrow> ip_addr option" where
  "sending_ip sendIP = (if CHR ''%'' \<in> set sendIP then None else parse_addr sendIP)"

definition newPanelDialContext ::
  "string \<Rightarrow> (string \<Rightarrow> 'e + 'c) \<Rightarrow> bool \<Rightarrow> string \<Rightarrow> string list \<times> ('e + 'c)" where
  "newPanelDialContext sendIP dial over network =
     (case sending_ip sendIP of
        Some ip \<Rightarrow>
          (let network = (case unmap ip of IPv4 _ \<Rightarrow> ''tcp4'' | IPv6 _ _ \<Rightarrow> ''tcp6'') in ([network], dial network))
      | None \<Rightarrow>
          if network \<noteq> ''tcp'' then ([network], dial network)
          else case dial ''tcp4'' of
            Inr conn \<Rightarrow> ([''tcp4''], Inr conn)
          | Inl err4 \<Rightarrow>
              if over then ([''tcp4''], Inl err4)
              else (case dial ''tcp6'' of
                      Inr conn \<Rightarrow> ([''tcp4'', ''tcp6''], Inr conn)
                    | Inl err6 \<Rightarrow> ([''tcp4'', ''tcp6''], Inl err4)))"

text \<open>
  Without a configured address the panel sees the machine's IPv4 address whenever it can be reached from there; IPv6 is
  only tried when IPv4 has failed, and when both fail the error is that of IPv4.
\<close>

lemma dial_prefers_v4:
  assumes "sending_ip sendIP = None" "newPanelDialContext sendIP dial over ''tcp'' = (tried, r)"
  shows "hd tried = ''tcp4''" "dial ''tcp4'' = Inr conn \<Longrightarrow> r = Inr conn \<and> tried = [''tcp4'']"
    "r = Inl e \<Longrightarrow> dial ''tcp4'' = Inl e" "r = Inr conn \<Longrightarrow> dial ''tcp4'' = Inr conn \<or> dial ''tcp6'' = Inr conn"
  using assms by (auto simp: newPanelDialContext_def split: sum.splits if_splits)

section \<open>The driver of a client\<close>

definition StartWebSocket ::
  "(string \<Rightarrow> 'r url option) \<Rightarrow> ('r url \<Rightarrow> string) \<Rightarrow> ApiConfig \<Rightarrow> Client \<Rightarrow> wsDriver option \<Rightarrow> ws_error option \<times> wsDriver option" where
  "StartWebSocket parse print c p ws =
     (let cfg = ap_WebSocket c
      in if \<not> wsc_Enabled cfg then (None, ws)
         else if ws \<noteq> None then (None, ws)
         else case (if wsc_URL cfg = [] then deriveWSURL parse print (cl_APIHost p) else Inr (wsc_URL cfg)) of
           Inl err \<Rightarrow> (Some err, ws)
         | Inr wsURL \<Rightarrow>
             (case newWSDriver \<lparr>dc_URL = wsURL, dc_NodeID = cl_NodeId p, dc_NodeType = cl_NodeType p, dc_Token = ap_Key c,
                                dc_Debug = wsc_Debug cfg\<rparr> of
                Inl err \<Rightarrow> (Some err, ws)
              | Inr driver \<Rightarrow> (None, Some driver)))"

text \<open>The driver a stop has to wait for, and the client without it.\<close>

definition StopWebSocket :: "wsDriver option \<Rightarrow> wsDriver option \<times> wsDriver option" where
  "StopWebSocket ws = (ws, None)"

definition wsConnected :: "wsDriver option \<Rightarrow> bool" where
  "wsConnected ws = (case ws of None \<Rightarrow> False | Some driver \<Rightarrow> dr_connected driver)"

text \<open>\<open>send\<close> is the outcome of \<^verbatim>\<open>Send\<close>, as the theory on the driver has it.\<close>

definition wsSend :: "(wsDriver \<Rightarrow> ws_error option) \<Rightarrow> wsDriver option \<Rightarrow> ws_error option" where
  "wsSend send ws = (case ws of None \<Rightarrow> Some NoDriver | Some driver \<Rightarrow> send driver)"

section \<open>Reports\<close>

text \<open>
  A report goes over the driver, if it is connected, and else or when that fails over HTTP. The result is the way it
  took and the error; \<open>ws\<close> and \<open>ws'\<close> are the driver at the check and when it sends, since it may go between the two.
\<close>

datatype way = OverWS string | OverHTTP string

definition report_over ::
  "string \<Rightarrow> string \<Rightarrow> (wsDriver \<Rightarrow> ws_error option) \<Rightarrow> wsDriver option \<Rightarrow> wsDriver option \<Rightarrow> string + http_response option
     \<Rightarrow> way list \<times> node_error option" where
  "report_over event path send ws ws' res =
     (if wsConnected ws
      then (case wsSend send ws' of
              None \<Rightarrow> ([OverWS event], None)
            | Some _ \<Rightarrow> ([OverWS event, OverHTTP path], checkResponse res))
      else ([OverHTTP path], checkResponse res))"

definition ReportNodeOnlineUsers where
  "ReportNodeOnlineUsers = report_over ''report.devices'' ''/api/v1/server/UniProxy/alive''"

definition ReportNodeMetrics where
  "ReportNodeMetrics = report_over ''node.status'' ''/api/v2/server/report''"

definition ReportUserTraffic :: "string + http_response option \<Rightarrow> way list \<times> node_error option" where
  "ReportUserTraffic res = ([OverHTTP ''/api/v1/server/UniProxy/push''], checkResponse res)"

definition ReportNodeStatus :: "string + http_response option \<Rightarrow> way list \<times> node_error option" where
  "ReportNodeStatus res = ([OverHTTP ''/api/v1/server/UniProxy/status''], checkResponse res)"

text \<open>No report is lost in silence: without an error, the last way it took has accepted it.\<close>

lemma report_accepted:
  assumes "report_over event path send ws ws' res = (ways, None)"
  shows "(last ways = OverWS event \<and> (\<exists>d. ws' = Some d \<and> send d = None)) \<or>
    (last ways = OverHTTP path \<and> (\<exists>r. res = Inr (Some r) \<and> rs_Status r < 400))"
  using assms
  by (auto simp: report_over_def wsSend_def checkResponse_def split: if_splits option.splits sum.splits)

section \<open>Masking the key\<close>

text \<open>The pattern \<^verbatim>\<open>token=[^&"\s]+\<close>: the leftmost match is replaced, and the search goes on behind it.\<close>

definition token_stop :: "char \<Rightarrow> bool" where
  "token_stop c = (c \<in> set [CHR ''&'', CHR 0x22, CHR 0x09, CHR 0x0A, CHR 0x0C, CHR 0x0D, CHR '' ''])"

lemma behind_token:
  "strip_prefix ''token='' (c # cs) = Some (v # rest) \<Longrightarrow> length (dropWhile (\<lambda>c. \<not> token_stop c) rest) \<le> length cs"
proof -
  assume "strip_prefix ''token='' (c # cs) = Some (v # rest)"
  then have "c # cs = ''token='' @ v # rest" by (simp only: strip_prefix_Some)
  then have "length rest \<le> length cs" by simp
  then show ?thesis using length_dropWhile_le [of "\<lambda>c. \<not> token_stop c" rest] by linarith
qed

function RedactToken :: "string \<Rightarrow> string" where
  "RedactToken [] = []"
| "RedactToken (c # cs) =
     (case strip_prefix ''token='' (c # cs) of
        Some (v # rest) \<Rightarrow>
          if token_stop v then c # RedactToken cs
          else ''token=[REDACTED]'' @ RedactToken (dropWhile (\<lambda>c. \<not> token_stop c) rest)
      | _ \<Rightarrow> c # RedactToken cs)"
  by pat_completeness auto
termination
  by (relation "measure length") (auto simp: less_Suc_eq_le simp del: strip_prefix.simps intro: behind_token)

declare RedactToken.simps(2) [simp del]

text \<open>A byte other than the first of the pattern is only ever copied.\<close>

lemma Redact_copied:
  assumes "RedactToken s = c # r" "c \<noteq> CHR ''t''"
  obtains cs where "s = c # cs" "r = RedactToken cs"
proof (cases s)
  case (Cons d ds)
  then show ?thesis using assms that by (auto simp: RedactToken.simps(2) split: option.splits list.splits if_splits)
qed (use assms in simp)

lemma Redact_copied_word:
  assumes "RedactToken s = w @ r" "CHR ''t'' \<notin> set w"
  shows "\<exists>cs. s = w @ cs \<and> r = RedactToken cs"
  using assms
proof (induction w arbitrary: s)
  case (Cons c w)
  have c: "RedactToken s = c # (w @ r)" "c \<noteq> CHR ''t''" using Cons.prems by auto
  then obtain cs where "s = c # cs" "w @ r = RedactToken cs" by (rule Redact_copied)
  then show ?case using Cons.IH [of cs] Cons.prems(2) by auto
qed simp

lemma token_stop_other: "token_stop c \<Longrightarrow> c \<noteq> CHR ''t''"
  by (auto simp: token_stop_def)

lemma Redact_stop:
  assumes "s = [] \<or> token_stop (hd s)"
  shows "RedactToken s = [] \<or> token_stop (hd (RedactToken s))"
proof (cases s)
  case (Cons c cs)
  then have "token_stop c" using assms by simp
  then have "c \<noteq> CHR ''t''" by (rule token_stop_other)
  then show ?thesis using Cons \<open>token_stop c\<close> by (simp add: RedactToken.simps(2))
qed simp

text \<open>A word without the first byte of the pattern holds no occurrence of it.\<close>

lemma occurrence_behind:
  assumes "w @ r = a @ CHR ''t'' # b" "CHR ''t'' \<notin> set w"
  shows "\<exists>a'. r = a' @ CHR ''t'' # b"
  using assms
proof (induction w arbitrary: a)
  case (Cons c w)
  then show ?case by (cases a) auto
qed auto

definition key_free :: "string \<Rightarrow> bool" where
  "key_free t = (\<forall>a b. t = a @ ''token='' @ b \<longrightarrow> b = [] \<or> token_stop (hd b) \<or> (\<exists>r. b = ''[REDACTED]'' @ r))"

lemma key_free_masked:
  assumes "key_free r"
  shows "key_free (''token=[REDACTED]'' @ r)"
  unfolding key_free_def
proof (intro allI impI)
  fix a b assume o: "''token=[REDACTED]'' @ r = a @ ''token='' @ b"
  show "b = [] \<or> token_stop (hd b) \<or> (\<exists>r. b = ''[REDACTED]'' @ r)"
  proof (cases a)
    case (Cons x a')
    then have "''oken=[REDACTED]'' @ r = a' @ CHR ''t'' # ''oken='' @ b" using o by simp
    then obtain a'' where "r = a'' @ CHR ''t'' # ''oken='' @ b"
      using occurrence_behind [of "''oken=[REDACTED]''" r a' "''oken='' @ b"] by auto
    then have "r = a'' @ ''token='' @ b" by simp
    then show ?thesis using assms unfolding key_free_def by blast
  qed (use o in auto)
qed

lemma key_free_copied:
  assumes "key_free (RedactToken cs)" "\<nexists>v rest. c # cs = ''token='' @ v # rest \<and> \<not> token_stop v"
  shows "key_free (c # RedactToken cs)"
  unfolding key_free_def
proof (intro allI impI)
  fix a b assume o: "c # RedactToken cs = a @ ''token='' @ b"
  show "b = [] \<or> token_stop (hd b) \<or> (\<exists>r. b = ''[REDACTED]'' @ r)"
  proof (cases a)
    case Nil
    then have c: "c = CHR ''t''" "RedactToken cs = ''oken='' @ b" using o by auto
    then obtain r where r: "cs = ''oken='' @ r" "b = RedactToken r" using Redact_copied_word [of cs "''oken=''" b] by auto
    then have "r = [] \<or> token_stop (hd r)" using assms(2) c(1) by (cases r) auto
    then show ?thesis using Redact_stop r(2) by blast
  qed (use o assms(1) in \<open>auto simp: key_free_def\<close>)
qed

text \<open>The two ways through the search.\<close>

lemma Redact_cases [case_names none masked copied]:
  assumes "s = [] \<Longrightarrow> P"
    and "\<And>v rest. s = ''token='' @ v # rest \<Longrightarrow> RedactToken s = ''token=[REDACTED]'' @ RedactToken (dropWhile (\<lambda>c. \<not> token_stop c) rest)
      \<Longrightarrow> length (dropWhile (\<lambda>c. \<not> token_stop c) rest) < length s \<Longrightarrow> P"
    and "\<And>c cs. s = c # cs \<Longrightarrow> RedactToken s = c # RedactToken cs \<Longrightarrow> \<nexists>v rest. c # cs = ''token='' @ v # rest \<and> \<not> token_stop v \<Longrightarrow> P"
  shows P
proof (cases s)
  case (Cons c cs)
  show ?thesis
  proof (cases "\<exists>v rest. c # cs = ''token='' @ v # rest \<and> \<not> token_stop v")
    case True
    then obtain v rest where s: "c # cs = ''token='' @ v # rest" "\<not> token_stop v" by blast
    have strip: "strip_prefix ''token='' (c # cs) = Some (v # rest)" using s(1) by (simp only: strip_prefix_Some)
    show ?thesis
    proof (rule assms(2))
      show "s = ''token='' @ v # rest" using s(1) Cons by simp
      show "RedactToken s = ''token=[REDACTED]'' @ RedactToken (dropWhile (\<lambda>c. \<not> token_stop c) rest)"
        unfolding Cons using strip s(2) by (simp add: RedactToken.simps(2))
      show "length (dropWhile (\<lambda>c. \<not> token_stop c) rest) < length s" using behind_token [OF strip] Cons by simp
    qed
  next
    case False
    then have "RedactToken (c # cs) = c # RedactToken cs"
      by (auto simp: RedactToken.simps(2) strip_prefix_Some simp del: strip_prefix.simps split: option.splits list.splits)
    then show ?thesis using assms(3) Cons False by blast
  qed
qed (rule assms(1))

text \<open>
  In a masked text the panel's key does not occur: behind every \<^verbatim>\<open>token=\<close>, wherever it stands, the text ends, or a
  byte follows that cannot belong to a value, or the placeholder. A text without \<^verbatim>\<open>token=\<close> is left as it is.
\<close>

theorem RedactToken_masks:
  "(\<forall>a b. RedactToken s = a @ ''token='' @ b \<longrightarrow> b = [] \<or> token_stop (hd b) \<or> (\<exists>r. b = ''[REDACTED]'' @ r)) \<and>
   ((\<nexists>a b. s = a @ ''token='' @ b) \<longrightarrow> RedactToken s = s)"
  unfolding key_free_def [symmetric]
proof (induction s rule: length_induct)
  case (1 s)
  show ?case
  proof (cases s rule: Redact_cases)
    case (masked v rest)
    have "\<exists>a b. s = a @ ''token='' @ b" using masked(1) by (metis append_Nil)
    then show ?thesis using "1.IH" masked(3) key_free_masked unfolding masked(2) by blast
  next
    case (copied c cs)
    have "length cs < length s" using copied(1) by simp
    moreover have "\<exists>a b. s = a @ ''token='' @ b" if "\<exists>a b. cs = a @ ''token='' @ b" using that copied(1) by (metis append_Cons)
    ultimately show ?thesis using "1.IH" key_free_copied [OF _ copied(3)] copied(1,2) by metis
  qed (simp add: key_free_def)
qed

theorem RedactToken_masks_witness:
  "RedactToken ''Get http://p/user?token=secret&node_id=1: EOF'' = ''Get http://p/user?token=[REDACTED]&node_id=1: EOF'' \<and>
   RedactToken ''EOF'' = ''EOF''"
proof
  show "RedactToken ''Get http://p/user?token=secret&node_id=1: EOF'' = ''Get http://p/user?token=[REDACTED]&node_id=1: EOF''"
    by code_simp
  have "''EOF'' \<noteq> a @ ''token='' @ b" for a b :: string by (rule notI, drule arg_cong [of _ _ length]) simp
  then show "RedactToken ''EOF'' = ''EOF''" using RedactToken_masks [of "''EOF''"] by simp
qed

end
