(* ===== verification/Counter.thy ===== *)
theory Counter
  imports Limiter
begin

text \<open>
  The byte counters of \<^verbatim>\<open>src/common/counter\<close>. A \<^verbatim>\<open>TrafficStorage\<close> is reached by pointer, from the table of its node and from
  every connection that counts into it, and the two part when the table forgets a user; so storages live in a list and
  a pointer is an index into it. The table of a node is a map from user to pointer.

  \<open>collect\<close> is the walk over a table that both cores make for a report (\<^verbatim>\<open>GetUserTrafficSlice\<close>).
\<close>

section \<open>Storages and tables\<close>

record TrafficStorage =
  UpCounter :: int
  DownCounter :: int

type_synonym storages = "TrafficStorage list"
type_synonym TrafficCounter = "(string, nat) gomap"

definition no_traffic :: TrafficStorage where
  "no_traffic = \<lparr>UpCounter = 0, DownCounter = 0\<rparr>"

definition NewTrafficCounter :: TrafficCounter where
  "NewTrafficCounter = []"

definition add_up :: "int \<Rightarrow> nat \<Rightarrow> storages \<Rightarrow> storages" where
  "add_up n a h = h[a := (h ! a)\<lparr>UpCounter := i64 (UpCounter (h ! a) + n)\<rparr>]"

definition add_down :: "int \<Rightarrow> nat \<Rightarrow> storages \<Rightarrow> storages" where
  "add_down n a h = h[a := (h ! a)\<lparr>DownCounter := i64 (DownCounter (h ! a) + n)\<rparr>]"

definition GetCounter :: "string \<Rightarrow> TrafficCounter \<Rightarrow> storages \<Rightarrow> nat \<times> TrafficCounter \<times> storages" where
  "GetCounter uuid c h =
     (case map_of c uuid of
        Some a \<Rightarrow> (a, c, h)
      | None \<Rightarrow> (length h, AList.update uuid (length h) c, h @ [no_traffic]))"

definition GetUpCount :: "string \<Rightarrow> TrafficCounter \<Rightarrow> storages \<Rightarrow> int" where
  "GetUpCount uuid c h = (case map_of c uuid of Some a \<Rightarrow> UpCounter (h ! a) | None \<Rightarrow> 0)"

definition GetDownCount :: "string \<Rightarrow> TrafficCounter \<Rightarrow> storages \<Rightarrow> int" where
  "GetDownCount uuid c h = (case map_of c uuid of Some a \<Rightarrow> DownCounter (h ! a) | None \<Rightarrow> 0)"

definition Counter_Len :: "TrafficCounter \<Rightarrow> nat" where
  "Counter_Len c = length c"

definition Counter_Reset :: "string \<Rightarrow> TrafficCounter \<Rightarrow> storages \<Rightarrow> storages" where
  "Counter_Reset uuid c h = (case map_of c uuid of Some a \<Rightarrow> h[a := no_traffic] | None \<Rightarrow> h)"

definition Counter_Delete :: "string \<Rightarrow> TrafficCounter \<Rightarrow> TrafficCounter" where
  "Counter_Delete uuid c = AList.delete uuid c"

definition Rx :: "string \<Rightarrow> int \<Rightarrow> TrafficCounter \<Rightarrow> storages \<Rightarrow> TrafficCounter \<times> storages" where
  "Rx uuid n c h = (case GetCounter uuid c h of (a, c, h) \<Rightarrow> (c, add_down n a h))"

definition Tx :: "string \<Rightarrow> int \<Rightarrow> TrafficCounter \<Rightarrow> storages \<Rightarrow> TrafficCounter \<times> storages" where
  "Tx uuid n c h = (case GetCounter uuid c h of (a, c, h) \<Rightarrow> (c, add_up n a h))"

section \<open>Counting connections\<close>

text \<open>
  A connection with its storage, what to run when it is closed, and whether that has run. What the connection below
  returns is an argument: the number of bytes, and for the buffer operations whether there was an error.
\<close>

record 'f ConnCounter =
  cc_storage :: nat
  cc_onClose :: "'f option"
  cc_closed :: bool

definition NewConnCounter :: "nat \<Rightarrow> 'f option \<Rightarrow> 'f ConnCounter" where
  "NewConnCounter s onClose = \<lparr>cc_storage = s, cc_onClose = onClose, cc_closed = False\<rparr>"

definition Conn_Close :: "'f ConnCounter \<Rightarrow> 'f option \<times> 'f ConnCounter" where
  "Conn_Close c = (if cc_closed c then None else cc_onClose c, c\<lparr>cc_closed := True\<rparr>)"

definition Conn_Read :: "int \<Rightarrow> 'f ConnCounter \<Rightarrow> storages \<Rightarrow> storages" where
  "Conn_Read n c h = (if 0 < n then add_up n (cc_storage c) h else h)"

definition Conn_Write :: "int \<Rightarrow> 'f ConnCounter \<Rightarrow> storages \<Rightarrow> storages" where
  "Conn_Write n c h = (if 0 < n then add_down n (cc_storage c) h else h)"

definition ReadBuffer :: "bool \<Rightarrow> int \<Rightarrow> 'f ConnCounter \<Rightarrow> storages \<Rightarrow> storages" where
  "ReadBuffer err n c h = (if err then h else Conn_Read n c h)"

definition WriteBuffer :: "bool \<Rightarrow> int \<Rightarrow> 'f ConnCounter \<Rightarrow> storages \<Rightarrow> storages" where
  "WriteBuffer err n c h = (if err then h else Conn_Write n c h)"

section \<open>The walk of a report\<close>

text \<open>
  One entry: traffic up to the threshold stays; else it is reset, and reported under the user's id or, for a user
  without one, forgotten with its entry.
\<close>

definition collect_one ::
  "(string \<Rightarrow> int) \<Rightarrow> int \<Rightarrow> bool \<Rightarrow> string \<times> nat \<Rightarrow> UserTraffic list \<times> TrafficCounter \<times> storages
     \<Rightarrow> UserTraffic list \<times> TrafficCounter \<times> storages" where
  "collect_one uidOf minTraffic reset = (\<lambda>(user, a) (lines, c, h).
     let up = UpCounter (h ! a); down = DownCounter (h ! a)
     in if i64 (up + down) \<le> minTraffic then (lines, c, h)
        else
          (let h = (if reset then h[a := no_traffic] else h)
           in if uidOf user = 0 then (lines, Counter_Delete user c, h)
              else (lines @ [\<lparr>t_UID = uidOf user, t_Upload = up, t_Download = down\<rparr>], c, h)))"

definition collect ::
  "(string \<Rightarrow> int) \<Rightarrow> int \<Rightarrow> bool \<Rightarrow> TrafficCounter \<Rightarrow> storages \<Rightarrow> UserTraffic list \<times> TrafficCounter \<times> storages" where
  "collect uidOf minTraffic reset c h = fold (collect_one uidOf minTraffic reset) c ([], c, h)"

text \<open>A table of its own storages: one entry a user, one storage an entry.\<close>

definition table_wf :: "TrafficCounter \<Rightarrow> storages \<Rightarrow> bool" where
  "table_wf c h = (keys_distinct c \<and> distinct (map snd c) \<and> (\<forall>a\<in>set (map snd c). a < length h))"

definition due_entry :: "int \<Rightarrow> storages \<Rightarrow> string \<times> nat \<Rightarrow> bool" where
  "due_entry minTraffic h e = (minTraffic < i64 (UpCounter (h ! snd e) + DownCounter (h ! snd e)))"

definition entry_traffic :: "(string \<Rightarrow> int) \<Rightarrow> storages \<Rightarrow> string \<times> nat \<Rightarrow> UserTraffic" where
  "entry_traffic uidOf h e = \<lparr>t_UID = uidOf (fst e), t_Upload = UpCounter (h ! snd e), t_Download = DownCounter (h ! snd e)\<rparr>"

definition clear_due :: "int \<Rightarrow> storages \<Rightarrow> (string \<times> nat) list \<Rightarrow> storages \<Rightarrow> storages" where
  "clear_due minTraffic h es = fold (\<lambda>e k. if due_entry minTraffic h e then k[snd e := no_traffic] else k) es"

definition drop_unknown :: "(string \<Rightarrow> int) \<Rightarrow> int \<Rightarrow> storages \<Rightarrow> (string \<times> nat) list \<Rightarrow> TrafficCounter \<Rightarrow> TrafficCounter" where
  "drop_unknown uidOf minTraffic h es =
     fold (\<lambda>e c. if due_entry minTraffic h e \<and> uidOf (fst e) = 0 then Counter_Delete (fst e) c else c) es"

text \<open>An entry is looked at once, and what came before has not touched its storage.\<close>

lemma fold_collect:
  assumes "distinct (map snd es)" "\<forall>e\<in>set es. h0 ! snd e = h ! snd e"
  shows "fold (collect_one uidOf m True) es (lines, c0, h0) =
    (lines @ map (entry_traffic uidOf h) (filter (\<lambda>e. due_entry m h e \<and> uidOf (fst e) \<noteq> 0) es),
     drop_unknown uidOf m h es c0, clear_due m h es h0)"
  using assms
proof (induction es arbitrary: lines c0 h0)
  case (Cons e es)
  obtain u a where e: "e = (u, a)" by force
  have a: "h0 ! a = h ! a" using Cons.prems(2) e by simp
  have rest: "\<forall>x\<in>set es. (if due_entry m h e then h0[a := no_traffic] else h0) ! snd x = h ! snd x"
  proof
    fix x assume "x \<in> set es"
    then have "snd x \<noteq> a" "h0 ! snd x = h ! snd x" using Cons.prems e by force+
    then show "(if due_entry m h e then h0[a := no_traffic] else h0) ! snd x = h ! snd x" by (simp add: nth_list_update_neq)
  qed
  show ?case
    using Cons.IH [OF _ rest] Cons.prems(1) a
    by (auto simp: e collect_one_def Let_def due_entry_def entry_traffic_def drop_unknown_def clear_due_def split: if_splits)
qed (simp add: drop_unknown_def clear_due_def)

lemma clear_due_nth:
  "length (clear_due m h es k) = length k"
  "a < length k \<Longrightarrow> clear_due m h es k ! a = (if \<exists>e\<in>set es. snd e = a \<and> due_entry m h e then no_traffic else k ! a)"
proof (induction es arbitrary: k)
  case (Cons e es)
  {
    case 1
    then show ?case using Cons.IH(1) by (simp add: clear_due_def)
  next
    case 2
    have step: "clear_due m h (e # es) k = clear_due m h es (if due_entry m h e then k[snd e := no_traffic] else k)"
      by (simp add: clear_due_def)
    show ?case unfolding step using Cons.IH(2) [of "if due_entry m h e then k[snd e := no_traffic] else k"] 2
      by (auto simp: nth_list_update)
  }
qed (simp_all add: clear_due_def)

lemma drop_unknown_filter:
  "drop_unknown uidOf m h es c = filter (\<lambda>p. \<not> (\<exists>e\<in>set es. due_entry m h e \<and> uidOf (fst e) = 0 \<and> fst e = fst p)) c"
proof (induction es arbitrary: c)
  case (Cons e es)
  have "drop_unknown uidOf m h (e # es) c
      = drop_unknown uidOf m h es (if due_entry m h e \<and> uidOf (fst e) = 0 then Counter_Delete (fst e) c else c)"
    by (simp add: drop_unknown_def)
  then show ?case by (auto simp: Cons.IH Counter_Delete_def AList.delete_eq intro!: filter_cong)
qed (simp add: drop_unknown_def)

text \<open>
  C11. The walk of a report over a node's table is exact: the report has one line for every user with an id whose traffic
  is above the threshold, with all he had sent and received, in the order of the walk, and nothing else. The counters of
  exactly these and of the users without an id above the threshold are zero afterwards, so nothing is reported twice,
  and every other counter is as it was, so what is too little to report is kept for a later report. The entries of
  users without an id above the threshold are gone, all other entries remain.
\<close>

theorem collect_exact:
  assumes "table_wf c h" "collect uidOf m True c h = (lines, c', h')"
  shows "lines = map (entry_traffic uidOf h) (filter (\<lambda>e. due_entry m h e \<and> uidOf (fst e) \<noteq> 0) c) \<and>
    c' = filter (\<lambda>e. \<not> (due_entry m h e \<and> uidOf (fst e) = 0)) c \<and> length h' = length h \<and>
    (\<forall>a < length h. h' ! a = (if \<exists>e\<in>set c. snd e = a \<and> due_entry m h e then no_traffic else h ! a))"
proof -
  have wf: "keys_distinct c" "distinct (map snd c)" using assms(1) by (simp_all add: table_wf_def)
  have r: "lines = map (entry_traffic uidOf h) (filter (\<lambda>e. due_entry m h e \<and> uidOf (fst e) \<noteq> 0) c)"
      "c' = drop_unknown uidOf m h c c" "h' = clear_due m h c h"
    using assms(2) fold_collect [OF wf(2), of h h uidOf m "[]" c] by (simp_all add: collect_def)
  have "e = p" if "e \<in> set c" "p \<in> set c" "fst e = fst p" for e p
    using that wf(1) by (metis eq_key_imp_eq_value prod.collapse)
  then have "c' = filter (\<lambda>e. \<not> (due_entry m h e \<and> uidOf (fst e) = 0)) c"
    unfolding r(2) drop_unknown_filter by (intro filter_cong) auto
  then show ?thesis using r clear_due_nth by simp
qed

theorem collect_exact_witness:
  "collect (\<lambda>u. if u = ''a'' then 7 else 0) 10 True [(''a'', 1), (''b'', 0), (''c'', 2)]
     [\<lparr>UpCounter = 20, DownCounter = 5\<rparr>, \<lparr>UpCounter = 6, DownCounter = 8\<rparr>, \<lparr>UpCounter = 3, DownCounter = 4\<rparr>]
   = ([\<lparr>t_UID = 7, t_Upload = 6, t_Download = 8\<rparr>], [(''a'', 1), (''c'', 2)], [no_traffic, no_traffic, \<lparr>UpCounter = 3, DownCounter = 4\<rparr>]) \<and>
   [(''a'', 1), (''c'', 2)] = filter (\<lambda>e. \<not> (due_entry 10 [\<lparr>UpCounter = 20, DownCounter = 5\<rparr>, \<lparr>UpCounter = 6, DownCounter = 8\<rparr>,
     \<lparr>UpCounter = 3, DownCounter = 4\<rparr>] e \<and> (if fst e = ''a'' then 7 else 0 :: int) = 0)) [(''a'', 1), (''b'', 0), (''c'', 2 :: nat)]"
proof -
  have run: "collect (\<lambda>u. if u = ''a'' then 7 else 0) 10 True [(''a'', 1), (''b'', 0), (''c'', 2)]
     [\<lparr>UpCounter = 20, DownCounter = 5\<rparr>, \<lparr>UpCounter = 6, DownCounter = 8\<rparr>, \<lparr>UpCounter = 3, DownCounter = 4\<rparr>]
   = ([\<lparr>t_UID = 7, t_Upload = 6, t_Download = 8\<rparr>], [(''a'', 1), (''c'', 2)], [no_traffic, no_traffic, \<lparr>UpCounter = 3, DownCounter = 4\<rparr>])"
    by code_simp
  then show ?thesis using collect_exact [OF _ run] by (simp add: table_wf_def)
qed

section \<open>Counting while a report is made\<close>

text \<open>
  The walk does not stop the connections. For one entry it loads the two counters and then, if they are above the
  threshold, stores zero to each; the connections add between any two of these. \<open>ty_counted\<close>, \<open>ty_reported\<close> and \<open>ty_lost\<close>
  record, for upload and download, what was counted, what was handed to a report, and what a store wiped out that the
  load before it had not seen; \<open>ty_overlap\<close> is what was counted while the walk was at the entry.
\<close>

datatype walk_pc = WIdle | WUp int | WBoth int int | WReset int int

record tally =
  ty_storage :: TrafficStorage
  ty_pc :: walk_pc
  ty_counted :: "int \<times> int"
  ty_reported :: "int \<times> int"
  ty_lost :: "int \<times> int"
  ty_overlap :: "int \<times> int"

abbreviation plus2 :: "int \<times> int \<Rightarrow> int \<times> int \<Rightarrow> int \<times> int" where
  "plus2 x y \<equiv> (fst x + fst y, snd x + snd y)"

definition tally_count :: "int \<times> int \<Rightarrow> tally \<Rightarrow> tally" where
  "tally_count n t =
     t\<lparr>ty_storage := hd (add_down (snd n) 0 (add_up (fst n) 0 [ty_storage t])), ty_counted := plus2 (ty_counted t) n,
       ty_overlap := (if ty_pc t = WIdle then ty_overlap t else plus2 (ty_overlap t) n)\<rparr>"

definition tally_walk :: "int \<Rightarrow> tally \<Rightarrow> tally" where
  "tally_walk minTraffic t =
     (let s = ty_storage t in
      case ty_pc t of
        WIdle \<Rightarrow> t\<lparr>ty_pc := WUp (UpCounter s)\<rparr>
      | WUp up \<Rightarrow> t\<lparr>ty_pc := (if i64 (up + DownCounter s) \<le> minTraffic then WIdle else WBoth up (DownCounter s))\<rparr>
      | WBoth up down \<Rightarrow>
          t\<lparr>ty_storage := s\<lparr>UpCounter := 0\<rparr>, ty_pc := WReset up down, ty_lost := plus2 (ty_lost t) (UpCounter s - up, 0)\<rparr>
      | WReset up down \<Rightarrow>
          t\<lparr>ty_storage := s\<lparr>DownCounter := 0\<rparr>, ty_pc := WIdle, ty_lost := plus2 (ty_lost t) (0, DownCounter s - down),
            ty_reported := plus2 (ty_reported t) (up, down)\<rparr>)"

definition tally_start :: "tally \<Rightarrow> bool" where
  "tally_start t = (t = \<lparr>ty_storage = no_traffic, ty_pc = WIdle, ty_counted = (0, 0), ty_reported = (0, 0), ty_lost = (0, 0), ty_overlap = (0, 0)\<rparr>)"

inductive tally_step :: "tally \<Rightarrow> int \<times> int \<Rightarrow> tally \<Rightarrow> bool" where
  counts: "0 \<le> fst n \<Longrightarrow> 0 \<le> snd n \<Longrightarrow> tally_step t n (tally_count n t)"
| walks: "tally_step t n (tally_walk minTraffic t)"

text \<open>What is reset but not yet in the report, and what came in since the loads.\<close>

fun in_flight :: "walk_pc \<Rightarrow> int \<times> int" where
  "in_flight (WReset up down) = (up, 0)" | "in_flight _ = (0, 0)"

definition same64 :: "int \<Rightarrow> int \<Rightarrow> bool" where
  "same64 x y = (2 ^ 64 dvd x - y)"

fun seen_all :: "walk_pc \<Rightarrow> TrafficStorage \<Rightarrow> bool" where
  "seen_all WIdle s = True"
| "seen_all (WUp up) s = (up = UpCounter s)"
| "seen_all (WBoth up down) s = (up = UpCounter s \<and> down = DownCounter s)"
| "seen_all (WReset up down) s = (down = DownCounter s)"

definition tally_inv :: "tally \<Rightarrow> bool" where
  "tally_inv t =
     (same64 (fst (ty_counted t)) (UpCounter (ty_storage t) + fst (in_flight (ty_pc t)) + fst (ty_reported t) + fst (ty_lost t)) \<and>
      same64 (snd (ty_counted t)) (DownCounter (ty_storage t) + snd (ty_reported t) + snd (ty_lost t)) \<and>
      int64_range (UpCounter (ty_storage t)) \<and> int64_range (DownCounter (ty_storage t)) \<and>
      0 \<le> fst (ty_overlap t) \<and> 0 \<le> snd (ty_overlap t) \<and>
      (ty_overlap t = (0, 0) \<longrightarrow> ty_lost t = (0, 0) \<and> seen_all (ty_pc t) (ty_storage t)))"

lemma i64_same64: "2 ^ 64 dvd i64 x - x"
proof -
  have "take_bit 64 (i64 x) = take_bit 64 x" by (simp add: i64_def take_bit_signed_take_bit)
  then have "i64 x mod 2 ^ 64 = x mod 2 ^ 64" by (simp only: take_bit_eq_mod)
  then show ?thesis by (simp only: mod_eq_dvd_iff)
qed

lemma same64_count: "same64 x (c + r) \<Longrightarrow> same64 (x + n) (i64 (c + n) + r)"
proof -
  assume "same64 x (c + r)"
  then have "2 ^ 64 dvd (x - (c + r)) - (i64 (c + n) - (c + n))" unfolding same64_def using i64_same64 by (rule dvd_diff)
  then show ?thesis unfolding same64_def by (simp add: algebra_simps)
qed

lemma tally_count_inv:
  assumes "tally_inv t" "0 \<le> fst n" "0 \<le> snd n"
  shows "tally_inv (tally_count n t)"
proof -
  obtain a b where n: "n = (a, b)" by force
  have s: "ty_storage (tally_count n t) =
      \<lparr>UpCounter = i64 (UpCounter (ty_storage t) + a), DownCounter = i64 (DownCounter (ty_storage t) + b)\<rparr>"
    by (cases "ty_storage t") (simp add: tally_count_def add_up_def add_down_def n)
  have f: "ty_pc (tally_count n t) = ty_pc t" "ty_reported (tally_count n t) = ty_reported t" "ty_lost (tally_count n t) = ty_lost t"
    "ty_counted (tally_count n t) = (fst (ty_counted t) + a, snd (ty_counted t) + b)"
    by (simp_all add: tally_count_def n)
  have up: "same64 (fst (ty_counted t) + a) (i64 (UpCounter (ty_storage t) + a) + (fst (in_flight (ty_pc t)) + fst (ty_reported t) + fst (ty_lost t)))"
    by (rule same64_count) (use assms(1) in \<open>simp add: tally_inv_def add.assoc\<close>)
  have down: "same64 (snd (ty_counted t) + b) (i64 (DownCounter (ty_storage t) + b) + (snd (ty_reported t) + snd (ty_lost t)))"
    by (rule same64_count) (use assms(1) in \<open>simp add: tally_inv_def add.assoc\<close>)
  have o: "ty_overlap (tally_count n t) = (0, 0) \<Longrightarrow> ty_overlap t = (0, 0) \<and> (ty_pc t = WIdle \<or> a = 0 \<and> b = 0)"
    using assms by (cases "ty_overlap t") (auto simp: tally_count_def tally_inv_def n split: if_splits)
  have seen: "seen_all (ty_pc t) (ty_storage (tally_count n t))" if "ty_overlap (tally_count n t) = (0, 0)"
    using o [OF that] assms(1) unfolding s by (cases "ty_pc t") (auto simp: tally_inv_def)
  have pos: "0 \<le> fst (ty_overlap (tally_count n t))" "0 \<le> snd (ty_overlap (tally_count n t))"
    using assms by (simp_all add: tally_count_def tally_inv_def)
  show ?thesis
    unfolding tally_inv_def f using up down seen pos o assms(1) s by (auto simp: add.assoc tally_inv_def)
qed

lemma tally_walk_inv:
  assumes "tally_inv t"
  shows "tally_inv (tally_walk m t)"
  using assms by (cases "ty_pc t") (auto simp: tally_walk_def tally_inv_def Let_def same64_def int64_range_def algebra_simps)

interpretation tally: component tally_start tally_step tally_inv
proof unfold_locales
  fix t n t' assume inv: "tally_inv t" and step: "tally_step t n t'"
  show "tally_inv t'" using step by (cases rule: tally_step.cases) (auto intro: tally_count_inv tally_walk_inv inv)
qed (auto simp: tally_start_def tally_inv_def same64_def no_traffic_def int64_range_def)





end
