(* ===== verification/Sing.thy ===== *)
theory Sing
  imports Counter Selector Porthop
begin

text \<open>
  The sing-box core (\<^verbatim>\<open>src/core/sing\<close>) without the making of sing-box options: nodes and their inbounds
  (\<^verbatim>\<open>node.go\<close>, \<^verbatim>\<open>sing.go\<close>), the nodes that are rebuilt for every user (\<^verbatim>\<open>naive.go\<close>), users and traffic (\<^verbatim>\<open>user.go\<close>), and the
  hook every connection passes (\<^verbatim>\<open>hook.go\<close>), which asks the limiter and counts.

  sing-box itself is the argument \<open>box_api\<close>, over a state \<open>'b\<close>: its inbound manager, and the options of an inbound, of
  which only the error matters. The port hopping manager works on the host \<open>'w\<close>.
\<close>

section \<open>The state\<close>

datatype removal = Removed | Absent | NotRemoved string

record 'b box_api =
  bx_options :: "string \<Rightarrow> NodeInfo \<Rightarrow> Options \<Rightarrow> string option"
  bx_Create :: "string \<Rightarrow> string \<Rightarrow> string list \<Rightarrow> 'b \<Rightarrow> string option \<times> 'b"
  bx_Remove :: "string \<Rightarrow> 'b \<Rightarrow> removal \<times> 'b"
  bx_Get :: "string \<Rightarrow> 'b \<Rightarrow> bool"
  bx_AddUsers :: "string \<Rightarrow> UserInfo list \<Rightarrow> 'b \<Rightarrow> string option \<times> 'b"
  bx_DelUsers :: "string \<Rightarrow> string list \<Rightarrow> 'b \<Rightarrow> string option \<times> 'b"

record naiveNode =
  nn_info :: NodeInfo
  nn_options :: Options
  nn_users :: "(string, string) gomap"
  nn_built :: bool

record ('b, 'w) Sing =
  sb_box :: 'b
  sb_uidMap :: "(string, int) gomap"
  sb_minTraffic :: "(string, int) gomap"
  sb_nodeTypes :: "(string, string) gomap"
  sb_detourOwners :: "(string, string) gomap"
  sb_naive :: "(string, naiveNode) gomap"
  sb_counter :: "(string, TrafficCounter) gomap"
  sb_storages :: storages
  sb_portHop :: "'w Manager"
  sb_host :: 'w

datatype sing_error =
    BadSingOptions | OptionsRefused string | InboundRefused string | InboundStays string | NoInbound string | UnsupportedType string
  | MissingNaive | NotRegistered string | UsersRefused string | HopFailed hop_error | BadRanges range_error | AllOf "sing_error list"

text \<open>\<^verbatim>\<open>errors.Join\<close> of what went wrong.\<close>

definition join_errors :: "sing_error option list \<Rightarrow> sing_error option" where
  "join_errors es = (case List.map_filter id es of [] \<Rightarrow> None | errs \<Rightarrow> Some (AllOf errs))"

definition detourTag :: "string \<Rightarrow> string" where
  "detourTag tag = tag @ ''$detour''"

definition resolveNodeTag :: "('b, 'w) Sing \<Rightarrow> string \<Rightarrow> string" where
  "resolveNodeTag s inboundTag = mget inboundTag (sb_detourOwners s) inboundTag"

section \<open>Naive nodes\<close>

definition registerNaiveNode :: "string \<Rightarrow> NodeInfo \<Rightarrow> Options \<Rightarrow> ('b, 'w) Sing \<Rightarrow> sing_error option \<times> ('b, 'w) Sing" where
  "registerNaiveNode tag info options s =
     (if ni_Naive info = None then (Some MissingNaive, s)
      else (None, s\<lparr>sb_naive := AList.update tag \<lparr>nn_info = info, nn_options = options, nn_users = [], nn_built = False\<rparr> (sb_naive s)\<rparr>))"

definition unregisterNaiveNode :: "'b box_api \<Rightarrow> string \<Rightarrow> ('b, 'w) Sing \<Rightarrow> sing_error option \<times> ('b, 'w) Sing" where
  "unregisterNaiveNode bx tag s =
     (case map_of (sb_naive s) tag of
        None \<Rightarrow> (None, s)
      | Some node \<Rightarrow>
          (let s = s\<lparr>sb_naive := AList.delete tag (sb_naive s)\<rparr>
           in if \<not> nn_built node then (None, s)
              else case bx_Remove bx tag (sb_box s) of
                (NotRemoved e, b) \<Rightarrow> (Some (InboundStays e), s\<lparr>sb_box := b\<rparr>)
              | (_, b) \<Rightarrow> (None, s\<lparr>sb_box := b\<rparr>)))"

text \<open>Remove the inbound, if there is one, and build it again from the users, if there are any.\<close>

definition rebuildNaiveLocked :: "'b box_api \<Rightarrow> string \<Rightarrow> naiveNode \<Rightarrow> 'b \<Rightarrow> sing_error option \<times> naiveNode \<times> 'b" where
  "rebuildNaiveLocked bx tag node b =
     (case (if nn_built node then bx_Remove bx tag b else (Absent, b)) of
        (NotRemoved e, b) \<Rightarrow> (Some (InboundStays e), node, b)
      | (_, b) \<Rightarrow>
          (let node = node\<lparr>nn_built := False\<rparr>
           in if nn_users node = [] then (None, node, b)
              else case bx_options bx tag (nn_info node) (nn_options node) of
                Some e \<Rightarrow> (Some (OptionsRefused e), node, b)
              | None \<Rightarrow>
                  (case bx_Create bx tag ''naive'' (sort (map fst (nn_users node))) b of
                     (Some e, b) \<Rightarrow> (Some (InboundRefused e), node, b)
                   | (None, b) \<Rightarrow> (None, node\<lparr>nn_built := True\<rparr>, b))))"

definition store_naive :: "string \<Rightarrow> sing_error option \<times> naiveNode \<times> 'b \<Rightarrow> ('b, 'w) Sing \<Rightarrow> sing_error option \<times> ('b, 'w) Sing" where
  "store_naive tag = (\<lambda>(e, node, b) s. (e, s\<lparr>sb_naive := AList.update tag node (sb_naive s), sb_box := b\<rparr>))"

definition naive_add :: "UserInfo \<Rightarrow> (string, string) gomap \<times> nat \<Rightarrow> (string, string) gomap \<times> nat" where
  "naive_add u = (\<lambda>(us, changed). if map_of us (u_Uuid u) = Some (u_Uuid u) then (us, changed)
                                 else (AList.update (u_Uuid u) (u_Uuid u) us, Suc changed))"

definition naive_del :: "UserInfo \<Rightarrow> (string, string) gomap \<times> nat \<Rightarrow> (string, string) gomap \<times> nat" where
  "naive_del u = (\<lambda>(us, changed). if map_of us (u_Uuid u) = None then (us, changed)
                                 else (AList.delete (u_Uuid u) us, Suc changed))"

definition addNaiveUsers :: "'b box_api \<Rightarrow> string \<Rightarrow> UserInfo list \<Rightarrow> ('b, 'w) Sing \<Rightarrow> (sing_error + int) \<times> ('b, 'w) Sing" where
  "addNaiveUsers bx tag users s =
     (case map_of (sb_naive s) tag of
        None \<Rightarrow> (Inl (NotRegistered tag), s)
      | Some node \<Rightarrow>
          (let (us, changed) = fold naive_add users (nn_users node, 0)
           in if changed = 0 then (Inr (int (length users)), s)
              else case store_naive tag (rebuildNaiveLocked bx tag (node\<lparr>nn_users := us\<rparr>) (sb_box s)) s of
                (Some e, s) \<Rightarrow> (Inl e, s)
              | (None, s) \<Rightarrow> (Inr (int (length users)), s)))"

definition delNaiveUsers :: "'b box_api \<Rightarrow> string \<Rightarrow> UserInfo list \<Rightarrow> ('b, 'w) Sing \<Rightarrow> sing_error option \<times> ('b, 'w) Sing" where
  "delNaiveUsers bx tag users s =
     (case map_of (sb_naive s) tag of
        None \<Rightarrow> (Some (NotRegistered tag), s)
      | Some node \<Rightarrow>
          (let (us, changed) = fold naive_del users (nn_users node, 0)
           in if changed = 0 then (None, s)
              else store_naive tag (rebuildNaiveLocked bx tag (node\<lparr>nn_users := us\<rparr>) (sb_box s)) s))"

section \<open>Nodes\<close>

definition ensureSingOptions :: "Options \<Rightarrow> Options option" where
  "ensureSingOptions config =
     (if op_SingOptions config \<noteq> None then Some config
      else case op_RawOptions config of
        None \<Rightarrow> Some (config\<lparr>op_SingOptions := Some NewSingOptions\<rparr>)
      | Some raw \<Rightarrow> map_option (\<lambda>x. config\<lparr>op_SingOptions := Some x\<rparr>) (into_struct SingOptions_fields NewSingOptions raw))"

definition hysteriaPortHopRanges :: "NodeInfo \<Rightarrow> Options \<Rightarrow> range_error + Range list" where
  "hysteriaPortHopRanges info config =
     (let specs = (case ni_Hysteria2 info of
                     Some n \<Rightarrow> Some (h2_ServerPorts n)
                   | None \<Rightarrow> map_option hy_ServerPorts (ni_Hysteria info))
      in case specs of
           None \<Rightarrow> Inr []
         | Some specs \<Rightarrow>
             (let local = Option.bind (op_SingOptions config) sg_HysteriaOptions
              in ParseRanges (if specs = [] then (case local of None \<Rightarrow> [] | Some o1 \<Rightarrow> ho_PortHopping o1) else specs)))"

definition applyPortHopping :: "string \<Rightarrow> NodeInfo \<Rightarrow> Options \<Rightarrow> ('b, 'w) Sing \<Rightarrow> sing_error option \<times> ('b, 'w) Sing" where
  "applyPortHopping tag info config s =
     (case hysteriaPortHopRanges info config of
        Inl e \<Rightarrow> (Some (BadRanges e), s)
      | Inr ranges \<Rightarrow>
          if ranges = [] then (None, s)
          else case Apply \<lparr>Tag = tag, ListenPort = word_of_int (cn_ServerPort (the (ni_Common info))), Ranges = ranges\<rparr>
                      (sb_portHop s) (sb_host s) of
            (m, w, e) \<Rightarrow> (map_option HopFailed e, s\<lparr>sb_portHop := m, sb_host := w\<rparr>))"

definition createInbound :: "'b box_api \<Rightarrow> string \<Rightarrow> string \<Rightarrow> ('b, 'w) Sing \<Rightarrow> sing_error option \<times> ('b, 'w) Sing" where
  "createInbound bx tag type s =
     (case bx_Create bx tag type [] (sb_box s) of (e, b) \<Rightarrow> (map_option InboundRefused e, s\<lparr>sb_box := b\<rparr>))"

definition Sing_removeInbound :: "'b box_api \<Rightarrow> string \<Rightarrow> ('b, 'w) Sing \<Rightarrow> sing_error option \<times> ('b, 'w) Sing" where
  "Sing_removeInbound bx tag s =
     (case bx_Remove bx tag (sb_box s) of
        (r, b) \<Rightarrow> (case r of NotRemoved e \<Rightarrow> Some (InboundStays e) | _ \<Rightarrow> None, s\<lparr>sb_box := b\<rparr>))"

text \<open>The detour first, then the public listener; the detour is taken back when the listener fails.\<close>

definition addShadowTLSNode :: "'b box_api \<Rightarrow> string \<Rightarrow> NodeInfo \<Rightarrow> Options \<Rightarrow> ('b, 'w) Sing \<Rightarrow> sing_error option \<times> ('b, 'w) Sing" where
  "addShadowTLSNode bx tag info config s =
     (case bx_options bx tag info config of
        Some e \<Rightarrow> (Some (OptionsRefused e), s)
      | None \<Rightarrow>
          (case createInbound bx (detourTag tag) ''shadowsocks'' s of
             (Some e, s) \<Rightarrow> (Some e, s)
           | (None, s) \<Rightarrow>
               (case createInbound bx tag ''shadowtls'' s of
                  (Some e, s) \<Rightarrow>
                    (case Sing_removeInbound bx (detourTag tag) s of
                       (None, s) \<Rightarrow> (Some e, s)
                     | (Some e', s) \<Rightarrow> (Some (AllOf [e, e']), s))
                | (None, s) \<Rightarrow> (None, s\<lparr>sb_detourOwners := AList.update (detourTag tag) tag (sb_detourOwners s)\<rparr>))))"

definition Sing_DelNode :: "'b box_api \<Rightarrow> string \<Rightarrow> ('b, 'w) Sing \<Rightarrow> sing_error option \<times> ('b, 'w) Sing" where
  "Sing_DelNode bx tag s =
     (let nodeType = map_of (sb_nodeTypes s) tag;
          s = s\<lparr>sb_nodeTypes := AList.delete tag (sb_nodeTypes s), sb_minTraffic := AList.delete tag (sb_minTraffic s),
                sb_counter := AList.delete tag (sb_counter s)\<rparr>
      in case Remove tag (sb_portHop s) (sb_host s) of
           (m, w, err) \<Rightarrow>
             (let err = map_option HopFailed err; s = s\<lparr>sb_portHop := m, sb_host := w\<rparr>
              in if nodeType = Some ''naive''
                 then (case unregisterNaiveNode bx tag s of (e, s) \<Rightarrow> (join_errors [err, e], s))
                 else if nodeType = Some ''shadowtls''
                 then (case Sing_removeInbound bx tag (s\<lparr>sb_detourOwners := AList.delete (detourTag tag) (sb_detourOwners s)\<rparr>) of
                         (e1, s) \<Rightarrow> (case Sing_removeInbound bx (detourTag tag) s of (e2, s) \<Rightarrow> (join_errors [err, e1, e2], s)))
                 else (case Sing_removeInbound bx tag s of (e, s) \<Rightarrow> (join_errors [err, e], s))))"

definition add_typed :: "'b box_api \<Rightarrow> string \<Rightarrow> NodeInfo \<Rightarrow> Options \<Rightarrow> ('b, 'w) Sing \<Rightarrow> sing_error option \<times> ('b, 'w) Sing" where
  "add_typed bx tag info config s =
     (if ni_Type info = ''naive'' then registerNaiveNode tag info config s
      else if ni_Type info = ''shadowtls'' then addShadowTLSNode bx tag info config s
      else case bx_options bx tag info config of
        Some e \<Rightarrow> (Some (OptionsRefused e), s)
      | None \<Rightarrow> createInbound bx tag (ni_Type info) s)"

definition Sing_AddNode :: "'b box_api \<Rightarrow> string \<Rightarrow> NodeInfo \<Rightarrow> Options \<Rightarrow> ('b, 'w) Sing \<Rightarrow> sing_error option \<times> ('b, 'w) Sing" where
  "Sing_AddNode bx tag info config s =
     (case ensureSingOptions config of
        None \<Rightarrow> (Some BadSingOptions, s)
      | Some config \<Rightarrow>
          (let s = s\<lparr>sb_minTraffic := AList.update tag (i64 (op_ReportMinTraffic config * 1024)) (sb_minTraffic s),
                     sb_nodeTypes := AList.update tag (ni_Type info) (sb_nodeTypes s)\<rparr>
           in case add_typed bx tag info config s of
                (Some e, s) \<Rightarrow>
                  (Some e, s\<lparr>sb_nodeTypes := AList.delete tag (sb_nodeTypes s), sb_minTraffic := AList.delete tag (sb_minTraffic s)\<rparr>)
              | (None, s) \<Rightarrow>
                  (case applyPortHopping tag info config s of
                     (Some e, s) \<Rightarrow> (Some e, snd (Sing_DelNode bx tag s))
                   | (None, s) \<Rightarrow> (None, s))))"

section \<open>Users and traffic\<close>

definition user_types :: "string list" where
  "user_types = [''vless'', ''vmess'', ''shadowsocks'', ''shadowtls'', ''trojan'', ''anytls'', ''tuic'', ''hysteria'', ''hysteria2'']"

definition userInboundTag :: "string \<Rightarrow> string \<Rightarrow> string" where
  "userInboundTag tag nodeType = (if nodeType = ''shadowtls'' then detourTag tag else tag)"

definition rememberUsers :: "string \<Rightarrow> UserInfo list \<Rightarrow> ('b, 'w) Sing \<Rightarrow> ('b, 'w) Sing" where
  "rememberUsers tag users s = s\<lparr>sb_uidMap := fold (\<lambda>u. AList.update (UserTag tag (u_Uuid u)) (u_Id u)) users (sb_uidMap s)\<rparr>"

definition forgetUsers :: "string \<Rightarrow> UserInfo list \<Rightarrow> ('b, 'w) Sing \<Rightarrow> ('b, 'w) Sing" where
  "forgetUsers tag users s =
     s\<lparr>sb_counter := (case map_of (sb_counter s) tag of
                        None \<Rightarrow> sb_counter s
                      | Some c \<Rightarrow> AList.update tag (fold (\<lambda>u. Counter_Delete (u_Uuid u)) users c) (sb_counter s)),
       sb_uidMap := fold (\<lambda>u. AList.delete (UserTag tag (u_Uuid u))) users (sb_uidMap s)\<rparr>"

definition Sing_AddUsers :: "'b box_api \<Rightarrow> AddUsersParams \<Rightarrow> ('b, 'w) Sing \<Rightarrow> (sing_error + int) \<times> ('b, 'w) Sing" where
  "Sing_AddUsers bx p s =
     (let tag = aup_Tag p; users = aup_Users p; type = ni_Type (the (aup_NodeInfo p))
      in if type = ''naive''
         then (case addNaiveUsers bx tag users s of
                 (Inl e, s) \<Rightarrow> (Inl e, s)
               | (Inr n, s) \<Rightarrow> (Inr n, rememberUsers tag users s))
         else if \<not> bx_Get bx (userInboundTag tag type) (sb_box s) then (Inl (NoInbound tag), s)
         else if type \<notin> set user_types then (Inl (UnsupportedType type), s)
         else case bx_AddUsers bx (userInboundTag tag type) users (sb_box s) of
           (Some e, b) \<Rightarrow> (Inl (UsersRefused e), s\<lparr>sb_box := b\<rparr>)
         | (None, b) \<Rightarrow> (Inr (int (length users)), rememberUsers tag users (s\<lparr>sb_box := b\<rparr>)))"

definition Sing_DelUsers :: "'b box_api \<Rightarrow> UserInfo list \<Rightarrow> string \<Rightarrow> NodeInfo \<Rightarrow> ('b, 'w) Sing \<Rightarrow> sing_error option \<times> ('b, 'w) Sing" where
  "Sing_DelUsers bx users tag info s =
     (let type = ni_Type info
      in if type = ''naive''
         then (case delNaiveUsers bx tag users s of
                 (Some e, s) \<Rightarrow> (Some e, s)
               | (None, s) \<Rightarrow> (None, forgetUsers tag users s))
         else if \<not> bx_Get bx (userInboundTag tag type) (sb_box s) then (Some (NoInbound tag), s)
         else if type \<notin> set user_types then (Some (UnsupportedType type), s)
         else case bx_DelUsers bx (userInboundTag tag type) (map u_Uuid users) (sb_box s) of
           (Some e, b) \<Rightarrow> (Some (UsersRefused e), s\<lparr>sb_box := b\<rparr>)
         | (None, b) \<Rightarrow> (None, forgetUsers tag users (s\<lparr>sb_box := b\<rparr>)))"

definition uid_of :: "string \<Rightarrow> ('b, 'w) Sing \<Rightarrow> string \<Rightarrow> int" where
  "uid_of tag s uuid = mget 0 (sb_uidMap s) (UserTag tag uuid)"

definition Sing_GetUserTrafficSlice :: "string \<Rightarrow> bool \<Rightarrow> ('b, 'w) Sing \<Rightarrow> UserTraffic list \<times> ('b, 'w) Sing" where
  "Sing_GetUserTrafficSlice tag reset s =
     (case map_of (sb_counter s) tag of
        None \<Rightarrow> ([], s)
      | Some c \<Rightarrow>
          (case collect (uid_of tag s) (mget 0 (sb_minTraffic s) tag) reset c (sb_storages s) of
             (lines, c, h) \<Rightarrow> (lines, s\<lparr>sb_counter := AList.update tag c (sb_counter s), sb_storages := h\<rparr>)))"

definition quic_protocols :: "bool \<Rightarrow> string list" where
  "quic_protocols with_quic = (if with_quic then [''tuic'', ''hysteria'', ''hysteria2''] else [])"

definition Sing_Protocols :: "bool \<Rightarrow> string list" where
  "Sing_Protocols with_quic =
     [''vmess'', ''vless'', ''shadowsocks'', ''trojan'', ''anytls'', ''shadowtls'', ''naive''] @ quic_protocols with_quic"

definition Sing_Close :: "('b \<Rightarrow> string option \<times> 'b) \<Rightarrow> ('b, 'w) Sing \<Rightarrow> sing_error option \<times> ('b, 'w) Sing" where
  "Sing_Close close s =
     (case RemoveAll (sb_portHop s) (sb_host s) of
        (m, w, e1) \<Rightarrow>
          (case close (sb_box s) of
             (e2, b) \<Rightarrow> (join_errors [map_option HopFailed e1, map_option InboundStays e2], s\<lparr>sb_portHop := m, sb_host := w, sb_box := b\<rparr>)))"

section \<open>The hook\<close>

text \<open>
  What sing-box says of a connection. The limiters are those of the process; a connection that may proceed carries the
  token bucket of its user and the handle that ends its registration, if it was registered.
\<close>

record InboundContext =
  ic_Inbound :: string
  ic_User :: string
  ic_Source :: string
  ic_Destination :: string
  ic_Protocol :: string

datatype access = Refused | Granted "Bucket option" "trackHandle option"

definition checkAccess ::
  "cdn \<Rightarrow> int \<Rightarrow> ('b, 'w) Sing \<Rightarrow> InboundContext \<Rightarrow> bool \<Rightarrow> limiters \<Rightarrow> string \<times> access \<times> limiters" where
  "checkAccess cdn now s m isTCP ls =
     (let nodeTag = resolveNodeTag s (ic_Inbound m)
      in case GetLimiter ls nodeTag of
           Inl _ \<Rightarrow> (nodeTag, Granted None None, ls)
         | Inr l \<Rightarrow>
             (let taguuid = UserTag nodeTag (ic_User m)
              in case CheckLimit cdn now taguuid (ic_Source m) isTCP isTCP l of
                   (l, bucket, reject) \<Rightarrow>
                     (let ls = AList.update nodeTag l ls
                      in if reject then (nodeTag, Refused, ls)
                         else if CheckDomainRule l (ic_Destination m) then (nodeTag, Refused, ls)
                         else if ic_Protocol m \<noteq> [] \<and> CheckProtocolRule l (ic_Protocol m) then (nodeTag, Refused, ls)
                         else (case TrackConnection taguuid (ic_Source m) l of
                                 (l, handle) \<Rightarrow> (nodeTag, Granted bucket handle, AList.update nodeTag l ls)))))"

definition storageFor :: "string \<Rightarrow> string \<Rightarrow> ('b, 'w) Sing \<Rightarrow> nat \<times> ('b, 'w) Sing" where
  "storageFor nodeTag user s =
     (case GetCounter user (mget NewTrafficCounter (sb_counter s) nodeTag) (sb_storages s) of
        (a, c, h) \<Rightarrow> (a, s\<lparr>sb_counter := AList.update nodeTag c (sb_counter s), sb_storages := h\<rparr>))"

text \<open>A connection that is let through: its rate limit, and the counter around it. One that is not is closed.\<close>

definition RoutedConnection ::
  "cdn \<Rightarrow> int \<Rightarrow> InboundContext \<Rightarrow> ('b, 'w) Sing \<Rightarrow> limiters
     \<Rightarrow> (Bucket option \<times> trackHandle option ConnCounter) option \<times> ('b, 'w) Sing \<times> limiters" where
  "RoutedConnection cdn now m s ls =
     (case checkAccess cdn now s m True ls of
        (nodeTag, Refused, ls) \<Rightarrow> (None, s, ls)
      | (nodeTag, Granted bucket onClose, ls) \<Rightarrow>
          (case storageFor nodeTag (ic_User m) s of
             (a, s) \<Rightarrow> (Some (bucket, NewConnCounter a (Some onClose)), s, ls)))"

definition RoutedPacketConnection ::
  "cdn \<Rightarrow> int \<Rightarrow> InboundContext \<Rightarrow> ('b, 'w) Sing \<Rightarrow> limiters \<Rightarrow> trackHandle option ConnCounter option \<times> ('b, 'w) Sing \<times> limiters" where
  "RoutedPacketConnection cdn now m s ls =
     (case checkAccess cdn now s m False ls of
        (nodeTag, Refused, ls) \<Rightarrow> (None, s, ls)
      | (nodeTag, Granted bucket onClose, ls) \<Rightarrow>
          (case storageFor nodeTag (ic_User m) s of
             (a, s) \<Rightarrow> (Some (NewConnCounter a (Some onClose)), s, ls)))"

section \<open>A node that could not be added\<close>

text \<open>
  What is relied on of the inbound manager: a created inbound is there and a removed one is not, other inbounds are left
  alone, and a new inbound that cannot be created is not there.
\<close>

definition box_contract :: "'b box_api \<Rightarrow> bool" where
  "box_contract bx \<longleftrightarrow>
     (\<forall>tag type us b b' t. bx_Create bx tag type us b = (None, b') \<longrightarrow> bx_Get bx t b' = (t = tag \<or> bx_Get bx t b)) \<and>
     (\<forall>tag type us b e b' t. bx_Create bx tag type us b = (Some e, b') \<longrightarrow> \<not> bx_Get bx tag b \<longrightarrow> bx_Get bx t b' = bx_Get bx t b) \<and>
     (\<forall>tag b r b' t. bx_Remove bx tag b = (r, b') \<longrightarrow> (\<forall>e. r \<noteq> NotRemoved e) \<longrightarrow> bx_Get bx t b' = (t \<noteq> tag \<and> bx_Get bx t b))"

definition removes_always :: "'b box_api \<Rightarrow> bool" where
  "removes_always bx \<longleftrightarrow> (\<forall>tag b e. fst (bx_Remove bx tag b) \<noteq> NotRemoved e)"

lemma detourTag_other [simp]: "detourTag tag \<noteq> tag" "tag \<noteq> detourTag tag"
  by (simp_all add: detourTag_def)

text \<open>What a node occupies, by its type.\<close>

definition inbounds_of :: "string \<Rightarrow> string \<Rightarrow> string set" where
  "inbounds_of type tag = (if type = ''naive'' then {} else if type = ''shadowtls'' then {tag, detourTag tag} else {tag})"

lemma createInbound_effect:
  assumes "box_contract bx" "createInbound bx tag type s = (e, s')"
  shows "\<exists>b. s' = s\<lparr>sb_box := b\<rparr> \<and> (e = None \<longrightarrow> (\<forall>t. bx_Get bx t b = (t = tag \<or> bx_Get bx t (sb_box s)))) \<and>
    (e \<noteq> None \<longrightarrow> \<not> bx_Get bx tag (sb_box s) \<longrightarrow> (\<forall>t. bx_Get bx t b = bx_Get bx t (sb_box s)))"
proof -
  obtain e0 b where c: "bx_Create bx tag type [] (sb_box s) = (e0, b)" by fastforce
  then have "e = map_option InboundRefused e0" "s' = s\<lparr>sb_box := b\<rparr>" using assms(2) by (simp_all add: createInbound_def)
  then show ?thesis using assms(1) c unfolding box_contract_def by (cases e0) auto
qed

lemma removeInbound_effect:
  assumes "box_contract bx" "removes_always bx" "Sing_removeInbound bx tag s = (e, s')"
  shows "\<exists>b. s' = s\<lparr>sb_box := b\<rparr> \<and> e = None \<and> (\<forall>t. bx_Get bx t b = (t \<noteq> tag \<and> bx_Get bx t (sb_box s)))"
proof -
  obtain r b where c: "bx_Remove bx tag (sb_box s) = (r, b)" by fastforce
  have r: "\<forall>e. r \<noteq> NotRemoved e" using assms(2) c unfolding removes_always_def by (metis fst_conv)
  then have "e = None" "s' = s\<lparr>sb_box := b\<rparr>" using assms(3) c by (auto simp: Sing_removeInbound_def split: removal.splits)
  then show ?thesis using assms(1) c r unfolding box_contract_def by auto
qed

lemma addShadowTLS_effect:
  assumes "box_contract bx" "removes_always bx" "\<not> bx_Get bx tag (sb_box s)" "\<not> bx_Get bx (detourTag tag) (sb_box s)"
    and "addShadowTLSNode bx tag info config s = (e, s')"
  shows "\<exists>b. (\<forall>t. bx_Get bx t b = ((e = None \<and> t \<in> {tag, detourTag tag}) \<or> bx_Get bx t (sb_box s))) \<and>
    s' = s\<lparr>sb_box := b, sb_detourOwners := (if e = None then AList.update (detourTag tag) tag (sb_detourOwners s) else sb_detourOwners s)\<rparr>"
proof (cases "bx_options bx tag info config")
  case (Some err)
  then show ?thesis using assms(5) by (intro exI [of _ "sb_box s"]) (auto simp: addShadowTLSNode_def)
next
  case None
  obtain e1 s1 where 1: "createInbound bx (detourTag tag) ''shadowsocks'' s = (e1, s1)" by fastforce
  obtain b1 where b1: "s1 = s\<lparr>sb_box := b1\<rparr>" "e1 = None \<Longrightarrow> bx_Get bx t b1 = (t = detourTag tag \<or> bx_Get bx t (sb_box s))"
      "e1 \<noteq> None \<Longrightarrow> bx_Get bx t b1 = bx_Get bx t (sb_box s)" for t
    using createInbound_effect [OF assms(1) 1] assms(4) by blast
  show ?thesis
  proof (cases e1)
    case (Some err)
    then show ?thesis using assms(5) None 1 b1 by (intro exI [of _ b1]) (auto simp: addShadowTLSNode_def)
  next
    case n1: None
    obtain e2 s2 where 2: "createInbound bx tag ''shadowtls'' s1 = (e2, s2)" by fastforce
    have fresh: "\<not> bx_Get bx tag (sb_box s1)" using b1 n1 assms(3) by simp
    obtain b2 where b2: "s2 = s1\<lparr>sb_box := b2\<rparr>" "e2 = None \<Longrightarrow> bx_Get bx t b2 = (t = tag \<or> bx_Get bx t b1)"
        "e2 \<noteq> None \<Longrightarrow> bx_Get bx t b2 = bx_Get bx t b1" for t
      using createInbound_effect [OF assms(1) 2] fresh b1(1) by auto
    show ?thesis
    proof (cases e2)
      case None
      then show ?thesis using assms(5) \<open>bx_options bx tag info config = None\<close> 1 2 n1 b1 b2
        by (intro exI [of _ b2]) (auto simp: addShadowTLSNode_def)
    next
      case (Some err)
      obtain e3 s3 where 3: "Sing_removeInbound bx (detourTag tag) s2 = (e3, s3)" by fastforce
      obtain b3 where b3: "s3 = s2\<lparr>sb_box := b3\<rparr>" "e3 = None" "bx_Get bx t b3 = (t \<noteq> detourTag tag \<and> bx_Get bx t b2)" for t
        using removeInbound_effect [OF assms(1,2) 3] b2(1) by auto
      then show ?thesis using assms(4,5) \<open>bx_options bx tag info config = None\<close> 1 2 3 n1 Some b1 b2
        by (intro exI [of _ b3]) (auto simp: addShadowTLSNode_def)
    qed
  qed
qed

lemma add_typed_effect:
  assumes "box_contract bx" "removes_always bx" "\<not> bx_Get bx tag (sb_box s)" "\<not> bx_Get bx (detourTag tag) (sb_box s)"
    and "add_typed bx tag info config s = (e, s')"
  shows "\<exists>b d n. (\<forall>t. bx_Get bx t b = ((e = None \<and> t \<in> inbounds_of (ni_Type info) tag) \<or> bx_Get bx t (sb_box s))) \<and>
    d = (if e = None \<and> ni_Type info = ''shadowtls'' then AList.update (detourTag tag) tag (sb_detourOwners s) else sb_detourOwners s) \<and>
    (if e = None \<and> ni_Type info = ''naive'' then \<exists>x. \<not> nn_built x \<and> n = AList.update tag x (sb_naive s) else n = sb_naive s) \<and>
    s' = s\<lparr>sb_box := b, sb_detourOwners := d, sb_naive := n\<rparr>"
proof -
  consider (naive) "ni_Type info = ''naive''" | (tls) "ni_Type info = ''shadowtls''"
    | (other) "ni_Type info \<noteq> ''naive''" "ni_Type info \<noteq> ''shadowtls''" by blast
  then show ?thesis
  proof cases
    case naive
    let ?x = "\<lparr>nn_info = info, nn_options = config, nn_users = [], nn_built = False\<rparr>"
    let ?n = "if e = None then AList.update tag ?x (sb_naive s) else sb_naive s"
    have "s' = s\<lparr>sb_naive := ?n\<rparr>"
      using naive assms(5) by (auto simp: add_typed_def registerNaiveNode_def split: if_splits)
    then show ?thesis using naive
      by (intro exI [of _ "sb_box s"] exI [of _ "sb_detourOwners s"] exI [of _ ?n]) (auto simp: inbounds_of_def intro!: exI [of _ ?x])
  next
    case tls
    then have "addShadowTLSNode bx tag info config s = (e, s')" using assms(5) by (simp add: add_typed_def)
    from addShadowTLS_effect [OF assms(1-4) this] obtain b where
      b: "\<forall>t. bx_Get bx t b = ((e = None \<and> t \<in> {tag, detourTag tag}) \<or> bx_Get bx t (sb_box s))"
        "s' = s\<lparr>sb_box := b, sb_detourOwners := (if e = None then AList.update (detourTag tag) tag (sb_detourOwners s) else sb_detourOwners s)\<rparr>"
      by blast
    show ?thesis using tls b by (intro exI [of _ b]) (auto simp: inbounds_of_def)
  next
    case other
    show ?thesis
    proof (cases "bx_options bx tag info config")
      case (Some err)
      then show ?thesis using other assms(5) by (intro exI [of _ "sb_box s"]) (auto simp: add_typed_def)
    next
      case None
      then have "createInbound bx tag (ni_Type info) s = (e, s')" using other assms(5) by (simp add: add_typed_def)
      from createInbound_effect [OF assms(1) this] obtain b where
        b: "s' = s\<lparr>sb_box := b\<rparr>" "e = None \<Longrightarrow> bx_Get bx t b = (t = tag \<or> bx_Get bx t (sb_box s))"
          "e \<noteq> None \<Longrightarrow> bx_Get bx t b = bx_Get bx t (sb_box s)" for t using assms(3) by auto
      have "bx_Get bx t b = ((e = None \<and> t = tag) \<or> bx_Get bx t (sb_box s))" for t
        using b(2,3) [of t] by (cases e) simp_all
      then show ?thesis using other b(1) by (intro exI [of _ b]) (simp add: inbounds_of_def)
    qed
  qed
qed

lemma Remove_forgets: "Remove tag m w = (m', w', e) \<Longrightarrow> map_of (applied m') = (map_of (applied m))(tag := None)"
  by (auto simp: Remove_def remove_node_def forget_def Let_def delete_conv' split: option.splits prod.splits)

lemma Apply_applied: "Apply r m w = (m', w', Some e) \<Longrightarrow> t \<noteq> Tag r \<Longrightarrow> map_of (applied m') t = map_of (applied m) t"
  by (auto simp: Apply_def forget_def Let_def delete_conv' split: if_splits option.splits prod.splits)

text \<open>Deleting a node takes back what adding it has put there.\<close>

lemma DelNode_effect:
  assumes "box_contract bx" "removes_always bx" "map_of (sb_nodeTypes s) tag = Some type"
    and "type = ''naive'' \<Longrightarrow> \<exists>x. map_of (sb_naive s) tag = Some x \<and> \<not> nn_built x"
    and "Sing_DelNode bx tag s = (e, s')"
  shows "(\<forall>t. bx_Get bx t (sb_box s') = (t \<notin> inbounds_of type tag \<and> bx_Get bx t (sb_box s))) \<and>
    map_of (sb_nodeTypes s') = (map_of (sb_nodeTypes s))(tag := None) \<and> map_of (sb_minTraffic s') = (map_of (sb_minTraffic s))(tag := None) \<and>
    map_of (sb_detourOwners s') = (if type = ''shadowtls'' then (map_of (sb_detourOwners s))(detourTag tag := None) else map_of (sb_detourOwners s)) \<and>
    map_of (sb_naive s') = (if type = ''naive'' then (map_of (sb_naive s))(tag := None) else map_of (sb_naive s)) \<and>
    map_of (applied (sb_portHop s')) = (map_of (applied (sb_portHop s)))(tag := None) \<and> sb_uidMap s' = sb_uidMap s"
proof -
  obtain m w err where r: "Remove tag (sb_portHop s) (sb_host s) = (m, w, err)" by (metis prod_cases3)
  define s0 where "s0 = s\<lparr>sb_nodeTypes := AList.delete tag (sb_nodeTypes s), sb_minTraffic := AList.delete tag (sb_minTraffic s),
    sb_counter := AList.delete tag (sb_counter s), sb_portHop := m, sb_host := w\<rparr>"
  have base: "sb_box s0 = sb_box s" "sb_detourOwners s0 = sb_detourOwners s" "sb_naive s0 = sb_naive s"
    "map_of (sb_nodeTypes s0) = (map_of (sb_nodeTypes s))(tag := None)" "map_of (sb_minTraffic s0) = (map_of (sb_minTraffic s))(tag := None)"
    "map_of (applied (sb_portHop s0)) = (map_of (applied (sb_portHop s)))(tag := None)" "sb_uidMap s0 = sb_uidMap s"
    using Remove_forgets [OF r] by (simp_all add: s0_def delete_conv')
  consider (naive) "type = ''naive''" | (tls) "type = ''shadowtls''" | (other) "type \<noteq> ''naive''" "type \<noteq> ''shadowtls''" by blast
  then show ?thesis
  proof cases
    case naive
    then obtain x where x: "map_of (sb_naive s0) tag = Some x" "\<not> nn_built x" using assms(4) base(3) by auto
    have "s' = s0\<lparr>sb_naive := AList.delete tag (sb_naive s0)\<rparr>"
      using assms(3,5) r naive x base(3) by (simp add: Sing_DelNode_def unregisterNaiveNode_def Let_def s0_def)
    then show ?thesis using naive base by (simp add: inbounds_of_def delete_conv')
  next
    case tls
    let ?s1 = "s0\<lparr>sb_detourOwners := AList.delete (detourTag tag) (sb_detourOwners s0)\<rparr>"
    obtain e1 s1 where 1: "Sing_removeInbound bx tag ?s1 = (e1, s1)" by fastforce
    obtain e2 s2 where 2: "Sing_removeInbound bx (detourTag tag) s1 = (e2, s2)" by fastforce
    have s': "s' = s2" using assms(3,5) r tls 1 2 by (simp add: Sing_DelNode_def Let_def s0_def)
    obtain b1 where b1: "s1 = ?s1\<lparr>sb_box := b1\<rparr>" "\<forall>t. bx_Get bx t b1 = (t \<noteq> tag \<and> bx_Get bx t (sb_box s0))"
      using removeInbound_effect [OF assms(1,2) 1] by auto
    obtain b2 where b2: "s2 = s1\<lparr>sb_box := b2\<rparr>" "\<forall>t. bx_Get bx t b2 = (t \<noteq> detourTag tag \<and> bx_Get bx t b1)"
      using removeInbound_effect [OF assms(1,2) 2] b1(1) by auto
    show ?thesis unfolding s' b2(1) b1(1) using tls base b1(2) b2(2) by (auto simp: inbounds_of_def delete_conv')
  next
    case other
    obtain e1 s1 where 1: "Sing_removeInbound bx tag s0 = (e1, s1)" by fastforce
    have s': "s' = s1" using assms(3,5) r other 1 by (simp add: Sing_DelNode_def Let_def s0_def)
    obtain b1 where b1: "s1 = s0\<lparr>sb_box := b1\<rparr>" "\<forall>t. bx_Get bx t b1 = (t \<noteq> tag \<and> bx_Get bx t (sb_box s0))"
      using removeInbound_effect [OF assms(1,2) 1] by auto
    show ?thesis unfolding s' b1(1) using other base b1(2) by (auto simp: inbounds_of_def)
  qed
qed

definition tag_free :: "'b box_api \<Rightarrow> string \<Rightarrow> ('b, 'w) Sing \<Rightarrow> bool" where
  "tag_free bx tag s \<longleftrightarrow>
     \<not> bx_Get bx tag (sb_box s) \<and> \<not> bx_Get bx (detourTag tag) (sb_box s) \<and> map_of (sb_nodeTypes s) tag = None \<and>
     map_of (sb_minTraffic s) tag = None \<and> map_of (sb_detourOwners s) (detourTag tag) = None \<and> map_of (sb_naive s) tag = None \<and>
     map_of (applied (sb_portHop s)) tag = None"

text \<open>Everything the core keeps of nodes, as seen from outside, and the users' ids.\<close>

definition same_nodes :: "'b box_api \<Rightarrow> ('b, 'w) Sing \<Rightarrow> ('b, 'w) Sing \<Rightarrow> bool" where
  "same_nodes bx s s' \<longleftrightarrow>
     (\<forall>t. bx_Get bx t (sb_box s') = bx_Get bx t (sb_box s)) \<and> map_of (sb_nodeTypes s') = map_of (sb_nodeTypes s) \<and>
     map_of (sb_minTraffic s') = map_of (sb_minTraffic s) \<and> map_of (sb_detourOwners s') = map_of (sb_detourOwners s) \<and>
     map_of (sb_naive s') = map_of (sb_naive s) \<and> map_of (applied (sb_portHop s')) = map_of (applied (sb_portHop s)) \<and>
     sb_uidMap s' = sb_uidMap s"

lemma applyPortHopping_effect:
  assumes "applyPortHopping tag info config s = (Some e, s')"
  shows "\<exists>m w. s' = s\<lparr>sb_portHop := m, sb_host := w\<rparr> \<and> (\<forall>t. t \<noteq> tag \<longrightarrow> map_of (applied m) t = map_of (applied (sb_portHop s)) t)"
proof (cases "hysteriaPortHopRanges info config")
  case (Inl x)
  then show ?thesis using assms by (intro exI [of _ "sb_portHop s"] exI [of _ "sb_host s"]) (auto simp: applyPortHopping_def)
next
  case (Inr ranges)
  let ?r = "\<lparr>Tag = tag, ListenPort = word_of_int (cn_ServerPort (the (ni_Common info))), Ranges = ranges\<rparr>"
  obtain m w x where a: "Apply ?r (sb_portHop s) (sb_host s) = (m, w, x)" by (metis prod_cases3)
  have "ranges \<noteq> []" using assms Inr by (auto simp: applyPortHopping_def)
  then have r: "s' = s\<lparr>sb_portHop := m, sb_host := w\<rparr>" "x \<noteq> None" using assms Inr a by (auto simp: applyPortHopping_def)
  then show ?thesis using Apply_applied [of ?r] a by (intro exI [of _ m] exI [of _ w]) auto
qed

text \<open>
  C14. A node that cannot be added leaves nothing behind, whatever step failed: no inbound, no detour, no entry in any
  table of the core, no redirect of ports that is taken to be installed. What the other nodes have is untouched, and the
  tag is free for the next attempt. The inbound manager is relied on to remove what it is told to remove.
\<close>

theorem failed_add_leaves_nothing:
  assumes "box_contract bx" "removes_always bx" "tag_free bx tag s" "Sing_AddNode bx tag info config s = (Some e, s')"
  shows "same_nodes bx s s' \<and> tag_free bx tag s'"
proof -
  have free: "\<not> bx_Get bx tag (sb_box s)" "\<not> bx_Get bx (detourTag tag) (sb_box s)" using assms(3) by (simp_all add: tag_free_def)
  have "same_nodes bx s s'"
  proof (cases "ensureSingOptions config")
    case None
    then show ?thesis using assms(4) by (simp add: Sing_AddNode_def same_nodes_def)
  next
    case (Some config')
    define s0 where "s0 = s\<lparr>sb_minTraffic := AList.update tag (i64 (op_ReportMinTraffic config' * 1024)) (sb_minTraffic s),
      sb_nodeTypes := AList.update tag (ni_Type info) (sb_nodeTypes s)\<rparr>"
    have s0: "sb_box s0 = sb_box s" "sb_detourOwners s0 = sb_detourOwners s" "sb_naive s0 = sb_naive s" by (simp_all add: s0_def)
    obtain e1 s1 where 1: "add_typed bx tag info config' s0 = (e1, s1)" by fastforce
    obtain b d n where v: "\<forall>t. bx_Get bx t b = ((e1 = None \<and> t \<in> inbounds_of (ni_Type info) tag) \<or> bx_Get bx t (sb_box s))"
      "d = (if e1 = None \<and> ni_Type info = ''shadowtls'' then AList.update (detourTag tag) tag (sb_detourOwners s) else sb_detourOwners s)"
      "if e1 = None \<and> ni_Type info = ''naive'' then \<exists>x. \<not> nn_built x \<and> n = AList.update tag x (sb_naive s) else n = sb_naive s"
      "s1 = s0\<lparr>sb_box := b, sb_detourOwners := d, sb_naive := n\<rparr>"
      using add_typed_effect [OF assms(1,2) _ _ 1, unfolded s0, OF free] by blast
    show ?thesis
    proof (cases e1)
      case (Some err)
      then have "s' = s1\<lparr>sb_nodeTypes := AList.delete tag (sb_nodeTypes s1), sb_minTraffic := AList.delete tag (sb_minTraffic s1)\<rparr>"
        using assms(4) \<open>ensureSingOptions config = Some config'\<close> 1 by (simp add: Sing_AddNode_def Let_def s0_def)
      then show ?thesis using v Some assms(3) by (auto simp: s0_def same_nodes_def tag_free_def delete_conv' update_conv' fun_upd_idem)
    next
      case None
      obtain e2 s2 where 2: "applyPortHopping tag info config' s1 = (e2, s2)" by fastforce
      have r: "e2 = Some e" "s' = snd (Sing_DelNode bx tag s2)"
        using assms(4) \<open>ensureSingOptions config = Some config'\<close> 1 2 None by (auto simp: Sing_AddNode_def Let_def s0_def split: option.splits)
      obtain m w where h: "s2 = s1\<lparr>sb_portHop := m, sb_host := w\<rparr>"
          "\<forall>t. t \<noteq> tag \<longrightarrow> map_of (applied m) t = map_of (applied (sb_portHop s)) t"
        using applyPortHopping_effect [OF 2 [unfolded r(1)]] v(4) by (auto simp: s0_def)
      have type: "map_of (sb_nodeTypes s2) tag = Some (ni_Type info)" using h(1) v(4) by (simp add: s0_def update_conv')
      have naive: "\<exists>x. map_of (sb_naive s2) tag = Some x \<and> \<not> nn_built x" if "ni_Type info = ''naive''"
        using that None v(3,4) h(1) by (auto simp: update_conv')
      obtain e3 where "Sing_DelNode bx tag s2 = (e3, s')" using r(2) by (metis prod.collapse)
      from DelNode_effect [OF assms(1,2) type naive this]
      show ?thesis using v h None assms(3)
        by (auto simp: s0_def same_nodes_def tag_free_def update_conv' inbounds_of_def fun_eq_iff split: if_splits)
    qed
  qed
  then show ?thesis using assms(3) by (simp add: same_nodes_def tag_free_def)
qed

text \<open>A box whose inbounds are their tags, and in which one type of listener cannot be started.\<close>

definition ex_box :: "string \<Rightarrow> string list box_api" where
  "ex_box bad = \<lparr>bx_options = (\<lambda>_ _ _. None),
     bx_Create = (\<lambda>tag type _ b. if type = bad then (Some ''address already in use'', b) else (None, tag # b)),
     bx_Remove = (\<lambda>tag b. (if tag \<in> set b then Removed else Absent, filter (\<lambda>t. t \<noteq> tag) b)), bx_Get = (\<lambda>tag b. tag \<in> set b),
     bx_AddUsers = (\<lambda>_ _ b. (None, b)), bx_DelUsers = (\<lambda>_ _ b. (None, b))\<rparr>"

lemma ex_box_laws: "box_contract (ex_box bad)" "removes_always (ex_box bad)"
  by (auto simp: box_contract_def removes_always_def ex_box_def)

definition ex_sing :: "(string list, unit) Sing" where
  "ex_sing = \<lparr>sb_box = [''other''], sb_uidMap = [], sb_minTraffic = [(''other'', 0)], sb_nodeTypes = [(''other'', ''vless'')],
     sb_detourOwners = [], sb_naive = [], sb_counter = [], sb_storages = [],
     sb_portHop = \<lparr>applied = [], goos = ''linux'', hop_run = (\<lambda>_ _ w. (w, None)), hop_output = (\<lambda>_ _ _. Inr []), hop_lookPath = (\<lambda>_. None)\<rparr>,
     sb_host = ()\<rparr>"

theorem failed_add_leaves_nothing_witness:
  "(case Sing_AddNode (ex_box ''shadowtls'') ''n'' (new_node 1 ''shadowtls'') Options_default ex_sing of
      (e, s') \<Rightarrow> e = Some (InboundRefused ''address already in use'') \<and> same_nodes (ex_box ''shadowtls'') ex_sing s' \<and>
                  tag_free (ex_box ''shadowtls'') ''n'' s')"
proof -
  let ?bx = "ex_box ''shadowtls''"
  obtain e s' where r: "Sing_AddNode ?bx ''n'' (new_node 1 ''shadowtls'') Options_default ex_sing = (e, s')" by fastforce
  have e: "fst (Sing_AddNode ?bx ''n'' (new_node 1 ''shadowtls'') Options_default ex_sing) = Some (InboundRefused ''address already in use'')"
    by code_simp
  have free: "tag_free ?bx ''n'' ex_sing" by code_simp
  show ?thesis using failed_add_leaves_nothing [OF ex_box_laws free, of "new_node 1 ''shadowtls''" Options_default] e r by simp
qed

section \<open>Users of a naive node\<close>

lemma naive_add_keeps: "map_of us k = Some k \<Longrightarrow> map_of (fst (fold naive_add users (us, n))) k = Some k"
  by (induction users arbitrary: us n) (simp_all add: naive_add_def)

lemma naive_add_adds: "u \<in> set users \<Longrightarrow> map_of (fst (fold naive_add users (us, n))) (u_Uuid u) = Some (u_Uuid u)"
proof (induction users arbitrary: us n)
  case (Cons v users)
  have "map_of (fst (fold naive_add users (naive_add v (us, n)))) (u_Uuid v) = Some (u_Uuid v)"
    by (cases "naive_add v (us, n)") (auto simp: naive_add_def intro!: naive_add_keeps split: if_splits)
  moreover have "map_of (fst (fold naive_add users (naive_add v (us, n)))) (u_Uuid u) = Some (u_Uuid u)" if "u \<in> set users"
    using Cons.IH [OF that] by (cases "naive_add v (us, n)") simp
  ultimately show ?case using Cons.prems by auto
qed simp

lemma naive_add_known: "\<forall>u\<in>set users. map_of us (u_Uuid u) = Some (u_Uuid u) \<Longrightarrow> fold naive_add users (us, n) = (us, n)"
  by (induction users) (simp_all add: naive_add_def)

lemma rebuild_error:
  assumes "rebuildNaiveLocked bx tag node b = (Some e, node', b')"
  shows "nn_users node' = nn_users node \<and> ((\<forall>x. e \<noteq> InboundStays x) \<longrightarrow> \<not> nn_built node')"
  using assms by (auto simp: rebuildNaiveLocked_def Let_def split: removal.splits prod.splits option.splits if_splits)

text \<open>
  C39. Users given again to a naive node whose listener could not be built are taken as served: the second attempt answers
  that all of them were added, changes nothing and starts no listener, although, unless it was the old listener that
  would not go, none is running. The set of users is changed before the listener is built and stays changed when that
  fails, and only a changed set makes a new attempt.
\<close>

theorem naive_retry_serves_nobody:
  assumes "map_of (sb_naive s) tag = Some node" "addNaiveUsers bx tag users s = (Inl e, s1)"
  shows "addNaiveUsers bx tag users s1 = (Inr (int (length users)), s1) \<and>
    ((\<forall>x. e \<noteq> InboundStays x) \<longrightarrow> (\<exists>node1. map_of (sb_naive s1) tag = Some node1 \<and> \<not> nn_built node1))"
proof -
  obtain us ch where f: "fold naive_add users (nn_users node, 0) = (us, ch)" by fastforce
  obtain x node1 b where r: "rebuildNaiveLocked bx tag (node\<lparr>nn_users := us\<rparr>) (sb_box s) = (x, node1, b)" by (metis prod_cases3)
  have x: "x = Some e" "s1 = s\<lparr>sb_naive := AList.update tag node1 (sb_naive s), sb_box := b\<rparr>"
    using assms f r by (auto simp: addNaiveUsers_def store_naive_def split: if_splits option.splits)
  have n: "nn_users node1 = us" "(\<forall>x. e \<noteq> InboundStays x) \<longrightarrow> \<not> nn_built node1" using rebuild_error r x(1) by fastforce+
  have "\<forall>u\<in>set users. map_of us (u_Uuid u) = Some (u_Uuid u)" using naive_add_adds f by (metis fst_conv)
  then show ?thesis using naive_add_known n x(2) by (simp add: addNaiveUsers_def)
qed

definition ex_naive :: "(string list, unit) Sing" where
  "ex_naive = snd (registerNaiveNode ''n'' ((new_node 1 ''naive'')\<lparr>ni_Naive := Some NaiveNode_zero\<rparr>) Options_default ex_sing)"

definition ex_user :: UserInfo where
  "ex_user = \<lparr>u_Id = 7, u_Uuid = ''u'', u_SpeedLimit = 0, u_DeviceLimit = 0\<rparr>"

theorem naive_retry_serves_nobody_witness:
  "(case addNaiveUsers (ex_box ''naive'') ''n'' [ex_user] ex_naive of
      (r, s1) \<Rightarrow> r = Inl (InboundRefused ''address already in use'') \<and>
        addNaiveUsers (ex_box ''naive'') ''n'' [ex_user] s1 = (Inr 1, s1) \<and> \<not> bx_Get (ex_box ''naive'') ''n'' (sb_box s1))"
proof -
  obtain r s1 where run: "addNaiveUsers (ex_box ''naive'') ''n'' [ex_user] ex_naive = (r, s1)" by fastforce
  have r: "fst (addNaiveUsers (ex_box ''naive'') ''n'' [ex_user] ex_naive) = Inl (InboundRefused ''address already in use'')"
    "\<not> bx_Get (ex_box ''naive'') ''n'' (sb_box (snd (addNaiveUsers (ex_box ''naive'') ''n'' [ex_user] ex_naive)))"
    "map_of (sb_naive ex_naive) ''n'' \<noteq> None" by code_simp+
  then show ?thesis using naive_retry_serves_nobody [of ex_naive "''n''" _ "ex_box ''naive''" "[ex_user]"] run by auto
qed

section \<open>Datagrams\<close>

lemma CheckLimit_datagram:
  assumes "map_of (UserLimits l) taguuid = Some u" "\<not> isKicked now l (li_UID u) (canonical_ip ip)"
  shows "\<exists>l' b. CheckLimit cdn now taguuid ip False False l = (l', b, False) \<and> UserOnlineIP l' = UserOnlineIP l \<and>
    OldUserOnline l' = OldUserOnline l \<and> DomainRules l' = DomainRules l \<and> ProtocolRules l' = ProtocolRules l"
proof -
  obtain l1 lim where r: "resolve_user now taguuid u l = (l1, lim)" by fastforce
  obtain l2 b where sp: "speed_bucket taguuid lim l1 = (l2, b)" by fastforce
  have 1: "UserOnlineIP l1 = UserOnlineIP l" "OldUserOnline l1 = OldUserOnline l" "DomainRules l1 = DomainRules l"
      "ProtocolRules l1 = ProtocolRules l" "KickedIPs l1 = KickedIPs l"
    using r by (auto simp: resolve_user_def split: if_splits)
  have 2: "UserOnlineIP l2 = UserOnlineIP l1" "OldUserOnline l2 = OldUserOnline l1" "DomainRules l2 = DomainRules l1"
      "ProtocolRules l2 = ProtocolRules l1"
    using sp by (auto simp: speed_bucket_def Let_def split: if_splits option.splits)
  have "\<not> isKicked now l1 (li_UID u) (canonical_ip ip)" using assms(2) 1(5) by (simp add: isKicked_def)
  then show ?thesis using assms(1) r sp 1 2 by (simp add: CheckLimit_def Let_def)
qed

lemma TrackConnection_devices:
  "TrackConnection t ip l = (l', h) \<Longrightarrow> UserOnlineIP l' = UserOnlineIP l \<and> OldUserOnline l' = OldUserOnline l"
  by (auto simp: TrackConnection_def Let_def split: option.splits if_splits)

text \<open>
  The device limit does not hold for datagrams: whatever devices a user has, a datagram flow of a user with the node
  is let through unless the address is kicked or a rule of the node forbids it, and it adds no device to those
  the limit counts.
\<close>

theorem datagrams_not_limited:
  assumes "map_of ls (resolveNodeTag s (ic_Inbound m)) = Some l"
    and "map_of (UserLimits l) (UserTag (resolveNodeTag s (ic_Inbound m)) (ic_User m)) = Some u"
    and "\<not> isKicked now l (li_UID u) (canonical_ip (ic_Source m))" "\<not> CheckDomainRule l (ic_Destination m)" "\<not> CheckProtocolRule l (ic_Protocol m)"
  shows "\<exists>conn s' ls' l'. RoutedPacketConnection cdn now m s ls = (Some conn, s', ls') \<and>
    map_of ls' (resolveNodeTag s (ic_Inbound m)) = Some l' \<and> UserOnlineIP l' = UserOnlineIP l \<and> OldUserOnline l' = OldUserOnline l"
proof -
  let ?tag = "resolveNodeTag s (ic_Inbound m)"
  obtain l1 b where c: "CheckLimit cdn now (UserTag ?tag (ic_User m)) (ic_Source m) False False l = (l1, b, False)"
      "UserOnlineIP l1 = UserOnlineIP l" "OldUserOnline l1 = OldUserOnline l" "DomainRules l1 = DomainRules l" "ProtocolRules l1 = ProtocolRules l"
    using CheckLimit_datagram [OF assms(2,3)] by blast
  obtain l2 h where t: "TrackConnection (UserTag ?tag (ic_User m)) (ic_Source m) l1 = (l2, h)" by fastforce
  have a: "checkAccess cdn now s m False ls = (?tag, Granted b h, AList.update ?tag l2 (AList.update ?tag l1 ls))"
    using assms(1,4,5) c t by (simp add: checkAccess_def GetLimiter_def CheckDomainRule_def CheckProtocolRule_def Let_def)
  obtain a s' where "storageFor ?tag (ic_User m) s = (a, s')" by fastforce
  then show ?thesis using a c(2,3) TrackConnection_devices [OF t] by (simp add: RoutedPacketConnection_def)
qed

definition ex_flow :: InboundContext where
  "ex_flow = \<lparr>ic_Inbound = ''n'', ic_User = ''u'', ic_Source = ''1.2.3.4'', ic_Destination = ''example.org'', ic_Protocol = []\<rparr>"

theorem datagrams_not_limited_witness:
  "fst (RoutedConnection ([], None) 100 ex_flow ex_sing [(''n'', ex_limiter)]) = None \<and>
   fst (RoutedPacketConnection ([], None) 100 ex_flow ex_sing [(''n'', ex_limiter)]) \<noteq> None"
proof -
  let ?u = "\<lparr>li_UID = 7, li_SpeedLimit = 0, li_DeviceLimit = 1, li_DynamicSpeedLimit = 0, li_ExpireTime = 0, li_OverLimit = False\<rparr>"
  have tag: "resolveNodeTag ex_sing (ic_Inbound ex_flow) = ''n''" by code_simp
  have "CheckLimit ([], None) 100 ''n|u'' ''1.2.3.4'' True True ex_limiter = (ex_limiter, None, True)"
    by (simp add: CheckLimit_cases ex_limiter_simps resolve_user_def isKicked_def mget_def no_slot_def aliveCount_def Let_def i64_def)
  then have "fst (RoutedConnection ([], None) 100 ex_flow ex_sing [(''n'', ex_limiter)]) = None"
    using tag by (simp add: RoutedConnection_def checkAccess_def GetLimiter_def UserTag_def ex_flow_def Let_def)
  moreover have "fst (RoutedPacketConnection ([], None) 100 ex_flow ex_sing [(''n'', ex_limiter)]) \<noteq> None"
    using datagrams_not_limited [of "[(''n'', ex_limiter)]" ex_sing ex_flow ex_limiter ?u 100 "([], None)"] tag
    by (auto simp: ex_limiter_simps ex_flow_def UserTag_def isKicked_def mget_def CheckDomainRule_def CheckProtocolRule_def)
  ultimately show ?thesis ..
qed

end
