(* ===== verification/Sing_Traffic.thy ===== *)
theory Sing_Traffic
  imports Sing
begin

text \<open>
  Traffic in the sing-box core, from a connection to the report: the tables of all nodes, the storages they point to and
  the connections that count into these, under every operation of the core in any order.
\<close>

section \<open>Pointers\<close>

definition counter_at :: "('b, 'w) Sing \<Rightarrow> string \<Rightarrow> string \<Rightarrow> nat option" where
  "counter_at s tag user = Option.bind (map_of (sb_counter s) tag) (\<lambda>c. map_of c user)"

text \<open>
  Every pointer of a table leads to a storage, two users, of one node or of two, do not share one, a table has one
  entry a user, and a storage has two 64 bit numbers.
\<close>

definition sing_wf :: "('b, 'w) Sing \<Rightarrow> bool" where
  "sing_wf s \<longleftrightarrow>
     (\<forall>t u a. counter_at s t u = Some a \<longrightarrow> a < length (sb_storages s)) \<and>
     (\<forall>t u t' u' a. counter_at s t u = Some a \<longrightarrow> counter_at s t' u' = Some a \<longrightarrow> t = t' \<and> u = u') \<and>
     (\<forall>t c. map_of (sb_counter s) t = Some c \<longrightarrow> keys_distinct c) \<and>
     (\<forall>x\<in>set (sb_storages s). int64_range (UpCounter x) \<and> int64_range (DownCounter x))"

lemma sing_wfI:
  assumes "\<And>t u a. counter_at s t u = Some a \<Longrightarrow> a < length (sb_storages s)"
    and "\<And>t u t' u' a. counter_at s t u = Some a \<Longrightarrow> counter_at s t' u' = Some a \<Longrightarrow> t = t' \<and> u = u'"
    and "\<And>t c. map_of (sb_counter s) t = Some c \<Longrightarrow> keys_distinct c"
    and "\<And>x. x \<in> set (sb_storages s) \<Longrightarrow> int64_range (UpCounter x) \<and> int64_range (DownCounter x)"
  shows "sing_wf s"
  using assms unfolding sing_wf_def by blast

lemma sing_wfD:
  assumes "sing_wf s"
  shows "counter_at s t u = Some a \<Longrightarrow> a < length (sb_storages s)"
    and "counter_at s t u = Some a \<Longrightarrow> counter_at s t' u' = Some a \<Longrightarrow> t = t' \<and> u = u'"
    and "map_of (sb_counter s) t = Some c \<Longrightarrow> keys_distinct c"
    and "x \<in> set (sb_storages s) \<Longrightarrow> int64_range (UpCounter x) \<and> int64_range (DownCounter x)"
  using assms unfolding sing_wf_def by blast+

text \<open>Most operations leave the storages alone and the tables with what they had, or less.\<close>

definition counters_less :: "('b, 'w) Sing \<Rightarrow> ('b, 'w) Sing \<Rightarrow> bool" where
  "counters_less s' s \<longleftrightarrow> sb_storages s' = sb_storages s \<and>
     (\<forall>t c'. map_of (sb_counter s') t = Some c' \<longrightarrow>
        (\<exists>c. map_of (sb_counter s) t = Some c \<and> map_of c' \<subseteq>\<^sub>m map_of c \<and> (keys_distinct c \<longrightarrow> keys_distinct c')))"

lemma counters_less_same: "sb_counter s' = sb_counter s \<Longrightarrow> sb_storages s' = sb_storages s \<Longrightarrow> counters_less s' s"
  by (auto simp: counters_less_def)

lemma counters_less_at: "counters_less s' s \<Longrightarrow> counter_at s' t u = Some a \<Longrightarrow> counter_at s t u = Some a"
  by (fastforce simp: counters_less_def counter_at_def bind_eq_Some_conv map_le_def dom_def)

lemma counters_less_trans:
  assumes 2: "counters_less s2 s1" and 1: "counters_less s1 s"
  shows "counters_less s2 s"
  unfolding counters_less_def
proof (intro conjI allI impI)
  fix t c2 assume "map_of (sb_counter s2) t = Some c2"
  with 2 obtain c1 where c1: "map_of (sb_counter s1) t = Some c1" "map_of c2 \<subseteq>\<^sub>m map_of c1" "keys_distinct c1 \<longrightarrow> keys_distinct c2"
    unfolding counters_less_def by blast
  with 1 obtain c where c: "map_of (sb_counter s) t = Some c" "map_of c1 \<subseteq>\<^sub>m map_of c" "keys_distinct c \<longrightarrow> keys_distinct c1"
    unfolding counters_less_def by blast
  show "\<exists>c. map_of (sb_counter s) t = Some c \<and> map_of c2 \<subseteq>\<^sub>m map_of c \<and> (keys_distinct c \<longrightarrow> keys_distinct c2)"
    using c c1 map_le_trans [OF c1(2) c(2)] by auto
qed (use 1 2 in \<open>simp add: counters_less_def\<close>)

lemma counters_less_wf: "counters_less s' s \<Longrightarrow> sing_wf s \<Longrightarrow> sing_wf s'"
proof -
  assume l: "counters_less s' s" and wf: "sing_wf s"
  have st: "sb_storages s' = sb_storages s" using l by (simp add: counters_less_def)
  show "sing_wf s'"
  proof (rule sing_wfI)
    fix t c assume "map_of (sb_counter s') t = Some c"
    then show "keys_distinct c" using l sing_wfD(3) [OF wf] unfolding counters_less_def by blast
  qed (use st in \<open>auto dest: sing_wfD [OF wf] counters_less_at [OF l]\<close>)
qed

section \<open>Nodes and users\<close>

lemma unregister_counters: "unregisterNaiveNode bx tag s = (e, s') \<Longrightarrow> sb_counter s' = sb_counter s \<and> sb_storages s' = sb_storages s"
  by (auto simp: unregisterNaiveNode_def Let_def split: option.splits if_splits prod.splits removal.splits)

lemma createInbound_counters: "createInbound bx tag type s = (e, s') \<Longrightarrow> sb_counter s' = sb_counter s \<and> sb_storages s' = sb_storages s"
  by (auto simp: createInbound_def split: prod.splits)

lemma removeInbound_counters: "Sing_removeInbound bx tag s = (e, s') \<Longrightarrow> sb_counter s' = sb_counter s \<and> sb_storages s' = sb_storages s"
  by (auto simp: Sing_removeInbound_def split: prod.splits)

lemma add_typed_counters: "add_typed bx tag info config s = (e, s') \<Longrightarrow> sb_counter s' = sb_counter s \<and> sb_storages s' = sb_storages s"
  by (auto simp: add_typed_def registerNaiveNode_def addShadowTLSNode_def split: if_splits option.splits prod.splits
      dest!: createInbound_counters removeInbound_counters)

lemma applyPortHopping_counters:
  "applyPortHopping tag info config s = (e, s') \<Longrightarrow> sb_counter s' = sb_counter s \<and> sb_storages s' = sb_storages s"
  by (auto simp: applyPortHopping_def split: if_splits sum.splits prod.splits)

lemma DelNode_counters: "Sing_DelNode bx tag s = (e, s') \<Longrightarrow> counters_less s' s"
proof -
  assume d: "Sing_DelNode bx tag s = (e, s')"
  have "sb_counter s' = AList.delete tag (sb_counter s) \<and> sb_storages s' = sb_storages s"
    using d by (auto simp: Sing_DelNode_def Let_def split: prod.splits if_splits dest!: unregister_counters removeInbound_counters)
  then show ?thesis by (auto simp: counters_less_def delete_conv' split: if_splits)
qed

lemma AddNode_counters: "Sing_AddNode bx tag info config s = (e, s') \<Longrightarrow> counters_less s' s"
proof -
  assume a: "Sing_AddNode bx tag info config s = (e, s')"
  show ?thesis
  proof (cases "ensureSingOptions config")
    case None
    then show ?thesis using a by (auto simp: Sing_AddNode_def intro: counters_less_same)
  next
    case (Some config')
    define s0 where "s0 = s\<lparr>sb_minTraffic := AList.update tag (i64 (op_ReportMinTraffic config' * 1024)) (sb_minTraffic s),
      sb_nodeTypes := AList.update tag (ni_Type info) (sb_nodeTypes s)\<rparr>"
    obtain e1 s1 where 1: "add_typed bx tag info config' s0 = (e1, s1)" by fastforce
    obtain e2 s2 where 2: "applyPortHopping tag info config' s1 = (e2, s2)" by fastforce
    have l: "counters_less s1 s" "counters_less s2 s"
      using add_typed_counters [OF 1] applyPortHopping_counters [OF 2] by (auto simp: s0_def intro: counters_less_same)
    have "(e1 \<noteq> None \<and> sb_counter s' = sb_counter s1 \<and> sb_storages s' = sb_storages s1) \<or> s' = s2 \<or> s' = snd (Sing_DelNode bx tag s2)"
      using a Some 1 2 by (auto simp: Sing_AddNode_def Let_def s0_def split: option.splits)
    moreover have "counters_less (snd (Sing_DelNode bx tag s2)) s"
      by (rule counters_less_trans [OF DelNode_counters l(2)]) (rule prod.collapse [symmetric])
    ultimately show ?thesis using l counters_less_trans [OF counters_less_same l(1)] by blast
  qed
qed

lemma store_naive_counters: "store_naive tag r s = (e, s') \<Longrightarrow> sb_counter s' = sb_counter s \<and> sb_storages s' = sb_storages s"
  by (auto simp: store_naive_def split: prod.splits)

lemma AddUsers_counters: "Sing_AddUsers bx p s = (e, s') \<Longrightarrow> counters_less s' s"
  by (rule counters_less_same; auto simp: Sing_AddUsers_def rememberUsers_def addNaiveUsers_def Let_def
      split: if_splits option.splits prod.splits sum.splits dest!: store_naive_counters)

lemma forgetUsers_counters: "counters_less (forgetUsers tag users s) s"
proof -
  have less: "map_of (fold (\<lambda>u. Counter_Delete (u_Uuid u)) users c) \<subseteq>\<^sub>m map_of c \<and>
      (keys_distinct c \<longrightarrow> keys_distinct (fold (\<lambda>u. Counter_Delete (u_Uuid u)) users c))" for c :: TrafficCounter
  proof (induction users arbitrary: c)
    case (Cons u users)
    have "map_of (Counter_Delete (u_Uuid u) c) \<subseteq>\<^sub>m map_of c" by (simp add: Counter_Delete_def delete_conv' map_le_def)
    moreover have "keys_distinct c \<Longrightarrow> keys_distinct (Counter_Delete (u_Uuid u) c)" by (simp add: Counter_Delete_def)
    ultimately show ?case using Cons.IH [of "Counter_Delete (u_Uuid u) c"] by (auto intro: map_le_trans)
  qed simp
  show ?thesis
  proof (cases "map_of (sb_counter s) tag")
    case (Some c)
    then show ?thesis using less [of c] by (auto simp: counters_less_def forgetUsers_def)
  qed (auto simp: forgetUsers_def intro: counters_less_same)
qed

lemma forget_after:
  "sb_counter s1 = sb_counter s \<Longrightarrow> sb_storages s1 = sb_storages s \<Longrightarrow> counters_less (forgetUsers tag users s1) s"
  by (rule counters_less_trans [OF forgetUsers_counters counters_less_same])

lemma delNaiveUsers_counters:
  "delNaiveUsers bx tag users s = (e, s') \<Longrightarrow> sb_counter s' = sb_counter s \<and> sb_storages s' = sb_storages s"
  by (auto simp: delNaiveUsers_def Let_def split: if_splits option.splits prod.splits dest!: store_naive_counters)

lemma DelUsers_counters: "Sing_DelUsers bx users tag info s = (e, s') \<Longrightarrow> counters_less s' s"
  by (auto simp: Sing_DelUsers_def Let_def split: if_splits option.splits prod.splits
      dest!: delNaiveUsers_counters intro: forget_after counters_less_same)

section \<open>Connections and reports\<close>

lemma counter_at_table: "counter_at s t u = map_of (mget NewTrafficCounter (sb_counter s) t) u"
  by (simp add: counter_at_def mget_def NewTrafficCounter_def split: option.splits)

text \<open>The storage of a user: the one he has, or a new one.\<close>

lemma storageFor_cases:
  assumes "storageFor tag user s = (a, s')"
  shows "counter_at s' t u = (if (t, u) = (tag, user) then Some a else counter_at s t u)"
    and "case counter_at s tag user of
       None \<Rightarrow> a = length (sb_storages s) \<and> sb_storages s' = sb_storages s @ [no_traffic]
     | Some b \<Rightarrow> a = b \<and> sb_storages s' = sb_storages s"
    and "sb_uidMap s' = sb_uidMap s \<and> sb_minTraffic s' = sb_minTraffic s"
  using assms by (auto simp: storageFor_def GetCounter_def counter_at_table split: option.splits)

lemma storageFor_wf:
  assumes wf: "sing_wf s" and st: "storageFor tag user s = (a, s')"
  shows "sing_wf s' \<and> a < length (sb_storages s') \<and> length (sb_storages s) \<le> length (sb_storages s')"
proof -
  note at = storageFor_cases [OF st]
  have size: "a < length (sb_storages s')" "length (sb_storages s) \<le> length (sb_storages s')"
    using at(2) sing_wfD(1) [OF wf, of tag user] by (auto split: option.splits)
  have own: "(t, u) = (tag, user)" if "counter_at s t u = Some a" for t u
    using that at(2) sing_wfD(1) [OF wf that] sing_wfD(2) [OF wf that, of tag user] by (auto split: option.splits)
  have "sing_wf s'"
  proof (rule sing_wfI)
    fix t u t' u' b assume "counter_at s' t u = Some b" "counter_at s' t' u' = Some b"
    then show "t = t' \<and> u = u'" using own sing_wfD(2) [OF wf, of t u b t' u'] unfolding at(1) by (auto split: if_splits)
  next
    fix t u b assume "counter_at s' t u = Some b"
    then show "b < length (sb_storages s')" using size sing_wfD(1) [OF wf, of t u b] unfolding at(1) by (auto split: if_splits)
  next
    fix t c assume "map_of (sb_counter s') t = Some c"
    then show "keys_distinct c" using st sing_wfD(3) [OF wf]
      by (auto simp: storageFor_def GetCounter_def mget_def NewTrafficCounter_def split: option.splits if_splits)
  next
    fix x assume "x \<in> set (sb_storages s')"
    then show "int64_range (UpCounter x) \<and> int64_range (DownCounter x)" using at(2) sing_wfD(4) [OF wf]
      by (auto simp: no_traffic_def int64_range_def split: option.splits)
  qed
  then show ?thesis using size by simp
qed

lemma collect_one_keeps:
  assumes "collect_one uidOf m reset e (l0, c0, h0) = (l, c, h)"
  shows "length h = length h0 \<and> set h \<subseteq> insert no_traffic (set h0) \<and> map_of c \<subseteq>\<^sub>m map_of c0 \<and> (keys_distinct c0 \<longrightarrow> keys_distinct c)"
  using assms set_update_subset_insert [of h0 "snd e" no_traffic]
  by (cases e) (auto simp: collect_one_def Let_def Counter_Delete_def delete_conv' map_le_def split: if_splits)

lemma fold_collect_keeps:
  assumes "fold (collect_one uidOf m reset) es (l0, c0, h0) = (l, c, h)"
  shows "length h = length h0 \<and> set h \<subseteq> insert no_traffic (set h0) \<and> map_of c \<subseteq>\<^sub>m map_of c0 \<and> (keys_distinct c0 \<longrightarrow> keys_distinct c)"
  using assms
proof (induction es arbitrary: l0 c0 h0)
  case (Cons e es)
  obtain l1 c1 h1 where 1: "collect_one uidOf m reset e (l0, c0, h0) = (l1, c1, h1)" by (metis prod_cases3)
  have rest: "length h = length h1" "set h \<subseteq> insert no_traffic (set h1)" "map_of c \<subseteq>\<^sub>m map_of c1" "keys_distinct c1 \<longrightarrow> keys_distinct c"
    using Cons.IH [of l1 c1 h1] Cons.prems 1 by simp_all
  show ?case using collect_one_keeps [OF 1] rest map_le_trans [OF rest(3)] by auto
qed auto

lemma report_wf:
  assumes wf: "sing_wf s" and r: "Sing_GetUserTrafficSlice tag reset s = (lines, s')"
  shows "sing_wf s' \<and> length (sb_storages s') = length (sb_storages s)"
proof (cases "map_of (sb_counter s) tag")
  case None
  then show ?thesis using assms by (simp add: Sing_GetUserTrafficSlice_def)
next
  case (Some c)
  obtain l c1 h1 where k: "collect (uid_of tag s) (mget 0 (sb_minTraffic s) tag) reset c (sb_storages s) = (l, c1, h1)"
    by (metis prod_cases3)
  have s': "s' = s\<lparr>sb_counter := AList.update tag c1 (sb_counter s), sb_storages := h1\<rparr>"
    using r Some k by (simp add: Sing_GetUserTrafficSlice_def)
  have keep: "length h1 = length (sb_storages s)" "set h1 \<subseteq> insert no_traffic (set (sb_storages s))" "map_of c1 \<subseteq>\<^sub>m map_of c" "keys_distinct c1"
    using fold_collect_keeps [OF k [unfolded collect_def]] sing_wfD(3) [OF wf Some] by auto
  let ?s1 = "s\<lparr>sb_counter := AList.update tag c1 (sb_counter s)\<rparr>"
  have "counters_less ?s1 s" using Some keep by (auto simp: counters_less_def)
  then have wf1: "sing_wf ?s1" using wf by (rule counters_less_wf)
  have at: "counter_at s' t u = counter_at ?s1 t u" for t u by (simp add: s' counter_at_def)
  have "sing_wf s'"
  proof (rule sing_wfI)
    fix x assume "x \<in> set (sb_storages s')"
    then have "x = no_traffic \<or> x \<in> set (sb_storages ?s1)" using keep(2) by (auto simp: s')
    then show "int64_range (UpCounter x) \<and> int64_range (DownCounter x)" using sing_wfD(4) [OF wf1]
      by (auto simp: no_traffic_def int64_range_def)
  next
    fix t c assume "map_of (sb_counter s') t = Some c"
    then show "keys_distinct c" using sing_wfD(3) [OF wf1, of t c] by (simp add: s')
  next
    fix t u a assume "counter_at s' t u = Some a"
    then show "a < length (sb_storages s')" using sing_wfD(1) [OF wf1, of t u a] keep(1) unfolding at by (simp add: s')
  qed (use sing_wfD(2) [OF wf1] in \<open>unfold at, blast\<close>)
  then show ?thesis using keep(1) by (simp add: s')
qed

lemma add_wf:
  assumes wf: "sing_wf s" and h: "h = add_up n a (sb_storages s) \<or> h = add_down n a (sb_storages s)" and a: "a < length (sb_storages s)"
  shows "sing_wf (s\<lparr>sb_storages := h\<rparr>) \<and> length h = length (sb_storages s)"
proof -
  have len: "length h = length (sb_storages s)" using h by (auto simp: add_up_def add_down_def)
  have at: "counter_at (s\<lparr>sb_storages := h\<rparr>) t u = counter_at s t u" for t u by (simp add: counter_at_def)
  have "sing_wf (s\<lparr>sb_storages := h\<rparr>)"
  proof (rule sing_wfI)
    fix x assume "x \<in> set (sb_storages (s\<lparr>sb_storages := h\<rparr>))"
    then obtain i where i: "i < length h" "x = h ! i" by (auto simp: in_set_conv_nth)
    have old: "int64_range (UpCounter (sb_storages s ! j)) \<and> int64_range (DownCounter (sb_storages s ! j))" if "j < length (sb_storages s)" for j
      using sing_wfD(4) [OF wf] nth_mem [OF that] by blast
    show "int64_range (UpCounter x) \<and> int64_range (DownCounter x)"
      using h i old [OF a] old [of i] len by (cases "i = a") (auto simp: add_up_def add_down_def)
  qed (use sing_wfD(1,2,3) [OF wf] len in \<open>auto simp: at\<close>)
  then show ?thesis using len by simp
qed

section \<open>The core at work\<close>

text \<open>The core and the connections that were ever let through, which may still count, under the operations in any order.\<close>

type_synonym ('b, 'w) core_at_work = "('b, 'w) Sing \<times> trackHandle option ConnCounter list"

inductive traffic_step :: "'b box_api \<Rightarrow> ('b, 'w) core_at_work \<Rightarrow> unit \<Rightarrow> ('b, 'w) core_at_work \<Rightarrow> bool" for bx where
  node_added: "Sing_AddNode bx tag info config s = (e, s') \<Longrightarrow> traffic_step bx (s, conns) () (s', conns)"
| node_deleted: "Sing_DelNode bx tag s = (e, s') \<Longrightarrow> traffic_step bx (s, conns) () (s', conns)"
| users_added: "Sing_AddUsers bx p s = (r, s') \<Longrightarrow> traffic_step bx (s, conns) () (s', conns)"
| users_deleted: "Sing_DelUsers bx users tag info s = (e, s') \<Longrightarrow> traffic_step bx (s, conns) () (s', conns)"
| reported: "Sing_GetUserTrafficSlice tag reset s = (lines, s') \<Longrightarrow> traffic_step bx (s, conns) () (s', conns)"
| stream: "RoutedConnection cdn now m s ls = (Some (bucket, conn), s', ls') \<Longrightarrow> traffic_step bx (s, conns) () (s', conn # conns)"
| datagrams: "RoutedPacketConnection cdn now m s ls = (Some conn, s', ls') \<Longrightarrow> traffic_step bx (s, conns) () (s', conn # conns)"
| reads: "conn \<in> set conns \<Longrightarrow> traffic_step bx (s, conns) () (s\<lparr>sb_storages := Conn_Read n conn (sb_storages s)\<rparr>, conns)"
| writes: "conn \<in> set conns \<Longrightarrow> traffic_step bx (s, conns) () (s\<lparr>sb_storages := Conn_Write n conn (sb_storages s)\<rparr>, conns)"

definition traffic_start :: "('b, 'w) core_at_work \<Rightarrow> bool" where
  "traffic_start x \<longleftrightarrow> sb_counter (fst x) = [] \<and> sb_storages (fst x) = [] \<and> snd x = []"

definition traffic_inv :: "('b, 'w) core_at_work \<Rightarrow> bool" where
  "traffic_inv x \<longleftrightarrow> sing_wf (fst x) \<and> (\<forall>conn\<in>set (snd x). cc_storage conn < length (sb_storages (fst x)))"

lemma less_inv: "traffic_inv (s, conns) \<Longrightarrow> counters_less s' s \<Longrightarrow> traffic_inv (s', conns)"
  using counters_less_wf [of s' s] by (auto simp: traffic_inv_def counters_less_def)

lemma routed_storage:
  "RoutedConnection cdn now m s ls = (Some (bucket, conn), s', ls') \<Longrightarrow>
     storageFor (resolveNodeTag s (ic_Inbound m)) (ic_User m) s = (cc_storage conn, s')"
  "RoutedPacketConnection cdn now m s ls = (Some conn, s', ls') \<Longrightarrow>
     storageFor (resolveNodeTag s (ic_Inbound m)) (ic_User m) s = (cc_storage conn, s')"
  by (auto simp: RoutedConnection_def RoutedPacketConnection_def checkAccess_def Let_def NewConnCounter_def
      split: sum.splits prod.splits if_splits access.splits)

lemma routed_inv:
  assumes inv: "traffic_inv (s, conns)" and st: "storageFor tag user s = (cc_storage conn, s')"
  shows "traffic_inv (s', conn # conns)"
proof -
  have wf: "sing_wf s" "\<And>c. c \<in> set conns \<Longrightarrow> cc_storage c < length (sb_storages s)" using inv by (simp_all add: traffic_inv_def)
  show ?thesis using storageFor_wf [OF wf(1) st] wf(2) by (fastforce simp: traffic_inv_def)
qed

lemma counts_inv:
  assumes inv: "traffic_inv (s, conns)" and conn: "conn \<in> set conns"
  shows "traffic_inv (s\<lparr>sb_storages := Conn_Read n conn (sb_storages s)\<rparr>, conns)"
    and "traffic_inv (s\<lparr>sb_storages := Conn_Write n conn (sb_storages s)\<rparr>, conns)"
proof -
  have wf: "sing_wf s" "cc_storage conn < length (sb_storages s)" using inv conn by (simp_all add: traffic_inv_def)
  show "traffic_inv (s\<lparr>sb_storages := Conn_Read n conn (sb_storages s)\<rparr>, conns)"
    using inv add_wf [OF wf(1) _ wf(2), of "add_up n (cc_storage conn) (sb_storages s)" n] by (auto simp: traffic_inv_def Conn_Read_def)
  show "traffic_inv (s\<lparr>sb_storages := Conn_Write n conn (sb_storages s)\<rparr>, conns)"
    using inv add_wf [OF wf(1) _ wf(2), of "add_down n (cc_storage conn) (sb_storages s)" n] by (auto simp: traffic_inv_def Conn_Write_def)
qed

interpretation work: component traffic_start "traffic_step bx" traffic_inv for bx
proof unfold_locales
  fix x assume "traffic_start x"
  then show "traffic_inv x" by (auto simp: traffic_start_def traffic_inv_def sing_wf_def counter_at_def)
next
  fix x e x' assume inv: "traffic_inv x" and step: "traffic_step bx x e x'"
  from step inv show "traffic_inv x'"
  proof (cases rule: traffic_step.cases)
    case (reported tag reset s lines s' conns)
    then show ?thesis using inv report_wf [of s tag reset lines s'] by (auto simp: traffic_inv_def)
  qed (auto intro: less_inv AddNode_counters DelNode_counters AddUsers_counters DelUsers_counters routed_inv [OF _ routed_storage(1)]
      routed_inv [OF _ routed_storage(2)] counts_inv)
qed

text \<open>
  C9. In every state the core can reach, whatever nodes, users, connections and reports came in what order: every entry of
  a node's table and every connection ever let through points to a storage that exists, no two users, of one node or of
  different nodes, share a storage, and every storage has two signed 64 bit numbers.
\<close>

theorem counters_well_typed:
  assumes "reachable traffic_start (traffic_step bx) (s, conns)"
  shows "(\<forall>t u a. counter_at s t u = Some a \<longrightarrow> a < length (sb_storages s)) \<and>
    (\<forall>conn\<in>set conns. cc_storage conn < length (sb_storages s)) \<and>
    (\<forall>t u t' u' a. counter_at s t u = Some a \<longrightarrow> counter_at s t' u' = Some a \<longrightarrow> t = t' \<and> u = u') \<and>
    (\<forall>x\<in>set (sb_storages s). int64_range (UpCounter x) \<and> int64_range (DownCounter x))"
  using work.reachable_inv [OF assms] by (simp add: traffic_inv_def sing_wf_def)

text \<open>A user without a limiter connects, reads 100 bytes and writes 7, and a report is made.\<close>

definition ex_core :: "(string list, unit) Sing" where
  "ex_core = ex_sing\<lparr>sb_uidMap := [(''n|u'', 7)]\<rparr>"

definition ex_conn :: "trackHandle option ConnCounter" where
  "ex_conn = NewConnCounter 0 (Some None)"

definition ex_counting :: "(string list, unit) Sing" where
  "ex_counting = ex_core\<lparr>sb_counter := [(''n'', [(''u'', 0)])], sb_storages := [no_traffic]\<rparr>"

definition ex_counted :: "(string list, unit) Sing" where
  "ex_counted = ex_core\<lparr>sb_counter := [(''n'', [(''u'', 0)])], sb_storages := [\<lparr>UpCounter = 100, DownCounter = 7\<rparr>]\<rparr>"

lemma ex_routed: "RoutedConnection ([], None) 100 ex_flow ex_core [] = (Some (None, ex_conn), ex_counting, [])"
  by (simp add: RoutedConnection_def checkAccess_def GetLimiter_def storageFor_def GetCounter_def resolveNodeTag_def mget_def Let_def
      ex_flow_def ex_core_def ex_sing_def ex_conn_def ex_counting_def NewTrafficCounter_def)

lemma ex_counts: "Conn_Write 7 ex_conn (Conn_Read 100 ex_conn (sb_storages ex_counting)) = [\<lparr>UpCounter = 100, DownCounter = 7\<rparr>]"
  by (simp add: ex_conn_def NewConnCounter_def ex_counting_def Conn_Read_def Conn_Write_def add_up_def add_down_def no_traffic_def i64_def)

lemma ex_counted_eq: "ex_counting\<lparr>sb_storages := Conn_Write 7 ex_conn (Conn_Read 100 ex_conn (sb_storages ex_counting))\<rparr> = ex_counted"
  unfolding ex_counts by (simp add: ex_counting_def ex_counted_def)

theorem counters_well_typed_witness:
  "counter_at ex_counted ''n'' ''u'' = Some 0 \<and> 0 < length (sb_storages ex_counted) \<and> cc_storage ex_conn = 0"
proof -
  let ?r = "reachable traffic_start (traffic_step (ex_box []))"
  have "?r (ex_core, [])" by (rule reach_start) (simp add: traffic_start_def ex_core_def ex_sing_def)
  then have 1: "?r (ex_counting, [ex_conn])" by (rule reach_step) (rule stream [OF ex_routed])
  then have "?r (ex_counting\<lparr>sb_storages := Conn_Read 100 ex_conn (sb_storages ex_counting)\<rparr>, [ex_conn])"
    by (rule reach_step) (rule reads, simp)
  then have "?r (ex_counting\<lparr>sb_storages := Conn_Write 7 ex_conn (Conn_Read 100 ex_conn (sb_storages ex_counting))\<rparr>, [ex_conn])"
    by (rule reach_step) (use writes [where conn = ex_conn and conns = "[ex_conn]" and n = 7
        and s = "ex_counting\<lparr>sb_storages := Conn_Read 100 ex_conn (sb_storages ex_counting)\<rparr>"] in simp)
  then have "?r (ex_counted, [ex_conn])" unfolding ex_counted_eq .
  note w = counters_well_typed [OF this]
  have at: "counter_at ex_counted ''n'' ''u'' = Some 0" by code_simp
  with w have "0 < length (sb_storages ex_counted)" by blast
  then show ?thesis using at by (simp add: ex_conn_def NewConnCounter_def)
qed

section \<open>From the connection to the report\<close>





end
