(* ===== verification/Bittorrent.thy ===== *)
theory Bittorrent
  imports Prelude
begin

text \<open>
  Recognising BitTorrent in the first bytes of a flow (\<^verbatim>\<open>src/core/xray/common/protocol/bt\<close>): messages of the DHT, requests to
  UDP trackers and uTP packets. An index beyond the slice, which panics in Go, is an outcome of its own; it is shown not
  to happen.
\<close>

datatype sniff_error = NoClue | NeedMoreData | NotThis string | UnknownContent | SniffTimeout | ReadFailed string | ContextDone | IndexPanic

abbreviation errNotBittorrent :: sniff_error where
  "errNotBittorrent \<equiv> NotThis ''not bittorrent header''"

definition byte_of :: "char \<Rightarrow> nat" where
  "byte_of c = of_char c"

definition byte_at :: "string \<Rightarrow> nat \<Rightarrow> nat option" where
  "byte_at b i = (if i < length b then Some (byte_of (b ! i)) else None)"

definition be_bytes :: "string \<Rightarrow> nat" where
  "be_bytes = foldl (\<lambda>n c. 256 * n + byte_of c) 0"

section \<open>DHT and trackers\<close>

definition dhtMarkers :: "string list" where
  "dhtMarkers = [''1:y1:q'', ''1:y1:r'', ''1:y1:e'']"

definition SniffDHT :: "string \<Rightarrow> sniff_error option" where
  "SniffDHT b =
     (case b of
        [] \<Rightarrow> Some NoClue
      | c # _ \<Rightarrow>
          if c \<noteq> CHR ''d'' then Some errNotBittorrent
          else if list_ex (contains b) dhtMarkers then None
          else if length b < 32 then Some NoClue
          else Some errNotBittorrent)"

definition SniffUDPTracker :: "string \<Rightarrow> sniff_error option" where
  "SniffUDPTracker b =
     (if length b < 16 then Some NoClue
      else if be_bytes (take 8 b) \<noteq> 0x41727101980 then Some errNotBittorrent
      else if be_bytes (take 4 (drop 8 b)) \<noteq> 0 then Some errNotBittorrent
      else None)"

section \<open>uTP\<close>

text \<open>Both timestamps count microseconds and wrap after 32 bits; the clock is a 64 bit number.\<close>

definition utpTimeWindow :: "32 word" where
  "utpTimeWindow = 300000000"

definition utpTimestampPlausible :: "32 word \<Rightarrow> int \<Rightarrow> bool" where
  "utpTimestampPlausible timestamp now =
     (let n = word_of_int now :: 32 word
      in n - timestamp \<le> utpTimeWindow \<or> timestamp - n \<le> utpTimeWindow)"

text \<open>The walk over the chain of extensions: the offset behind it, or the error.\<close>

function utp_extensions :: "string \<Rightarrow> nat \<Rightarrow> nat \<Rightarrow> sniff_error + nat" where
  "utp_extensions b extension offset =
     (if extension = 0 then Inr offset
      else if extension \<noteq> 1 then Inl errNotBittorrent
      else if length b < offset + 2 then Inl NoClue
      else case (byte_at b offset, byte_at b (offset + 1)) of
        (Some extension', Some n) \<Rightarrow>
          (let offset' = offset + (2 + n)
           in if length b < offset' then Inl NoClue else utp_extensions b extension' offset')
      | _ \<Rightarrow> Inl IndexPanic)"
  by pat_completeness auto
termination by (relation "measure (\<lambda>(b, _, offset). length b - offset)") auto

declare utp_extensions.simps [simp del]

definition SniffUTP :: "string \<Rightarrow> int \<Rightarrow> sniff_error option" where
  "SniffUTP b now =
     (if length b < 20 then Some NoClue
      else case (byte_at b 0, byte_at b 1) of
        (Some b0, Some extension) \<Rightarrow>
          if 4 < drop_bit 4 b0 \<or> take_bit 4 b0 \<noteq> 1 then Some errNotBittorrent
          else (case utp_extensions b extension 2 of
                  Inl e \<Rightarrow> Some e
                | Inr offset \<Rightarrow>
                    if length b < offset + 6 then Some NoClue
                    else if \<not> utpTimestampPlausible (word_of_nat (be_bytes (take 4 (drop (offset + 2) b)))) now
                    then Some errNotBittorrent
                    else None)
      | _ \<Rightarrow> Some IndexPanic)"

lemma utp_extensions_no_panic: "utp_extensions b extension offset \<noteq> Inl IndexPanic"
proof (induction b extension offset rule: utp_extensions.induct)
  case (1 b extension offset)
  then show ?case by (subst utp_extensions.simps) (auto simp: byte_at_def Let_def)
qed

text \<open>
  The uTP sniffer reads no byte outside the packet, whatever extension chain and lengths the packet claims, and it
  returns: the walk over the chain ends.
\<close>

theorem SniffUTP_in_bounds: "SniffUTP b now \<noteq> Some IndexPanic"
  using utp_extensions_no_panic [of b _ 2] by (auto simp: SniffUTP_def byte_at_def Let_def split: sum.splits)

lemma word_le_window: "word_of_int k \<le> utpTimeWindow \<longleftrightarrow> k mod 2 ^ 32 \<le> 300000000"
  by (simp add: word_le_def utpTimeWindow_def unsigned_of_int take_bit_eq_mod)

text \<open>
  C40. The time check of uTP is exact on the circle of the 32 bit microsecond counters: a timestamp written at the time
  \<open>t\<close> is accepted at the time \<open>now\<close> exactly when the two times are at most five minutes apart, in either direction, up to
  whole turns of the counter, so also when it has rolled over between them.
\<close>

theorem utpTimestampPlausible_exact:
  "utpTimestampPlausible (word_of_int t) now \<longleftrightarrow> (\<exists>k. \<bar>now - t - k * 2 ^ 32\<bar> \<le> 300000000)"
proof
  assume "utpTimestampPlausible (word_of_int t) now"
  then consider "(now - t) mod 2 ^ 32 \<le> 300000000" | "(t - now) mod 2 ^ 32 \<le> 300000000"
    unfolding utpTimestampPlausible_def Let_def of_int_diff [symmetric] word_le_window by blast
  then show "\<exists>k. \<bar>now - t - k * 2 ^ 32\<bar> \<le> 300000000"
  proof cases
    case 1
    then show ?thesis by (intro exI [of _ "(now - t) div 2 ^ 32"]) (simp add: minus_div_mult_eq_mod)
  next
    case 2
    have "now - t - (- ((t - now) div 2 ^ 32)) * 2 ^ 32 = - ((t - now) mod 2 ^ 32)"
      using minus_div_mult_eq_mod [of "t - now" "2 ^ 32"] by linarith
    then show ?thesis using 2 by (intro exI [of _ "- ((t - now) div 2 ^ 32)"]) simp
  qed
next
  assume "\<exists>k. \<bar>now - t - k * 2 ^ 32\<bar> \<le> 300000000"
  then obtain k where k: "\<bar>now - t - k * 2 ^ 32\<bar> \<le> 300000000" ..
  have "(now - t) mod 2 ^ 32 \<le> 300000000 \<or> (t - now) mod 2 ^ 32 \<le> 300000000"
  proof (cases "0 \<le> now - t - k * 2 ^ 32")
    case True
    have "(now - t) mod 2 ^ 32 = (now - t - k * 2 ^ 32) mod 2 ^ 32" using mod_mult_self1 [of "now - t" "- k" "2 ^ 32"] by simp
    then show ?thesis using True k by simp
  next
    case False
    have "(t - now) mod 2 ^ 32 = (t - now + k * 2 ^ 32) mod 2 ^ 32" by (rule mod_mult_self1 [symmetric])
    also have "\<dots> = t - now + k * 2 ^ 32" using False k by (intro mod_pos_pos_trivial) simp_all
    finally have "(t - now) mod 2 ^ 32 \<le> 300000000" using False k by linarith
    then show ?thesis ..
  qed
  then show "utpTimestampPlausible (word_of_int t) now"
    unfolding utpTimestampPlausible_def Let_def of_int_diff [symmetric] word_le_window .
qed

end
