(* ===== verification/Xray_Sniff.thy ===== *)
theory Xray_Sniff
  imports Bittorrent
begin

text \<open>
  Finding out what a connection of the xray core carries (\<^verbatim>\<open>src/core/xray/app/dispatcher\<close>: \<^verbatim>\<open>sniffer.go\<close>,
  \<^verbatim>\<open>fakednssniffer.go\<close>, and \<^verbatim>\<open>sniffer\<close> and \<^verbatim>\<open>cachedReader\<close> of \<^verbatim>\<open>default.go\<close>). The sniffers of the xray library and the fake DNS
  engine are arguments. What the client sends is a sequence of chunks with the time each took; the context of the
  connection, fixed for one sniffing, is its target.
\<close>

section \<open>Results\<close>

datatype network = TCP | UDP | NoNetwork

datatype xaddr = XDomain string | XIP string

datatype SniffResult =
    SniffHeader string string
  | fakeDNSSniffResult string
  | DNSThenOthersSniffResult string string
  | compositeResult SniffResult SniffResult

fun sr_Protocol :: "SniffResult \<Rightarrow> string" where
  "sr_Protocol (SniffHeader p d) = p"
| "sr_Protocol (fakeDNSSniffResult d) = ''fakedns''"
| "sr_Protocol (DNSThenOthersSniffResult d p) = ''fakedns+others''"
| "sr_Protocol (compositeResult domainResult protocolResult) = sr_Protocol protocolResult"

fun sr_Domain :: "SniffResult \<Rightarrow> string" where
  "sr_Domain (SniffHeader p d) = d"
| "sr_Domain (fakeDNSSniffResult d) = d"
| "sr_Domain (DNSThenOthersSniffResult d p) = d"
| "sr_Domain (compositeResult domainResult protocolResult) = sr_Domain domainResult"

text \<open>The two optional interfaces of a result.\<close>

fun ProtocolForDomainResult :: "SniffResult \<Rightarrow> string option" where
  "ProtocolForDomainResult (compositeResult domainResult protocolResult) = Some (sr_Protocol domainResult)"
| "ProtocolForDomainResult _ = None"

fun IsProtoSubsetOf :: "SniffResult \<Rightarrow> string \<Rightarrow> bool" where
  "IsProtoSubsetOf (DNSThenOthersSniffResult d original) protocolName = has_prefix protocolName original"
| "IsProtoSubsetOf _ _ = False"

section \<open>The sniffers\<close>

type_synonym sniffed = "sniff_error + SniffResult"

record protocolSnifferWithMetadata =
  ps_sniff :: "string option \<Rightarrow> sniffed"
  ps_metadata :: bool
  ps_network :: network

record sniff_library =
  sl_http :: "string \<Rightarrow> sniffed"
  sl_tls :: "string \<Rightarrow> sniffed"
  sl_bittorrent :: "string \<Rightarrow> sniffed"
  sl_quic :: "string \<Rightarrow> sniffed"
  sl_utp :: "string \<Rightarrow> sniffed"

record fake_dns =
  fd_GetDomain :: "xaddr \<Rightarrow> string"
  fd_IsIPInIPPool :: "(xaddr \<Rightarrow> bool) option"

definition content_sniffer :: "network \<Rightarrow> (string \<Rightarrow> sniffed) \<Rightarrow> protocolSnifferWithMetadata" where
  "content_sniffer n f = \<lparr>ps_sniff = (\<lambda>b. f (case b of None \<Rightarrow> [] | Some p \<Rightarrow> p)), ps_metadata = False, ps_network = n\<rparr>"

definition bt_sniffed :: "sniff_error option \<Rightarrow> sniffed" where
  "bt_sniffed r = (case r of None \<Rightarrow> Inr (SniffHeader ''bittorrent'' []) | Some e \<Rightarrow> Inl e)"

definition newProtocolSniffers :: "sniff_library \<Rightarrow> bool \<Rightarrow> int \<Rightarrow> protocolSnifferWithMetadata list" where
  "newProtocolSniffers lib btExtraSniffing now =
     [content_sniffer TCP (sl_http lib), content_sniffer TCP (sl_tls lib), content_sniffer TCP (sl_bittorrent lib),
      content_sniffer UDP (sl_quic lib)] @
     (if btExtraSniffing
      then [content_sniffer UDP (\<lambda>b. bt_sniffed (SniffUTP b now)), content_sniffer UDP (\<lambda>b. bt_sniffed (SniffDHT b)),
            content_sniffer UDP (\<lambda>b. bt_sniffed (SniffUDPTracker b))]
      else [content_sniffer UDP (sl_utp lib)])"

text \<open>
  The answer of the fake DNS sniffer, and what it leaves behind for the sniffer below: whether the target lies in the
  pool, if the engine can tell.
\<close>

definition fake_dns_sniff :: "fake_dns \<Rightarrow> network \<times> xaddr \<Rightarrow> sniffed \<times> bool option" where
  "fake_dns_sniff fd = (\<lambda>(n, a).
     if (n = TCP \<or> n = UDP) \<and> fd_GetDomain fd a \<noteq> [] then (Inr (fakeDNSSniffResult (fd_GetDomain fd a)), None)
     else (Inl NoClue, map_option (\<lambda>inPool. inPool a) (fd_IsIPInIPPool fd)))"

definition newFakeDNSSniffer :: "fake_dns \<Rightarrow> network \<times> xaddr \<Rightarrow> protocolSnifferWithMetadata" where
  "newFakeDNSSniffer fd target = \<lparr>ps_sniff = (\<lambda>_. fst (fake_dns_sniff fd target)), ps_metadata = True, ps_network = NoNetwork\<rparr>"

fun first_of :: "protocolSnifferWithMetadata list \<Rightarrow> string option \<Rightarrow> sniffed" where
  "first_of [] b = Inl NoClue"
| "first_of (v # vs) b =
     (if ps_metadata v \<or> b \<noteq> None
      then (case ps_sniff v b of Inr r \<Rightarrow> Inr (DNSThenOthersSniffResult (sr_Domain r) (sr_Protocol r)) | Inl _ \<Rightarrow> first_of vs b)
      else first_of vs b)"

definition newFakeDNSThenOthers ::
  "fake_dns \<Rightarrow> network \<times> xaddr \<Rightarrow> protocolSnifferWithMetadata list \<Rightarrow> protocolSnifferWithMetadata" where
  "newFakeDNSThenOthers fd target others =
     \<lparr>ps_sniff = (\<lambda>b. case fake_dns_sniff fd target of
                        (Inr r, _) \<Rightarrow> Inr r
                      | (Inl _, inRange) \<Rightarrow> if inRange = Some True then first_of others b else Inl NoClue),
      ps_metadata = False, ps_network = NoNetwork\<rparr>"

definition NewSniffer :: "sniff_library \<Rightarrow> bool \<Rightarrow> int \<Rightarrow> fake_dns option \<Rightarrow> network \<times> xaddr \<Rightarrow> protocolSnifferWithMetadata list" where
  "NewSniffer lib btExtraSniffing now fdns target =
     (let others = newProtocolSniffers lib btExtraSniffing now
      in case fdns of
           None \<Rightarrow> others
         | Some fd \<Rightarrow> newFakeDNSThenOthers fd target others # others @ [newFakeDNSSniffer fd target])"

text \<open>One round over the sniffers: a result, or those that have no clue yet.\<close>

fun sniff_round :: "network \<Rightarrow> string \<Rightarrow> protocolSnifferWithMetadata list \<Rightarrow> protocolSnifferWithMetadata list
    \<Rightarrow> SniffResult + protocolSnifferWithMetadata list" where
  "sniff_round n payload [] pendingSniffer = Inr pendingSniffer"
| "sniff_round n payload (si # ss) pendingSniffer =
     (if ps_metadata si \<or> ps_network si \<noteq> n then sniff_round n payload ss pendingSniffer
      else case ps_sniff si (Some payload) of
        Inl NoClue \<Rightarrow> sniff_round n payload ss (pendingSniffer @ [si])
      | Inl _ \<Rightarrow> sniff_round n payload ss pendingSniffer
      | Inr r \<Rightarrow> Inl r)"

fun metadata_round :: "protocolSnifferWithMetadata list \<Rightarrow> protocolSnifferWithMetadata list
    \<Rightarrow> SniffResult + protocolSnifferWithMetadata list" where
  "metadata_round [] pendingSniffer = Inr pendingSniffer"
| "metadata_round (si # ss) pendingSniffer =
     (if \<not> ps_metadata si then metadata_round ss (pendingSniffer @ [si])
      else case ps_sniff si None of
        Inl NoClue \<Rightarrow> metadata_round ss (pendingSniffer @ [si])
      | Inl _ \<Rightarrow> metadata_round ss pendingSniffer
      | Inr r \<Rightarrow> Inl r)"

definition after_round ::
  "protocolSnifferWithMetadata list \<Rightarrow> SniffResult + protocolSnifferWithMetadata list \<Rightarrow> sniffed \<times> protocolSnifferWithMetadata list" where
  "after_round s r =
     (case r of
        Inl result \<Rightarrow> (Inr result, s)
      | Inr pendingSniffer \<Rightarrow> if pendingSniffer \<noteq> [] then (Inl NoClue, pendingSniffer) else (Inl UnknownContent, s))"

definition Sniff :: "network \<Rightarrow> string \<Rightarrow> protocolSnifferWithMetadata list \<Rightarrow> sniffed \<times> protocolSnifferWithMetadata list" where
  "Sniff n payload s = after_round s (sniff_round n payload s [])"

definition SniffMetadata :: "protocolSnifferWithMetadata list \<Rightarrow> sniffed \<times> protocolSnifferWithMetadata list" where
  "SniffMetadata s = after_round s (metadata_round s [])"

section \<open>Sniffing a connection\<close>

datatype arrival = CtxDone | ReadError string | Chunk string nat

text \<open>
  The loop over the arrivals \<open>from\<close> the \<open>i\<close>th on: the cache collects all of them and the payload is its first 32767
  bytes. The fuel bounds the rounds; \<^const>\<open>None\<close> is a loop that is still running when it is used up.
\<close>

fun content_sniff :: "nat \<Rightarrow> network \<Rightarrow> (nat \<Rightarrow> arrival) \<Rightarrow> nat \<Rightarrow> int \<Rightarrow> nat \<Rightarrow> string \<Rightarrow> protocolSnifferWithMetadata list \<Rightarrow> sniffed option" where
  "content_sniff 0 n from i cacheDeadline totalAttempt cache s = None"
| "content_sniff (Suc fuel) n from i cacheDeadline totalAttempt cache s =
     (case from i of
        CtxDone \<Rightarrow> Some (Inl ContextDone)
      | ReadError e \<Rightarrow> Some (Inl (ReadFailed e))
      | Chunk bytes elapsed \<Rightarrow>
          (let cache = cache @ bytes; payload = take 32767 cache; cacheDeadline = cacheDeadline - int elapsed;
               again = (\<lambda>totalAttempt s.
                  if 2 \<le> totalAttempt \<or> cacheDeadline \<le> 0 then Some (Inl SniffTimeout)
                  else content_sniff fuel n from (Suc i) cacheDeadline totalAttempt cache s)
           in if payload \<noteq> []
              then (case Sniff n payload s of
                      (Inl NoClue, s) \<Rightarrow> again (Suc totalAttempt) s
                    | (Inl NeedMoreData, s) \<Rightarrow> again totalAttempt s
                    | (r, s) \<Rightarrow> Some r)
              else again (Suc totalAttempt) s))"

definition sniffer :: "nat \<Rightarrow> network \<Rightarrow> bool \<Rightarrow> (nat \<Rightarrow> arrival) \<Rightarrow> protocolSnifferWithMetadata list \<Rightarrow> sniffed option" where
  "sniffer fuel n metadataOnly from s =
     (case SniffMetadata s of
        (metaresult, s) \<Rightarrow>
          if metadataOnly then Some metaresult
          else map_option (\<lambda>content. case (content, metaresult) of
                 (Inl e, Inr m) \<Rightarrow> Inr m
               | (Inr c, Inr m) \<Rightarrow> Inr (compositeResult m c)
               | (r, Inl _) \<Rightarrow> r) (content_sniff fuel n from 0 200 0 [] s))"

section \<open>Rounds\<close>

lemma after_round_not_waiting: "fst (after_round s r) \<noteq> Inl NeedMoreData"
  by (auto simp: after_round_def split: sum.splits)

lemma Sniff_not_waiting: "Sniff n payload s \<noteq> (Inl NeedMoreData, s')"
  using after_round_not_waiting [of s "sniff_round n payload s []"] unfolding Sniff_def by (metis fst_conv)

text \<open>The loop without the case that does not occur.\<close>

lemma content_sniff_Suc:
  "content_sniff (Suc fuel) n from i cacheDeadline totalAttempt cache s =
     (case from i of
        CtxDone \<Rightarrow> Some (Inl ContextDone)
      | ReadError e \<Rightarrow> Some (Inl (ReadFailed e))
      | Chunk bytes elapsed \<Rightarrow>
          (let cache = cache @ bytes; cacheDeadline = cacheDeadline - int elapsed;
               (r, s) = (if take 32767 cache = [] then (Inl NoClue, s) else Sniff n (take 32767 cache) s)
           in if r \<noteq> Inl NoClue then Some r
              else if 2 \<le> Suc totalAttempt \<or> cacheDeadline \<le> 0 then Some (Inl SniffTimeout)
              else content_sniff fuel n from (Suc i) cacheDeadline (Suc totalAttempt) cache s))"
  using Sniff_not_waiting by (auto simp: Let_def split: arrival.splits prod.splits sum.splits sniff_error.splits)

declare content_sniff.simps(2) [simp del]

text \<open>
  Sniffing ends after at most two reads, whatever the client sends and whatever the sniffers answer: with fuel for two
  rounds there is an outcome, and more fuel does not change it.
\<close>

theorem sniffing_ends: "\<exists>r. \<forall>fuel. sniffer (2 + fuel) n metadataOnly from s = Some r"
proof -
  let ?ends = "\<lambda>k i d a cache s. \<exists>r. \<forall>fuel. content_sniff (k + fuel) n from i d a cache s = Some r"
  have step: "?ends (Suc k) i d a cache s" if next_round: "1 \<le> a \<or> (\<forall>i d cache s. ?ends k i d (Suc a) cache s)" for k i d a cache s
  proof (cases "from i")
    case (Chunk bytes elapsed)
    obtain r s1 where 1: "(if take 32767 (cache @ bytes) = [] then (Inl NoClue, s) else Sniff n (take 32767 (cache @ bytes)) s) = (r, s1)"
      by fastforce
    show ?thesis
    proof (cases "r = Inl NoClue \<and> \<not> (2 \<le> Suc a \<or> d - int elapsed \<le> 0)")
      case True
      then obtain r' where "\<forall>fuel. content_sniff (k + fuel) n from (Suc i) (d - int elapsed) (Suc a) (cache @ bytes) s1 = Some r'"
        using next_round by fastforce
      then show ?thesis using True Chunk 1 by (simp only: add_Suc content_sniff_Suc arrival.case Let_def prod.case) auto
    next
      case False
      then show ?thesis using Chunk 1 by (simp only: add_Suc content_sniff_Suc arrival.case Let_def prod.case) auto
    qed
  qed (simp_all add: content_sniff_Suc)
  have last: "?ends (Suc 0) i d (Suc 0) cache s" for i d cache s by (rule step) simp
  have "?ends (Suc (Suc 0)) i d 0 cache s" for i d cache s by (rule step) (use last in blast)
  then have ends: "\<exists>r. \<forall>fuel. content_sniff (2 + fuel) n from 0 200 0 [] s = Some r" for s by (simp add: numeral_2_eq_2)
  obtain m s1 where m: "SniffMetadata s = (m, s1)" by fastforce
  obtain r where "\<forall>fuel. content_sniff (2 + fuel) n from 0 200 0 [] s1 = Some r" using ends by blast
  then show ?thesis using m by (cases metadataOnly) (simp_all add: sniffer_def)
qed

section \<open>A sniffer that asks for more data\<close>

definition unfinished :: "string \<Rightarrow> protocolSnifferWithMetadata \<Rightarrow> bool" where
  "unfinished payload si \<longleftrightarrow> ps_sniff si (Some payload) = Inl NeedMoreData"

lemma round_without_unfinished:
  "sniff_round n payload (filter (\<lambda>si. \<not> unfinished payload si) s) pend = sniff_round n payload s pend"
  by (induction s arbitrary: pend) (auto simp: unfinished_def split: sum.splits sniff_error.splits)

lemma Sniff_without_unfinished:
  assumes "Sniff n payload s = (r, s1)" "Sniff n payload (filter (\<lambda>si. \<not> unfinished payload si) s) = (r', s1')"
  shows "r' = r \<and> (r = Inl NoClue \<longrightarrow> s1' = s1)"
  using assms unfolding Sniff_def round_without_unfinished by (auto simp: after_round_def split: sum.splits if_splits)

text \<open>
  C18. A protocol that is recognised in the first packet but needs more of it is given up: the outcome of the sniffing is
  the one that would be if its sniffer were not there, whatever the client sends next. So a TLS or QUIC greeting in two
  packets has no name, although the loop has a case that waits for the rest.
\<close>

theorem unfinished_is_given_up:
  assumes "from 0 = Chunk bytes elapsed" "bytes \<noteq> []"
  shows "content_sniff fuel n from 0 200 0 [] s = content_sniff fuel n from 0 200 0 [] (filter (\<lambda>si. \<not> unfinished (take 32767 bytes) si) s)"
proof (cases fuel)
  case (Suc f)
  obtain r s1 where 1: "Sniff n (take 32767 bytes) s = (r, s1)" by fastforce
  obtain r' s1' where 2: "Sniff n (take 32767 bytes) (filter (\<lambda>si. \<not> unfinished (take 32767 bytes) si) s) = (r', s1')" by fastforce
  show ?thesis unfolding Suc content_sniff_Suc using assms 1 2 Sniff_without_unfinished [OF 1 2] by (auto simp: Let_def)
qed simp

text \<open>A library that knows the greeting \<open>hello\<close>, which carries the name, and asks for more when it sees its start.\<close>

definition ex_hello :: "string \<Rightarrow> sniffed" where
  "ex_hello b = (if b = ''hello'' then Inr (SniffHeader ''tls'' ''example.org'') else if has_prefix ''hello'' b then Inl NeedMoreData
                 else Inl (NotThis ''tls''))"

definition ex_library :: sniff_library where
  "ex_library = \<lparr>sl_http = (\<lambda>_. Inl (NotThis ''http'')), sl_tls = ex_hello, sl_bittorrent = (\<lambda>_. Inl NoClue),
     sl_quic = (\<lambda>_. Inl (NotThis ''quic'')), sl_utp = (\<lambda>_. Inl NoClue)\<rparr>"

definition ex_packets :: "string list \<Rightarrow> nat \<Rightarrow> arrival" where
  "ex_packets ps i = (if i < length ps then Chunk (ps ! i) 10 else ReadError ''timeout'')"

theorem unfinished_is_given_up_witness:
  "content_sniff 2 TCP (ex_packets [''hello'']) 0 200 0 [] (newProtocolSniffers ex_library False 0) = Some (Inr (SniffHeader ''tls'' ''example.org'')) \<and>
   content_sniff 2 TCP (ex_packets [''hel'', ''lo'']) 0 200 0 [] (newProtocolSniffers ex_library False 0) = Some (Inl SniffTimeout)"
proof
  let ?s = "newProtocolSniffers ex_library False 0"
  note defs = numeral_2_eq_2 content_sniff_Suc ex_packets_def newProtocolSniffers_def content_sniffer_def ex_library_def ex_hello_def
    Sniff_def after_round_def Let_def has_prefix_def
  show "content_sniff 2 TCP (ex_packets [''hello'']) 0 200 0 [] ?s = Some (Inr (SniffHeader ''tls'' ''example.org''))"
    by (simp add: defs)
  have "content_sniff 2 TCP (ex_packets [''hel'', ''lo'']) 0 200 0 [] (filter (\<lambda>si. \<not> unfinished (take 32767 ''hel'') si) ?s) = Some (Inl SniffTimeout)"
    by (simp add: defs unfinished_def)
  then show "content_sniff 2 TCP (ex_packets [''hel'', ''lo'']) 0 200 0 [] ?s = Some (Inl SniffTimeout)"
    using unfinished_is_given_up [of "ex_packets [''hel'', ''lo'']" "''hel''" 10 2 TCP ?s] by (simp add: ex_packets_def)
qed

section \<open>The sniffer for fake addresses\<close>

lemma round_without_networkless:
  "n \<noteq> NoNetwork \<Longrightarrow> sniff_round n payload (filter (\<lambda>si. ps_metadata si \<or> ps_network si \<noteq> NoNetwork) s) pend = sniff_round n payload s pend"
  by (induction s arbitrary: pend) (auto split: sum.splits sniff_error.splits)

lemma content_without_networkless:
  "n \<noteq> NoNetwork \<Longrightarrow> content_sniff fuel n from i d a cache (filter (\<lambda>si. ps_metadata si \<or> ps_network si \<noteq> NoNetwork) s)
     = content_sniff fuel n from i d a cache s"
proof (induction fuel arbitrary: i d a cache s)
  case (Suc fuel)
  let ?keep = "filter (\<lambda>si. ps_metadata si \<or> ps_network si \<noteq> NoNetwork)"
  show ?case
  proof (cases "from i")
    case (Chunk bytes elapsed)
    let ?p = "take 32767 (cache @ bytes)"
    have r: "fst (Sniff n ?p (?keep s)) = fst (Sniff n ?p s)" "fst (Sniff n ?p s) = Inl NoClue \<Longrightarrow> snd (Sniff n ?p (?keep s)) = snd (Sniff n ?p s)"
      unfolding Sniff_def round_without_networkless [OF Suc.prems] by (auto simp: after_round_def split: sum.splits if_splits)
    show ?thesis
    proof (cases "?p = []")
      case True
      then have "cache = []" "bytes = []" by auto
      then show ?thesis using Suc.IH [OF Suc.prems] Chunk by (simp add: content_sniff_Suc)
    next
      case False
      then show ?thesis using r Chunk by (auto simp: content_sniff_Suc case_prod_unfold Let_def)
    qed
  qed (simp_all add: content_sniff_Suc)
qed simp

lemma metadata_round_filter:
  "metadata_round (filter (\<lambda>si. ps_metadata si \<or> P si) s) (filter (\<lambda>si. ps_metadata si \<or> P si) pend) =
     map_sum id (filter (\<lambda>si. ps_metadata si \<or> P si)) (metadata_round s pend)"
proof (induction s arbitrary: pend)
  case (Cons si s)
  show ?case using Cons.IH [of pend] Cons.IH [of "pend @ [si]"]
    by (cases "ps_metadata si") (auto split: sum.splits sniff_error.splits)
qed simp

lemma metadata_round_keeps: "metadata_round s pend = Inr p \<Longrightarrow> set pend \<union> {si \<in> set s. \<not> ps_metadata si} \<subseteq> set p"
  by (induction s arbitrary: pend) (force split: if_splits sum.splits sniff_error.splits)+

text \<open>
  The sniffer that is to look into connections to fake addresses is never asked about a TCP or UDP flow: it is
  registered without a network, and only sniffers of the flow's network are asked. The outcome is as if it were not
  registered.
\<close>

theorem fakedns_others_never_asked:
  assumes "n \<noteq> NoNetwork"
  shows "sniffer fuel n metadataOnly from (NewSniffer lib extra now (Some fd) target) =
    sniffer fuel n metadataOnly from (newProtocolSniffers lib extra now @ [newFakeDNSSniffer fd target])"
proof -
  let ?base = "newProtocolSniffers lib extra now @ [newFakeDNSSniffer fd target]" and ?P = "\<lambda>si. ps_metadata si \<or> ps_network si \<noteq> NoNetwork"
  let ?all = "newFakeDNSThenOthers fd target (newProtocolSniffers lib extra now) # ?base"
  have all: "NewSniffer lib extra now (Some fd) target = ?all" by (simp add: NewSniffer_def Let_def)
  have f: "filter ?P ?all = ?base"
    by (auto simp: newFakeDNSThenOthers_def newFakeDNSSniffer_def newProtocolSniffers_def content_sniffer_def)
  have r: "metadata_round ?base [] = map_sum id (filter ?P) (metadata_round ?all [])"
    using metadata_round_filter [of "\<lambda>si. ps_network si \<noteq> NoNetwork" ?all "[]"] unfolding f by simp
  note same = content_without_networkless [OF assms]
  show ?thesis
  proof (cases "metadata_round ?all []")
    case (Inl x)
    then show ?thesis using r same [of fuel "from" 0 200 0 "[]" ?all] unfolding all f
      by (simp only: sniffer_def SniffMetadata_def after_round_def sum.case map_sum.simps id_apply prod.case)
  next
    case (Inr p)
    have "content_sniffer TCP (sl_http lib) \<in> set p"
      using metadata_round_keeps [OF Inr] by (force simp: newProtocolSniffers_def content_sniffer_def)
    then have "content_sniffer TCP (sl_http lib) \<in> set (filter ?P p)" by (simp add: content_sniffer_def)
    then have "p \<noteq> []" "filter ?P p \<noteq> []" by (metis empty_iff filter.simps(1) list.set(1))+
    then show ?thesis using Inr r same [of fuel "from" 0 200 0 "[]" p] unfolding all
      by (simp only: sniffer_def SniffMetadata_def after_round_def sum.case map_sum.simps prod.case if_True not_False_eq_True)
  qed
qed

theorem fakedns_others_never_asked_witness:
  "\<exists>fd. fd_IsIPInIPPool fd \<noteq> None \<and>
     sniffer 2 TCP False (ex_packets [''hello'']) (NewSniffer ex_library False 0 (Some fd) (TCP, XIP ''198.18.0.1'')) =
     sniffer 2 TCP False (ex_packets [''hello'']) (newProtocolSniffers ex_library False 0 @ [newFakeDNSSniffer fd (TCP, XIP ''198.18.0.1'')])"
proof (intro exI conjI)
  let ?fd = "\<lparr>fd_GetDomain = (\<lambda>_. []), fd_IsIPInIPPool = Some (\<lambda>_. True)\<rparr>"
  show "fd_IsIPInIPPool ?fd \<noteq> None" by simp
  show "sniffer 2 TCP False (ex_packets [''hello'']) (NewSniffer ex_library False 0 (Some ?fd) (TCP, XIP ''198.18.0.1'')) =
     sniffer 2 TCP False (ex_packets [''hello'']) (newProtocolSniffers ex_library False 0 @ [newFakeDNSSniffer ?fd (TCP, XIP ''198.18.0.1'')])"
    by (rule fakedns_others_never_asked) simp
qed

end
