(* ===== verification/Xray_Dispatch.thy ===== *)
theory Xray_Dispatch
  imports Xray_Sniff Counter
begin

text \<open>
  The dispatcher of the xray core (\<^verbatim>\<open>src/core/xray/app/dispatcher\<close>: \<^verbatim>\<open>default.go\<close>, \<^verbatim>\<open>linkmanager.go\<close>, \<^verbatim>\<open>countreader.go\<close> and the
  admission of \<^verbatim>\<open>singmux.go\<close>): what a sniffed name does to the target, which connections reach an outbound, and the links
  of a connection, which are limited, counted and registered for their user so that they can be closed with him.
  The pipes, the router and the outbound manager are of the xray library.
\<close>

section \<open>Targets\<close>

record Destination =
  ds_Network :: network
  ds_Address :: xaddr

record SniffingRequest =
  rq_Enabled :: bool
  rq_MetadataOnly :: bool
  rq_RouteOnly :: bool
  rq_ExcludeForDomain :: "(string \<Rightarrow> bool) option"
  rq_ExcludeForIP :: "(string \<Rightarrow> bool) option"
  rq_OverrideDestinationForProtocol :: "string list"

definition in_fake_pool :: "fake_dns option \<Rightarrow> xaddr \<Rightarrow> bool" where
  "in_fake_pool fdns a = (case Option.bind fdns fd_IsIPInIPPool of None \<Rightarrow> False | Some inPool \<Rightarrow> inPool a)"

definition domain_protocol :: "SniffResult \<Rightarrow> string" where
  "domain_protocol result = (case ProtocolForDomainResult result of Some p \<Rightarrow> p | None \<Rightarrow> sr_Protocol result)"

definition shouldOverride :: "fake_dns option \<Rightarrow> SniffResult \<Rightarrow> SniffingRequest \<Rightarrow> Destination \<Rightarrow> bool" where
  "shouldOverride fdns result request destination =
     (let domain = sr_Domain result; protocolString = domain_protocol result
      in if domain = [] then False
         else if (case rq_ExcludeForDomain request of None \<Rightarrow> False | Some match \<Rightarrow> match (to_lower domain)) then False
         else if (case (rq_ExcludeForIP request, ds_Address destination) of (Some match, XIP ip) \<Rightarrow> match ip | _ \<Rightarrow> False) then False
         else list_ex (\<lambda>p. has_prefix protocolString p \<or> has_prefix p protocolString \<or>
                (protocolString \<noteq> ''bittorrent'' \<and> p = ''fakedns'' \<and> in_fake_pool fdns (ds_Address destination)) \<or>
                IsProtoSubsetOf result p) (rq_OverrideDestinationForProtocol request))"

text \<open>
  Where the connection goes after the sniffing: the destination the rules look at, the target and, if it differs, the
  target for routing only, and the protocol, which is what the content of the connection said before if nothing was
  recognised. \<^verbatim>\<open>Dispatch\<close> asks the fake DNS only about an address, \<^verbatim>\<open>DispatchLink\<close> about any
  target (\<open>any_target\<close>).
\<close>

record routing =
  ro_Destination :: Destination
  ro_Target :: Destination
  ro_RouteTarget :: "Destination option"
  ro_Protocol :: string

definition is_ip :: "xaddr \<Rightarrow> bool" where
  "is_ip a = (case a of XIP _ \<Rightarrow> True | XDomain _ \<Rightarrow> False)"

definition apply_sniffed ::
  "(string \<Rightarrow> xaddr) \<Rightarrow> fake_dns option \<Rightarrow> bool \<Rightarrow> SniffingRequest \<Rightarrow> Destination \<Rightarrow> string \<Rightarrow> sniffed \<Rightarrow> routing" where
  "apply_sniffed ParseAddress fdns any_target request destination protocol sniffed =
     (let plain = \<lparr>ro_Destination = destination, ro_Target = destination, ro_RouteTarget = None, ro_Protocol = protocol\<rparr>
      in case sniffed of
           Inl e \<Rightarrow> plain
         | Inr result \<Rightarrow>
             (let plain = plain\<lparr>ro_Protocol := sr_Protocol result\<rparr>
              in if \<not> shouldOverride fdns result request destination then plain
                 else
                   (let named = destination\<lparr>ds_Address := ParseAddress (sr_Domain result)\<rparr>; p = domain_protocol result;
                        isFakeIP = ((any_target \<or> is_ip (ds_Address destination)) \<and> in_fake_pool fdns (ds_Address destination))
                    in if rq_RouteOnly request \<and> p \<noteq> ''fakedns'' \<and> p \<noteq> ''fakedns+others'' \<and> \<not> isFakeIP
                       then plain\<lparr>ro_Destination := named, ro_RouteTarget := Some named\<rparr>
                       else plain\<lparr>ro_Destination := named, ro_Target := named\<rparr>)))"

section \<open>Routing\<close>

record session_inbound =
  sn_Tag :: string
  sn_User :: "string option"
  sn_Source :: string
  sn_SourceTCP :: bool

text \<open>The user is his \<^verbatim>\<open>Email\<close>, which may be empty.\<close>

record routes =
  rt_GetHandler :: "string \<Rightarrow> bool"
  rt_default :: "string option"
  rt_PickRoute :: "string option"
  rt_forced :: string

datatype decision = BlockedDomain | BlockedProtocol | NoHandler | Outbound string

definition address_text :: "xaddr \<Rightarrow> string" where
  "address_text a = (case a of XDomain d \<Rightarrow> d | XIP ip \<Rightarrow> ip)"

definition pick_outbound :: "routes \<Rightarrow> decision" where
  "pick_outbound rt =
     (if rt_forced rt \<noteq> [] then (if rt_GetHandler rt (rt_forced rt) then Outbound (rt_forced rt) else NoHandler)
      else case rt_PickRoute rt of
        Some outTag \<Rightarrow> if rt_GetHandler rt outTag then Outbound outTag else NoHandler
      | None \<Rightarrow> (case rt_default rt of None \<Rightarrow> NoHandler | Some t \<Rightarrow> Outbound t))"

definition routedDispatch ::
  "routes \<Rightarrow> limiters \<Rightarrow> session_inbound \<Rightarrow> Limiter option \<Rightarrow> Destination \<Rightarrow> string \<Rightarrow> decision" where
  "routedDispatch rt ls inbound l destination protocol =
     (let l = (if sn_User inbound = None then None
               else case l of Some l \<Rightarrow> Some l
                  | None \<Rightarrow> (case GetLimiter ls (sn_Tag inbound) of Inl _ \<Rightarrow> None | Inr l \<Rightarrow> Some l))
      in case l of
           None \<Rightarrow> pick_outbound rt
         | Some l \<Rightarrow>
             if CheckDomainRule l (address_text (ds_Address destination)) then BlockedDomain
             else if protocol \<noteq> [] \<and> CheckProtocolRule l protocol then BlockedProtocol
             else pick_outbound rt)"

section \<open>Links\<close>

text \<open>
  A \<^verbatim>\<open>ManagedWriter\<close> and a \<^verbatim>\<open>LinkManager\<close> are reached by pointer, an index into the list of all that were made. A manager has
  the links of one user: writers with the reader of the other direction. \<open>mw_open\<close> tells whether the pipe below is open.
\<close>

datatype link_reader = PipeReader | CounterReader nat

record ManagedWriter =
  mw_manager :: nat
  mw_onClose :: "trackHandle option"
  mw_open :: bool

type_synonym LinkManager = "(nat, link_reader) gomap"

record DefaultDispatcher =
  dp_Counter :: "(string, TrafficCounter) gomap"
  dp_storages :: storages
  dp_LinkManagers :: "(string, nat) gomap"
  dp_managers :: "LinkManager list"
  dp_writers :: "ManagedWriter list"
  dp_singMux :: "(string, bool) gomap"

definition AddLink :: "nat \<Rightarrow> nat \<Rightarrow> link_reader \<Rightarrow> DefaultDispatcher \<Rightarrow> DefaultDispatcher" where
  "AddLink m writer reader d = d\<lparr>dp_managers := (dp_managers d)[m := AList.update writer reader (dp_managers d ! m)]\<rparr>"

definition RemoveWriter :: "nat \<Rightarrow> nat \<Rightarrow> DefaultDispatcher \<Rightarrow> DefaultDispatcher" where
  "RemoveWriter m writer d = d\<lparr>dp_managers := (dp_managers d)[m := AList.delete writer (dp_managers d ! m)]\<rparr>"

text \<open>Closing a writer, also by an interrupt: what it registered with the limiter is to be released.\<close>

definition Managed_Close :: "nat \<Rightarrow> DefaultDispatcher \<Rightarrow> trackHandle option \<times> DefaultDispatcher" where
  "Managed_Close w d =
     (let mw = dp_writers d ! w; d = RemoveWriter (mw_manager mw) w d
      in (mw_onClose mw, d\<lparr>dp_writers := (dp_writers d)[w := mw\<lparr>mw_open := False\<rparr>]\<rparr>))"

definition CloseAll :: "nat \<Rightarrow> DefaultDispatcher \<Rightarrow> trackHandle option list \<times> DefaultDispatcher" where
  "CloseAll m d = fold (\<lambda>w (hs, d). case Managed_Close w d of (h, d) \<Rightarrow> (hs @ [h], d)) (map fst (dp_managers d ! m)) ([], d)"

definition trafficCounterFor :: "string \<Rightarrow> DefaultDispatcher \<Rightarrow> TrafficCounter" where
  "trafficCounterFor tag d = mget NewTrafficCounter (dp_Counter d) tag"

definition count_for :: "string \<Rightarrow> string \<Rightarrow> DefaultDispatcher \<Rightarrow> nat \<times> DefaultDispatcher" where
  "count_for tag email d =
     (case GetCounter email (trafficCounterFor tag d) (dp_storages d) of
        (a, c, h) \<Rightarrow> (a, d\<lparr>dp_Counter := AList.update tag c (dp_Counter d), dp_storages := h\<rparr>))"

text \<open>The manager of a user is looked up, and made and stored if there is none: two steps.\<close>

definition load_manager :: "string \<Rightarrow> DefaultDispatcher \<Rightarrow> nat option" where
  "load_manager email d = map_of (dp_LinkManagers d) email"

definition store_manager :: "string \<Rightarrow> DefaultDispatcher \<Rightarrow> nat \<times> DefaultDispatcher" where
  "store_manager email d =
     (length (dp_managers d),
      d\<lparr>dp_managers := dp_managers d @ [[]], dp_LinkManagers := AList.update email (length (dp_managers d)) (dp_LinkManagers d)\<rparr>)"

definition manager_for :: "string \<Rightarrow> nat option \<Rightarrow> DefaultDispatcher \<Rightarrow> nat \<times> DefaultDispatcher" where
  "manager_for email loaded d = (case loaded of Some m \<Rightarrow> (m, d) | None \<Rightarrow> store_manager email d)"

definition new_writer :: "nat \<Rightarrow> trackHandle option \<Rightarrow> DefaultDispatcher \<Rightarrow> nat \<times> DefaultDispatcher" where
  "new_writer m onClose d = (length (dp_writers d), d\<lparr>dp_writers := dp_writers d @ [\<lparr>mw_manager = m, mw_onClose = onClose, mw_open = True\<rparr>]\<rparr>)"

datatype link_error = LimiterMissing string | LimitedBy string

record managed_link =
  ml_writer :: nat
  ml_bucket :: "Bucket option"
  ml_storage :: nat
  ml_limiter :: Limiter

text \<open>
  The part of \<^verbatim>\<open>getLink\<close> and of \<^verbatim>\<open>DispatchLink\<close> for a connection with a user; \<open>counting\<close> says that uploads are counted by the
  reader. \<^const>\<open>None\<close> as link: no user, nothing is limited or counted.
\<close>

definition getLink ::
  "cdn \<Rightarrow> int \<Rightarrow> bool \<Rightarrow> network \<Rightarrow> session_inbound \<Rightarrow> DefaultDispatcher \<Rightarrow> limiters
     \<Rightarrow> (link_error + managed_link option) \<times> DefaultDispatcher \<times> limiters" where
  "getLink cdn now counting n inbound d ls =
     (case sn_User inbound of
        None \<Rightarrow> (Inr None, d, ls)
      | Some email \<Rightarrow>
          if email = [] then (Inr None, d, ls)
          else case GetLimiter ls (sn_Tag inbound) of
            Inl _ \<Rightarrow> (Inl (LimiterMissing (sn_Tag inbound)), d, ls)
          | Inr l \<Rightarrow>
              (case CheckLimit cdn now email (sn_Source inbound) (n = TCP) (sn_SourceTCP inbound) l of
                 (l, bucket, reject) \<Rightarrow>
                   if reject then (Inl (LimitedBy email), d, AList.update (sn_Tag inbound) l ls)
                   else
                     (case manager_for email (load_manager email d) d of
                        (m, d) \<Rightarrow> (case TrackConnection email (sn_Source inbound) l of
                        (l, handle) \<Rightarrow> (case new_writer m handle d of
                        (w, d) \<Rightarrow> (case count_for (sn_Tag inbound) email d of
                        (a, d) \<Rightarrow>
                          (Inr (Some \<lparr>ml_writer = w, ml_bucket = bucket, ml_storage = a, ml_limiter = l\<rparr>),
                           AddLink m w (if counting then CounterReader a else PipeReader) d,
                           AList.update (sn_Tag inbound) l ls)))))))"

text \<open>What a link counts: uploads through its writer or, for \<^verbatim>\<open>DispatchLink\<close>, its counting reader, and downloads.\<close>

definition ReadMultiBuffer :: "bool \<Rightarrow> int \<Rightarrow> nat \<Rightarrow> storages \<Rightarrow> storages" where
  "ReadMultiBuffer err n a h = (if err then h else if 0 < n then add_up n a h else h)"

section \<open>Streams inside streams\<close>

definition SetSingMux :: "string \<Rightarrow> bool option \<Rightarrow> DefaultDispatcher \<Rightarrow> DefaultDispatcher" where
  "SetSingMux tag opts d =
     d\<lparr>dp_singMux := (case opts of None \<Rightarrow> AList.delete tag (dp_singMux d) | Some padding \<Rightarrow> AList.update tag padding (dp_singMux d))\<rparr>"

definition isSingMuxDestination :: "string \<Rightarrow> Destination \<Rightarrow> bool" where
  "isSingMuxDestination fqdn dest = (ds_Network dest = TCP \<and> ds_Address dest = XDomain fqdn)"

datatype mux_error = NotAuthenticated | NestedMux | MuxDisabled string

definition singMuxOptions :: "session_inbound option \<Rightarrow> bool \<Rightarrow> DefaultDispatcher \<Rightarrow> mux_error + bool" where
  "singMuxOptions inbound nested d =
     (case inbound of
        None \<Rightarrow> Inl NotAuthenticated
      | Some i \<Rightarrow>
          if sn_User i = None then Inl NotAuthenticated
          else if nested then Inl NestedMux
          else case map_of (dp_singMux d) (sn_Tag i) of
            None \<Rightarrow> Inl (MuxDisabled (sn_Tag i))
          | Some padding \<Rightarrow> Inr padding)"

section \<open>Dispatching\<close>

text \<open>
  A connection from its arrival to an outbound; \<open>any_target\<close> is \<^verbatim>\<open>DispatchLink\<close>, which also counts uploads by the reader. The
  sniffing is the last argument but one, its outcome is looked at only if it is asked for.
\<close>

datatype dispatched = MuxRefused mux_error | MuxServed bool | LinkRefused link_error | Routed routing decision

record dispatch_env =
  de_cdn :: cdn
  de_now :: int
  de_mux_fqdn :: string
  de_ParseAddress :: "string \<Rightarrow> xaddr"
  de_fdns :: "fake_dns option"
  de_nested :: bool
  de_routes :: routes

definition Dispatch ::
  "dispatch_env \<Rightarrow> bool \<Rightarrow> session_inbound \<Rightarrow> SniffingRequest \<Rightarrow> string \<Rightarrow> Destination \<Rightarrow> sniffed \<Rightarrow> DefaultDispatcher \<Rightarrow> limiters
     \<Rightarrow> dispatched \<times> DefaultDispatcher \<times> limiters" where
  "Dispatch env any_target inbound request protocol destination sniffed d ls =
     (if isSingMuxDestination (de_mux_fqdn env) destination
      then ((case singMuxOptions (Some inbound) (de_nested env) d of Inl e \<Rightarrow> MuxRefused e | Inr padding \<Rightarrow> MuxServed padding), d, ls)
      else case getLink (de_cdn env) (de_now env) any_target (ds_Network destination) inbound d ls of
        (Inl e, d, ls) \<Rightarrow> (LinkRefused e, d, ls)
      | (Inr link, d, ls) \<Rightarrow>
          (let ro = (if rq_Enabled request
                     then apply_sniffed (de_ParseAddress env) (de_fdns env) any_target request destination protocol sniffed
                     else \<lparr>ro_Destination = destination, ro_Target = destination, ro_RouteTarget = None, ro_Protocol = []\<rparr>)
           in (Routed ro (routedDispatch (de_routes env) ls inbound (map_option ml_limiter link) (ro_Destination ro) (ro_Protocol ro)), d, ls)))"

definition DispatchLink ::
  "dispatch_env \<Rightarrow> session_inbound \<Rightarrow> SniffingRequest \<Rightarrow> string \<Rightarrow> Destination \<Rightarrow> sniffed \<Rightarrow> DefaultDispatcher \<Rightarrow> limiters
     \<Rightarrow> dispatched \<times> DefaultDispatcher \<times> limiters" where
  "DispatchLink env = Dispatch env True"

lemma routedDispatch_outbound:
  assumes "routedDispatch rt ls inbound (Some l) dest protocol = Outbound t" "sn_User inbound \<noteq> None"
  shows "\<not> CheckDomainRule l (address_text (ds_Address dest)) \<and> \<not> (protocol \<noteq> [] \<and> CheckProtocolRule l protocol)"
  using assms by (auto simp: routedDispatch_def split: if_splits)

lemma CheckLimit_rules:
  assumes "CheckLimit cdn now t ip tcp nu l = (l', b, r)"
  shows "DomainRules l' = DomainRules l \<and> ProtocolRules l' = ProtocolRules l"
proof -
  have 1: "DomainRules (fst (resolve_user now t u l)) = DomainRules l \<and> ProtocolRules (fst (resolve_user now t u l)) = ProtocolRules l" for u
    by (simp add: resolve_user_def)
  have 2: "DomainRules (fst (admit_device t i u n c x)) = DomainRules x \<and> ProtocolRules (fst (admit_device t i u n c x)) = ProtocolRules x" for i u n c x
    by (auto simp: admit_device_def Let_def split: option.splits)
  have 3: "DomainRules (fst (speed_bucket t n x)) = DomainRules x \<and> ProtocolRules (fst (speed_bucket t n x)) = ProtocolRules x" for n x
    by (simp add: speed_bucket_def Let_def split: option.splits)
  show ?thesis using assms 1 2 3
    by (auto simp: CheckLimit_def Let_def case_prod_unfold split: option.splits if_splits bool.splits)
qed

lemma TrackConnection_rules: "TrackConnection t ip l = (l', h) \<Longrightarrow> DomainRules l' = DomainRules l \<and> ProtocolRules l' = ProtocolRules l"
  by (auto simp: TrackConnection_def Let_def split: option.splits if_splits)

text \<open>What a link of a user rests on.\<close>

lemma getLink_admitted:
  assumes "getLink cdn now counting n inbound d ls = (Inr link, d', ls')" "sn_User inbound = Some email" "email \<noteq> []"
  shows "\<exists>l lk. link = Some lk \<and> map_of ls (sn_Tag inbound) = Some l \<and>
    \<not> snd (snd (CheckLimit cdn now email (sn_Source inbound) (n = TCP) (sn_SourceTCP inbound) l)) \<and>
    DomainRules (ml_limiter lk) = DomainRules l \<and> ProtocolRules (ml_limiter lk) = ProtocolRules l"
proof (cases "map_of ls (sn_Tag inbound)")
  case None
  then show ?thesis using assms by (simp add: getLink_def GetLimiter_def)
next
  case (Some l)
  obtain l1 b r where c: "CheckLimit cdn now email (sn_Source inbound) (n = TCP) (sn_SourceTCP inbound) l = (l1, b, r)" by (metis prod_cases3)
  obtain m d1 where m: "manager_for email (load_manager email d) d = (m, d1)" by fastforce
  obtain l2 h where t: "TrackConnection email (sn_Source inbound) l1 = (l2, h)" by fastforce
  obtain w d2 where w: "new_writer m h d1 = (w, d2)" by fastforce
  obtain a d3 where a: "count_for (sn_Tag inbound) email d2 = (a, d3)" by fastforce
  have "\<not> r" "link = Some \<lparr>ml_writer = w, ml_bucket = b, ml_storage = a, ml_limiter = l2\<rparr>"
    using assms Some c m t w a by (auto simp: getLink_def GetLimiter_def split: if_splits)
  then show ?thesis using Some c CheckLimit_rules [OF c] TrackConnection_rules [OF t] by simp
qed

text \<open>
  C15. Nothing of a user leaves by an outbound unless his node's limiter admitted the connection and no rule of the node
  forbids it: the rules are asked about the name that was sniffed when it replaces the target, also when it does so for
  routing only, and about the protocol that was recognised.
\<close>

theorem dispatch_enforces:
  assumes "Dispatch env any_target inbound request protocol destination sniffed d ls = (Routed ro (Outbound t), d', ls')"
    and "sn_User inbound = Some email" "email \<noteq> []"
  shows "\<exists>l. map_of ls (sn_Tag inbound) = Some l \<and>
    \<not> snd (snd (CheckLimit (de_cdn env) (de_now env) email (sn_Source inbound) (ds_Network destination = TCP) (sn_SourceTCP inbound) l)) \<and>
    \<not> CheckDomainRule l (address_text (ds_Address (ro_Destination ro))) \<and> \<not> (ro_Protocol ro \<noteq> [] \<and> CheckProtocolRule l (ro_Protocol ro)) \<and>
    (\<forall>r. rq_Enabled request \<and> sniffed = Inr r \<longrightarrow> ro_Protocol ro = sr_Protocol r \<and>
       (shouldOverride (de_fdns env) r request destination \<longrightarrow> ds_Address (ro_Destination ro) = de_ParseAddress env (sr_Domain r)))"
proof -
  obtain r d1 ls1 where g: "getLink (de_cdn env) (de_now env) any_target (ds_Network destination) inbound d ls = (r, d1, ls1)" by (metis prod_cases3)
  obtain link where link: "r = Inr link" using assms(1) g by (cases r) (auto simp: Dispatch_def split: if_splits sum.splits)
  note adm = getLink_admitted [OF g [unfolded link] assms(2,3)]
  have ro: "ro = (if rq_Enabled request
       then apply_sniffed (de_ParseAddress env) (de_fdns env) any_target request destination protocol sniffed
       else \<lparr>ro_Destination = destination, ro_Target = destination, ro_RouteTarget = None, ro_Protocol = []\<rparr>)"
    and out: "routedDispatch (de_routes env) ls1 inbound (map_option ml_limiter link) (ro_Destination ro) (ro_Protocol ro) = Outbound t"
    using assms(1) g link by (auto simp: Dispatch_def Let_def split: if_splits sum.splits)
  from adm obtain l lk where l: "link = Some lk" "map_of ls (sn_Tag inbound) = Some l"
      "\<not> snd (snd (CheckLimit (de_cdn env) (de_now env) email (sn_Source inbound) (ds_Network destination = TCP) (sn_SourceTCP inbound) l))"
      "DomainRules (ml_limiter lk) = DomainRules l" "ProtocolRules (ml_limiter lk) = ProtocolRules l" by blast
  have "routedDispatch (de_routes env) ls1 inbound (Some (ml_limiter lk)) (ro_Destination ro) (ro_Protocol ro) = Outbound t"
    using out l(1) by simp
  from routedDispatch_outbound [OF this] have "\<not> CheckDomainRule l (address_text (ds_Address (ro_Destination ro)))"
      "\<not> (ro_Protocol ro \<noteq> [] \<and> CheckProtocolRule l (ro_Protocol ro))"
    using assms(2) l(4,5) by (simp_all add: CheckDomainRule_def CheckProtocolRule_def)
  moreover have "ro_Protocol ro = sr_Protocol x \<and>
      (shouldOverride (de_fdns env) x request destination \<longrightarrow> ds_Address (ro_Destination ro) = de_ParseAddress env (sr_Domain x))"
    if "rq_Enabled request \<and> sniffed = Inr x" for x
    using that unfolding ro by (simp add: apply_sniffed_def Let_def)
  ultimately show ?thesis using l(2,3) by blast
qed

text \<open>A rule against a name holds for a connection to an address whose greeting carries that name.\<close>

definition ex_env :: dispatch_env where
  "ex_env = \<lparr>de_cdn = ([], None), de_now = 100, de_mux_fqdn = ''sp.mux.sing-box.arpa'', de_ParseAddress = XDomain, de_fdns = None, de_nested = False,
     de_routes = \<lparr>rt_GetHandler = (\<lambda>t. t = ''direct''), rt_default = Some ''direct'', rt_PickRoute = None, rt_forced = []\<rparr>\<rparr>"

definition ex_request :: SniffingRequest where
  "ex_request = \<lparr>rq_Enabled = True, rq_MetadataOnly = False, rq_RouteOnly = True, rq_ExcludeForDomain = None, rq_ExcludeForIP = None,
     rq_OverrideDestinationForProtocol = [''tls'']\<rparr>"

definition ex_inbound :: session_inbound where
  "ex_inbound = \<lparr>sn_Tag = ''n'', sn_User = Some ''n|u'', sn_Source = ''1.2.3.4'', sn_SourceTCP = False\<rparr>"

definition empty_dispatcher :: DefaultDispatcher where
  "empty_dispatcher = \<lparr>dp_Counter = [], dp_storages = [], dp_LinkManagers = [], dp_managers = [], dp_writers = [], dp_singMux = []\<rparr>"

definition ex_rules :: "string \<Rightarrow> limiters" where
  "ex_rules name = [(''n'', ex_limiter\<lparr>DomainRules := [\<lambda>x. x = name]\<rparr>)]"

definition ex_dispatch :: "string \<Rightarrow> dispatched" where
  "ex_dispatch name = fst (Dispatch ex_env False ex_inbound ex_request [] \<lparr>ds_Network = TCP, ds_Address = XIP ''5.6.7.8''\<rparr>
     (Inr (SniffHeader ''tls'' ''example.org'')) empty_dispatcher (ex_rules name))"

theorem dispatch_enforces_witness:
  "ex_dispatch ''example.org'' = Routed \<lparr>ro_Destination = \<lparr>ds_Network = TCP, ds_Address = XDomain ''example.org''\<rparr>,
      ro_Target = \<lparr>ds_Network = TCP, ds_Address = XIP ''5.6.7.8''\<rparr>,
      ro_RouteTarget = Some \<lparr>ds_Network = TCP, ds_Address = XDomain ''example.org''\<rparr>, ro_Protocol = ''tls''\<rparr> BlockedDomain \<and>
   \<not> CheckDomainRule (ex_limiter\<lparr>DomainRules := [\<lambda>x. x = ''example.com'']\<rparr>) ''example.org''"
proof
  show "ex_dispatch ''example.org'' = Routed \<lparr>ro_Destination = \<lparr>ds_Network = TCP, ds_Address = XDomain ''example.org''\<rparr>,
      ro_Target = \<lparr>ds_Network = TCP, ds_Address = XIP ''5.6.7.8''\<rparr>,
      ro_RouteTarget = Some \<lparr>ds_Network = TCP, ds_Address = XDomain ''example.org''\<rparr>, ro_Protocol = ''tls''\<rparr> BlockedDomain"
    by code_simp
  let ?dest = "\<lparr>ds_Network = TCP, ds_Address = XIP ''5.6.7.8''\<rparr>"
  let ?run = "Dispatch ex_env False ex_inbound ex_request [] ?dest (Inr (SniffHeader ''tls'' ''example.org'')) empty_dispatcher (ex_rules ''example.com'')"
  let ?ro = "\<lparr>ro_Destination = \<lparr>ds_Network = TCP, ds_Address = XDomain ''example.org''\<rparr>, ro_Target = ?dest,
      ro_RouteTarget = Some \<lparr>ds_Network = TCP, ds_Address = XDomain ''example.org''\<rparr>, ro_Protocol = ''tls''\<rparr>"
  have "fst ?run = Routed ?ro (Outbound ''direct'')" by code_simp
  then obtain d' ls' where "?run = (Routed ?ro (Outbound ''direct''), d', ls')" by (metis prod.collapse)
  from dispatch_enforces [OF this, of "''n|u''"]
  show "\<not> CheckDomainRule (ex_limiter\<lparr>DomainRules := [\<lambda>x. x = ''example.com'']\<rparr>) ''example.org''"
    by (simp add: ex_inbound_def ex_rules_def address_text_def)
qed

end
