(* ===== verification/Xray.thy ===== *)
theory Xray
  imports Xray_Dispatch Selector
begin

text \<open>
  The xray core (\<^verbatim>\<open>src/core/xray\<close>) without the making of xray options: nodes (\<^verbatim>\<open>node.go\<close>), the listener for native UDP
  (\<^verbatim>\<open>native_udp.go\<close>), users and traffic (\<^verbatim>\<open>user.go\<close>). The xray instance is the
  argument \<open>xray_api\<close> over a state \<open>'b\<close>; of the options built for it only the error matters.
\<close>

section \<open>The state\<close>

record 'b xray_api =
  xa_updateDNSConfig :: "NodeInfo \<Rightarrow> string option"
  xa_buildInbound :: "Options \<Rightarrow> NodeInfo \<Rightarrow> string \<Rightarrow> string option"
  xa_buildOutbound :: "Options \<Rightarrow> string \<Rightarrow> string option"
  xa_addInbound :: "string \<Rightarrow> 'b \<Rightarrow> string option \<times> 'b"
  xa_addOutbound :: "string \<Rightarrow> 'b \<Rightarrow> string option \<times> 'b"
  xa_removeInbound :: "string \<Rightarrow> 'b \<Rightarrow> string option \<times> 'b"
  xa_removeOutbound :: "string \<Rightarrow> 'b \<Rightarrow> string option \<times> 'b"
  xa_native :: "string \<Rightarrow> 'b \<Rightarrow> string option"
  xa_closeNative :: "string \<Rightarrow> 'b \<Rightarrow> string option"
  xa_userManager :: "string \<Rightarrow> 'b \<Rightarrow> string option"
  xa_ToMemoryUser :: "NodeInfo \<Rightarrow> UserInfo \<Rightarrow> string option"
  xa_AddUser :: "string \<Rightarrow> string \<Rightarrow> 'b \<Rightarrow> string option \<times> 'b"
  xa_RemoveUser :: "string \<Rightarrow> string \<Rightarrow> 'b \<Rightarrow> string option \<times> 'b"

record nativeUDPState =
  nu_RequestedMode :: string
  nu_ActiveMode :: string
  nu_ListenerReady :: bool
  nu_CleanupFailure :: nat
  nu_LastErrorCode :: string

record 'b Xray =
  xr_core :: 'b
  xr_uidMap :: "(string, int) gomap"
  xr_minTraffic :: "(string, int) gomap"
  xr_dispatcher :: DefaultDispatcher
  xr_nativeUDP :: "string list"
  xr_nativeUDPState :: "(string, nativeUDPState) gomap"

datatype xray_error = XrayStep string string | NativeExists string | UnsupportedNode string | AllErrors "xray_error list"

section \<open>Native UDP\<close>

definition normalizeArtXUnderlay :: "string \<Rightarrow> string" where
  "normalizeArtXUnderlay underlay = (let n = to_lower (trim_space underlay) in if n = [] then ''anytls'' else n)"

definition artXNativeUDPEnabled :: "NodeInfo \<Rightarrow> bool" where
  "artXNativeUDPEnabled info =
     (case ni_ArtX info of
        None \<Rightarrow> False
      | Some a \<Rightarrow> ax_UDP a \<and> normalizeArtXUnderlay (ax_Underlay a) = ''artx-wire'' \<and> ax_UDPMode a = ''native'')"

definition native_state :: "string \<Rightarrow> string \<Rightarrow> bool \<Rightarrow> nativeUDPState" where
  "native_state requested active ready =
     \<lparr>nu_RequestedMode = requested, nu_ActiveMode = active, nu_ListenerReady = ready, nu_CleanupFailure = 0, nu_LastErrorCode = []\<rparr>"

definition set_native :: "string \<Rightarrow> nativeUDPState \<Rightarrow> 'b Xray \<Rightarrow> 'b Xray" where
  "set_native tag st x = x\<lparr>xr_nativeUDPState := AList.update tag st (xr_nativeUDPState x)\<rparr>"

definition recordNativeUDPError :: "string \<Rightarrow> string \<Rightarrow> 'b Xray \<Rightarrow> 'b Xray" where
  "recordNativeUDPError tag code x =
     (let st = mget (native_state ''native'' ''disabled'' False) (xr_nativeUDPState x) tag
      in set_native tag (st\<lparr>nu_ActiveMode := ''disabled'', nu_ListenerReady := False, nu_LastErrorCode := code\<rparr>) x)"

definition recordNativeUDPCleanup :: "string \<Rightarrow> string option \<Rightarrow> 'b Xray \<Rightarrow> 'b Xray" where
  "recordNativeUDPCleanup tag cleanupErr x =
     (let st = mget (native_state ''native'' [] False) (xr_nativeUDPState x) tag;
          st = st\<lparr>nu_ActiveMode := ''disabled'', nu_ListenerReady := False\<rparr>
      in set_native tag (if cleanupErr = None then st
           else st\<lparr>nu_CleanupFailure := Suc (nu_CleanupFailure st), nu_LastErrorCode := ''native_cleanup_failed''\<rparr>) x)"

definition startNativeUDP :: "'b xray_api \<Rightarrow> string \<Rightarrow> NodeInfo \<Rightarrow> 'b Xray \<Rightarrow> xray_error option \<times> 'b Xray" where
  "startNativeUDP xa tag info x =
     (let requestedMode = (case ni_ArtX info of Some a \<Rightarrow> if ax_UDPMode a = ''native'' then ''native'' else ''compat'' | None \<Rightarrow> ''compat'');
          x = set_native tag (native_state requestedMode ''compat'' False) x
      in if \<not> artXNativeUDPEnabled info then (None, x)
         else let x = set_native tag (native_state ''native'' ''disabled'' False) x
              in case xa_native xa tag (xr_core x) of
                   Some e \<Rightarrow> (Some (XrayStep ''native'' e), recordNativeUDPError tag ''native_listener_start_failed'' x)
                 | None \<Rightarrow>
                     if tag \<in> set (xr_nativeUDP x)
                     then (Some (NativeExists tag), recordNativeUDPError tag ''native_listener_start_failed'' x)
                     else (None, set_native tag (native_state ''native'' ''native'' True) (x\<lparr>xr_nativeUDP := tag # xr_nativeUDP x\<rparr>)))"

definition stopNativeUDP :: "'b xray_api \<Rightarrow> string \<Rightarrow> 'b Xray \<Rightarrow> string option \<times> 'b Xray" where
  "stopNativeUDP xa tag x =
     (let e = (if tag \<in> set (xr_nativeUDP x) then xa_closeNative xa tag (xr_core x) else None)
      in (e, recordNativeUDPCleanup tag e (x\<lparr>xr_nativeUDP := filter (\<lambda>t. t \<noteq> tag) (xr_nativeUDP x)\<rparr>)))"

section \<open>Nodes\<close>

definition wrapRollbackError :: "string \<Rightarrow> string option \<Rightarrow> xray_error option" where
  "wrapRollbackError operation = map_option (XrayStep operation)"

definition join_xray :: "xray_error option list \<Rightarrow> xray_error option" where
  "join_xray es = (case List.map_filter id es of [] \<Rightarrow> None | errs \<Rightarrow> Some (AllErrors errs))"

definition syncSingMux :: "string \<Rightarrow> NodeInfo option \<Rightarrow> 'b Xray \<Rightarrow> 'b Xray" where
  "syncSingMux tag info x =
     x\<lparr>xr_dispatcher := SetSingMux tag
        (case info of None \<Rightarrow> None
         | Some i \<Rightarrow> if MultiplexEnabled (ni_Common i) then Some (mux_Padding (the (cn_Multiplex (the (ni_Common i))))) else None)
        (xr_dispatcher x)\<rparr>"

definition Xray_AddNode :: "'b xray_api \<Rightarrow> string \<Rightarrow> NodeInfo \<Rightarrow> Options \<Rightarrow> 'b Xray \<Rightarrow> xray_error option \<times> 'b Xray" where
  "Xray_AddNode xa tag info config x =
     (case xa_updateDNSConfig xa info of
        Some e \<Rightarrow> (Some (XrayStep ''dns'' e), x)
      | None \<Rightarrow> (case xa_buildInbound xa config info tag of
        Some e \<Rightarrow> (Some (XrayStep ''build inbound'' e), x)
      | None \<Rightarrow> (case xa_buildOutbound xa config tag of
        Some e \<Rightarrow> (Some (XrayStep ''build outbound'' e), x)
      | None \<Rightarrow> (case xa_addInbound xa tag (xr_core x) of
        (Some e, b) \<Rightarrow> (Some (XrayStep ''add inbound'' e), x\<lparr>xr_core := b\<rparr>)
      | (None, b) \<Rightarrow> (case xa_addOutbound xa tag b of
        (Some e, b) \<Rightarrow> (Some (XrayStep ''add outbound'' e), x\<lparr>xr_core := snd (xa_removeInbound xa tag b)\<rparr>)
      | (None, b) \<Rightarrow> (case startNativeUDP xa tag info (x\<lparr>xr_core := b\<rparr>) of
        (Some e, x) \<Rightarrow>
          (case xa_removeOutbound xa tag (xr_core x) of (e1, b) \<Rightarrow> (case xa_removeInbound xa tag b of (e2, b) \<Rightarrow>
            (join_xray [Some e, wrapRollbackError ''remove outbound'' e1, wrapRollbackError ''remove inbound'' e2], x\<lparr>xr_core := b\<rparr>)))
      | (None, x) \<Rightarrow>
          (None, syncSingMux tag (Some info)
             (x\<lparr>xr_minTraffic := AList.update tag (i64 (op_ReportMinTraffic config * 1024)) (xr_minTraffic x)\<rparr>))))))))"

definition Xray_DelNode :: "'b xray_api \<Rightarrow> string \<Rightarrow> 'b Xray \<Rightarrow> xray_error option \<times> 'b Xray" where
  "Xray_DelNode xa tag x =
     (case stopNativeUDP xa tag (syncSingMux tag None x) of (e1, x) \<Rightarrow>
      (case xa_removeInbound xa tag (xr_core x) of (e2, b) \<Rightarrow>
      (case xa_removeOutbound xa tag b of (e3, b) \<Rightarrow>
        (join_xray [wrapRollbackError ''stop native UDP'' e1, wrapRollbackError ''remove inbound'' e2, wrapRollbackError ''remove outbound'' e3],
         x\<lparr>xr_core := b\<rparr>))))"

section \<open>Users\<close>

text \<open>All links of a user are closed and his manager is forgotten.\<close>

definition close_user :: "string \<Rightarrow> DefaultDispatcher \<Rightarrow> trackHandle option list \<times> DefaultDispatcher" where
  "close_user email d =
     (case load_manager email d of
        None \<Rightarrow> ([], d)
      | Some m \<Rightarrow> (case CloseAll m d of (hs, d) \<Rightarrow> (hs, d\<lparr>dp_LinkManagers := AList.delete email (dp_LinkManagers d)\<rparr>)))"

definition forget_counter :: "string \<Rightarrow> string \<Rightarrow> DefaultDispatcher \<Rightarrow> DefaultDispatcher" where
  "forget_counter tag email d =
     d\<lparr>dp_Counter := (case map_of (dp_Counter d) tag of
                        None \<Rightarrow> dp_Counter d
                      | Some c \<Rightarrow> AList.update tag (Counter_Delete email c) (dp_Counter d))\<rparr>"

fun del_users :: "'b xray_api \<Rightarrow> string \<Rightarrow> UserInfo list \<Rightarrow> 'b Xray \<Rightarrow> xray_error option \<times> 'b Xray" where
  "del_users xa tag [] x = (None, x)"
| "del_users xa tag (u # us) x =
     (let user = UserTag tag (u_Uuid u)
      in case xa_RemoveUser xa tag user (xr_core x) of
           (Some e, b) \<Rightarrow> (Some (XrayStep ''remove user'' e), x\<lparr>xr_core := b\<rparr>)
         | (None, b) \<Rightarrow>
             del_users xa tag us
               (x\<lparr>xr_core := b, xr_uidMap := AList.delete user (xr_uidMap x),
                  xr_dispatcher := snd (close_user user (forget_counter tag user (xr_dispatcher x)))\<rparr>))"

definition Xray_DelUsers :: "'b xray_api \<Rightarrow> UserInfo list \<Rightarrow> string \<Rightarrow> 'b Xray \<Rightarrow> xray_error option \<times> 'b Xray" where
  "Xray_DelUsers xa users tag x =
     (case xa_userManager xa tag (xr_core x) of
        Some e \<Rightarrow> (Some (XrayStep ''user manager'' e), x)
      | None \<Rightarrow> del_users xa tag users x)"

fun add_users :: "'b xray_api \<Rightarrow> NodeInfo \<Rightarrow> string \<Rightarrow> UserInfo list \<Rightarrow> 'b \<Rightarrow> string option \<times> 'b" where
  "add_users xa info tag [] b = (None, b)"
| "add_users xa info tag (u # us) b =
     (case xa_ToMemoryUser xa info u of
        Some e \<Rightarrow> (Some e, b)
      | None \<Rightarrow> (case xa_AddUser xa tag (UserTag tag (u_Uuid u)) b of
                  (Some e, b) \<Rightarrow> (Some e, b)
                | (None, b) \<Rightarrow> add_users xa info tag us b))"

definition xray_types :: "string list" where
  "xray_types = [''vmess'', ''vless'', ''anytls'', ''artx'', ''trojan'', ''shadowsocks'']"

definition Xray_AddUsers :: "'b xray_api \<Rightarrow> AddUsersParams \<Rightarrow> 'b Xray \<Rightarrow> (xray_error + int) \<times> 'b Xray" where
  "Xray_AddUsers xa p x =
     (let tag = aup_Tag p; users = aup_Users p; info = the (aup_NodeInfo p);
          x = x\<lparr>xr_uidMap := fold (\<lambda>u. AList.update (UserTag tag (u_Uuid u)) (u_Id u)) users (xr_uidMap x)\<rparr>
      in if ni_Type info \<notin> set xray_types then (Inl (UnsupportedNode (ni_Type info)), x)
         else case xa_userManager xa tag (xr_core x) of
           Some e \<Rightarrow> (Inl (XrayStep ''user manager'' e), x)
         | None \<Rightarrow>
             (case add_users xa info tag users (xr_core x) of
                (Some e, b) \<Rightarrow> (Inl (XrayStep ''add user'' e), x\<lparr>xr_core := b\<rparr>)
              | (None, b) \<Rightarrow> (Inr (int (length users)), x\<lparr>xr_core := b\<rparr>)))"

definition Xray_GetUserTrafficSlice :: "string \<Rightarrow> bool \<Rightarrow> 'b Xray \<Rightarrow> UserTraffic list \<times> 'b Xray" where
  "Xray_GetUserTrafficSlice tag reset x =
     (let d = xr_dispatcher x
      in case map_of (dp_Counter d) tag of
           None \<Rightarrow> ([], x)
         | Some c \<Rightarrow>
             (case collect (mget 0 (xr_uidMap x)) (mget 0 (xr_minTraffic x) tag) reset c (dp_storages d) of
                (lines, c, h) \<Rightarrow> (lines, x\<lparr>xr_dispatcher := d\<lparr>dp_Counter := AList.update tag c (dp_Counter d), dp_storages := h\<rparr>\<rparr>)))"

end
