(* ===== verification/Xray_Links.thy ===== *)
theory Xray_Links
  imports Xray
begin

text \<open>
  The links of the users of the xray core: what removing a user closes, when operations run one after the other and
  when connections of one user arrive at the same time.
\<close>

section \<open>The links of a user\<close>

text \<open>
  The dispatcher with the user of every writer ever made, beside which connections come and go and users are removed,
  each as a whole.
\<close>

type_synonym owned = "DefaultDispatcher \<times> string list"

inductive links_step :: "owned \<Rightarrow> unit \<Rightarrow> owned \<Rightarrow> bool" where
  linked: "getLink cdn now counting n inbound d ls = (Inr (Some lk), d', ls') \<Longrightarrow> sn_User inbound = Some email \<Longrightarrow>
     links_step (d, owners) () (d', owners @ [email])"
| closed: "w < length (dp_writers d) \<Longrightarrow> Managed_Close w d = (h, d') \<Longrightarrow> links_step (d, owners) () (d', owners)"
| removed: "close_user email d = (hs, d') \<Longrightarrow> links_step (d, owners) () (d', owners)"

definition links_start :: "owned \<Rightarrow> bool" where
  "links_start x \<longleftrightarrow> dp_LinkManagers (fst x) = [] \<and> dp_managers (fst x) = [] \<and> dp_writers (fst x) = [] \<and> snd x = []"

text \<open>
  A writer that is open is a link of the manager that is stored for its user, links are writers of their manager, and
  managers are not shared.
\<close>

definition links_inv :: "owned \<Rightarrow> bool" where
  "links_inv x \<longleftrightarrow> (case x of (d, owners) \<Rightarrow>
     length owners = length (dp_writers d) \<and>
     (\<forall>w < length (dp_writers d). mw_open (dp_writers d ! w) \<longrightarrow>
        map_of (dp_LinkManagers d) (owners ! w) = Some (mw_manager (dp_writers d ! w)) \<and>
        w \<in> set (map fst (dp_managers d ! mw_manager (dp_writers d ! w)))) \<and>
     (\<forall>m < length (dp_managers d). \<forall>w \<in> set (map fst (dp_managers d ! m)). w < length (dp_writers d) \<and> mw_manager (dp_writers d ! w) = m) \<and>
     (\<forall>e m. map_of (dp_LinkManagers d) e = Some m \<longrightarrow> m < length (dp_managers d)) \<and>
     (\<forall>e e' m. map_of (dp_LinkManagers d) e = Some m \<longrightarrow> map_of (dp_LinkManagers d) e' = Some m \<longrightarrow> e = e'))"

lemma links_invI:
  assumes "length owners = length (dp_writers d)"
    and "\<And>w. w < length (dp_writers d) \<Longrightarrow> mw_open (dp_writers d ! w) \<Longrightarrow>
        map_of (dp_LinkManagers d) (owners ! w) = Some (mw_manager (dp_writers d ! w)) \<and>
        w \<in> set (map fst (dp_managers d ! mw_manager (dp_writers d ! w)))"
    and "\<And>m w. m < length (dp_managers d) \<Longrightarrow> w \<in> set (map fst (dp_managers d ! m)) \<Longrightarrow> w < length (dp_writers d) \<and> mw_manager (dp_writers d ! w) = m"
    and "\<And>e m. map_of (dp_LinkManagers d) e = Some m \<Longrightarrow> m < length (dp_managers d)"
    and "\<And>e e' m. map_of (dp_LinkManagers d) e = Some m \<Longrightarrow> map_of (dp_LinkManagers d) e' = Some m \<Longrightarrow> e = e'"
  shows "links_inv (d, owners)"
  using assms unfolding links_inv_def prod.case by blast

lemma links_invD:
  assumes "links_inv (d, owners)"
  shows "length owners = length (dp_writers d)"
    and "w < length (dp_writers d) \<Longrightarrow> mw_open (dp_writers d ! w) \<Longrightarrow>
        map_of (dp_LinkManagers d) (owners ! w) = Some (mw_manager (dp_writers d ! w)) \<and>
        w \<in> set (map fst (dp_managers d ! mw_manager (dp_writers d ! w)))"
    and "m < length (dp_managers d) \<Longrightarrow> w \<in> set (map fst (dp_managers d ! m)) \<Longrightarrow> w < length (dp_writers d) \<and> mw_manager (dp_writers d ! w) = m"
    and "map_of (dp_LinkManagers d) e = Some m \<Longrightarrow> m < length (dp_managers d)"
    and "map_of (dp_LinkManagers d) e = Some m \<Longrightarrow> map_of (dp_LinkManagers d) e' = Some m \<Longrightarrow> e = e'"
  using assms unfolding links_inv_def prod.case by blast+

lemma Managed_Close_fields:
  assumes "Managed_Close w d = (h, d')"
  shows "dp_writers d' = (dp_writers d)[w := (dp_writers d ! w)\<lparr>mw_open := False\<rparr>]" "dp_LinkManagers d' = dp_LinkManagers d"
    "dp_managers d' = (dp_managers d)[mw_manager (dp_writers d ! w) := AList.delete w (dp_managers d ! mw_manager (dp_writers d ! w))]"
    "v < length (dp_writers d) \<Longrightarrow> mw_manager (dp_writers d' ! v) = mw_manager (dp_writers d ! v)"
    "v < length (dp_writers d) \<Longrightarrow> mw_open (dp_writers d' ! v) = (v \<noteq> w \<and> mw_open (dp_writers d ! v))"
  using assms by (auto simp: Managed_Close_def RemoveWriter_def Let_def) (cases "v = w"; simp)+

lemma Managed_Close_inv:
  assumes inv: "links_inv (d, owners)" and w: "w < length (dp_writers d)" and c: "Managed_Close w d = (h, d')"
  shows "links_inv (d', owners)"
proof -
  note D = links_invD [OF inv] and f = Managed_Close_fields [OF c]
  let ?m = "mw_manager (dp_writers d ! w)"
  have len: "length (dp_writers d') = length (dp_writers d)" "length (dp_managers d') = length (dp_managers d)" by (simp_all add: f)
  note mgr = f(4) and open_iff = f(5)
  have links: "v \<in> set (map fst (dp_managers d' ! m)) = (v \<in> set (map fst (dp_managers d ! m)) \<and> (m = ?m \<longrightarrow> v \<noteq> w))"
    if "m < length (dp_managers d)" for m v
    using that by (cases "m = ?m") (auto simp: f(3) delete_keys)
  show ?thesis
  proof (rule links_invI)
    fix v assume v: "v < length (dp_writers d')" "mw_open (dp_writers d' ! v)"
    then have old: "v < length (dp_writers d)" "mw_open (dp_writers d ! v)" "v \<noteq> w" using len open_iff by auto
    then show "map_of (dp_LinkManagers d') (owners ! v) = Some (mw_manager (dp_writers d' ! v)) \<and>
        v \<in> set (map fst (dp_managers d' ! mw_manager (dp_writers d' ! v)))"
      using D(2) [OF old(1,2)] D(4) [of "owners ! v" "mw_manager (dp_writers d ! v)"] links mgr by (simp add: f(2))
  next
    fix m v assume "m < length (dp_managers d')" "v \<in> set (map fst (dp_managers d' ! m))"
    then show "v < length (dp_writers d') \<and> mw_manager (dp_writers d' ! v) = m" using D(3) [of m v] links mgr len by auto
  qed (use D(1,4,5) len f(2) in auto)
qed

abbreviation close_in_turn :: "nat list \<Rightarrow> trackHandle option list \<times> DefaultDispatcher \<Rightarrow> trackHandle option list \<times> DefaultDispatcher" where
  "close_in_turn \<equiv> fold (\<lambda>w (hs, d). case Managed_Close w d of (h, d) \<Rightarrow> (hs @ [h], d))"

lemma close_in_turn:
  assumes "links_inv (d, owners)" "\<forall>w\<in>set ws. w < length (dp_writers d)" "close_in_turn ws (hs, d) = (hs', d')"
  shows "links_inv (d', owners) \<and> length (dp_writers d') = length (dp_writers d) \<and> dp_LinkManagers d' = dp_LinkManagers d \<and>
    length (dp_managers d') = length (dp_managers d) \<and>
    (\<forall>v < length (dp_writers d). mw_open (dp_writers d' ! v) = (mw_open (dp_writers d ! v) \<and> v \<notin> set ws))"
  using assms
proof (induction ws arbitrary: hs d)
  case (Cons w ws)
  obtain h d1 where 1: "Managed_Close w d = (h, d1)" by fastforce
  note f = Managed_Close_fields [OF 1]
  have "links_inv (d1, owners)" using Managed_Close_inv [OF Cons.prems(1) _ 1] Cons.prems(2) by simp
  moreover have "\<forall>w\<in>set ws. w < length (dp_writers d1)" using Cons.prems(2) f(1) by simp
  moreover have "close_in_turn ws (hs @ [h], d1) = (hs', d')" using Cons.prems(3) 1 by simp
  ultimately have "links_inv (d', owners) \<and> length (dp_writers d') = length (dp_writers d1) \<and> dp_LinkManagers d' = dp_LinkManagers d1 \<and>
    length (dp_managers d') = length (dp_managers d1) \<and>
    (\<forall>v < length (dp_writers d1). mw_open (dp_writers d' ! v) = (mw_open (dp_writers d1 ! v) \<and> v \<notin> set ws))" by (rule Cons.IH)
  then show ?case using f(5) by (auto simp: f(1-3))
qed simp

lemma close_user_effect:
  assumes inv: "links_inv (d, owners)" and c: "close_user email d = (hs, d')"
  shows "links_inv (d', owners) \<and> length (dp_writers d') = length (dp_writers d) \<and> load_manager email d' = None \<and>
    (\<forall>w < length (dp_writers d). mw_open (dp_writers d' ! w) = (mw_open (dp_writers d ! w) \<and> owners ! w \<noteq> email))"
proof (cases "load_manager email d")
  case None
  have "owners ! w \<noteq> email" if "w < length (dp_writers d)" "mw_open (dp_writers d ! w)" for w
    using links_invD(2) [OF inv that] None by (auto simp: load_manager_def)
  then show ?thesis using None c inv by (auto simp: close_user_def)
next
  case (Some m)
  note D = links_invD [OF inv]
  let ?ws = "map fst (dp_managers d ! m)"
  have m: "m < length (dp_managers d)" using D(4) Some by (simp add: load_manager_def)
  obtain hs1 d1 where 1: "close_in_turn ?ws ([], d) = (hs1, d1)" by fastforce
  have d': "d' = d1\<lparr>dp_LinkManagers := AList.delete email (dp_LinkManagers d1)\<rparr>"
    using c Some 1 by (simp add: close_user_def CloseAll_def)
  have "\<forall>w\<in>set ?ws. w < length (dp_writers d)" using D(3) [OF m] by blast
  note t = close_in_turn [OF inv this 1]
  have own: "(v \<in> set ?ws) = (owners ! v = email)" if "v < length (dp_writers d)" "mw_open (dp_writers d ! v)" for v
  proof
    assume "v \<in> set ?ws"
    then have "map_of (dp_LinkManagers d) (owners ! v) = Some m" using D(2) [OF that] D(3) [OF m] by blast
    then show "owners ! v = email" using D(5) Some unfolding load_manager_def by blast
  next
    assume "owners ! v = email"
    then show "v \<in> set ?ws" using D(2) [OF that] Some unfolding load_manager_def by simp
  qed
  have open_iff: "mw_open (dp_writers d' ! v) = (mw_open (dp_writers d ! v) \<and> owners ! v \<noteq> email)" if "v < length (dp_writers d)" for v
    using that t own [OF that] unfolding d' by auto
  have "links_inv (d', owners)"
  proof (rule links_invI)
    fix v assume v: "v < length (dp_writers d')" "mw_open (dp_writers d' ! v)"
    then have "v < length (dp_writers d1)" "mw_open (dp_writers d1 ! v)" "owners ! v \<noteq> email" using open_iff t unfolding d' by auto
    then show "map_of (dp_LinkManagers d') (owners ! v) = Some (mw_manager (dp_writers d' ! v)) \<and>
        v \<in> set (map fst (dp_managers d' ! mw_manager (dp_writers d' ! v)))"
      using links_invD(2) [of d1 owners v] t unfolding d' by (simp add: delete_conv')
  next
    fix e e' k assume "map_of (dp_LinkManagers d') e = Some k" "map_of (dp_LinkManagers d') e' = Some k"
    then show "e = e'" using D(5) [of e k e'] t unfolding d' by (auto simp: delete_conv' split: if_splits)
  next
    fix e k assume "map_of (dp_LinkManagers d') e = Some k"
    then show "k < length (dp_managers d')" using D(4) [of e k] t unfolding d' by (auto simp: delete_conv' split: if_splits)
  qed (use links_invD(1,3) [of d1 owners] t in \<open>auto simp: d'\<close>)
  then show ?thesis using open_iff t unfolding d' by (simp add: load_manager_def delete_conv')
qed

lemma manager_for_inv:
  assumes inv: "links_inv (d, owners)" and m: "manager_for email (load_manager email d) d = (m, d1)"
  shows "links_inv (d1, owners) \<and> map_of (dp_LinkManagers d1) email = Some m"
proof (cases "load_manager email d")
  case (Some k)
  then show ?thesis using inv m by (simp add: manager_for_def load_manager_def)
next
  case None
  note D = links_invD [OF inv]
  have d1: "d1 = d\<lparr>dp_managers := dp_managers d @ [[]], dp_LinkManagers := AList.update email (length (dp_managers d)) (dp_LinkManagers d)\<rparr>"
    "m = length (dp_managers d)" using m None by (auto simp: manager_for_def store_manager_def)
  have fresh: "map_of (dp_LinkManagers d) e \<noteq> Some (length (dp_managers d))" for e using D(4) [of e] by blast
  have "links_inv (d1, owners)"
  proof (rule links_invI)
    fix w assume w: "w < length (dp_writers d1)" "mw_open (dp_writers d1 ! w)"
    then have o: "map_of (dp_LinkManagers d) (owners ! w) = Some (mw_manager (dp_writers d ! w))"
        "w \<in> set (map fst (dp_managers d ! mw_manager (dp_writers d ! w)))" using D(2) [of w] unfolding d1 by simp_all
    have "owners ! w \<noteq> email" using o(1) None by (auto simp: load_manager_def)
    then show "map_of (dp_LinkManagers d1) (owners ! w) = Some (mw_manager (dp_writers d1 ! w)) \<and>
        w \<in> set (map fst (dp_managers d1 ! mw_manager (dp_writers d1 ! w)))"
      using o D(4) [OF o(1)] unfolding d1 by (simp add: nth_append)
  next
    fix k w assume "k < length (dp_managers d1)" "w \<in> set (map fst (dp_managers d1 ! k))"
    then have "k < length (dp_managers d)" "w \<in> set (map fst (dp_managers d ! k))"
      unfolding d1 by (auto simp: nth_append less_Suc_eq split: if_splits)
    then show "w < length (dp_writers d1) \<and> mw_manager (dp_writers d1 ! w) = k" using D(3) unfolding d1 by simp
  next
    fix e e' k assume "map_of (dp_LinkManagers d1) e = Some k" "map_of (dp_LinkManagers d1) e' = Some k"
    then show "e = e'" using D(5) [of e k e'] fresh unfolding d1 by (auto split: if_splits)
  next
    fix e k assume "map_of (dp_LinkManagers d1) e = Some k"
    then show "k < length (dp_managers d1)" using D(4) [of e k] unfolding d1 by (auto split: if_splits)
  qed (use D(1) in \<open>simp add: d1\<close>)
  then show ?thesis by (simp add: d1)
qed

lemma add_link_inv:
  assumes inv: "links_inv (d, owners)" and m: "map_of (dp_LinkManagers d) email = Some m"
    and d': "dp_writers d' = dp_writers d @ [\<lparr>mw_manager = m, mw_onClose = h, mw_open = True\<rparr>]" "dp_LinkManagers d' = dp_LinkManagers d"
      "dp_managers d' = (dp_managers d)[m := AList.update (length (dp_writers d)) r (dp_managers d ! m)]"
  shows "links_inv (d', owners @ [email])"
proof -
  note D = links_invD [OF inv]
  have len: "m < length (dp_managers d)" "length (dp_managers d') = length (dp_managers d)" "length (dp_writers d') = Suc (length (dp_writers d))"
    using D(4) [OF m] by (simp_all add: d')
  have links: "v \<in> set (map fst (dp_managers d' ! k)) = (v \<in> set (map fst (dp_managers d ! k)) \<or> (k = m \<and> v = length (dp_writers d)))"
    if "k < length (dp_managers d)" for k v
    using that by (cases "k = m") (auto simp: d'(3) update_keys dest: image_eqI)
  show ?thesis
  proof (rule links_invI)
    fix w assume w: "w < length (dp_writers d')" "mw_open (dp_writers d' ! w)"
    show "map_of (dp_LinkManagers d') ((owners @ [email]) ! w) = Some (mw_manager (dp_writers d' ! w)) \<and>
        w \<in> set (map fst (dp_managers d' ! mw_manager (dp_writers d' ! w)))"
    proof (cases "w = length (dp_writers d)")
      case True
      have "(owners @ [email]) ! length (dp_writers d) = email" using D(1) by (metis nth_append_length)
      then show ?thesis using True m links len by (simp add: d'(1,2))
    next
      case False
      then have w': "w < length (dp_writers d)" "mw_open (dp_writers d ! w)" using w len(3) by (auto simp: d'(1) nth_append)
      then show ?thesis using D(1) D(2) [OF w'] D(4) [of "owners ! w" "mw_manager (dp_writers d ! w)"] links by (simp add: d'(1,2) nth_append)
    qed
  next
    fix k w assume kw: "k < length (dp_managers d')" "w \<in> set (map fst (dp_managers d' ! k))"
    then have k: "k < length (dp_managers d)" using len(2) by simp
    show "w < length (dp_writers d') \<and> mw_manager (dp_writers d' ! w) = k"
      using kw(2) D(3) [OF k, of w] unfolding links [OF k] d'(1) by (auto simp: nth_append)
  qed (use D(1,4,5) len d'(2) in auto)
qed

lemma getLink_inv:
  assumes inv: "links_inv (d, owners)" and g: "getLink cdn now counting n inbound d ls = (Inr (Some lk), d', ls')"
    and email: "sn_User inbound = Some email"
  shows "links_inv (d', owners @ [email])"
proof -
  obtain l where l: "map_of ls (sn_Tag inbound) = Some l" "email \<noteq> []"
    using g email by (auto simp: getLink_def GetLimiter_def split: if_splits option.splits)
  obtain l1 b r where c: "CheckLimit cdn now email (sn_Source inbound) (n = TCP) (sn_SourceTCP inbound) l = (l1, b, r)" by (metis prod_cases3)
  obtain m d1 where m: "manager_for email (load_manager email d) d = (m, d1)" by fastforce
  obtain l2 h where t: "TrackConnection email (sn_Source inbound) l1 = (l2, h)" by fastforce
  obtain w d2 where w: "new_writer m h d1 = (w, d2)" by fastforce
  obtain a d3 where a: "count_for (sn_Tag inbound) email d2 = (a, d3)" by fastforce
  have d': "d' = AddLink m w (if counting then CounterReader a else PipeReader) d3"
    using g email l c m t w a by (auto simp: getLink_def GetLimiter_def split: if_splits)
  have d3: "dp_writers d3 = dp_writers d2" "dp_LinkManagers d3 = dp_LinkManagers d2" "dp_managers d3 = dp_managers d2"
    using a by (auto simp: count_for_def split: prod.splits)
  show ?thesis using manager_for_inv [OF inv m] w d3
    by (intro add_link_inv [of d1 owners email m d' h "if counting then CounterReader a else PipeReader"]) (auto simp: d' AddLink_def new_writer_def)
qed

interpretation links: component links_start links_step links_inv
proof unfold_locales
  fix x assume "links_start x"
  then show "links_inv x" by (cases x) (auto simp: links_start_def links_inv_def)
next
  fix x e x' assume inv: "links_inv x" and step: "links_step x e x'"
  from step inv show "links_inv x'"
    by (cases rule: links_step.cases) (auto intro: getLink_inv Managed_Close_inv dest: close_user_effect)
qed

text \<open>
  C16. Removing a user disconnects him, and only him: after any history of connections, closes and removals, each running
  as a whole, closing the user's links leaves open exactly the open links of the other users, and no manager is kept for him.
\<close>

theorem removed_user_is_disconnected:
  assumes "reachable links_start links_step (d, owners)" "close_user email d = (hs, d')" "w < length (dp_writers d)"
  shows "mw_open (dp_writers d' ! w) = (mw_open (dp_writers d ! w) \<and> owners ! w \<noteq> email) \<and> load_manager email d' = None"
  using close_user_effect [OF links.reachable_inv [OF assms(1)] assms(2)] assms(3) by blast

definition ex_linked :: DefaultDispatcher where
  "ex_linked = fst (snd (getLink ([], None) 100 False TCP ex_inbound empty_dispatcher (ex_rules [])))"

theorem removed_user_is_disconnected_witness:
  "(case close_user ''n|u'' ex_linked of
      (hs, d') \<Rightarrow> mw_open (dp_writers ex_linked ! 0) \<and> \<not> mw_open (dp_writers d' ! 0) \<and> load_manager ''n|u'' d' = None)"
proof -
  let ?g = "getLink ([], None) 100 False TCP ex_inbound empty_dispatcher (ex_rules [])"
  have "case fst ?g of Inr (Some _) \<Rightarrow> True | _ \<Rightarrow> False" by code_simp
  then obtain lk ls' where g: "?g = (Inr (Some lk), ex_linked, ls')"
    unfolding ex_linked_def by (cases ?g; cases "fst ?g") (auto split: option.splits)
  have "reachable links_start links_step (empty_dispatcher, [])" by (rule reach_start) (simp add: links_start_def empty_dispatcher_def)
  then have r: "reachable links_start links_step (ex_linked, [''n|u''])"
    using reach_step linked [OF g, of "''n|u''" "[]"] by (fastforce simp: ex_inbound_def)
  obtain hs d' where c: "close_user ''n|u'' ex_linked = (hs, d')" by fastforce
  have "0 < length (dp_writers ex_linked)" "mw_open (dp_writers ex_linked ! 0)" by code_simp+
  then show ?thesis using removed_user_is_disconnected [OF r c, of 0] c by simp
qed

section \<open>Two connections at once\<close>

text \<open>
  Connections of users that arrive at the same time: each looks its user's manager up, makes one if there was none, and
  links its writer; a user may be removed at any moment.
\<close>

datatype link_pc = Arriving | Loaded "nat option" | HasManager nat | Linked nat

inductive race_step :: "DefaultDispatcher \<times> (string \<times> link_pc) list \<Rightarrow> DefaultDispatcher \<times> (string \<times> link_pc) list \<Rightarrow> bool" where
  loads: "i < length ts \<Longrightarrow> ts ! i = (e, Arriving) \<Longrightarrow> race_step (d, ts) (d, ts[i := (e, Loaded (load_manager e d))])"
| manages: "i < length ts \<Longrightarrow> ts ! i = (e, Loaded r) \<Longrightarrow> manager_for e r d = (m, d') \<Longrightarrow> race_step (d, ts) (d', ts[i := (e, HasManager m)])"
| links: "i < length ts \<Longrightarrow> ts ! i = (e, HasManager m) \<Longrightarrow> new_writer m h d = (w, d') \<Longrightarrow>
    race_step (d, ts) (AddLink m w reader d', ts[i := (e, Linked w)])"
| removes: "close_user e d = (hs, d') \<Longrightarrow> race_step (d, ts) (d', ts)"

text \<open>
  C17. Two first connections of a user that arrive together can leave one of them open for good: each finds no manager and
  stores one of its own, so one manager is overwritten, and removing the user closes only the link of the other. The
  link that is left is open, in no manager that is still stored for anyone, and so out of reach of every later removal.
\<close>

theorem racing_link_survives:
  assumes "reachable links_start links_step (d, owners)" "load_manager e d = None"
  shows "\<exists>d' w v. race_step\<^sup>*\<^sup>* (d, [(e, Arriving), (e, Arriving)]) (d', [(e, Linked w), (e, Linked v)]) \<and>
    mw_open (dp_writers d' ! w) \<and> \<not> mw_open (dp_writers d' ! v) \<and> (\<forall>e'. load_manager e' d' \<noteq> Some (mw_manager (dp_writers d' ! w)))"
proof -
  let ?k = "length (dp_managers d)" and ?n = "length (dp_writers d)"
  have bound: "load_manager e' d = Some m \<Longrightarrow> m < ?k" for e' m
    using links_invD(4) [OF links.reachable_inv [OF assms(1)]] by (simp add: load_manager_def)
  define mw where "mw = (\<lambda>m. \<lparr>mw_manager = m, mw_onClose = None, mw_open = True\<rparr>)"
  define d1 where "d1 = d\<lparr>dp_managers := dp_managers d @ [[]], dp_LinkManagers := AList.update e ?k (dp_LinkManagers d)\<rparr>"
  define d2 where "d2 = d\<lparr>dp_managers := dp_managers d @ [[], []],
    dp_LinkManagers := AList.update e (Suc ?k) (AList.update e ?k (dp_LinkManagers d))\<rparr>"
  define d3 where "d3 = d2\<lparr>dp_writers := dp_writers d @ [mw ?k], dp_managers := dp_managers d @ [[(?n, PipeReader)], []]\<rparr>"
  define d4 where "d4 = d2\<lparr>dp_writers := dp_writers d @ [mw ?k, mw (Suc ?k)],
    dp_managers := dp_managers d @ [[(?n, PipeReader)], [(Suc ?n, PipeReader)]]\<rparr>"
  define d5 where "d5 = d2\<lparr>dp_writers := dp_writers d @ [mw ?k, (mw (Suc ?k))\<lparr>mw_open := False\<rparr>],
    dp_managers := dp_managers d @ [[(?n, PipeReader)], []], dp_LinkManagers := AList.delete e (dp_LinkManagers d2)\<rparr>"
  note nth = nth_append list_update_append
  have a1: "race_step (d, [(e, Arriving), (e, Arriving)]) (d, [(e, Loaded None), (e, Arriving)])"
    using loads [of 0 "[(e, Arriving), (e, Arriving)]" e d] assms(2) by simp
  have a2: "race_step (d, [(e, Loaded None), (e, Arriving)]) (d, [(e, Loaded None), (e, Loaded None)])"
    using loads [of 1 "[(e, Loaded None), (e, Arriving)]" e d] assms(2) by simp
  have a3: "race_step (d, [(e, Loaded None), (e, Loaded None)]) (d1, [(e, HasManager ?k), (e, Loaded None)])"
    using manages [of 0 "[(e, Loaded None), (e, Loaded None)]" e None d ?k d1] by (simp add: manager_for_def store_manager_def d1_def)
  have a4: "race_step (d1, [(e, HasManager ?k), (e, Loaded None)]) (d2, [(e, HasManager ?k), (e, HasManager (Suc ?k))])"
    using manages [of 1 "[(e, HasManager ?k), (e, Loaded None)]" e None d1 "Suc ?k" d2]
    by (simp add: manager_for_def store_manager_def d1_def d2_def)
  have "AddLink ?k ?n PipeReader (snd (new_writer ?k None d2)) = d3"
    by (simp add: AddLink_def new_writer_def d3_def d2_def mw_def nth)
  then have a5: "race_step (d2, [(e, HasManager ?k), (e, HasManager (Suc ?k))]) (d3, [(e, Linked ?n), (e, HasManager (Suc ?k))])"
    using links [of 0 "[(e, HasManager ?k), (e, HasManager (Suc ?k))]" e ?k None d2 ?n _ PipeReader] by (simp add: new_writer_def d2_def)
  have "AddLink (Suc ?k) (Suc ?n) PipeReader (snd (new_writer (Suc ?k) None d3)) = d4"
    by (simp add: AddLink_def new_writer_def d4_def d3_def d2_def mw_def nth)
  then have a6: "race_step (d3, [(e, Linked ?n), (e, HasManager (Suc ?k))]) (d4, [(e, Linked ?n), (e, Linked (Suc ?n))])"
    using links [of 1 "[(e, Linked ?n), (e, HasManager (Suc ?k))]" e "Suc ?k" None d3 "Suc ?n" _ PipeReader] by (simp add: new_writer_def d3_def)
  have "snd (close_user e d4) = d5"
    by (simp add: close_user_def load_manager_def CloseAll_def Managed_Close_def RemoveWriter_def Let_def d5_def d4_def d2_def mw_def nth)
  then have a7: "race_step (d4, [(e, Linked ?n), (e, Linked (Suc ?n))]) (d5, [(e, Linked ?n), (e, Linked (Suc ?n))])"
    by (intro removes [of e d4 "fst (close_user e d4)"]) (metis prod.collapse)
  have run: "race_step\<^sup>*\<^sup>* (d, [(e, Arriving), (e, Arriving)]) (d5, [(e, Linked ?n), (e, Linked (Suc ?n))])"
    using a1 a2 a3 a4 a5 a6 a7 by (meson converse_rtranclp_into_rtranclp rtranclp.rtrancl_refl)
  have "load_manager e' d5 \<noteq> Some ?k" for e' using bound [of e' ?k] by (auto simp: load_manager_def d5_def d2_def)
  then have "mw_open (dp_writers d5 ! ?n) \<and> \<not> mw_open (dp_writers d5 ! Suc ?n) \<and> (\<forall>e'. load_manager e' d5 \<noteq> Some (mw_manager (dp_writers d5 ! ?n)))"
    by (simp add: d5_def mw_def nth)
  with run show ?thesis by blast
qed

theorem racing_link_survives_witness:
  "\<exists>d' w v. race_step\<^sup>*\<^sup>* (empty_dispatcher, [(''n|u'', Arriving), (''n|u'', Arriving)]) (d', [(''n|u'', Linked w), (''n|u'', Linked v)]) \<and>
     mw_open (dp_writers d' ! w) \<and> \<not> mw_open (dp_writers d' ! v)"
proof -
  have "reachable links_start links_step (empty_dispatcher, [])" by (rule reach_start) (simp add: links_start_def empty_dispatcher_def)
  moreover have "load_manager ''n|u'' empty_dispatcher = None" by (simp add: load_manager_def empty_dispatcher_def)
  ultimately show ?thesis using racing_link_survives by blast
qed

end
