(* ===== verification/Xray_Rates.thy ===== *)
theory Xray_Rates
  imports Panel_Types
begin

text \<open>
  The plan rates the xray core reads when a connection is accepted (\<^verbatim>\<open>src/core/xray/artxrates.go\<close>): the rates of the ArtX users, by the tag of the node that published them, and the merged table the core reads. A merge
  walks the tags in any order: the order is an argument.
\<close>

record artXUserRateTable =
  rt_perTag :: "(string, (string, int) gomap) gomap option"
  rt_merged :: "(string, int) gomap option"

definition rebuildLocked :: "string list \<Rightarrow> (string, (string, int) gomap) gomap \<Rightarrow> artXUserRateTable" where
  "rebuildLocked order perTag =
     \<lparr>rt_perTag = Some perTag,
      rt_merged = Some (fold (\<lambda>tag. fold (\<lambda>(email, rate). AList.update email rate) (mget [] perTag tag)) order [])\<rparr>"

definition rates_set :: "string list \<Rightarrow> string \<Rightarrow> (string, int) gomap \<Rightarrow> artXUserRateTable \<Rightarrow> artXUserRateTable" where
  "rates_set order tag rates table =
     rebuildLocked order (AList.update tag rates (case rt_perTag table of None \<Rightarrow> [] | Some perTag \<Rightarrow> perTag))"

definition rates_clear :: "string list \<Rightarrow> string \<Rightarrow> artXUserRateTable \<Rightarrow> artXUserRateTable" where
  "rates_clear order tag table =
     (case rt_perTag table of None \<Rightarrow> table | Some perTag \<Rightarrow> rebuildLocked order (AList.delete tag perTag))"

definition rates_lookup :: "string \<Rightarrow> artXUserRateTable \<Rightarrow> int" where
  "rates_lookup userEmail table = (case rt_merged table of None \<Rightarrow> 0 | Some merged \<Rightarrow> mget 0 merged userEmail)"

text \<open>The steps of the table, with the order of each walk, and what it stands for: the rates by node and user.\<close>

inductive rates_step :: "artXUserRateTable \<Rightarrow> (string \<times> (string, int) gomap option) \<Rightarrow> artXUserRateTable \<Rightarrow> bool" where
  sets: "CHR ''|'' \<notin> set tag \<Longrightarrow> keys_distinct rates \<Longrightarrow> \<forall>em \<in> set (map fst rates). \<exists>u. em = UserTag tag u \<Longrightarrow>
     rates_set order tag rates table = table' \<Longrightarrow> distinct order \<Longrightarrow> set order = set (map fst (the (rt_perTag table'))) \<Longrightarrow>
     rates_step table (tag, Some rates) table'"
| clears: "rates_clear order tag table = table' \<Longrightarrow> distinct order \<Longrightarrow>
     (rt_perTag table' \<noteq> None \<Longrightarrow> set order = set (map fst (the (rt_perTag table')))) \<Longrightarrow> rates_step table (tag, None) table'"

definition slice_of :: "artXUserRateTable \<Rightarrow> string \<Rightarrow> (string, int) gomap" where
  "slice_of table tag = (case rt_perTag table of None \<Rightarrow> [] | Some perTag \<Rightarrow> mget [] perTag tag)"

definition rates_start :: "artXUserRateTable \<Rightarrow> bool" where
  "rates_start table \<longleftrightarrow> rt_perTag table = None \<and> rt_merged table = None"

definition rates_inv :: "artXUserRateTable \<Rightarrow> bool" where
  "rates_inv table \<longleftrightarrow>
     (\<forall>tag. slice_of table tag \<noteq> [] \<longrightarrow> CHR ''|'' \<notin> set tag) \<and>
     (\<forall>tag. keys_distinct (slice_of table tag) \<and> (\<forall>em \<in> set (map fst (slice_of table tag)). \<exists>u. em = UserTag tag u)) \<and>
     (\<forall>tag u. CHR ''|'' \<notin> set tag \<longrightarrow> rates_lookup (UserTag tag u) table = mget 0 (slice_of table tag) (UserTag tag u))"

lemma UserTag_node: "CHR ''|'' \<notin> set t \<Longrightarrow> takeWhile (\<lambda>c. c \<noteq> CHR ''|'') (UserTag t u) = t"
  unfolding UserTag_def by (subst takeWhile_append2) auto

lemma UserTag_inj: "CHR ''|'' \<notin> set t \<Longrightarrow> CHR ''|'' \<notin> set t' \<Longrightarrow> UserTag t u = UserTag t' u' \<Longrightarrow> t = t'"
  by (metis UserTag_node)

lemma fold_update_slice:
  "keys_distinct al \<Longrightarrow> map_of (fold (\<lambda>(k, v). AList.update k v) al m) k = (case map_of al k of Some v \<Rightarrow> Some v | None \<Rightarrow> map_of m k)"
  by (induction al arbitrary: m) (auto split: option.splits dest: map_of_SomeD simp: rev_image_eqI)

lemma merge_lookup:
  assumes "distinct order" "\<And>t. keys_distinct (part t)" "\<And>t'. t' \<in> set order \<Longrightarrow> t' \<noteq> t \<Longrightarrow> map_of (part t') em = None"
  shows "map_of (fold (\<lambda>tag. fold (\<lambda>(email, rate). AList.update email rate) (part tag)) order m) em =
    (if t \<in> set order \<and> map_of (part t) em \<noteq> None then map_of (part t) em else map_of m em)"
  using assms(1,3)
proof (induction order arbitrary: m)
  case (Cons x order)
  then show ?case by (cases "x = t") (auto simp: fold_update_slice [OF assms(2)] split: option.splits)
qed simp

lemma rebuild_lookup:
  assumes wf: "\<And>t. slice_of (rebuildLocked order perTag) t \<noteq> [] \<Longrightarrow> CHR ''|'' \<notin> set t"
      "\<And>t. keys_distinct (mget [] perTag t)" "\<And>t em. em \<in> set (map fst (mget [] perTag t)) \<Longrightarrow> \<exists>u. em = UserTag t u"
    and order: "distinct order" "set order = set (map fst perTag)" and tag: "CHR ''|'' \<notin> set tag"
  shows "rates_lookup (UserTag tag u) (rebuildLocked order perTag) = mget 0 (mget [] perTag tag) (UserTag tag u)"
proof -
  have other: "map_of (mget [] perTag t') (UserTag tag u) = None" if "t' \<noteq> tag" for t'
  proof (rule ccontr)
    assume "map_of (mget [] perTag t') (UserTag tag u) \<noteq> None"
    then have k: "UserTag tag u \<in> set (map fst (mget [] perTag t'))" by (simp add: map_of_eq_None_iff)
    then obtain u' where "UserTag tag u = UserTag t' u'" using wf(3) by blast
    moreover have "CHR ''|'' \<notin> set t'" using k by (intro wf(1)) (auto simp: slice_of_def rebuildLocked_def)
    ultimately show False using UserTag_inj tag that by blast
  qed
  have "tag \<notin> set order \<Longrightarrow> mget [] perTag tag = []" using order(2) by (simp add: mget_def map_of_eq_None_iff [THEN iffD2])
  then have "map_of (fold (\<lambda>t. fold (\<lambda>(email, rate). AList.update email rate) (mget [] perTag t)) order []) (UserTag tag u)
      = map_of (mget [] perTag tag) (UserTag tag u)"
    using merge_lookup [of order "mget [] perTag" tag "UserTag tag u" "[]", OF order(1) wf(2) other] by auto
  then show ?thesis by (simp add: rates_lookup_def rebuildLocked_def mget_def [of 0])
qed

lemma rates_step_inv:
  assumes inv: "rates_inv table" and step: "rates_step table e table'"
  shows "rates_inv table'"
proof -
  have I: "slice_of table t \<noteq> [] \<Longrightarrow> CHR ''|'' \<notin> set t" "keys_distinct (slice_of table t)"
      "em \<in> set (map fst (slice_of table t)) \<Longrightarrow> \<exists>u. em = UserTag t u" for t em
    using inv unfolding rates_inv_def by blast+
  have rebuilt: "rates_inv (rebuildLocked order perTag)"
    if wf: "\<And>t. mget [] perTag t \<noteq> [] \<Longrightarrow> CHR ''|'' \<notin> set t" "\<And>t. keys_distinct (mget [] perTag t)"
        "\<And>t em. em \<in> set (map fst (mget [] perTag t)) \<Longrightarrow> \<exists>u. em = UserTag t u"
      and order: "distinct order" "set order = set (map fst perTag)" for order perTag
  proof -
    have s: "slice_of (rebuildLocked order perTag) = mget [] perTag" by (rule ext) (simp add: slice_of_def rebuildLocked_def)
    have "rates_lookup (UserTag t u) (rebuildLocked order perTag) = mget 0 (mget [] perTag t) (UserTag t u)" if "CHR ''|'' \<notin> set t" for t u
      by (rule rebuild_lookup) (use wf order that in \<open>auto simp: s\<close>)
    then show ?thesis using wf unfolding rates_inv_def s by simp
  qed
  from step show ?thesis
  proof cases
    case (sets tag rates order)
    define per where "per = AList.update tag rates (case rt_perTag table of None \<Rightarrow> [] | Some perTag \<Rightarrow> perTag)"
    have s: "mget [] per t = (if t = tag then rates else slice_of table t)" for t
      by (auto simp: per_def slice_of_def mget_def split: option.splits)
    have t: "table' = rebuildLocked order per" "set order = set (map fst per)" using sets by (auto simp: per_def rates_set_def rebuildLocked_def)
    show ?thesis unfolding t(1) by (rule rebuilt) (use sets(2-4,6) I t(2) in \<open>auto simp: s split: if_splits\<close>)
  next
    case (clears order tag)
    show ?thesis
    proof (cases "rt_perTag table")
      case None
      then show ?thesis using clears inv by (simp add: rates_clear_def)
    next
      case (Some per)
      define per' where "per' = AList.delete tag per"
      have s: "mget [] per' t = (if t = tag then [] else slice_of table t)" for t using Some by (simp add: per'_def slice_of_def)
      have t: "table' = rebuildLocked order per'" using clears Some by (simp add: per'_def rates_clear_def)
      have o: "set order = set (map fst per')" using clears(4) t by (simp add: rebuildLocked_def)
      show ?thesis unfolding t by (rule rebuilt) (use clears(3) I o in \<open>auto simp: s split: if_splits\<close>)
    qed
  qed
qed

interpretation rates: component rates_start rates_step rates_inv
proof unfold_locales
  fix x assume "rates_start x"
  then show "rates_inv x" by (auto simp: rates_start_def rates_inv_def rates_lookup_def slice_of_def mget_def)
qed (rule rates_step_inv)

text \<open>
  C19. The merged table of plan rates is exact, after any number of publications and withdrawals of any nodes and for every
  order in which the walks of the merges visit the nodes: a user's rate is the one his node published last, and zero
  for a user his node no longer lists, so no user keeps an old rate and none gets the rate of another node.
\<close>

theorem plan_rates_exact:
  assumes "reachable rates_start rates_step table" "rates_step table (tag, r) table'" "CHR ''|'' \<notin> set t"
  shows "rates_lookup (UserTag t u) table' =
    (if t = tag then mget 0 (case r of None \<Rightarrow> [] | Some rates \<Rightarrow> rates) (UserTag t u) else rates_lookup (UserTag t u) table)"
proof -
  have inv: "rates_inv table" using rates.reachable_inv [OF assms(1)] .
  have look: "rates_lookup (UserTag t u) x = mget 0 (slice_of x t) (UserTag t u)" if "rates_inv x" for x
    using that assms(3) unfolding rates_inv_def by blast
  have "slice_of table' t = (if t = tag then (case r of None \<Rightarrow> [] | Some rates \<Rightarrow> rates) else slice_of table t)"
    using assms(2) by cases (auto simp: slice_of_def rates_set_def rates_clear_def rebuildLocked_def mget_def split: option.splits)
  then show ?thesis using look [OF inv] look [OF rates_step_inv [OF inv assms(2)]] by simp
qed

definition ex_rates :: artXUserRateTable where
  "ex_rates = rates_set [''n''] ''n'' [(''n|u'', 125000), (''n|v'', 250000)] \<lparr>rt_perTag = None, rt_merged = None\<rparr>"

theorem plan_rates_exact_witness:
  "rates_lookup ''n|v'' ex_rates = 250000 \<and> rates_lookup ''n|v'' (rates_set [''n''] ''n'' [(''n|u'', 1)] ex_rates) = 0"
proof -
  let ?t0 = "\<lparr>rt_perTag = None, rt_merged = None\<rparr>"
  have 0: "reachable rates_start rates_step ?t0" by (rule reach_start) (simp add: rates_start_def)
  have 1: "rates_step ?t0 (''n'', Some [(''n|u'', 125000), (''n|v'', 250000)]) ex_rates"
    by (rule sets [where order = "[''n'']"]) (simp_all add: ex_rates_def UserTag_def rates_set_def rebuildLocked_def)
  have 2: "rates_step ex_rates (''n'', Some [(''n|u'', 1)]) (rates_set [''n''] ''n'' [(''n|u'', 1)] ex_rates)"
    by (rule sets [where order = "[''n'']"]) (simp_all add: ex_rates_def UserTag_def rates_set_def rebuildLocked_def)
  have 3: "reachable rates_start rates_step ex_rates" using 0 1 by (rule reach_step)
  show ?thesis
    using plan_rates_exact [OF 0 1, of "''n''" "''v''"] plan_rates_exact [OF 3 2, of "''n''" "''v''"]
    by (simp add: UserTag_def mget_def)
qed

end
