(* ===== verification/Ddns.thy ===== *)
theory Ddns
  imports Conf_Node Netip
begin

text \<open>
  Dynamic DNS, \<^verbatim>\<open>src/common/ddns\<close> and \<^verbatim>\<open>src/node/ddns.go\<close>: a service asks an address service for the public address
  of the machine, reads the record the DNS provider has for the configured name, and writes it when it is missing
  or differs. One service runs for every distinct enabled configuration, once before the nodes start and then at
  every tick until the context ends.

  The network is an argument: what the address service answers, what a provider answers to a request, and the
  provider's state \<open>'w\<close>, which a request may change. A body is given as the JSON value it holds, \<^const>\<open>None\<close> when it is not
  JSON. An error is its message, as the service removes the credentials from it. \<open>nt_log\<close> records the requests to the
  provider with their answers.
\<close>

section \<open>Addresses\<close>

text \<open>The predicates of \<^verbatim>\<open>netip.Addr\<close> the service uses, for an address that \<^verbatim>\<open>Unmap\<close> has been applied to.\<close>

definition IsLoopback :: "ip_addr \<Rightarrow> bool" where
  "IsLoopback a = (case a of IPv4 w \<Rightarrow> drop_bit 24 w = 127 | IPv6 w _ \<Rightarrow> w = 1)"

definition IsMulticast :: "ip_addr \<Rightarrow> bool" where
  "IsMulticast a = (case a of IPv4 w \<Rightarrow> drop_bit 28 w = 14 | IPv6 w _ \<Rightarrow> drop_bit 120 w = 255)"

definition IsLinkLocalUnicast :: "ip_addr \<Rightarrow> bool" where
  "IsLinkLocalUnicast a = (case a of IPv4 w \<Rightarrow> drop_bit 16 w = 0xA9FE | IPv6 w _ \<Rightarrow> drop_bit 118 w = 0x3FA)"

definition IsPrivate :: "ip_addr \<Rightarrow> bool" where
  "IsPrivate a = (case a of
       IPv4 w \<Rightarrow> drop_bit 24 w = 10 \<or> drop_bit 20 w = 0xAC1 \<or> drop_bit 16 w = 0xC0A8
     | IPv6 w _ \<Rightarrow> drop_bit 121 w = 0x7E)"

definition IsGlobalUnicast :: "ip_addr \<Rightarrow> bool" where
  "IsGlobalUnicast a =
     (a \<noteq> IPv4 0 \<and> a \<noteq> IPv4 (- 1) \<and> a \<noteq> IPv6 0 [] \<and> \<not> IsLoopback a \<and> \<not> IsMulticast a \<and> \<not> IsLinkLocalUnicast a)"

definition shared_range :: ip_prefix where
  "shared_range = (IPv4 0x64400000, 10)"

definition public_address :: "ip_addr \<Rightarrow> bool" where
  "public_address a = (IsGlobalUnicast a \<and> \<not> IsPrivate a \<and> \<not> prefix_contains shared_range a)"

definition Is4 :: "ip_addr \<Rightarrow> bool" where
  "Is4 a = (case a of IPv4 _ \<Rightarrow> True | IPv6 _ _ \<Rightarrow> False)"

definition sameIP :: "string \<Rightarrow> string \<Rightarrow> bool" where
  "sameIP a b =
     (case (parse_addr a, parse_addr b) of (Some x, Some y) \<Rightarrow> unmap x = unmap y | _ \<Rightarrow> False)"

section \<open>Escaping\<close>

text \<open>\<^verbatim>\<open>url.QueryEscape\<close>, \<^verbatim>\<open>url.PathEscape\<close> and \<^verbatim>\<open>url.Values.Encode\<close>, every key with one value.\<close>

definition unreserved :: "char \<Rightarrow> bool" where
  "unreserved c =
     (let n = (of_char c :: nat) in
      48 \<le> n \<and> n \<le> 57 \<or> 65 \<le> n \<and> n \<le> 90 \<or> 97 \<le> n \<and> n \<le> 122 \<or> c \<in> set ''-_.~'')"

definition upper_hex :: "nat \<Rightarrow> char" where
  "upper_hex n = char_of (if n < 10 then 48 + n else 55 + n)"

definition percent :: "char \<Rightarrow> string" where
  "percent c = (let n = (of_char c :: nat) in [CHR ''%'', upper_hex (n div 16), upper_hex (n mod 16)])"

definition query_escape :: "string \<Rightarrow> string" where
  "query_escape s =
     concat (map (\<lambda>c. if unreserved c then [c] else if c = CHR '' '' then ''+'' else percent c) s)"

definition path_escape :: "string \<Rightarrow> string" where
  "path_escape s = concat (map (\<lambda>c. if unreserved c \<or> c \<in> set ''$&+:=@'' then [c] else percent c) s)"

type_synonym params = "(string, string) gomap"

definition encode :: "params \<Rightarrow> string" where
  "encode ps = join_with ''&'' (map (\<lambda>(k, v). query_escape k @ ''='' @ query_escape v) (sort_key fst ps))"

text \<open>
  \<^verbatim>\<open>strings.EqualFold\<close>, for a configured name: of the other letters only the Kelvin sign and the long s fold to an
  ASCII letter.
\<close>

definition fold_case :: "string \<Rightarrow> string" where
  "fold_case s = to_lower (replace_all [CHR 0xC5, CHR 0xBF] ''s'' (replace_all [CHR 0xE2, CHR 0x84, CHR 0xAA] ''k'' s))"

definition EqualFold :: "string \<Rightarrow> string \<Rightarrow> bool" where
  "EqualFold a b \<longleftrightarrow> fold_case a = fold_case b"

section \<open>The network\<close>

datatype payload = NoPayload | JsonPayload "(string \<times> json) list" | FormPayload params

record http_request =
  rq_Method :: string
  rq_URL :: string
  rq_Auth :: string
  rq_Body :: payload

text \<open>A failed exchange has a message; a response has a status and a body, cut at the reader's limit.\<close>

datatype 'b http_reply = NoReply string | Reply int "'b option"

text \<open>
  \<open>nw_url_error\<close> is the error of a URL that does not parse, \<open>nw_unmarshal\<close> the text of a decoding error, \<open>nw_mac\<close> the
  Base64 text of HMAC-SHA1 with a key of a message. The nonce and the time are read in the present state; a nonce may
  not be available.
\<close>

record 'w ddns_network =
  nw_url_error :: "string \<Rightarrow> string option"
  nw_unmarshal :: string
  nw_address :: "string \<Rightarrow> string http_reply"
  nw_send :: "http_request \<Rightarrow> 'w \<Rightarrow> json http_reply \<times> 'w"
  nw_mac :: "string \<Rightarrow> string \<Rightarrow> string"
  nw_nonce :: "'w \<Rightarrow> string + string"
  nw_now :: "'w \<Rightarrow> string"

record 'w ddns_net =
  nt_world :: 'w
  nt_log :: "(http_request \<times> json http_reply) list"

definition client_do :: "'w ddns_network \<Rightarrow> http_request \<Rightarrow> 'w ddns_net \<Rightarrow> json http_reply \<times> 'w ddns_net" where
  "client_do nw q st =
     (case nw_send nw q (nt_world st) of
        (r, w) \<Rightarrow> (r, st\<lparr>nt_world := w, nt_log := nt_log st @ [(q, r)]\<rparr>))"

section \<open>The service\<close>

record Service =
  sv_config :: DDNSConfig

definition ddns_New :: "host \<Rightarrow> DDNSConfig \<Rightarrow> ddns_error + Service" where
  "ddns_New h config =
     (let config = DDNS_Effective h config None in
      case DDNS_Validate h config of Some e \<Rightarrow> Inl e | None \<Rightarrow> Inr \<lparr>sv_config = config\<rparr>)"

definition detectIP :: "'w ddns_network \<Rightarrow> DDNSConfig \<Rightarrow> string + string" where
  "detectIP nw c =
     (if nw_url_error nw (dd_IPURL c) \<noteq> None then Inl ''invalid DDNS IP detection URL''
      else case nw_address nw (dd_IPURL c) of
        NoReply e \<Rightarrow> Inl (''DDNS public IP detection failed: '' @ e)
      | Reply status body \<Rightarrow>
          if status \<noteq> 200 then Inl (''DDNS IP detection returned HTTP '' @ itoa status)
          else case body of
            None \<Rightarrow> Inl ''read DDNS IP detection response failed''
          | Some s \<Rightarrow>
              (case map_option unmap (parse_addr (trim_space (take 256 s))) of
                 None \<Rightarrow> Inl ''DDNS IP detection did not return a public IP address''
               | Some ip \<Rightarrow>
                   if \<not> public_address ip then Inl ''DDNS IP detection did not return a public IP address''
                   else if dd_RecordType c = ''A'' \<and> \<not> Is4 ip \<or> dd_RecordType c = ''AAAA'' \<and> Is4 ip
                   then Inl ''DDNS detected IP family does not match RecordType''
                   else Inr (show_addr ip)))"

definition doJSON ::
  "'w ddns_network \<Rightarrow> http_request \<Rightarrow> (json \<Rightarrow> 'a option) \<Rightarrow> 'w ddns_net \<Rightarrow> (string + 'a) \<times> 'w ddns_net" where
  "doJSON nw q dst st =
     (case client_do nw q st of
        (NoReply e, st) \<Rightarrow> (Inl (''DDNS API request failed: '' @ e), st)
      | (Reply status body, st) \<Rightarrow>
          if status < 200 \<or> 300 \<le> status then (Inl (''DDNS API returned HTTP '' @ itoa status), st)
          else (or_fail ''invalid DDNS API response'' (Option.bind body dst), st))"

section \<open>Cloudflare\<close>

definition cloudflareEndpoint :: string where
  "cloudflareEndpoint = ''https://api.cloudflare.com/client/v4''"

record cfRecord =
  cf_ID :: string
  cf_Name :: string
  cf_Type :: string
  cf_Content :: string

definition cfRecord_zero :: cfRecord where
  "cfRecord_zero = \<lparr>cf_ID = [], cf_Name = [], cf_Type = [], cf_Content = []\<rparr>"

definition cfRecord_fields :: "cfRecord fields" where
  "cfRecord_fields =
     [(''id'', fld cf_ID cf_ID_update into_string), (''name'', fld cf_Name cf_Name_update into_string),
      (''type'', fld cf_Type cf_Type_update into_string), (''content'', fld cf_Content cf_Content_update into_string)]"

record cfZone =
  cz_ID :: string
  cz_Name :: string

definition cfZone_zero :: cfZone where "cfZone_zero = \<lparr>cz_ID = [], cz_Name = []\<rparr>"

definition cfZone_fields :: "cfZone fields" where
  "cfZone_fields = [(''id'', fld cz_ID cz_ID_update into_string), (''name'', fld cz_Name cz_Name_update into_string)]"

record envelope =
  en_Success :: bool
  en_Result :: "json option"
  en_Errors :: "int list"

definition into_code :: "int \<Rightarrow> json \<Rightarrow> int option" where
  "into_code = into_struct [(''code'', into_int)]"

definition envelope_fields :: "envelope fields" where
  "envelope_fields =
     [(''success'', fld en_Success en_Success_update into_bool), (''result'', fld en_Result en_Result_update into_raw),
      (''errors'', fld en_Errors en_Errors_update (into_list 0 into_code))]"

definition into_envelope :: "json \<Rightarrow> envelope option" where
  "into_envelope = into_struct envelope_fields \<lparr>en_Success = False, en_Result = None, en_Errors = []\<rparr>"

text \<open>\<open>dst\<close> decodes the result; \<open>cloudflare_write\<close> is a call with no place for the result.\<close>

definition cf_request :: "DDNSConfig \<Rightarrow> string \<Rightarrow> string \<Rightarrow> payload \<Rightarrow> http_request" where
  "cf_request c method path body =
     \<lparr>rq_Method = method, rq_URL = cloudflareEndpoint @ path,
      rq_Auth = ''Bearer '' @ mget [] (dd_DNSEnv c) ''CF_DNS_API_TOKEN'', rq_Body = body\<rparr>"

definition cf_rejection :: "envelope \<Rightarrow> string" where
  "cf_rejection e =
     (case en_Errors e of
        [] \<Rightarrow> ''Cloudflare API rejected DDNS request''
      | code # _ \<Rightarrow> ''Cloudflare API rejected DDNS request (code '' @ itoa code @ '')'')"

definition cf_call ::
  "'w ddns_network \<Rightarrow> DDNSConfig \<Rightarrow> string \<Rightarrow> string \<Rightarrow> payload \<Rightarrow> 'w ddns_net \<Rightarrow> (string + envelope) \<times> 'w ddns_net" where
  "cf_call nw c method path body st =
     (case nw_url_error nw (cloudflareEndpoint @ path) of
        Some e \<Rightarrow> (Inl e, st)
      | None \<Rightarrow>
          (case doJSON nw (cf_request c method path body) into_envelope st of
             (Inl e, st) \<Rightarrow> (Inl e, st)
           | (Inr e, st) \<Rightarrow> (if en_Success e then Inr e else Inl (cf_rejection e), st)))"

definition cloudflare ::
  "'w ddns_network \<Rightarrow> DDNSConfig \<Rightarrow> string \<Rightarrow> (json \<Rightarrow> 'a option) \<Rightarrow> 'w ddns_net \<Rightarrow> (string + 'a) \<times> 'w ddns_net" where
  "cloudflare nw c path dst st =
     (case cf_call nw c ''GET'' path NoPayload st of
        (Inl e, st) \<Rightarrow> (Inl e, st)
      | (Inr e, st) \<Rightarrow> (or_fail (nw_unmarshal nw) (Option.bind (en_Result e) dst), st))"

definition cloudflare_write ::
  "'w ddns_network \<Rightarrow> DDNSConfig \<Rightarrow> string \<Rightarrow> string \<Rightarrow> (string \<times> json) list \<Rightarrow> 'w ddns_net \<Rightarrow> string option \<times> 'w ddns_net" where
  "cloudflare_write nw c method path body st =
     (case cf_call nw c method path (JsonPayload body) st of (Inl e, st) \<Rightarrow> (Some e, st) | (Inr _, st) \<Rightarrow> (None, st))"

definition zones_path :: "DDNSConfig \<Rightarrow> string" where
  "zones_path c = ''/zones?name='' @ query_escape (dd_ZoneName c)"

definition records_base :: "cfZone \<Rightarrow> string" where
  "records_base z = ''/zones/'' @ path_escape (cz_ID z) @ ''/dns_records''"

definition records_path :: "DDNSConfig \<Rightarrow> string \<Rightarrow> string" where
  "records_path c base =
     base @ ''?'' @ encode [(''name'', dd_Domain c), (''type'', dd_RecordType c), (''per_page'', ''100'')]"

text \<open>Once the zone is known: read its records for the name, and write the address if it differs.\<close>

definition cf_apply :: "'w ddns_network \<Rightarrow> DDNSConfig \<Rightarrow> string \<Rightarrow> string \<Rightarrow> 'w ddns_net \<Rightarrow> string option \<times> 'w ddns_net" where
  "cf_apply nw c ip base st =
     (case cloudflare nw c (records_path c base) (into_list cfRecord_zero (into_struct cfRecord_fields) []) st of
        (Inl e, st) \<Rightarrow> (Some e, st)
      | (Inr [], st) \<Rightarrow>
          cloudflare_write nw c ''POST'' base
            [(''type'', JStr (dd_RecordType c)), (''name'', JStr (dd_Domain c)), (''content'', JStr ip),
             (''ttl'', JNum (itoa (dd_TTL c))), (''proxied'', JBool False)] st
      | (Inr [r], st) \<Rightarrow>
          if cf_ID r = [] \<or> \<not> EqualFold (cf_Name r) (dd_Domain c) \<or> cf_Type r \<noteq> dd_RecordType c
          then (Some ''Cloudflare returned an unexpected DDNS record'', st)
          else if sameIP (cf_Content r) ip then (None, st)
          else cloudflare_write nw c ''PATCH'' (base @ ''/'' @ path_escape (cf_ID r)) [(''content'', JStr ip)] st
      | (Inr _, st) \<Rightarrow>
          (Some ''multiple DDNS records match; keep a single A/AAAA record for this hostname'', st))"

definition zone_usable :: "DDNSConfig \<Rightarrow> cfZone list \<Rightarrow> bool" where
  "zone_usable c zones =
     (length zones = 1 \<and> cz_ID (hd zones) \<noteq> [] \<and> EqualFold (cz_Name (hd zones)) (dd_ZoneName c))"

definition updateCloudflare :: "'w ddns_network \<Rightarrow> DDNSConfig \<Rightarrow> string \<Rightarrow> 'w ddns_net \<Rightarrow> string option \<times> 'w ddns_net" where
  "updateCloudflare nw c ip st =
     (case cloudflare nw c (zones_path c) (into_list cfZone_zero (into_struct cfZone_fields) []) st of
        (Inl e, st) \<Rightarrow> (Some e, st)
      | (Inr zones, st) \<Rightarrow>
          if \<not> zone_usable c zones
          then (Some ''Cloudflare DDNS zone not found or not uniquely authorized; check ZoneName and token scope'', st)
          else cf_apply nw c ip (records_base (hd zones)) st)"

section \<open>AliDNS\<close>

definition alidnsEndpoint :: string where
  "alidnsEndpoint = ''https://alidns.aliyuncs.com/''"

definition aliEscape :: "string \<Rightarrow> string" where
  "aliEscape s = replace_all ''+'' ''%20'' (query_escape s)"

definition aliSignature :: "'w ddns_network \<Rightarrow> string \<Rightarrow> params \<Rightarrow> string \<Rightarrow> string" where
  "aliSignature nw method ps secret =
     (let canonical = replace_all ''+'' ''%20'' (encode ps)
      in nw_mac nw (secret @ ''&'') (method @ ''&%2F&'' @ aliEscape canonical))"

definition ali_params :: "'w ddns_network \<Rightarrow> DDNSConfig \<Rightarrow> string \<Rightarrow> string \<Rightarrow> string \<Rightarrow> params \<Rightarrow> params" where
  "ali_params nw c nonce now action ps =
     (let env = mget [] (dd_DNSEnv c);
          p1 = AList.update ''Action'' action ps;
          p2 = AList.update ''Version'' ''2015-01-09'' p1;
          p3 = AList.update ''Format'' ''JSON'' p2;
          p4 = AList.update ''AccessKeyId'' (env ''ALICLOUD_ACCESS_KEY'') p3;
          p5 = AList.update ''SignatureMethod'' ''HMAC-SHA1'' p4;
          p6 = AList.update ''SignatureVersion'' ''1.0'' p5;
          p7 = AList.update ''SignatureNonce'' nonce p6;
          p8 = AList.update ''Timestamp'' now p7;
          p9 = (if env ''ALICLOUD_SECURITY_TOKEN'' \<noteq> []
                then AList.update ''SecurityToken'' (env ''ALICLOUD_SECURITY_TOKEN'') p8 else p8)
      in AList.update ''Signature'' (aliSignature nw ''POST'' p9 (env ''ALICLOUD_SECRET_KEY'')) p9)"

record ali_status =
  as_Code :: string
  as_RequestId :: string

definition into_status :: "json \<Rightarrow> ali_status option" where
  "into_status =
     into_struct [(''Code'', fld as_Code as_Code_update into_string),
                  (''RequestId'', fld as_RequestId as_RequestId_update into_string)]
       \<lparr>as_Code = [], as_RequestId = []\<rparr>"

definition ali_request :: "params \<Rightarrow> http_request" where
  "ali_request ps = \<lparr>rq_Method = ''POST'', rq_URL = alidnsEndpoint, rq_Auth = [], rq_Body = FormPayload ps\<rparr>"

definition alidns ::
  "'w ddns_network \<Rightarrow> DDNSConfig \<Rightarrow> string \<Rightarrow> params \<Rightarrow> (json \<Rightarrow> 'a option) \<Rightarrow> 'w ddns_net \<Rightarrow> (string + 'a) \<times> 'w ddns_net" where
  "alidns nw c action ps dst st =
     (case nw_nonce nw (nt_world st) of
        Inl e \<Rightarrow> (Inl e, st)
      | Inr nonce \<Rightarrow>
     (case nw_url_error nw alidnsEndpoint of
        Some e \<Rightarrow> (Inl e, st)
      | None \<Rightarrow>
     (case doJSON nw (ali_request (ali_params nw c nonce (nw_now nw (nt_world st)) action ps)) Some st of
        (Inl e, st) \<Rightarrow> (Inl e, st)
      | (Inr body, st) \<Rightarrow>
          (case into_status body of
             None \<Rightarrow> (Inl (nw_unmarshal nw), st)
           | Some status \<Rightarrow>
               if as_Code status \<noteq> [] then (Inl (''Alibaba Cloud DNS rejected DDNS request ('' @ as_Code status @ '')''), st)
               else if as_RequestId status = [] then (Inl ''invalid Alibaba Cloud DNS response'', st)
               else (or_fail (nw_unmarshal nw) (dst body), st)))))"

record ali_record =
  ar_RecordId :: string
  ar_RR :: string
  ar_Type :: string
  ar_Value :: string
  ar_Line :: string
  ar_Status :: string
  ar_TTL :: int

definition ali_record_zero :: ali_record where
  "ali_record_zero = \<lparr>ar_RecordId = [], ar_RR = [], ar_Type = [], ar_Value = [], ar_Line = [], ar_Status = [], ar_TTL = 0\<rparr>"

definition ali_record_fields :: "ali_record fields" where
  "ali_record_fields =
     [(''RecordId'', fld ar_RecordId ar_RecordId_update into_string), (''RR'', fld ar_RR ar_RR_update into_string),
      (''Type'', fld ar_Type ar_Type_update into_string), (''Value'', fld ar_Value ar_Value_update into_string),
      (''Line'', fld ar_Line ar_Line_update into_string), (''Status'', fld ar_Status ar_Status_update into_string),
      (''TTL'', fld ar_TTL ar_TTL_update into_int)]"

record ali_list =
  al_TotalCount :: int
  al_Record :: "ali_record list"

definition into_ali_list :: "json \<Rightarrow> ali_list option" where
  "into_ali_list =
     into_struct [(''TotalCount'', fld al_TotalCount al_TotalCount_update into_int),
                  (''DomainRecords'', fld al_Record al_Record_update
                     (into_struct [(''Record'', into_list ali_record_zero (into_struct ali_record_fields))]))]
       \<lparr>al_TotalCount = 0, al_Record = []\<rparr>"

definition into_record_id :: "json \<Rightarrow> string option" where
  "into_record_id = into_struct [(''RecordId'', into_string)] []"

text \<open>The loop over the records: how many match and the last that does, or a record that is not enabled.\<close>

fun ali_matches :: "DDNSConfig \<Rightarrow> string \<Rightarrow> nat \<Rightarrow> ali_record \<Rightarrow> ali_record list \<Rightarrow> string + nat \<times> ali_record" where
  "ali_matches c rr n found [] = Inr (n, found)"
| "ali_matches c rr n found (r # rs) =
     (if EqualFold (ar_RR r) rr \<and> ar_Type r = dd_RecordType c then
        (if ar_Status r \<noteq> ''ENABLE'' then Inl ''Alibaba Cloud DDNS record is disabled; enable it in the DNS console''
         else ali_matches c rr (Suc n) r rs)
      else ali_matches c rr n found rs)"

definition ali_rr :: "DDNSConfig \<Rightarrow> string" where
  "ali_rr c = (if dd_Domain c \<noteq> dd_ZoneName c then trim_suffix (dd_Domain c) (CHR ''.'' # dd_ZoneName c) else ''@'')"

definition ali_write ::
  "'w ddns_network \<Rightarrow> DDNSConfig \<Rightarrow> string \<Rightarrow> params \<Rightarrow> 'w ddns_net \<Rightarrow> string option \<times> 'w ddns_net" where
  "ali_write nw c action ps st =
     (case alidns nw c action ps into_record_id st of
        (Inl e, st) \<Rightarrow> (Some e, st)
      | (Inr i, st) \<Rightarrow> (if i = [] then Some ''Alibaba Cloud DNS did not confirm the DDNS record'' else None, st))"

definition updateAliDNS :: "'w ddns_network \<Rightarrow> DDNSConfig \<Rightarrow> string \<Rightarrow> 'w ddns_net \<Rightarrow> string option \<times> 'w ddns_net" where
  "updateAliDNS nw c ip st =
     (let rr = ali_rr c in
      case alidns nw c ''DescribeDomainRecords''
             [(''DomainName'', dd_ZoneName c), (''RRKeyWord'', rr), (''TypeKeyWord'', dd_RecordType c),
              (''SearchMode'', ''EXACT''), (''PageSize'', ''500'')] into_ali_list st of
        (Inl e, st) \<Rightarrow> (Some e, st)
      | (Inr l, st) \<Rightarrow>
          if 500 < al_TotalCount l then (Some ''too many Alibaba Cloud DNS records match the DDNS query'', st)
          else (case ali_matches c rr 0 ali_record_zero (al_Record l) of
             Inl e \<Rightarrow> (Some e, st)
           | Inr (matches, r) \<Rightarrow>
               if 1 < matches
               then (Some ''multiple Alibaba Cloud DDNS records match; keep a single A/AAAA record for this hostname'', st)
               else
                 (let ps = [(''RR'', rr), (''Type'', dd_RecordType c), (''Value'', ip)] in
                  if matches = 0
                  then ali_write nw c ''AddDomainRecord''
                         (AList.update ''TTL'' (itoa (dd_TTL c)) (AList.update ''DomainName'' (dd_ZoneName c) ps)) st
                  else if ar_RecordId r = [] then (Some ''Alibaba Cloud DNS returned an empty record ID'', st)
                  else if sameIP (ar_Value r) ip then (None, st)
                  else
                    (let p1 = AList.update ''RecordId'' (ar_RecordId r) ps;
                         p2 = (if ar_Line r \<noteq> [] then AList.update ''Line'' (ar_Line r) p1 else p1);
                         p3 = (if 0 < ar_TTL r then AList.update ''TTL'' (itoa (ar_TTL r)) p2 else p2)
                     in ali_write nw c ''UpdateDomainRecord'' p3 st))))"

section \<open>One update\<close>

definition redact :: "(string, string) gomap \<Rightarrow> string \<Rightarrow> string" where
  "redact env message =
     fold (\<lambda>(_, value) m. if value \<noteq> [] then replace_all value ''[REDACTED]'' m else m) env message"

definition run_update :: "'w ddns_network \<Rightarrow> DDNSConfig \<Rightarrow> 'w ddns_net \<Rightarrow> string option \<times> 'w ddns_net" where
  "run_update nw c st =
     (case detectIP nw c of
        Inl e \<Rightarrow> (Some e, st)
      | Inr ip \<Rightarrow>
          if dd_Provider c = ''cloudflare'' then updateCloudflare nw c ip st
          else if dd_Provider c = ''alidns'' then updateAliDNS nw c ip st
          else (Some ''unsupported DDNS provider'', st))"

definition Update :: "'w ddns_network \<Rightarrow> Service \<Rightarrow> 'w ddns_net \<Rightarrow> string option \<times> 'w ddns_net" where
  "Update nw s st =
     (let c = sv_config s in
      if \<not> dd_Enabled c then (None, st)
      else (case run_update nw c st of (err, st) \<Rightarrow> (map_option (redact (dd_DNSEnv c)) err, st)))"

section \<open>The workers of a process\<close>

text \<open>\<open>over\<close> says whether the context has ended when the update is due.\<close>

definition syncDDNS :: "'w ddns_network \<Rightarrow> bool \<Rightarrow> Service \<Rightarrow> 'w ddns_net \<Rightarrow> 'w ddns_net" where
  "syncDDNS nw over s st = (if over then st else snd (Update nw s st))"

text \<open>
  \<open>key\<close> is the digest of a configuration's JSON text. The workers are made for all nodes before one of them runs, so
  that an error leaves nothing started.
\<close>

fun make_workers ::
  "host \<Rightarrow> (DDNSConfig \<Rightarrow> 'k) \<Rightarrow> nat \<Rightarrow> 'k list \<Rightarrow> Options list \<Rightarrow> nat \<times> ddns_error + (DDNSConfig \<times> Service) list" where
  "make_workers h key i seen [] = Inr []"
| "make_workers h key i seen (op # ops) =
     (if \<not> dd_Enabled (op_DDNSConfig op) then make_workers h key (Suc i) seen ops
      else
        (let config = DDNS_Effective h (op_DDNSConfig op) (op_CertConfig op) in
         case DDNS_Validate h config of
           Some e \<Rightarrow> Inl (i, e)
         | None \<Rightarrow>
             if key config \<in> set seen then make_workers h key (Suc i) seen ops
             else case ddns_New h config of
               Inl e \<Rightarrow> Inl (i, e)
             | Inr s \<Rightarrow>
                 (case make_workers h key (Suc i) (key config # seen) ops of
                    Inl e \<Rightarrow> Inl e
                  | Inr ws \<Rightarrow> Inr ((config, s) # ws))))"

definition startDDNS ::
  "host \<Rightarrow> (DDNSConfig \<Rightarrow> 'k) \<Rightarrow> 'w ddns_network \<Rightarrow> bool \<Rightarrow> Options list \<Rightarrow> 'w ddns_net
     \<Rightarrow> (nat \<times> ddns_error + (DDNSConfig \<times> Service) list) \<times> 'w ddns_net" where
  "startDDNS h key nw over nodes st =
     (case make_workers h key 0 [] nodes of
        Inl e \<Rightarrow> (Inl e, st)
      | Inr ws \<Rightarrow> (Inr ws, fold (\<lambda>(_, s). syncDDNS nw over s) ws st))"

text \<open>
  What a worker meets at its \<^verbatim>\<open>select\<close>: the end of the context, or a tick, with whether the context has ended by then. The
  result is whether it has returned. No event left is a worker that still waits.
\<close>

datatype ddns_event = Ended | Tick bool

fun runDDNS :: "'w ddns_network \<Rightarrow> Service \<Rightarrow> ddns_event list \<Rightarrow> 'w ddns_net \<Rightarrow> bool \<times> 'w ddns_net" where
  "runDDNS nw s [] st = (False, st)"
| "runDDNS nw s (Ended # es) st = (True, st)"
| "runDDNS nw s (Tick over # es) st = runDDNS nw s es (syncDDNS nw over s st)"

section \<open>What an update sends\<close>

text \<open>The address a request publishes, and what an answer says.\<close>

definition published :: "http_request \<Rightarrow> string option" where
  "published q =
     (case rq_Body q of
        NoPayload \<Rightarrow> None
      | JsonPayload kvs \<Rightarrow> (case map_of kvs ''content'' of Some (JStr s) \<Rightarrow> Some s | _ \<Rightarrow> None)
      | FormPayload ps \<Rightarrow> map_of ps ''Value'')"

definition ok_body :: "json http_reply \<Rightarrow> json option" where
  "ok_body r =
     (case r of Reply status body \<Rightarrow> if status < 200 \<or> 300 \<le> status then None else body | NoReply _ \<Rightarrow> None)"

definition cf_answer :: "json http_reply \<Rightarrow> envelope option" where
  "cf_answer r = do { j \<leftarrow> ok_body r; e \<leftarrow> into_envelope j; if en_Success e then Some e else None }"

definition cf_records :: "json http_reply \<Rightarrow> cfRecord list option" where
  "cf_records r =
     do { e \<leftarrow> cf_answer r; j \<leftarrow> en_Result e; into_list cfRecord_zero (into_struct cfRecord_fields) [] j }"

definition ali_answer :: "json http_reply \<Rightarrow> json option" where
  "ali_answer r =
     do { j \<leftarrow> ok_body r; s \<leftarrow> into_status j; if as_Code s = [] \<and> as_RequestId s \<noteq> [] then Some j else None }"

text \<open>An answer confirms a write, or shows that the one record of the name holds an address already.\<close>

definition confirms :: "DDNSConfig \<Rightarrow> json http_reply \<Rightarrow> bool" where
  "confirms c r =
     (if dd_Provider c = ''cloudflare'' then cf_answer r \<noteq> None
      else \<exists>i\<in>set_option (Option.bind (ali_answer r) into_record_id). i \<noteq> [])"

definition ali_match :: "DDNSConfig \<Rightarrow> ali_record \<Rightarrow> bool" where
  "ali_match c r = (EqualFold (ar_RR r) (ali_rr c) \<and> ar_Type r = dd_RecordType c)"

definition already_holds :: "DDNSConfig \<Rightarrow> json http_reply \<Rightarrow> string \<Rightarrow> bool" where
  "already_holds c r ip =
     (if dd_Provider c = ''cloudflare'' then
        (case cf_records r of
           Some [x] \<Rightarrow> EqualFold (cf_Name x) (dd_Domain c) \<and> cf_Type x = dd_RecordType c \<and> sameIP (cf_Content x) ip
         | _ \<Rightarrow> False)
      else
        (case Option.bind (ali_answer r) into_ali_list of
           Some l \<Rightarrow> (case filter (ali_match c) (al_Record l) of
                       [x] \<Rightarrow> ar_Status x = ''ENABLE'' \<and> sameIP (ar_Value x) ip | _ \<Rightarrow> False)
         | None \<Rightarrow> False))"

text \<open>
  A call to the provider makes one request \<open>q\<close>, or none when the request cannot be made; it gives a value only when
  the answer, read by \<open>dst\<close>, has it.
\<close>

definition one_call ::
  "http_request \<Rightarrow> (json http_reply \<Rightarrow> 'a option) \<Rightarrow> 'w ddns_net \<Rightarrow> (string + 'a) \<times> 'w ddns_net \<Rightarrow> bool" where
  "one_call q dst st xst \<longleftrightarrow>
     (\<exists>e. fst xst = Inl e \<and> nt_log (snd xst) = nt_log st)
     \<or> (\<exists>r. nt_log (snd xst) = nt_log st @ [(q, r)] \<and> (\<forall>v. fst xst = Inr v \<longrightarrow> dst r = Some v))"

lemma doJSON_call: "one_call q (\<lambda>r. Option.bind (ok_body r) dst) st (doJSON nw q dst st)"
  by (auto simp: one_call_def doJSON_def client_do_def ok_body_def split: prod.splits http_reply.splits)

lemma one_call_bind:
  assumes "one_call q dst st xst"
    and "\<And>e st'. xst = (Inl e, st') \<Longrightarrow> yst = (Inl e, st')"
    and "\<And>v st'. xst = (Inr v, st') \<Longrightarrow> snd yst = st' \<and> (\<forall>y. fst yst = Inr y \<longrightarrow> f v = Some y)"
    and "\<And>r. dst' r = Option.bind (dst r) f"
  shows "one_call q dst' st yst"
proof -
  obtain x st' where x: "xst = (x, st')" by (cases xst)
  show ?thesis
  proof (cases x)
    case (Inl e)
    with assms(1) assms(2) [of e st'] x show ?thesis by (auto simp: one_call_def)
  next
    case (Inr v)
    with assms(1) x obtain r where "nt_log st' = nt_log st @ [(q, r)]" "dst r = Some v" by (auto simp: one_call_def)
    with assms(3) [of v st'] assms(4) x Inr show ?thesis by (auto simp: one_call_def)
  qed
qed

lemma cf_call_call: "one_call (cf_request c m p b) cf_answer st (cf_call nw c m p b st)"
proof (cases "nw_url_error nw (cloudflareEndpoint @ p)")
  case None
  show ?thesis
    unfolding cf_call_def None option.case
    by (rule one_call_bind [OF doJSON_call [where nw = nw and dst = into_envelope], where f = "\<lambda>e. if en_Success e then Some e else None"])
      (simp_all add: cf_answer_def)
qed (simp add: cf_call_def one_call_def)

lemma cloudflare_call:
  "one_call (cf_request c ''GET'' p NoPayload) (\<lambda>r. Option.bind (cf_answer r) (\<lambda>e. Option.bind (en_Result e) dst)) st
     (cloudflare nw c p dst st)"
  unfolding cloudflare_def by (rule one_call_bind [OF cf_call_call [where nw = nw]]) simp_all

lemma alidns_call:
  obtains nonce now where
    "one_call (ali_request (ali_params nw c nonce now action ps)) (\<lambda>r. Option.bind (ali_answer r) dst) st
       (alidns nw c action ps dst st)"
proof (cases "nw_nonce nw (nt_world st)")
  case (Inr nonce)
  let ?f = "\<lambda>j. Option.bind (into_status j) (\<lambda>s. if as_Code s = [] \<and> as_RequestId s \<noteq> [] then dst j else None)"
  have "one_call (ali_request (ali_params nw c nonce (nw_now nw (nt_world st)) action ps))
      (\<lambda>r. Option.bind (ali_answer r) dst) st (alidns nw c action ps dst st)"
  proof (cases "nw_url_error nw alidnsEndpoint")
    case None
    show ?thesis
      unfolding alidns_def Inr None option.case sum.case
      by (rule one_call_bind [OF doJSON_call [where nw = nw and dst = Some], where f = ?f])
        (auto simp: ali_answer_def split: option.splits if_splits bind_splits)
  qed (simp add: alidns_def Inr one_call_def)
  then show ?thesis by (rule that)
qed (auto simp: alidns_def one_call_def intro: that)

text \<open>
  What an update does with the address \<open>ip\<close>: at most \<open>n\<close> requests, of which only the last may publish an address, and
  then this one; without an error, the last answer confirms the write or shows that there is nothing to write.
\<close>

definition update_outcome :: "nat \<Rightarrow> DDNSConfig \<Rightarrow> string \<Rightarrow> 'w ddns_net \<Rightarrow> string option \<times> 'w ddns_net \<Rightarrow> bool" where
  "update_outcome n c ip st yst \<longleftrightarrow>
     (\<exists>es. nt_log (snd yst) = nt_log st @ es \<and> length es \<le> n
         \<and> (\<forall>x\<in>set (butlast es). published (fst x) = None)
         \<and> (\<forall>x\<in>set es. published (fst x) = None \<or> published (fst x) = Some ip)
         \<and> (fst yst = None \<longrightarrow> es \<noteq> [] \<and>
              (published (fst (last es)) = Some ip \<and> confirms c (snd (last es))
               \<or> published (fst (last es)) = None \<and> already_holds c (snd (last es)) ip)))"

lemma outcome_error: "nt_log st' = nt_log st \<Longrightarrow> update_outcome n c ip st (Some e, st')"
  unfolding update_outcome_def by (rule exI [of _ "[]"]) simp

lemma outcome_single:
  assumes "nt_log st' = nt_log st @ [(q, r)]" "published q = None \<or> published q = Some ip" "0 < n"
    and "err = None \<Longrightarrow> published q = Some ip \<and> confirms c r \<or> published q = None \<and> already_holds c r ip"
  shows "update_outcome n c ip st (err, st')"
  unfolding update_outcome_def by (rule exI [of _ "[(q, r)]"]) (use assms in auto)

lemma outcome_after:
  assumes "nt_log st' = nt_log st @ [(q, r)]" "published q = None" "update_outcome n c ip st' yst"
  shows "update_outcome (Suc n) c ip st yst"
proof -
  from assms(3) obtain es where es: "nt_log (snd yst) = nt_log st' @ es" "length es \<le> n"
      "\<forall>x\<in>set (butlast es). published (fst x) = None"
      "\<forall>x\<in>set es. published (fst x) = None \<or> published (fst x) = Some ip"
      "fst yst = None \<longrightarrow> es \<noteq> [] \<and>
         (published (fst (last es)) = Some ip \<and> confirms c (snd (last es))
          \<or> published (fst (last es)) = None \<and> already_holds c (snd (last es)) ip)"
    unfolding update_outcome_def by (elim exE conjE) iprover
  show ?thesis
    unfolding update_outcome_def
  proof (intro exI [of _ "(q, r) # es"] conjI)
    show "nt_log (snd yst) = nt_log st @ (q, r) # es" using assms(1) es(1) by simp
    show "length ((q, r) # es) \<le> Suc n" using es(2) by simp
    show "\<forall>x\<in>set (butlast ((q, r) # es)). published (fst x) = None" using es(3) assms(2) by simp
    show "\<forall>x\<in>set ((q, r) # es). published (fst x) = None \<or> published (fst x) = Some ip" using es(4) assms(2) by simp
    show "fst yst = None \<longrightarrow> (q, r) # es \<noteq> [] \<and>
         (published (fst (last ((q, r) # es))) = Some ip \<and> confirms c (snd (last ((q, r) # es)))
          \<or> published (fst (last ((q, r) # es))) = None \<and> already_holds c (snd (last ((q, r) # es))) ip)"
      using es(5) by (cases "es = []") auto
  qed
qed

lemma outcome_read:
  assumes "one_call q dst st xst" "published q = None" "0 < n"
    and "\<And>e st'. xst = (Inl e, st') \<Longrightarrow> \<exists>e'. yst = (Some e', st')"
    and "\<And>v st' r. xst = (Inr v, st') \<Longrightarrow> dst r = Some v \<Longrightarrow>
           (\<exists>e. yst = (Some e, st')) \<or> yst = (None, st') \<and> already_holds c r ip \<or> update_outcome n c ip st' yst"
  shows "update_outcome (Suc n) c ip st yst"
proof -
  obtain x st' where x: "xst = (x, st')" by (cases xst)
  show ?thesis
  proof (cases x)
    case (Inl e)
    then obtain e' where "yst = (Some e', st')" using assms(4) x by blast
    with assms(1,2) x Inl show ?thesis by (auto simp: one_call_def intro: outcome_error outcome_single)
  next
    case (Inr v)
    with assms(1) x obtain r where r: "nt_log st' = nt_log st @ [(q, r)]" "dst r = Some v" by (auto simp: one_call_def)
    from assms(5) [of v st' r] x Inr r(2) show ?thesis
      using r(1) assms(2) by (auto intro: outcome_single outcome_after)
  qed
qed

lemma outcome_write:
  assumes "one_call q dst st xst" "published q = Some ip" "0 < n" "snd yst = snd xst"
    and "\<And>e. fst xst = Inl e \<Longrightarrow> fst yst \<noteq> None"
    and "\<And>v r. fst xst = Inr v \<Longrightarrow> dst r = Some v \<Longrightarrow> fst yst = None \<Longrightarrow> confirms c r"
  shows "update_outcome n c ip st yst"
proof -
  obtain err st' where y: "yst = (err, st')" by (cases yst)
  with assms(1,4) consider (none) "\<exists>e. fst xst = Inl e" "nt_log st' = nt_log st"
    | (sent) r where "nt_log st' = nt_log st @ [(q, r)]" "\<forall>v. fst xst = Inr v \<longrightarrow> dst r = Some v"
    by (auto simp: one_call_def)
  then show ?thesis
  proof cases
    case none
    with assms(5) y show ?thesis by (auto intro: outcome_error)
  next
    case sent
    with assms(2,3,5,6) y show ?thesis
      by (cases "fst xst") (auto intro!: outcome_single [where q = q and r = r])
  qed
qed

lemma published_cf [simp]:
  "published (cf_request c m p NoPayload) = None"
  "published (cf_request c m p (JsonPayload kvs)) = (case map_of kvs ''content'' of Some (JStr s) \<Rightarrow> Some s | _ \<Rightarrow> None)"
  by (simp_all add: published_def cf_request_def)

lemma published_ali [simp]: "published (ali_request (ali_params nw c nonce now action ps)) = map_of ps ''Value''"
  by (simp add: published_def ali_request_def ali_params_def Let_def update_conv')

lemma cloudflare_write_outcome:
  assumes "dd_Provider c = ''cloudflare''" "map_of kvs ''content'' = Some (JStr ip)" "0 < n"
  shows "update_outcome n c ip st (cloudflare_write nw c m p kvs st)"
  unfolding cloudflare_write_def
  by (rule outcome_write [OF cf_call_call [where nw = nw and c = c and m = m and p = p and b = "JsonPayload kvs"]])
    (use assms in \<open>auto simp: confirms_def split: prod.splits sum.splits\<close>)

lemma ali_write_outcome:
  assumes "dd_Provider c = ''alidns''" "map_of ps ''Value'' = Some ip" "0 < n"
  shows "update_outcome n c ip st (ali_write nw c action ps st)"
proof -
  obtain nonce now where "one_call (ali_request (ali_params nw c nonce now action ps))
      (\<lambda>r. Option.bind (ali_answer r) into_record_id) st (alidns nw c action ps into_record_id st)"
    by (rule alidns_call)
  then show ?thesis
    unfolding ali_write_def
    by (rule outcome_write) (use assms in \<open>auto simp: confirms_def split: prod.splits sum.splits if_splits\<close>)
qed

lemma cf_apply_outcome:
  assumes "dd_Provider c = ''cloudflare''"
  shows "update_outcome 2 c ip st (cf_apply nw c ip base st)"
proof -
  let ?dst = "into_list cfRecord_zero (into_struct cfRecord_fields) []"
  have "update_outcome (Suc 1) c ip st (cf_apply nw c ip base st)"
  proof (rule outcome_read [OF cloudflare_call [where nw = nw and c = c and p = "records_path c base" and dst = ?dst]])
    fix rs st' r
    assume get: "cloudflare nw c (records_path c base) ?dst st = (Inr rs, st')"
      and a: "Option.bind (cf_answer r) (\<lambda>e. Option.bind (en_Result e) ?dst) = Some rs"
    from a have r: "cf_records r = Some rs" by (simp add: cf_records_def)
    consider "rs = []" | x where "rs = [x]" | x y zs where "rs = x # y # zs" by (cases rs; cases "tl rs") auto
    then show "(\<exists>e. cf_apply nw c ip base st = (Some e, st'))
          \<or> cf_apply nw c ip base st = (None, st') \<and> already_holds c r ip
          \<or> update_outcome 1 c ip st' (cf_apply nw c ip base st)"
      by cases (use get r assms in \<open>auto simp: cf_apply_def already_holds_def intro!: cloudflare_write_outcome\<close>)
  qed (auto simp: cf_apply_def)
  then show ?thesis by (simp add: numeral_2_eq_2)
qed

lemma updateCloudflare_outcome:
  assumes "dd_Provider c = ''cloudflare''"
  shows "update_outcome 3 c ip st (updateCloudflare nw c ip st)"
proof -
  have "update_outcome (Suc 2) c ip st (updateCloudflare nw c ip st)"
    by (rule outcome_read [OF cloudflare_call
          [where nw = nw and c = c and p = "zones_path c" and dst = "into_list cfZone_zero (into_struct cfZone_fields) []"]])
      (use assms in \<open>auto simp: updateCloudflare_def intro!: cf_apply_outcome\<close>)
  then show ?thesis by (simp add: numeral_3_eq_3)
qed

lemma ali_matches_exact:
  "ali_matches c (ali_rr c) n found rs = Inr (m, r) \<Longrightarrow>
     m = n + length (filter (ali_match c) rs) \<and> r = last (found # filter (ali_match c) rs)
     \<and> (\<forall>x\<in>set (filter (ali_match c) rs). ar_Status x = ''ENABLE'')"
proof (induction rs arbitrary: n found)
  case (Cons x rs)
  show ?case
  proof (cases "ali_match c x")
    case True
    with Cons.prems have "ar_Status x = ''ENABLE''" "ali_matches c (ali_rr c) (Suc n) x rs = Inr (m, r)"
      by (auto simp: ali_match_def split: if_splits)
    with Cons.IH [of "Suc n" x] True show ?thesis by simp
  next
    case False
    with Cons.prems have "ali_matches c (ali_rr c) n found rs = Inr (m, r)" by (auto simp: ali_match_def split: if_splits)
    with Cons.IH [of n found] False show ?thesis by simp
  qed
qed simp

lemma updateAliDNS_outcome:
  assumes "dd_Provider c = ''alidns''"
  shows "update_outcome 3 c ip st (updateAliDNS nw c ip st)"
proof -
  define ps where "ps = [(''DomainName'', dd_ZoneName c), (''RRKeyWord'', ali_rr c), (''TypeKeyWord'', dd_RecordType c),
              (''SearchMode'', ''EXACT''), (''PageSize'', ''500'')]"
  obtain nonce now where call: "one_call (ali_request (ali_params nw c nonce now ''DescribeDomainRecords'' ps))
      (\<lambda>r. Option.bind (ali_answer r) into_ali_list) st (alidns nw c ''DescribeDomainRecords'' ps into_ali_list st)"
    by (rule alidns_call)
  have "update_outcome (Suc 2) c ip st (updateAliDNS nw c ip st)"
  proof (rule outcome_read [OF call])
    fix l st1 r1
    assume l: "alidns nw c ''DescribeDomainRecords'' ps into_ali_list st = (Inr l, st1)"
      and a: "Option.bind (ali_answer r1) into_ali_list = Some l"
    let ?ms = "filter (ali_match c) (al_Record l)"
    show "(\<exists>e. updateAliDNS nw c ip st = (Some e, st1))
          \<or> updateAliDNS nw c ip st = (None, st1) \<and> already_holds c r1 ip
          \<or> update_outcome 2 c ip st1 (updateAliDNS nw c ip st)"
    proof (cases "ali_matches c (ali_rr c) 0 ali_record_zero (al_Record l)")
      case (Inl e)
      with l show ?thesis by (simp add: updateAliDNS_def ps_def [symmetric] Let_def)
    next
      case (Inr mr)
      then obtain m r where mr: "ali_matches c (ali_rr c) 0 ali_record_zero (al_Record l) = Inr (m, r)" by (cases mr) simp
      note ex = ali_matches_exact [OF mr]
      have "already_holds c r1 ip" if "m = 1" "sameIP (ar_Value r) ip"
      proof -
        from ex that(1) have "length ?ms = Suc 0" by simp
        then obtain x where "?ms = [x]" by (auto simp: length_Suc_conv)
        with ex that(2) a assms show ?thesis by (simp add: already_holds_def)
      qed
      with l mr assms show ?thesis
        by (auto simp: updateAliDNS_def ps_def [symmetric] Let_def update_conv' intro!: ali_write_outcome)
    qed
  qed (auto simp: updateAliDNS_def ps_def [symmetric] Let_def, simp_all add: ps_def)
  then show ?thesis by (simp add: numeral_3_eq_3)
qed

lemma run_update_outcome:
  assumes "run_update nw c st = (err, st')"
  shows "(\<exists>e. err = Some e) \<and> nt_log st' = nt_log st \<or> (\<exists>ip. detectIP nw c = Inr ip \<and> update_outcome 3 c ip st (err, st'))"
proof (cases "detectIP nw c")
  case (Inr ip)
  with assms updateCloudflare_outcome [of c ip st nw] updateAliDNS_outcome [of c ip st nw] show ?thesis
    by (auto simp: run_update_def split: if_splits)
qed (use assms in \<open>auto simp: run_update_def\<close>)

text \<open>The text of a public address of the record's family.\<close>

definition publishable :: "DDNSConfig \<Rightarrow> string \<Rightarrow> bool" where
  "publishable c ip \<longleftrightarrow>
     (\<exists>a. public_address a \<and> ip = show_addr a
        \<and> \<not> (dd_RecordType c = ''A'' \<and> \<not> Is4 a) \<and> \<not> (dd_RecordType c = ''AAAA'' \<and> Is4 a))"

lemma detectIP_public: "detectIP nw c = Inr ip \<Longrightarrow> publishable c ip"
  by (auto simp: detectIP_def publishable_def split: if_splits option.splits http_reply.splits)

text \<open>A name server with one zone that accepts every write.\<close>

definition ex_reply :: "http_request \<Rightarrow> json http_reply" where
  "ex_reply q =
     Reply 200 (Some (JObj [(''success'', JBool True), (''result'',
       if rq_Body q \<noteq> NoPayload then JNull
       else if rq_URL q = ''https://api.cloudflare.com/client/v4/zones?name=example.com''
       then JArr [JObj [(''id'', JStr ''z1''), (''name'', JStr ''Example.com'')]]
       else JArr [JObj [(''id'', JStr ''r1''), (''name'', JStr ''a.example.com''), (''type'', JStr ''A''),
                        (''content'', JStr ''192.0.2.1'')]])]))"

definition ex_network :: "unit ddns_network" where
  "ex_network = \<lparr>nw_url_error = \<lambda>_. None, nw_unmarshal = ''json'',
     nw_address = \<lambda>_. Reply 200 (Some (''203.0.113.7'' @ [CHR 0x0A])),
     nw_send = \<lambda>q w. (ex_reply q, w), nw_mac = \<lambda>_ _. [], nw_nonce = \<lambda>_. Inr [], nw_now = \<lambda>_. []\<rparr>"

definition ex_service :: Service where
  "ex_service = \<lparr>sv_config = \<lparr>dd_Enabled = True, dd_Provider = ''cloudflare'', dd_Domain = ''a.example.com'',
     dd_ZoneName = ''example.com'', dd_RecordType = ''A'', dd_Interval = 300, dd_TTL = 600,
     dd_IPURL = ''https://api.ipify.org'', dd_DNSEnv = [(''CF_DNS_API_TOKEN'', ''token'')]\<rparr>\<rparr>"

definition ex_net :: "unit ddns_net" where
  "ex_net = \<lparr>nt_world = (), nt_log = []\<rparr>"

lemma ex_update:
  "fst (Update ex_network ex_service ex_net) = None"
  "map (published \<circ> fst) (nt_log (snd (Update ex_network ex_service ex_net))) = [None, None, Some ''203.0.113.7'']"
  by code_simp+

text \<open>
  C20. The address that is published is a public one. An update makes at most three requests to the DNS provider. Only
  the last of them can carry an address for the record, and that address is the text of a public address: not
  private, shared (100.64.0.0/10), loopback, link-local, multicast or unspecified, and of the family of the record,
  whatever the address service and the provider answer.
\<close>

theorem only_public_published:
  assumes "Update nw s st = (err, st')"
  shows "\<exists>es. nt_log st' = nt_log st @ es \<and> length es \<le> 3
    \<and> (\<forall>x\<in>set (butlast es). published (fst x) = None)
    \<and> (\<forall>x\<in>set es. \<forall>ip. published (fst x) = Some ip \<longrightarrow> publishable (sv_config s) ip)"
proof (cases "dd_Enabled (sv_config s)")
  case True
  then obtain err0 where run: "run_update nw (sv_config s) st = (err0, st')"
    using assms by (auto simp: Update_def Let_def split: prod.splits)
  from run_update_outcome [OF run] show ?thesis
  proof (elim disjE exE conjE)
    fix ip
    assume ip: "detectIP nw (sv_config s) = Inr ip" and o: "update_outcome 3 (sv_config s) ip st (err0, st')"
    from o obtain es where es: "nt_log st' = nt_log st @ es" "length es \<le> 3" "\<forall>x\<in>set (butlast es). published (fst x) = None"
        "\<forall>x\<in>set es. published (fst x) = None \<or> published (fst x) = Some ip"
      unfolding update_outcome_def snd_conv by (elim exE conjE) iprover
    from es(4) detectIP_public [OF ip]
    have "\<forall>x\<in>set es. \<forall>ip. published (fst x) = Some ip \<longrightarrow> publishable (sv_config s) ip" by fastforce
    with es(1-3) show ?thesis by blast
  qed (auto intro: exI [of _ "[]"])
qed (use assms in \<open>auto simp: Update_def\<close>)

theorem only_public_published_witness:
  "\<exists>a. public_address a \<and> Is4 a \<and> show_addr a = ''203.0.113.7''"
proof -
  obtain err st' where u: "Update ex_network ex_service ex_net = (err, st')" by (cases "Update ex_network ex_service ex_net")
  from only_public_published [OF u]
  have es: "\<forall>x\<in>set (nt_log st'). \<forall>ip. published (fst x) = Some ip \<longrightarrow> publishable (sv_config ex_service) ip"
    by (auto simp: ex_net_def)
  have "map (published \<circ> fst) (nt_log st') = [None, None, Some ''203.0.113.7'']" using ex_update(2) u by simp
  then have "Some ''203.0.113.7'' \<in> set (map (published \<circ> fst) (nt_log st'))" by simp
  then obtain x where "x \<in> set (nt_log st')" "published (fst x) = Some ''203.0.113.7''" by auto
  with es have "publishable (sv_config ex_service) ''203.0.113.7''" by blast
  then show ?thesis by (auto simp: publishable_def ex_service_def)
qed

text \<open>
  C21. An update that reports no error has done its work: the address service gave a public address, and either the
  last request was the write of this address and the provider confirmed it, or nothing was written as the provider's
  last answer shows the one record of the name to hold this address already.
\<close>

theorem success_is_published:
  assumes "dd_Enabled (sv_config s)" "Update nw s st = (None, st')"
  shows "\<exists>ip es. detectIP nw (sv_config s) = Inr ip \<and> nt_log st' = nt_log st @ es \<and> es \<noteq> []
    \<and> (published (fst (last es)) = Some ip \<and> confirms (sv_config s) (snd (last es))
       \<or> (\<forall>x\<in>set es. published (fst x) = None) \<and> already_holds (sv_config s) (snd (last es)) ip)"
proof -
  have run: "run_update nw (sv_config s) st = (None, st')"
    using assms by (auto simp: Update_def Let_def split: prod.splits)
  from run_update_outcome [OF run] obtain ip where ip: "detectIP nw (sv_config s) = Inr ip"
    and o: "update_outcome 3 (sv_config s) ip st (None, st')" by auto
  from o obtain es where es: "nt_log st' = nt_log st @ es" "\<forall>x\<in>set (butlast es). published (fst x) = None" "es \<noteq> []"
     "published (fst (last es)) = Some ip \<and> confirms (sv_config s) (snd (last es))
          \<or> published (fst (last es)) = None \<and> already_holds (sv_config s) (snd (last es)) ip"
    unfolding update_outcome_def by auto
  have "set es = insert (last es) (set (butlast es))"
    using append_butlast_last_id [OF es(3)] by (metis insert_is_Un list.set(2) set_append sup.commute list.set(1))
  with es ip show ?thesis by auto
qed

theorem success_is_published_witness:
  "\<exists>es. nt_log (snd (Update ex_network ex_service ex_net)) = es \<and> es \<noteq> [] \<and> published (fst (last es)) = Some ''203.0.113.7''
     \<and> confirms (sv_config ex_service) (snd (last es))"
proof -
  obtain err st' where "Update ex_network ex_service ex_net = (err, st')" by (cases "Update ex_network ex_service ex_net")
  with ex_update(1) have u: "Update ex_network ex_service ex_net = (None, st')" by simp
  have e: "dd_Enabled (sv_config ex_service)" by (simp add: ex_service_def)
  from success_is_published [OF e u] obtain es where
    es: "nt_log st' = es" "es \<noteq> []"
      "confirms (sv_config ex_service) (snd (last es)) \<or> (\<forall>x\<in>set es. published (fst x) = None)"
    by (auto simp: ex_net_def)
  have m: "map (published \<circ> fst) es = [None, None, Some ''203.0.113.7'']" using ex_update(2) u es(1) by simp
  then have "published (fst (last es)) = Some ''203.0.113.7''" using es(2) by (auto simp: map_eq_Cons_conv)
  moreover have "\<not> (\<forall>x\<in>set es. published (fst x) = None)" using m by (auto simp: map_eq_Cons_conv)
  ultimately show ?thesis using es u by auto
qed

section \<open>The workers\<close>

definition enabled_configs :: "host \<Rightarrow> Options list \<Rightarrow> DDNSConfig list" where
  "enabled_configs h ops =
     map (\<lambda>op. DDNS_Effective h (op_DDNSConfig op) (op_CertConfig op)) (filter (\<lambda>op. dd_Enabled (op_DDNSConfig op)) ops)"

lemma make_workers_Inr:
  "make_workers h key i seen ops = Inr ws \<Longrightarrow>
     distinct (map (key \<circ> fst) ws) \<and> (key \<circ> fst) ` set ws \<inter> set seen = {}
     \<and> key ` set (enabled_configs h ops) \<subseteq> (key \<circ> fst) ` set ws \<union> set seen
     \<and> fst ` set ws \<subseteq> set (enabled_configs h ops)
     \<and> (\<forall>c\<in>set (enabled_configs h ops). DDNS_Validate h c = None) \<and> (\<forall>(c, s)\<in>set ws. ddns_New h c = Inr s)"
proof (induction ops arbitrary: i seen ws)
  case (Cons op ops)
  let ?c = "DDNS_Effective h (op_DDNSConfig op) (op_CertConfig op)"
  show ?case
  proof (cases "dd_Enabled (op_DDNSConfig op)")
    case False
    with Cons show ?thesis by (simp add: enabled_configs_def)
  next
    case True
    with Cons.prems have v: "DDNS_Validate h ?c = None" by (auto simp: Let_def split: option.splits)
    have e: "enabled_configs h (op # ops) = ?c # enabled_configs h ops" using True by (simp add: enabled_configs_def)
    show ?thesis
    proof (cases "key ?c \<in> set seen")
      case seen: True
      then have "make_workers h key (Suc i) seen ops = Inr ws" using Cons.prems True v by (simp add: Let_def)
      from Cons.IH [OF this] show ?thesis unfolding e using v seen by auto
    next
      case new: False
      with Cons.prems True v obtain s ws' where s: "ddns_New h ?c = Inr s" "ws = (?c, s) # ws'"
          "make_workers h key (Suc i) (key ?c # seen) ops = Inr ws'"
        by (auto simp: Let_def split: sum.splits)
      from Cons.IH [OF s(3)] show ?thesis unfolding e s(2) using v s(1) new by auto
    qed
  qed
qed (simp add: enabled_configs_def)

lemma make_workers_Inl:
  "make_workers h key i seen ops = Inl (k, e) \<Longrightarrow> i \<le> k \<and> k < i + length ops \<and> dd_Enabled (op_DDNSConfig (ops ! (k - i)))"
proof (induction ops arbitrary: i seen)
  case (Cons op ops)
  show ?case
  proof (cases "k = i")
    case True
    with Cons.prems Cons.IH [of "Suc i"] show ?thesis
      by (auto simp: Let_def split: if_splits option.splits sum.splits)
  next
    case False
    with Cons.prems obtain seen' where "make_workers h key (Suc i) seen' ops = Inl (k, e)"
      by (auto simp: Let_def split: if_splits option.splits sum.splits)
    from Cons.IH [OF this] show ?thesis by (auto simp: nth_Cons')
  qed
qed simp

text \<open>
  The workers are all started or none: with an error no request is made, and the error names a node whose dynamic DNS is
  enabled. Otherwise every enabled configuration is valid and has a worker, nodes with the same configuration share
  one, and there is no other.
\<close>

theorem startDDNS_all_or_none:
  "case startDDNS h key nw over nodes st of
     (Inl (i, e), st') \<Rightarrow> st' = st \<and> i < length nodes \<and> dd_Enabled (op_DDNSConfig (nodes ! i))
   | (Inr ws, st') \<Rightarrow>
       distinct (map (key \<circ> fst) ws) \<and> key ` fst ` set ws = key ` set (enabled_configs h nodes)
       \<and> list_all (\<lambda>c. DDNS_Validate h c = None) (enabled_configs h nodes)"
proof (cases "make_workers h key 0 [] nodes")
  case (Inl ie)
  with make_workers_Inl [of h key 0 "[]" nodes] show ?thesis by (cases ie) (auto simp: startDDNS_def)
next
  case (Inr ws)
  note w = make_workers_Inr [OF Inr]
  then have "fst ` set ws \<subseteq> set (enabled_configs h nodes)" by (elim conjE)
  then have "key ` fst ` set ws \<subseteq> key ` set (enabled_configs h nodes)" by (rule image_mono)
  moreover from w have "key ` set (enabled_configs h nodes) \<subseteq> (key \<circ> fst) ` set ws \<union> set []" by (elim conjE)
  then have "key ` set (enabled_configs h nodes) \<subseteq> key ` fst ` set ws" by (simp add: image_comp)
  ultimately have "key ` fst ` set ws = key ` set (enabled_configs h nodes)" by (rule equalityI)
  moreover from w have "distinct (map (key \<circ> fst) ws)" by (elim conjE)
  moreover from w have "list_all (\<lambda>c. DDNS_Validate h c = None) (enabled_configs h nodes)"
    unfolding list_all_iff by (elim conjE)
  ultimately show ?thesis unfolding startDDNS_def Inr by simp
qed

text \<open>A worker makes no request once the context has ended, even when a tick wins over the end.\<close>

lemma runDDNS_quiet: "list_all (\<lambda>e. e = Tick True \<or> e = Ended) es \<Longrightarrow> snd (runDDNS nw s es st) = st"
proof (induction es arbitrary: st)
  case (Cons e es)
  then show ?case by (cases e) (auto simp: syncDDNS_def)
qed simp

section \<open>The signed text\<close>

lemma replace_all_char: "replace_all [c] new s = concat (map (\<lambda>x. if x = c then new else [x]) s)"
  by (induction s) auto

lemma plus_escaped: "replace_all ''+'' ''%20'' (concat (map f s)) = concat (map (\<lambda>c. replace_all ''+'' ''%20'' (f c)) s)"
  unfolding replace_all_char by (induction s) auto

lemma upper_hex_not_plus: "n < 16 \<Longrightarrow> upper_hex n \<noteq> CHR ''+''"
  by (auto simp: upper_hex_def char_of_eq_iff take_bit_eq_mod split: if_splits)

text \<open>
  The escaping that is signed is that of RFC 3986: every byte other than the unreserved ones is written as a percent sign and two upper-case
  digits, a space and a plus sign too.
\<close>

theorem aliEscape_rfc3986: "aliEscape s = concat (map (\<lambda>c. if unreserved c then [c] else percent c) s)"
proof -
  have "replace_all ''+'' ''%20'' (if unreserved c then [c] else if c = CHR '' '' then ''+'' else percent c)
      = (if unreserved c then [c] else percent c)" for c
  proof -
    have p: "replace_all ''+'' ''%20'' (percent c) = percent c"
      using upper_hex_not_plus [of "of_char c div 16"] upper_hex_not_plus [of "of_char c mod 16"] nat_of_char_less_256 [of c]
      by (simp add: replace_all_char percent_def Let_def less_mult_imp_div_less)
    have "percent CHR '' '' = ''%20''" "\<not> unreserved CHR ''+''" by code_simp+
    with p show ?thesis by (auto simp: replace_all_char)
  qed
  then show ?thesis unfolding aliEscape_def query_escape_def plus_escaped by simp
qed

section \<open>The requests of a worker\<close>

text \<open>
  What a worker relies on: an updater adds a bounded number of entries to a log that it never rewrites. Any number of
  updates then stays within the bound.
\<close>

locale bounded_updater =
  fixes update_step :: "'s \<Rightarrow> 's"
    and log_of :: "'s \<Rightarrow> 'e list"
    and bound :: nat
  assumes step_appends: "\<exists>es. log_of (update_step s) = log_of s @ es \<and> length es \<le> bound"
begin

lemma steps_append: "\<exists>es. log_of ((update_step ^^ n) s) = log_of s @ es \<and> length es \<le> n * bound"
proof (induction n)
  case (Suc n)
  then obtain es where es: "log_of ((update_step ^^ n) s) = log_of s @ es" "length es \<le> n * bound" by blast
  obtain es' where "log_of (update_step ((update_step ^^ n) s)) = log_of ((update_step ^^ n) s) @ es'" "length es' \<le> bound"
    using step_appends by blast
  with es show ?case by (intro exI [of _ "es @ es'"]) simp
qed simp

end

lemma Update_log: "\<exists>es. nt_log (snd (Update nw s st)) = nt_log st @ es \<and> length es \<le> 3"
proof (cases "dd_Enabled (sv_config s)")
  case True
  obtain err st' where run: "run_update nw (sv_config s) st = (err, st')" by (cases "run_update nw (sv_config s) st")
  from run_update_outcome [OF run] have "\<exists>es. nt_log st' = nt_log st @ es \<and> length es \<le> 3"
    unfolding update_outcome_def snd_conv by (elim disjE exE conjE) auto
  with True run show ?thesis by (simp add: Update_def Let_def)
qed (simp add: Update_def)

interpretation ddns: bounded_updater "\<lambda>st. snd (Update nw s st)" nt_log 3
  by unfold_locales (rule Update_log)

text \<open>The updates of a worker: the ticks before the end at which the context was not over.\<close>

fun live_ticks :: "ddns_event list \<Rightarrow> nat" where
  "live_ticks [] = 0"
| "live_ticks (Ended # es) = 0"
| "live_ticks (Tick over # es) = (if over then 0 else 1) + live_ticks es"

lemma runDDNS_iterates: "snd (runDDNS nw s es st) = ((\<lambda>st. snd (Update nw s st)) ^^ live_ticks es) st"
proof (induction es arbitrary: st)
  case (Cons e es)
  then show ?case by (cases e) (simp_all add: syncDDNS_def funpow_Suc_right del: funpow.simps(2))
qed simp

text \<open>
  A worker makes at most three requests for every tick at which the context has not ended, and keeps the earlier part of
  the log.
\<close>

theorem worker_requests_bounded:
  "\<exists>qs. nt_log (snd (runDDNS nw s es st)) = nt_log st @ qs \<and> length qs \<le> 3 * live_ticks es"
proof -
  have "\<exists>qs. nt_log (((\<lambda>st. snd (Update nw s st)) ^^ live_ticks es) st) = nt_log st @ qs \<and> length qs \<le> live_ticks es * 3"
    by (rule ddns.steps_append)
  then show ?thesis by (simp add: runDDNS_iterates mult.commute)
qed

section \<open>Two limits\<close>

text \<open>
  A credential that contains another one is only partly removed from a message when the shorter one comes first in the
  walk of the map; and an address with a zone, which no name server can hold, passes for a public one.
\<close>

lemma redact_leaks_rest:
  "redact [(''ALICLOUD_ACCESS_KEY'', ''abc''), (''ALICLOUD_SECRET_KEY'', ''abcSECRET'')] ''bad key abcSECRET''
     = ''bad key [REDACTED]SECRET''"
  by code_simp

lemma zoned_address_public: "public_address (IPv6 0x26000000000000000000000000000001 ''eth0'')"
  by (simp add: public_address_def IsGlobalUnicast_def IsLoopback_def IsMulticast_def IsLinkLocalUnicast_def IsPrivate_def
      shared_range_def prefix_contains_def)

lemma zone_shown: "z \<noteq> [] \<Longrightarrow> \<exists>p. show_addr (IPv6 w z) = p @ CHR ''%'' # z"
  by (simp add: show_addr_def)

end
